(* ===== verification/Stim_Prelude.thy ===== *)
theory Stim_Prelude
  imports
    Main
    "HOL-Library.AList"
    "HOL-Library.Sublist"
    "HOL-Library.Multiset"
begin

text \<open>
  Shared vocabulary of the development.

  \<^item> JavaScript numbers. A count, a size in bytes or a time in milliseconds is an \<open>int\<close>.
    Where the code can meet \<open>NaN\<close> (a time read by \<open>Date.parse\<close>) the number is an
    \<open>int option\<close>, \<open>None\<close> being \<open>NaN\<close>; every comparison with \<open>NaN\<close> is false and
    every arithmetic result that involves it is \<open>NaN\<close>.
  \<^item> JavaScript maps. \<open>Map\<close> objects and plain objects keep their insertion order, and
    setting a key that is present keeps its place. That is exactly an association list under
    \<open>AList.update\<close>, so the ordered maps of the code are association lists.
  \<^item> \<open>Array.prototype.toSorted\<close> is a stable sort: \<open>sort_key\<close> where the comparator
    subtracts keys.
\<close>

section \<open>Rule collections\<close>

named_theorems stim_arith \<open>comparisons and arithmetic on numbers that may be NaN\<close>
named_theorems stim_keys \<open>laws of insertion-ordered maps\<close>

section \<open>Numbers that may be NaN\<close>

type_synonym jsnum = "int option"

definition js_lt :: "jsnum \<Rightarrow> jsnum \<Rightarrow> bool" where
  "js_lt a b = (case (a, b) of (Some x, Some y) \<Rightarrow> x < y | _ \<Rightarrow> False)"

definition js_le :: "jsnum \<Rightarrow> jsnum \<Rightarrow> bool" where
  "js_le a b = (case (a, b) of (Some x, Some y) \<Rightarrow> x \<le> y | _ \<Rightarrow> False)"

definition js_sub :: "jsnum \<Rightarrow> jsnum \<Rightarrow> jsnum" where
  "js_sub a b = (case (a, b) of (Some x, Some y) \<Rightarrow> Some (x - y) | _ \<Rightarrow> None)"

definition js_add :: "jsnum \<Rightarrow> jsnum \<Rightarrow> jsnum" where
  "js_add a b = (case (a, b) of (Some x, Some y) \<Rightarrow> Some (x + y) | _ \<Rightarrow> None)"

lemma js_num_simps [simp, stim_arith]:
  "js_lt (Some x) (Some y) = (x < y)" "\<not> js_lt None b" "\<not> js_lt a None"
  "js_le (Some x) (Some y) = (x \<le> y)" "\<not> js_le None b" "\<not> js_le a None"
  "js_sub (Some x) (Some y) = Some (x - y)" "js_sub None b = None" "js_sub a None = None"
  "js_add (Some x) (Some y) = Some (x + y)" "js_add None b = None" "js_add a None = None"
  by (simp_all add: js_lt_def js_le_def js_sub_def js_add_def split: option.splits)

lemma js_le_Some_iff [stim_arith]: "js_le a (Some y) \<longleftrightarrow> (\<exists>x. a = Some x \<and> x \<le> y)"
  by (cases a) simp_all

lemma js_lt_Some_iff [stim_arith]: "js_lt a (Some y) \<longleftrightarrow> (\<exists>x. a = Some x \<and> x < y)"
  by (cases a) simp_all

lemma js_le_Some_iff2 [stim_arith]: "js_le (Some x) b \<longleftrightarrow> (\<exists>y. b = Some y \<and> x \<le> y)"
  by (cases b) simp_all

section \<open>Decimal text\<close>

definition digit_char :: "nat \<Rightarrow> char" where
  "digit_char d = char_of (48 + d)"

fun string_of_nat :: "nat \<Rightarrow> string" where
  "string_of_nat n = (if n < 10 then [digit_char n] else string_of_nat (n div 10) @ [digit_char (n mod 10)])"

declare string_of_nat.simps [simp del]

definition string_of_int :: "int \<Rightarrow> string" where
  "string_of_int i = (if i < 0 then ''-'' @ string_of_nat (nat (- i)) else string_of_nat (nat i))"

definition is_digit :: "char \<Rightarrow> bool" where
  "is_digit c = (48 \<le> (of_char c :: nat) \<and> (of_char c :: nat) \<le> 57)"

definition digit_val :: "char \<Rightarrow> nat" where
  "digit_val c = of_char c - 48"

lemma of_digit_char: "d < 10 \<Longrightarrow> (of_char (digit_char d) :: nat) = 48 + d"
  by (simp add: digit_char_def)

lemma is_digit_digit_char: "d < 10 \<Longrightarrow> is_digit (digit_char d)"
  by (simp add: is_digit_def of_digit_char)

lemma digit_val_digit_char: "d < 10 \<Longrightarrow> digit_val (digit_char d) = d"
  by (simp add: digit_val_def of_digit_char)

lemma string_of_nat_nonempty [simp]: "string_of_nat n \<noteq> []"
  by (subst string_of_nat.simps) simp

lemma string_of_nat_digits: "\<forall>c \<in> set (string_of_nat n). is_digit c"
proof (induction n rule: string_of_nat.induct)
  case (1 n)
  then show ?case
    by (subst string_of_nat.simps) (auto simp: is_digit_digit_char)
qed

definition nat_of_digits :: "string \<Rightarrow> nat" where
  "nat_of_digits cs = foldl (\<lambda>n c. n * 10 + digit_val c) 0 cs"

lemma nat_of_digits_string_of_nat [simp]: "nat_of_digits (string_of_nat n) = n"
proof (induction n rule: string_of_nat.induct)
  case (1 n)
  show ?case
  proof (cases "n < 10")
    case True
    then show ?thesis
      by (subst string_of_nat.simps) (simp add: nat_of_digits_def digit_val_digit_char)
  next
    case False
    with "1.IH" have "nat_of_digits (string_of_nat (n div 10)) = n div 10" by simp
    with False show ?thesis
      by (subst string_of_nat.simps) (simp add: nat_of_digits_def digit_val_digit_char)
  qed
qed

lemma string_of_nat_inj: "string_of_nat m = string_of_nat n \<longleftrightarrow> m = n"
  by (metis nat_of_digits_string_of_nat)

section \<open>Insertion-ordered maps\<close>

text \<open>\<open>new Map(entries)\<close>: later entries overwrite earlier ones in place.\<close>

definition js_map :: "('k \<times> 'v) list \<Rightarrow> ('k \<times> 'v) list" where
  "js_map ps = fold (\<lambda>(k, v) m. AList.update k v m) ps []"

lemma map_of_fold_update:
  "map_of (fold (\<lambda>(k, v) m. AList.update k v m) ps m) = map_of m ++ map_of (rev ps)"
proof (induction ps arbitrary: m)
  case (Cons p ps)
  then show ?case
    by (cases p) (auto simp: update_conv' map_add_def fun_eq_iff split: option.splits)
qed simp

lemma map_of_js_map [stim_keys]: "map_of (js_map ps) = map_of (rev ps)"
  by (simp add: js_map_def map_of_fold_update)

lemma fold_update_keys:
  "fst ` set (fold (\<lambda>(k, v) m. AList.update k v m) ps m) = fst ` set m \<union> fst ` set ps"
  by (induction ps arbitrary: m) (auto simp: dom_update split: prod.splits)

lemma js_map_keys [stim_keys]: "fst ` set (js_map ps) = fst ` set ps"
  by (simp add: js_map_def fold_update_keys)

lemma fold_update_distinct:
  "distinct (map fst m) \<Longrightarrow> distinct (map fst (fold (\<lambda>(k, v) m. AList.update k v m) ps m))"
  by (induction ps arbitrary: m) (auto simp: distinct_update split: prod.splits)

lemma js_map_distinct [stim_keys]: "distinct (map fst (js_map ps))"
  by (simp add: js_map_def fold_update_distinct)

lemma map_of_rev_distinct: "distinct (map fst ps) \<Longrightarrow> map_of (rev ps) = map_of ps"
  by (rule map_of_inject_set [THEN iffD2]) (simp_all flip: rev_map)

lemma update_fresh: "k \<notin> fst ` set m \<Longrightarrow> AList.update k v m = m @ [(k, v)]"
  by (induction m) auto

lemma fold_update_fresh:
  "distinct (map fst (m @ ps)) \<Longrightarrow> fold (\<lambda>(k, v) m. AList.update k v m) ps m = m @ ps"
proof (induction ps arbitrary: m)
  case (Cons p ps)
  obtain k v where p: "p = (k, v)" by (cases p)
  from Cons.prems p have "AList.update k v m = m @ [(k, v)]"
    by (intro update_fresh) auto
  with Cons.IH [of "m @ [(k, v)]"] Cons.prems p show ?case by simp
qed simp

lemma js_map_id [stim_keys]: "distinct (map fst ps) \<Longrightarrow> js_map ps = ps"
  using fold_update_fresh [of "[]" ps] by (simp add: js_map_def)

section \<open>Lists\<close>

lemma distinct_map_filter_eq:
  "distinct (map f xs) \<Longrightarrow> x \<in> set xs \<Longrightarrow> y \<in> set xs \<Longrightarrow> f x = f y \<Longrightarrow> x = y"
  by (metis distinct_map inj_on_def)

lemma map_of_map_key:
  "distinct (map f xs) \<Longrightarrow> map_of (map (\<lambda>x. (f x, g x)) xs) k = Some v \<longleftrightarrow> (\<exists>x \<in> set xs. f x = k \<and> g x = v)"
  by (induction xs) (auto simp: image_iff)

lemma map_of_map_key_None: "map_of (map (\<lambda>x. (f x, g x)) xs) k = None \<longleftrightarrow> k \<notin> f ` set xs"
  by (simp add: map_of_eq_None_iff image_image)

lemma map_filter_set: "set (List.map_filter f xs) = {y. \<exists>x \<in> set xs. f x = Some y}"
  by (auto simp: List.map_filter_def) force

lemma find_SomeD: "List.find P xs = Some x \<Longrightarrow> x \<in> set xs \<and> P x"
  by (induction xs) (auto split: if_splits)

section \<open>Text\<close>

text \<open>White space as \<open>trim\<close> and the class \<open>\s\<close> read it, among the first 256 characters.\<close>

definition is_space :: "char \<Rightarrow> bool" where
  "is_space c = (let n = (of_char c :: nat) in n = 32 \<or> (9 \<le> n \<and> n \<le> 13) \<or> n = 160)"

definition trim :: "string \<Rightarrow> string" where
  "trim s = rev (dropWhile is_space (rev (dropWhile is_space s)))"

text \<open>\<open>text.split(d)\<close> for one character \<open>d\<close>, and \<open>parts.join(d)\<close>.\<close>

fun split_at :: "char \<Rightarrow> string \<Rightarrow> string list" where
  "split_at d [] = [[]]"
| "split_at d (c # cs) = (if c = d then [] # split_at d cs
     else (case split_at d cs of [] \<Rightarrow> [[c]] | p # ps \<Rightarrow> (c # p) # ps))"

fun join :: "string \<Rightarrow> string list \<Rightarrow> string" where
  "join d [] = []"
| "join d [x] = x"
| "join d (x # y # ys) = x @ d @ join d (y # ys)"

lemma split_at_nonempty [simp]: "split_at d s \<noteq> []"
  by (induction s) (auto split: list.splits)

lemma split_at_none: "d \<notin> set s \<Longrightarrow> split_at d s = [s]"
  by (induction s) auto

lemma split_at_one: "d \<notin> set s \<Longrightarrow> split_at d (s @ d # t) = s # split_at d t"
  by (induction s) auto

section \<open>Sorting with a comparison, numbers from text\<close>

text \<open>\<open>toSorted(cmp)\<close> is stable: an element goes behind those that do not compare above it.\<close>

fun js_insert :: "('a \<Rightarrow> 'a \<Rightarrow> int) \<Rightarrow> 'a \<Rightarrow> 'a list \<Rightarrow> 'a list" where
  "js_insert cmp x [] = [x]"
| "js_insert cmp x (y # ys) = (if cmp y x \<le> 0 then y # js_insert cmp x ys else x # y # ys)"

definition js_sort :: "('a \<Rightarrow> 'a \<Rightarrow> int) \<Rightarrow> 'a list \<Rightarrow> 'a list" where
  "js_sort cmp xs = fold (js_insert cmp) xs []"

lemma js_insert_set [simp]: "set (js_insert cmp x ys) = insert x (set ys)"
  by (induction ys) auto

lemma js_insert_length [simp]: "length (js_insert cmp x ys) = Suc (length ys)"
  by (induction ys) auto

lemma js_insert_distinct: "distinct (js_insert cmp x ys) \<longleftrightarrow> x \<notin> set ys \<and> distinct ys"
  by (induction ys) auto

lemma js_sort_fold: "set (fold (js_insert cmp) xs ys) = set xs \<union> set ys \<and> length (fold (js_insert cmp) xs ys) = length xs + length ys \<and>
    (distinct (fold (js_insert cmp) xs ys) \<longleftrightarrow> distinct xs \<and> distinct ys \<and> set xs \<inter> set ys = {})"
  by (induction xs arbitrary: ys) (auto simp: js_insert_distinct)

lemma js_sort_set [simp]: "set (js_sort cmp xs) = set xs"
  and js_sort_length [simp]: "length (js_sort cmp xs) = length xs"
  and js_sort_distinct [simp]: "distinct (js_sort cmp xs) \<longleftrightarrow> distinct xs"
  using js_sort_fold [of cmp xs "[]"] by (simp_all add: js_sort_def)

lemma js_insert_not_Nil [simp]: "js_insert cmp x ys \<noteq> []"
  by (cases ys) auto

lemma js_insert_last_old: "ys \<noteq> [] \<Longrightarrow> last ys = z \<Longrightarrow> cmp z x > 0 \<Longrightarrow> last (js_insert cmp x ys) = z"
  by (induction ys) (auto split: if_splits)

lemma js_insert_last_new: "\<forall>y \<in> set ys. cmp y z \<le> 0 \<Longrightarrow> last (js_insert cmp z ys) = z"
  by (induction ys) auto

text \<open>An element that compares above every other one ends up last.\<close>

lemma js_sort_last:
  assumes "z \<in> set xs" "\<forall>y \<in> set xs. y \<noteq> z \<longrightarrow> cmp y z < 0 \<and> cmp z y > 0" "cmp z z = 0"
  shows "last (js_sort cmp xs) = z"
proof -
  have "(z \<in> set xs \<or> ys \<noteq> [] \<and> last ys = z) \<longrightarrow> (\<forall>y \<in> set xs \<union> set ys. y \<noteq> z \<longrightarrow> cmp y z < 0 \<and> cmp z y > 0) \<longrightarrow>
      last (fold (js_insert cmp) xs ys) = z" for ys
  proof (induction xs arbitrary: ys)
    case (Cons x xs)
    have "last (js_insert cmp x ys) = z"
      if "x = z \<or> ys \<noteq> [] \<and> last ys = z" "\<forall>y \<in> set (x # xs) \<union> set ys. y \<noteq> z \<longrightarrow> cmp y z < 0 \<and> cmp z y > 0"
    proof (cases "x = z")
      case True
      have "\<forall>y \<in> set ys. cmp y z \<le> 0" using that(2) assms(3) by (metis UnCI order.strict_implies_order order_refl)
      with True show ?thesis using js_insert_last_new by metis
    next
      case False
      with that show ?thesis by (intro js_insert_last_old [of ys z]) auto
    qed
    with Cons.IH [of "js_insert cmp x ys"] show ?case by auto
  qed simp
  with assms show ?thesis by (simp add: js_sort_def)
qed

text \<open>\<open>Number(text)\<close> for the decimal integers the program writes; other spellings of numbers read as \<open>NaN\<close>.\<close>

definition text_number :: "string \<Rightarrow> jsnum" where
  "text_number s = (let t = trim s; body = (case t of c # cs \<Rightarrow> if c = CHR ''-'' \<or> c = CHR ''+'' then cs else t | [] \<Rightarrow> []) in
     if t = [] then Some 0
     else if body = [] \<or> \<not> list_all is_digit body then None
     else Some (if hd t = CHR ''-'' then - int (nat_of_digits body) else int (nat_of_digits body)))"

text \<open>\<open>text.indexOf(c)\<close>, where it is not \<open>-1\<close>.\<close>

fun index_of :: "char \<Rightarrow> string \<Rightarrow> nat option" where
  "index_of d [] = None"
| "index_of d (c # cs) = (if c = d then Some 0 else map_option Suc (index_of d cs))"

section \<open>Sequences of calls\<close>

text \<open>A call that may throw, then one on its result.\<close>

definition and_then :: "'e + 'a \<Rightarrow> ('a \<Rightarrow> 'e + 'b) \<Rightarrow> 'e + 'b" where
  "and_then r f = (case r of Inl e \<Rightarrow> Inl e | Inr x \<Rightarrow> f x)"

lemma and_then_simps [simp]: "and_then (Inl e) f = Inl e" "and_then (Inr x) f = f x"
  by (simp_all add: and_then_def)

lemma and_then_Inr: "and_then r f = Inr y \<longleftrightarrow> (\<exists>x. r = Inr x \<and> f x = Inr y)"
  by (cases r) simp_all

text \<open>Calls in a row on one object, up to the first error.\<close>

fun run_all :: "('a \<Rightarrow> 's \<Rightarrow> ('e + 'b) \<times> 's) \<Rightarrow> 'a list \<Rightarrow> 's \<Rightarrow> ('e + 'b list) \<times> 's" where
  "run_all f [] s = (Inr [], s)"
| "run_all f (x # xs) s = (case f x s of
       (Inl e, s') \<Rightarrow> (Inl e, s')
     | (Inr y, s') \<Rightarrow> (case run_all f xs s' of (Inl e, s'') \<Rightarrow> (Inl e, s'') | (Inr ys, s'') \<Rightarrow> (Inr (y # ys), s'')))"

text \<open>Calls in a row whatever they return.\<close>

fun run_each :: "('a \<Rightarrow> 's \<Rightarrow> 'r \<times> 's) \<Rightarrow> 'a list \<Rightarrow> 's \<Rightarrow> 'r list \<times> 's" where
  "run_each f [] s = ([], s)"
| "run_each f (x # xs) s = (let (r, s') = f x s; (rs, s'') = run_each f xs s' in (r # rs, s''))"

lemma run_each_fixed: "(\<And>x. f x s = (r, s)) \<Longrightarrow> run_each f xs s = (replicate (length xs) r, s)"
  by (induction xs) simp_all

end
