(* ===== verification/Json_Value.thy ===== *)
theory Json_Value
  imports Stim_Prelude
begin

text \<open>
  JSON values and \<open>JSON.stringify\<close>. Objects keep the order of their fields, as JavaScript
  objects do. Numbers are the integers the modelled records carry. The main fact is that the
  text determines the value (\<open>stringify_inj\<close>): code that compares the texts of two
  values compares the values, field order included.

  A file that holds JSON is modelled by what \<open>JSON.parse\<close> makes of its text: \<open>Some v\<close>,
  or \<open>None\<close> when the text is not JSON.
\<close>

datatype json =
    JNull
  | JBool bool
  | JNum int
  | JStr string
  | JArr "json list"
  | JObj "(string \<times> json) list"

type_synonym file_text = "json option"

definition hex_digit :: "nat \<Rightarrow> char" where
  "hex_digit d = (if d < 10 then digit_char d else char_of (87 + d))"

definition json_escape :: "char \<Rightarrow> string" where
  "json_escape c =
     (if c = CHR 0x22 then [CHR 0x5C, CHR 0x22]
      else if c = CHR 0x5C then [CHR 0x5C, CHR 0x5C]
      else if c = CHR 0x08 then [CHR 0x5C, CHR ''b'']
      else if c = CHR 0x0C then [CHR 0x5C, CHR ''f'']
      else if c = CHR 0x0A then [CHR 0x5C, CHR ''n'']
      else if c = CHR 0x0D then [CHR 0x5C, CHR ''r'']
      else if c = CHR 0x09 then [CHR 0x5C, CHR ''t'']
      else if (of_char c :: nat) < 32
      then [CHR 0x5C, CHR ''u'', CHR ''0'', CHR ''0'', hex_digit (of_char c div 16), hex_digit (of_char c mod 16)]
      else [c])"

definition json_quote :: "string \<Rightarrow> string" where
  "json_quote s = [CHR 0x22] @ concat (map json_escape s) @ [CHR 0x22]"

definition sep_by :: "string \<Rightarrow> string list \<Rightarrow> string" where
  "sep_by sep xs = concat (case xs of [] \<Rightarrow> [] | y # ys \<Rightarrow> y # map (\<lambda>s. sep @ s) ys)"

fun stringify :: "json \<Rightarrow> string" where
  "stringify JNull = ''null''"
| "stringify (JBool b) = (if b then ''true'' else ''false'')"
| "stringify (JNum n) = string_of_int n"
| "stringify (JStr s) = json_quote s"
| "stringify (JArr vs) = ''['' @ sep_by '','' (map stringify vs) @ '']''"
| "stringify (JObj fs) = ''{'' @ sep_by '','' (map (\<lambda>(k, v). json_quote k @ '':'' @ stringify v) fs) @ ''}''"

section \<open>The text determines the value\<close>

definition json_end :: "string \<Rightarrow> bool" where
  "json_end r = (r = [] \<or> hd r \<in> {CHR '','', CHR '']'', CHR ''}''})"

lemma json_escape_nonempty [simp]: "json_escape c \<noteq> []"
  by (simp add: json_escape_def)

lemma json_escape_hd: "hd (json_escape c) \<noteq> CHR 0x22"
  by (simp add: json_escape_def)

text \<open>The escapes form a prefix code: \<open>json_unescape\<close> reads one character back.\<close>

definition hex_val :: "char \<Rightarrow> nat" where
  "hex_val c = (if is_digit c then digit_val c else of_char c - 87)"

definition json_unescape :: "string \<Rightarrow> (char \<times> string) option" where
  "json_unescape s = (case s of [] \<Rightarrow> None | c # cs \<Rightarrow>
     (if c \<noteq> CHR 0x5C then Some (c, cs) else (case cs of [] \<Rightarrow> None | e # es \<Rightarrow>
        (if e = CHR ''b'' then Some (CHR 0x08, es) else if e = CHR ''f'' then Some (CHR 0x0C, es)
         else if e = CHR ''n'' then Some (CHR 0x0A, es) else if e = CHR ''r'' then Some (CHR 0x0D, es)
         else if e = CHR ''t'' then Some (CHR 0x09, es)
         else if e = CHR ''u'' then (case es of _ # _ # h # l # r \<Rightarrow> Some (char_of (16 * hex_val h + hex_val l), r) | _ \<Rightarrow> None)
         else Some (e, es)))))"

lemma hex_val_hex_digit: "d < 16 \<Longrightarrow> hex_val (hex_digit d) = d"
  by (cases "d < 10") (simp_all add: hex_val_def hex_digit_def is_digit_digit_char digit_val_digit_char is_digit_def of_digit_char)

lemma json_unescape_escape: "json_unescape (json_escape c @ r) = Some (c, r)"
proof -
  have "char_of (16 * (of_char c div 16) + of_char c mod 16 :: nat) = c"
    by (simp add: mult.commute)
  then show ?thesis
    by (auto simp: json_escape_def json_unescape_def hex_val_hex_digit)
qed

lemma json_escape_prefix:
  assumes "json_escape c @ r = json_escape d @ s"
  shows "c = d \<and> r = s"
proof -
  have "Some (c, r) = Some (d, s)"
    using assms by (metis json_unescape_escape)
  then show ?thesis by simp
qed

lemma json_escape_not_quote: "json_escape c @ r \<noteq> CHR 0x22 # s"
  using json_escape_hd [of c] by (cases "json_escape c") auto

lemma json_quote_body_prefix:
  "concat (map json_escape s) @ CHR 0x22 # r = concat (map json_escape t) @ CHR 0x22 # q \<Longrightarrow> s = t \<and> r = q"
proof (induction s arbitrary: t)
  case Nil
  then show ?case
    by (cases t) (auto dest: sym simp: json_escape_not_quote)
next
  case (Cons c s)
  show ?case
  proof (cases t)
    case Nil
    with Cons.prems show ?thesis by (simp add: json_escape_not_quote)
  next
    case (Cons d t')
    with Cons.prems have "json_escape c @ (concat (map json_escape s) @ CHR 0x22 # r)
        = json_escape d @ (concat (map json_escape t') @ CHR 0x22 # q)"
      by simp
    from json_escape_prefix [OF this] show ?thesis
      using Cons.IH Cons by blast
  qed
qed

lemma json_quote_prefix: "json_quote s @ r = json_quote t @ q \<Longrightarrow> s = t \<and> r = q"
  by (auto simp: json_quote_def dest: json_quote_body_prefix)

text \<open>A number ends where its digits end.\<close>

lemma digits_prefix:
  assumes "ds @ r = es @ q" "\<forall>c \<in> set ds. is_digit c" "\<forall>c \<in> set es. is_digit c"
    "r = [] \<or> \<not> is_digit (hd r)" "q = [] \<or> \<not> is_digit (hd q)"
  shows "ds = es \<and> r = q"
proof -
  have run: "takeWhile is_digit (xs @ ys) = xs"
    if "\<forall>c \<in> set xs. is_digit c" "ys = [] \<or> \<not> is_digit (hd ys)" for xs ys
    using that by (cases ys) auto
  have "takeWhile is_digit (ds @ r) = ds" by (rule run [OF assms(2,4)])
  moreover have "takeWhile is_digit (es @ q) = es" by (rule run [OF assms(3,5)])
  ultimately have "ds = es" using assms(1) by metis
  with assms(1) show ?thesis by simp
qed

lemma json_end_not_digit: "json_end r \<Longrightarrow> r = [] \<or> \<not> is_digit (hd r)"
  by (auto simp: json_end_def is_digit_def)

lemma hd_string_of_nat: "is_digit (hd (string_of_nat n))"
  using string_of_nat_digits [of n] by (metis hd_in_set string_of_nat_nonempty)

lemma minus_not_digit: "\<not> is_digit CHR ''-''"
  by (simp add: is_digit_def)

lemma string_of_int_prefix:
  assumes eq: "string_of_int m @ r = string_of_int n @ q" and "json_end r" "json_end q"
  shows "m = n \<and> r = q"
proof -
  have tail: "string_of_nat a = string_of_nat b \<and> r = q" if "string_of_nat a @ r = string_of_nat b @ q" for a b
    using that assms by (intro digits_prefix) (auto simp: string_of_nat_digits dest: json_end_not_digit)
  have neq: "string_of_nat a @ r' \<noteq> CHR ''-'' # s" for a r' s
    using hd_string_of_nat [of a] minus_not_digit by (cases "string_of_nat a") auto
  show ?thesis
  proof (cases "m < 0"; cases "n < 0")
    assume "m < 0" "n < 0"
    with eq have "string_of_nat (nat (- m)) @ r = string_of_nat (nat (- n)) @ q"
      by (simp add: string_of_int_def)
    from tail [OF this] \<open>m < 0\<close> \<open>n < 0\<close> show ?thesis by (auto simp: string_of_nat_inj)
  next
    assume "\<not> m < 0" "\<not> n < 0"
    with eq have "string_of_nat (nat m) @ r = string_of_nat (nat n) @ q"
      by (simp add: string_of_int_def)
    from tail [OF this] \<open>\<not> m < 0\<close> \<open>\<not> n < 0\<close> show ?thesis by (auto simp: string_of_nat_inj)
  qed (use eq neq in \<open>auto simp: string_of_int_def dest: sym\<close>)
qed

text \<open>Separated elements, up to the closing bracket \<open>c\<close>.\<close>

definition seq_tail :: "('a \<Rightarrow> string) \<Rightarrow> 'a list \<Rightarrow> string" where
  "seq_tail f xs = concat (map (\<lambda>x. CHR '','' # f x) xs)"

lemma seq_tail_simps [simp]:
  "seq_tail f [] = []" "seq_tail f (x # xs) = CHR '','' # f x @ seq_tail f xs"
  by (simp_all add: seq_tail_def)

lemma sep_by_Cons: "sep_by '','' (map f (x # xs)) = f x @ seq_tail f xs"
  by (simp add: sep_by_def seq_tail_def comp_def)

lemma seq_tail_json_end: "c \<in> {CHR '']'', CHR ''}''} \<Longrightarrow> json_end (seq_tail f xs @ c # r)"
  by (cases xs) (auto simp: json_end_def)

lemma seq_tail_prefix:
  assumes elem: "\<And>x y r q. x \<in> set xs \<Longrightarrow> f x @ r = f y @ q \<Longrightarrow> json_end r \<Longrightarrow> json_end q \<Longrightarrow> x = y \<and> r = q"
    and c: "c \<in> {CHR '']'', CHR ''}''}"
    and eq: "seq_tail f xs @ c # r = seq_tail f ys @ c # q"
  shows "xs = ys \<and> r = q"
  using elem eq
proof (induction xs arbitrary: ys)
  case Nil
  with c show ?case by (cases ys) auto
next
  case (Cons x xs)
  show ?case
  proof (cases ys)
    case Nil
    with Cons.prems(2) c show ?thesis by auto
  next
    case ys: (Cons y ys')
    from Cons.prems(2) ys have "f x @ (seq_tail f xs @ c # r) = f y @ (seq_tail f ys' @ c # q)" by simp
    from Cons.prems(1) [OF _ this] have "x = y" "seq_tail f xs @ c # r = seq_tail f ys' @ c # q"
      using seq_tail_json_end [OF c] by auto
    with Cons.IH [of ys'] Cons.prems(1) ys show ?thesis by auto
  qed
qed

lemma sep_by_prefix:
  assumes elem: "\<And>x y r q. x \<in> set xs \<Longrightarrow> f x @ r = f y @ q \<Longrightarrow> json_end r \<Longrightarrow> json_end q \<Longrightarrow> x = y \<and> r = q"
    and c: "c \<in> {CHR '']'', CHR ''}''}"
    and start: "\<And>x s t. f x @ s \<noteq> c # t"
    and eq: "sep_by '','' (map f xs) @ c # r = sep_by '','' (map f ys) @ c # q"
  shows "xs = ys \<and> r = q"
proof (cases xs; cases ys)
  fix x xs' y ys'
  assume xs: "xs = x # xs'" and ys: "ys = y # ys'"
  with eq have "f x @ (seq_tail f xs' @ c # r) = f y @ (seq_tail f ys' @ c # q)"
    by (simp only: sep_by_Cons append_assoc)
  from elem [OF _ this] xs have "x = y" "seq_tail f xs' @ c # r = seq_tail f ys' @ c # q"
    using seq_tail_json_end [OF c] by auto
  moreover from this have "xs' = ys' \<and> r = q"
    using elem xs by (intro seq_tail_prefix [OF _ c, of xs' f]) auto
  ultimately show ?thesis using xs ys by simp
next
  fix y ys'
  assume "xs = []" "ys = y # ys'"
  with eq have "f y @ (seq_tail f ys' @ c # q) = c # r"
    by (simp only: sep_by_Cons append_assoc) (simp add: sep_by_def)
  with start show ?thesis by blast
next
  fix x xs'
  assume "xs = x # xs'" "ys = []"
  with eq have "f x @ (seq_tail f xs' @ c # r) = c # q"
    by (simp only: sep_by_Cons append_assoc) (simp add: sep_by_def)
  with start show ?thesis by blast
next
  assume "xs = []" "ys = []"
  with eq show ?thesis by simp
qed

text \<open>Which constructor a text came from shows in its first character.\<close>

definition json_head :: "json \<Rightarrow> char set" where
  "json_head v = (case v of JNull \<Rightarrow> {CHR ''n''} | JBool _ \<Rightarrow> {CHR ''t'', CHR ''f''} | JNum _ \<Rightarrow> {c. is_digit c \<or> c = CHR ''-''}
     | JStr _ \<Rightarrow> {CHR 0x22} | JArr _ \<Rightarrow> {CHR ''[''} | JObj _ \<Rightarrow> {CHR ''{''})"

lemma stringify_head: "\<exists>c s. stringify v = c # s \<and> c \<in> json_head v"
proof (cases v)
  case (JNum n)
  have "\<exists>c s. string_of_nat m = c # s \<and> is_digit c" for m
    using hd_string_of_nat [of m] by (cases "string_of_nat m") auto
  then obtain c s where "string_of_nat (nat n) = c # s" "is_digit c" by blast
  with JNum show ?thesis by (simp add: json_head_def string_of_int_def)
qed (auto simp: json_head_def json_quote_def)

lemma json_head_disjoint:
  "c \<in> json_head v \<Longrightarrow> c \<in> json_head w \<Longrightarrow>
   (case v of JNull \<Rightarrow> w = JNull | JBool _ \<Rightarrow> \<exists>b. w = JBool b | JNum _ \<Rightarrow> \<exists>n. w = JNum n
     | JStr _ \<Rightarrow> \<exists>s. w = JStr s | JArr _ \<Rightarrow> \<exists>vs. w = JArr vs | JObj _ \<Rightarrow> \<exists>fs. w = JObj fs)"
  by (cases v; cases w) (auto simp: json_head_def is_digit_def)

lemma stringify_start: "stringify v @ r = stringify w @ q \<Longrightarrow> \<exists>c. c \<in> json_head v \<and> c \<in> json_head w"
  using stringify_head [of v] stringify_head [of w] by auto

lemma stringify_no_close: "c \<in> {CHR '']'', CHR ''}''} \<Longrightarrow> stringify v @ s \<noteq> c # t"
  using stringify_head [of v] by (cases v) (auto simp: json_head_def is_digit_def)

lemma json_quote_no_close: "c \<noteq> CHR 0x22 \<Longrightarrow> json_quote k @ s \<noteq> c # t"
  by (simp add: json_quote_def)

lemma stringify_prefix:
  "stringify v @ r = stringify w @ q \<Longrightarrow> json_end r \<Longrightarrow> json_end q \<Longrightarrow> v = w \<and> r = q"
proof (induction v arbitrary: w r q)
  case (JArr vs)
  from stringify_start [OF JArr.prems(1)] obtain ws where w: "w = JArr ws"
    using json_head_disjoint [of _ "JArr vs" w] by auto
  with JArr.prems(1) have "sep_by '','' (map stringify vs) @ CHR '']'' # r
      = sep_by '','' (map stringify ws) @ CHR '']'' # q" by simp
  then have "vs = ws \<and> r = q"
    by (intro sep_by_prefix [where f = stringify and c = "CHR '']''"]) (use JArr.IH stringify_no_close in auto)
  with w show ?case by simp
next
  case (JObj fs)
  let ?f = "\<lambda>(k, v). json_quote k @ '':'' @ stringify v"
  from stringify_start [OF JObj.prems(1)] obtain gs where w: "w = JObj gs"
    using json_head_disjoint [of _ "JObj fs" w] by auto
  with JObj.prems(1) have eq: "sep_by '','' (map ?f fs) @ CHR ''}'' # r
      = sep_by '','' (map ?f gs) @ CHR ''}'' # q" by simp
  have elem: "x = y \<and> r = q" if x: "x \<in> set fs" and e: "?f x @ r = ?f y @ q" and "json_end r" "json_end q" for x y r q
  proof -
    obtain k v k' v' where xy: "x = (k, v)" "y = (k', v')" by (cases x, cases y)
    from e xy have "k = k' \<and> CHR '':'' # stringify v @ r = CHR '':'' # stringify v' @ q"
      by (intro json_quote_prefix) simp
    with JObj.IH [of x v r v' q] x xy that show ?thesis by (auto simp: snds.simps)
  qed
  have "fs = gs \<and> r = q"
    by (rule sep_by_prefix [where f = ?f and c = "CHR ''}''", OF elem _ _ eq]) (auto simp: json_quote_no_close)
  with w show ?case by simp
next
  case (JNum n)
  from stringify_start [OF JNum.prems(1)] obtain m where "w = JNum m"
    using json_head_disjoint [of _ "JNum n" w] by auto
  with JNum.prems string_of_int_prefix [of n r m q] show ?case by simp
next
  case (JStr s)
  from stringify_start [OF JStr.prems(1)] obtain t where "w = JStr t"
    using json_head_disjoint [of _ "JStr s" w] by auto
  with JStr.prems json_quote_prefix [of s r t q] show ?case by simp
next
  case (JBool b)
  from stringify_start [OF JBool.prems(1)] obtain b' where "w = JBool b'"
    using json_head_disjoint [of _ "JBool b" w] by auto
  with JBool.prems show ?case by (auto split: if_splits)
next
  case JNull
  from stringify_start [OF JNull.prems(1)] have "w = JNull"
    using json_head_disjoint [of _ "JNull" w] by auto
  with JNull.prems show ?case by simp
qed

theorem stringify_inj: "stringify v = stringify w \<longleftrightarrow> v = w"
  using stringify_prefix [of v "[]" w "[]"] by (auto simp: json_end_def)

section \<open>Reading fields\<close>

definition jfield :: "string \<Rightarrow> json \<Rightarrow> json option" where
  "jfield k v = (case v of JObj fs \<Rightarrow> map_of fs k | _ \<Rightarrow> None)"

fun jstring :: "json \<Rightarrow> string option" where
  "jstring (JStr s) = Some s"
| "jstring _ = None"

definition jstr_field :: "string \<Rightarrow> json \<Rightarrow> string option" where
  "jstr_field k v = Option.bind (jfield k v) jstring"

fun is_obj :: "json \<Rightarrow> bool" where
  "is_obj (JObj _) = True"
| "is_obj _ = False"

end
