(* ===== verification/Keyed_Delta.thy ===== *)
theory Keyed_Delta
  imports Json_Value
begin

text \<open>
  The status feed's keyed deltas (\<open>packages/core/state/keyed-delta.ts\<close>): a server remembers
  the JSON of each entity it last sent under the entity's key and emits only what changed; a
  client applies each delta to the list it holds. The entities are JSON values and \<open>key\<close> is
  the key function the subscription was built with. The locale \<open>delta_feed\<close> is the contract
  between the two sides; its run lemma is proved once and the code's two halves are an
  instance of it.
\<close>

section \<open>The code\<close>

record keyed_delta =
  upsert :: "json list"
  remove :: "string list"

record keyed_entities =
  sent :: "(string \<times> string) list"

definition keyed_new :: keyed_entities where
  "keyed_new = \<lparr>sent = []\<rparr>"

definition keyed_reset :: "(json \<Rightarrow> string) \<Rightarrow> keyed_entities \<Rightarrow> json list \<Rightarrow> keyed_entities" where
  "keyed_reset key st es = st\<lparr>sent := js_map (map (\<lambda>e. (key e, stringify e)) es)\<rparr>"

fun next_loop :: "(json \<Rightarrow> string) \<Rightarrow> (string \<times> string) list \<Rightarrow> json list \<Rightarrow>
    (string \<times> string) list \<times> json list \<Rightarrow> (string \<times> string) list \<times> json list" where
  "next_loop key old [] acc = acc"
| "next_loop key old (e # es) (now_sent, ups) =
     (let k = key e; js = stringify e; now_sent' = AList.update k js now_sent in
      next_loop key old es (now_sent', if map_of old k \<noteq> Some js then ups @ [e] else ups))"

definition keyed_next :: "(json \<Rightarrow> string) \<Rightarrow> keyed_entities \<Rightarrow> json list \<Rightarrow> keyed_entities \<times> keyed_delta option" where
  "keyed_next key st es =
     (let (now_sent, ups) = next_loop key (sent st) es ([], []);
          rem = filter (\<lambda>k. map_of now_sent k = None) (map fst (sent st))
      in (st\<lparr>sent := now_sent\<rparr>,
          if ups \<noteq> [] \<or> rem \<noteq> [] then Some \<lparr>upsert = ups, remove = rem\<rparr> else None))"

fun apply_loop :: "(json \<Rightarrow> string) \<Rightarrow> string set \<Rightarrow> json list \<Rightarrow> (string \<times> json) list \<Rightarrow> json list \<times> (string \<times> json) list" where
  "apply_loop key removed [] replaced = ([], replaced)"
| "apply_loop key removed (e # es) replaced =
     (let k = key e in
      if k \<in> removed then apply_loop key removed es replaced
      else (let e' = (case map_of replaced k of Some r \<Rightarrow> r | None \<Rightarrow> e);
                (out, rest) = apply_loop key removed es (AList.delete k replaced)
            in (e' # out, rest)))"

definition applyKeyedDelta :: "json list \<Rightarrow> keyed_delta \<Rightarrow> (json \<Rightarrow> string) \<Rightarrow> json list" where
  "applyKeyedDelta es d key =
     (let (out, rest) = apply_loop key (set (remove d)) es (js_map (map (\<lambda>e. (key e, e)) (upsert d)))
      in out @ map snd rest)"

section \<open>The interface of a delta feed\<close>

text \<open>
  \<open>emit\<close> is the server's step, \<open>patch\<close> the client's, \<open>ok\<close> says which entity lists a
  producer may emit, and \<open>synced st c\<close> that client \<open>c\<close> mirrors what the server believes it
  sent. The laws: a snapshot synchronises the client, and an emit keeps it synchronised and
  gives it exactly the emitted entities.
\<close>

locale delta_feed =
  fixes ok :: "'e list \<Rightarrow> bool"
    and snapshot :: "'st \<Rightarrow> 'e list \<Rightarrow> 'st"
    and emit :: "'st \<Rightarrow> 'e list \<Rightarrow> 'st \<times> 'd option"
    and patch :: "'e list \<Rightarrow> 'd \<Rightarrow> 'e list"
    and synced :: "'st \<Rightarrow> 'e list \<Rightarrow> bool"
  assumes synced_snapshot: "ok es \<Longrightarrow> synced (snapshot st es) es"
    and synced_emit: "synced st c \<Longrightarrow> ok es \<Longrightarrow> emit st es = (st', d) \<Longrightarrow>
      synced st' (case d of None \<Rightarrow> c | Some dl \<Rightarrow> patch c dl)"
    and emit_view: "synced st c \<Longrightarrow> ok es \<Longrightarrow> emit st es = (st', d) \<Longrightarrow>
      set (case d of None \<Rightarrow> c | Some dl \<Rightarrow> patch c dl) = set es"
begin

primrec feed_run :: "'st \<Rightarrow> 'e list \<Rightarrow> 'e list list \<Rightarrow> 'st \<times> 'e list" where
  "feed_run st c [] = (st, c)"
| "feed_run st c (es # ess) =
     (let (st', d) = emit st es in feed_run st' (case d of None \<Rightarrow> c | Some dl \<Rightarrow> patch c dl) ess)"

lemma feed_run_synced:
  "synced st c \<Longrightarrow> \<forall>es \<in> set ess. ok es \<Longrightarrow> feed_run st c ess = (st', c') \<Longrightarrow>
   synced st' c' \<and> (ess \<noteq> [] \<longrightarrow> set c' = set (last ess))"
proof (induction ess arbitrary: st c)
  case Nil
  then show ?case by simp
next
  case (Cons es ess)
  obtain st1 d where e: "emit st es = (st1, d)" by fastforce
  let ?c1 = "case d of None \<Rightarrow> c | Some dl \<Rightarrow> patch c dl"
  from Cons.prems e have s1: "synced st1 ?c1" and v1: "set ?c1 = set es"
    by (auto intro: synced_emit dest: emit_view)
  from Cons.prems(3) e have r: "feed_run st1 ?c1 ess = (st', c')" by simp
  show ?case
  proof (cases ess)
    case Nil
    with r s1 v1 show ?thesis by simp
  next
    case (Cons x xs)
    with Cons.IH [OF s1 _ r] Cons.prems(2) show ?thesis by simp
  qed
qed

end

section \<open>Correctness of the code's two halves\<close>

definition keyed_ok :: "(json \<Rightarrow> string) \<Rightarrow> json list \<Rightarrow> bool" where
  "keyed_ok key es = distinct (map key es)"

definition keyed_synced :: "(json \<Rightarrow> string) \<Rightarrow> keyed_entities \<Rightarrow> json list \<Rightarrow> bool" where
  "keyed_synced key st c \<longleftrightarrow> distinct (map key c) \<and> distinct (map fst (sent st)) \<and>
     map_of (sent st) = map_of (map (\<lambda>e. (key e, stringify e)) c)"

lemma next_loop_eq:
  "next_loop key old es (m, ups) =
     (fold (\<lambda>(k, v) m. AList.update k v m) (map (\<lambda>e. (key e, stringify e)) es) m,
      ups @ filter (\<lambda>e. map_of old (key e) \<noteq> Some (stringify e)) es)"
  by (induction es arbitrary: m ups) (auto simp: Let_def)

lemma keyed_next_eq:
  "keyed_next key st es =
     (let ups = filter (\<lambda>e. map_of (sent st) (key e) \<noteq> Some (stringify e)) es;
          rem = filter (\<lambda>k. k \<notin> key ` set es) (map fst (sent st))
      in (st\<lparr>sent := js_map (map (\<lambda>e. (key e, stringify e)) es)\<rparr>,
          if ups \<noteq> [] \<or> rem \<noteq> [] then Some \<lparr>upsert = ups, remove = rem\<rparr> else None))"
proof -
  have "map_of (js_map (map (\<lambda>e. (key e, stringify e)) es)) k = None \<longleftrightarrow> k \<notin> key ` set es" for k
    by (simp add: map_of_eq_None_iff js_map_keys image_image)
  then show ?thesis
    by (simp add: keyed_next_def next_loop_eq Let_def js_map_def cong: filter_cong)
qed

lemma sent_js_map:
  "keyed_ok key es \<Longrightarrow> map_of (js_map (map (\<lambda>e. (key e, stringify e)) es)) = map_of (map (\<lambda>e. (key e, stringify e)) es)"
  by (simp add: map_of_js_map map_of_rev_distinct keyed_ok_def comp_def)

lemma keyed_synced_sent:
  "keyed_ok key es \<Longrightarrow> distinct (map key c) \<Longrightarrow> set c = set es \<Longrightarrow>
   keyed_synced key (st\<lparr>sent := js_map (map (\<lambda>e. (key e, stringify e)) es)\<rparr>) c"
  by (auto simp: keyed_synced_def js_map_distinct sent_js_map keyed_ok_def comp_def
      intro!: map_of_inject_set [THEN iffD2])

lemma apply_loop_eq:
  "distinct (map key es) \<Longrightarrow> apply_loop key R es repl =
     (map (\<lambda>e. case map_of repl (key e) of Some r \<Rightarrow> r | None \<Rightarrow> e) (filter (\<lambda>e. key e \<notin> R) es),
      filter (\<lambda>p. fst p \<notin> key ` set (filter (\<lambda>e. key e \<notin> R) es)) repl)"
proof (induction es arbitrary: repl)
  case (Cons e es)
  have "map (\<lambda>x. case map_of (AList.delete (key e) repl) (key x) of None \<Rightarrow> x | Some r \<Rightarrow> r) (filter (\<lambda>x. key x \<notin> R) es)
      = map (\<lambda>x. case map_of repl (key x) of None \<Rightarrow> x | Some r \<Rightarrow> r) (filter (\<lambda>x. key x \<notin> R) es)"
    using Cons.prems by (auto simp: delete_conv' image_iff intro!: map_cong split: option.splits)
  with Cons show ?case
    by (auto simp: Let_def AList.delete_eq intro!: filter_cong)
qed simp

lemma applyKeyedDelta_eq:
  assumes c: "distinct (map key c)" and u: "distinct (map key (upsert d))"
  defines "kept \<equiv> filter (\<lambda>e. key e \<notin> set (remove d)) c"
    and "new \<equiv> map_of (map (\<lambda>u. (key u, u)) (upsert d))"
  shows "applyKeyedDelta c d key =
    map (\<lambda>e. case new (key e) of Some r \<Rightarrow> r | None \<Rightarrow> e) kept @ filter (\<lambda>u. key u \<notin> key ` set kept) (upsert d)"
proof -
  have "map snd (filter (\<lambda>p. fst p \<notin> K) (map (\<lambda>u. (key u, u)) us)) = filter (\<lambda>u. key u \<notin> K) us" for K us
    by (induction us) auto
  with u show ?thesis
    by (simp add: applyKeyedDelta_def apply_loop_eq [OF c] js_map_id comp_def kept_def new_def)
qed

lemma patch_distinct:
  assumes "distinct (map key ks)" "distinct (map key us)" "\<And>e. key (g e) = key e"
  shows "distinct (map key (map g ks @ filter (\<lambda>u. key u \<notin> key ` set ks) us))"
  using assms by (auto simp: comp_def distinct_map_filter) (metis image_eqI)

lemma patch_set:
  assumes g: "\<And>e. g e = (case new (key e) of Some r \<Rightarrow> r | None \<Rightarrow> e)"
    and new: "\<And>k u. new k = Some u \<longleftrightarrow> u \<in> set us \<and> key u = k"
  shows "set (map g ks @ filter (\<lambda>u. key u \<notin> key ` set ks) us) =
    set us \<union> {e \<in> set ks. new (key e) = None}" (is "?L = ?R")
proof
  have g_new: "g e \<in> set us" if "new (key e) \<noteq> None" for e
    using that new [of "key e"] by (cases "new (key e)") (auto simp: g)
  have g_old: "g e = e" if "new (key e) = None" for e
    using that by (simp add: g)
  have "g e \<in> ?R" if "e \<in> set ks" for e
    using that g_new [of e] g_old [of e] by (cases "new (key e) = None") auto
  then show "?L \<subseteq> ?R" by auto
next
  have "u \<in> ?L" if u: "u \<in> set us" for u
  proof (cases "key u \<in> key ` set ks")
    case True
    then obtain e where e: "e \<in> set ks" "key u = key e" by auto
    with u new [of "key e" u] have "g e = u" by (simp add: g)
    with e show ?thesis by auto
  qed (use u in simp)
  moreover have "e \<in> ?L" if "e \<in> set ks" "new (key e) = None" for e
  proof -
    from that have "g e = e" by (simp add: g)
    with that show ?thesis by force
  qed
  ultimately show "?R \<subseteq> ?L" by blast
qed

text \<open>
  The step lemma: what a synchronised client holds after applying the emitted delta (or
  nothing, when nothing changed).
\<close>

lemma keyed_next_client:
  assumes sync: "keyed_synced key st c" and ok: "keyed_ok key es" and nxt: "keyed_next key st es = (st', d)"
  defines "c' \<equiv> (case d of None \<Rightarrow> c | Some dl \<Rightarrow> applyKeyedDelta c dl key)"
  shows "distinct (map key c') \<and> set c' = set es"
proof -
  let ?ups = "filter (\<lambda>e. map_of (sent st) (key e) \<noteq> Some (stringify e)) es"
  let ?rem = "filter (\<lambda>k. k \<notin> key ` set es) (map fst (sent st))"
  let ?kept = "filter (\<lambda>e. key e \<notin> set ?rem) c"
  let ?new = "map_of (map (\<lambda>u. (key u, u)) ?ups)"
  from sync have dc: "distinct (map key c)"
    and sent: "map_of (sent st) = map_of (map (\<lambda>e. (key e, stringify e)) c)"
    by (auto simp: keyed_synced_def)
  from ok have de: "distinct (map key es)" by (simp add: keyed_ok_def)
  then have du: "distinct (map key ?ups)" by (rule distinct_map_filter)
  have sent_c: "map_of (sent st) (key e) = Some (stringify e') \<longleftrightarrow> e' \<in> set c \<and> key e' = key e" for e e'
    using dc by (auto simp: sent map_of_map_key stringify_inj)
  have keys: "fst ` set (sent st) = key ` set c"
    using arg_cong [OF sent, of dom] by (simp add: dom_map_of_conv_image_fst image_image)
  have kept: "?kept = filter (\<lambda>e. key e \<in> key ` set es) c"
    using keys by (intro filter_cong) auto
  have new: "?new k = Some u \<longleftrightarrow> u \<in> set ?ups \<and> key u = k" for k u
    using du by (auto simp: map_of_map_key)
  have new_None: "?new k = None \<longleftrightarrow> k \<notin> key ` set ?ups" for k
    by (simp add: map_of_map_key_None)
  let ?g = "\<lambda>e. case ?new (key e) of Some r \<Rightarrow> r | None \<Rightarrow> e"
  let ?out = "map ?g ?kept @ filter (\<lambda>u. key u \<notin> key ` set ?kept) ?ups"
  have same: "e \<in> set es" if e: "e \<in> set c" "key e \<in> key ` set es" "?new (key e) = None" for e
  proof -
    from e obtain x where x: "x \<in> set es" "key x = key e" by auto
    with e(3) have "x \<notin> set ?ups" by (auto simp: map_of_map_key_None image_iff)
    with x have "map_of (sent st) (key e) = Some (stringify x)" by simp
    with e(1) x(2) have "x \<in> set c \<and> key x = key e" by (simp add: sent_c)
    with e(1) dc have "x = e" by (auto dest: distinct_map_filter_eq)
    with x show ?thesis by simp
  qed
  have old: "x \<in> set ?kept \<and> ?new (key x) = None" if x: "x \<in> set es" "x \<notin> set ?ups" for x
  proof -
    from x have "map_of (sent st) (key x) = Some (stringify x)" by simp
    then have "x \<in> set c" by (simp add: sent_c)
    moreover have "key x \<notin> key ` set ?ups" using x de by (auto dest: distinct_map_filter_eq)
    ultimately show ?thesis using x(1) by (simp add: kept map_of_map_key_None)
  qed
  have "key (?g e) = key e" for e
    using new by (auto split: option.splits)
  with distinct_map_filter [OF dc] du have dist: "distinct (map key ?out)"
    by (rule patch_distinct)
  have "set ?out = set ?ups \<union> {e \<in> set ?kept. ?new (key e) = None}"
    using new by (intro patch_set) auto
  also have "\<dots> = set es"
  proof (rule set_eqI)
    fix x
    have "x \<in> set ?kept \<longleftrightarrow> x \<in> set c \<and> key x \<in> key ` set es" by (simp only: kept) auto
    moreover have "x \<in> set ?ups \<Longrightarrow> x \<in> set es" by simp
    ultimately show "x \<in> set ?ups \<union> {e \<in> set ?kept. ?new (key e) = None} \<longleftrightarrow> x \<in> set es"
      using same [of x] old [of x] by blast
  qed
  finally have view: "set ?out = set es" .
  show ?thesis
  proof (cases d)
    case None
    with nxt have "?ups = []" "?rem = []" by (auto simp: keyed_next_eq Let_def split: if_splits)
    then have "?out = c" by simp
    with dist view have "distinct (map key c) \<and> set c = set es" by (simp only:)
    with None show ?thesis by (simp add: c'_def)
  next
    case (Some dl)
    with nxt have "upsert dl = ?ups" "remove dl = ?rem" by (auto simp: keyed_next_eq Let_def split: if_splits)
    with du dc have "applyKeyedDelta c dl key = ?out" by (subst applyKeyedDelta_eq) simp_all
    with dist view have "distinct (map key (applyKeyedDelta c dl key)) \<and> set (applyKeyedDelta c dl key) = set es"
      by (simp only:)
    with Some show ?thesis by (simp add: c'_def)
  qed
qed

interpretation keyed: delta_feed "keyed_ok key" "keyed_reset key" "keyed_next key"
    "\<lambda>c d. applyKeyedDelta c d key" "keyed_synced key" for key
proof unfold_locales
  fix es st
  show "keyed_ok key es \<Longrightarrow> keyed_synced key (keyed_reset key st es) es"
    by (simp add: keyed_reset_def keyed_synced_sent) (simp add: keyed_ok_def keyed_synced_sent)
next
  fix st c es st' d
  assume a: "keyed_synced key st c" "keyed_ok key es" "keyed_next key st es = (st', d)"
  from a(3) have "st' = st\<lparr>sent := js_map (map (\<lambda>e. (key e, stringify e)) es)\<rparr>"
    by (simp add: keyed_next_eq Let_def)
  with keyed_next_client [OF a] a(2)
  show "keyed_synced key st' (case d of None \<Rightarrow> c | Some dl \<Rightarrow> applyKeyedDelta c dl key)"
    by (simp add: keyed_synced_sent)
  show "set (case d of None \<Rightarrow> c | Some dl \<Rightarrow> applyKeyedDelta c dl key) = set es"
    using keyed_next_client [OF a] by simp
qed

section \<open>Properties\<close>

text \<open>
  The whole life of a subscription: the server sends a snapshot and then a delta for each
  of the entity lists \<open>ess\<close>, and the client folds the deltas in.
\<close>

fun feed :: "(json \<Rightarrow> string) \<Rightarrow> keyed_entities \<Rightarrow> json list \<Rightarrow> json list list \<Rightarrow> keyed_entities \<times> json list" where
  "feed key st c [] = (st, c)"
| "feed key st c (es # ess) =
     (let (st', d) = keyed_next key st es in
      feed key st' (case d of None \<Rightarrow> c | Some dl \<Rightarrow> applyKeyedDelta c dl key) ess)"

lemma feed_eq_run: "feed key st c ess = keyed.feed_run key st c ess"
  by (induction ess arbitrary: st c) (auto simp: Let_def split: prod.splits)

text \<open>
  C12. A subscriber that starts from a snapshot and applies every delta the server emits holds,
  after each run of emits, exactly the entities of the last emit, once per key, whatever was
  inserted, changed, removed or left alone in between.
\<close>

theorem keyed_feed_in_sync:
  assumes "distinct (map key es0)" and "\<forall>es \<in> set ess. distinct (map key es)"
    and "feed key (keyed_reset key keyed_new es0) es0 ess = (st, client)"
  shows "set client = set (last (es0 # ess)) \<and> distinct (map key client) \<and>
    map_of (sent st) = map_of (map (\<lambda>e. (key e, stringify e)) client)"
proof -
  have "keyed_synced key (keyed_reset key keyed_new es0) es0"
    using assms(1) by (intro keyed.synced_snapshot) (simp add: keyed_ok_def)
  with assms keyed.feed_run_synced [of key "keyed_reset key keyed_new es0" es0 ess st client]
  have "keyed_synced key st client \<and> (ess \<noteq> [] \<longrightarrow> set client = set (last ess))"
    by (simp add: feed_eq_run keyed_ok_def)
  moreover have "ess = [] \<Longrightarrow> client = es0" using assms(3) by simp
  ultimately show ?thesis by (cases ess) (auto simp: keyed_synced_def)
qed

definition id_key :: "json \<Rightarrow> string" where
  "id_key e = (case jstr_field ''id'' e of Some s \<Rightarrow> s | None \<Rightarrow> [])"

theorem keyed_feed_in_sync_witness:
  "let a = JObj [(''id'', JStr ''a''), (''n'', JNum 1)]; a' = JObj [(''id'', JStr ''a''), (''n'', JNum 2)];
       b = JObj [(''id'', JStr ''b'')]
   in set (snd (feed id_key (keyed_reset id_key keyed_new [a]) [a] [[a', b], [b, a]])) = {b, a}"
proof -
  let ?a = "JObj [(''id'', JStr ''a''), (''n'', JNum 1)]" and ?a' = "JObj [(''id'', JStr ''a''), (''n'', JNum 2)]"
    and ?b = "JObj [(''id'', JStr ''b'')]"
  have d: "distinct (map id_key [?a])" "\<forall>es \<in> set [[?a', ?b], [?b, ?a]]. distinct (map id_key es)"
    by (simp_all add: id_key_def jstr_field_def jfield_def)
  have "set (snd (feed id_key (keyed_reset id_key keyed_new [?a]) [?a] [[?a', ?b], [?b, ?a]]))
      = set (last ([?a] # [[?a', ?b], [?b, ?a]]))"
    using keyed_feed_in_sync [OF d, of "fst (feed id_key (keyed_reset id_key keyed_new [?a]) [?a] [[?a', ?b], [?b, ?a]])"
        "snd (feed id_key (keyed_reset id_key keyed_new [?a]) [?a] [[?a', ?b], [?b, ?a]])"] by simp
  then show ?thesis by simp
qed

text \<open>
  A delta is emitted exactly when something changed, and it carries no more than the
  change: the entities whose JSON differs from what was last sent under their key, and the
  keys that disappeared.
\<close>

theorem keyed_next_minimal:
  assumes "keyed_next key st es = (st', d)"
  shows "(d = None \<longleftrightarrow> (\<forall>e \<in> set es. map_of (sent st) (key e) = Some (stringify e)) \<and> fst ` set (sent st) \<subseteq> key ` set es) \<and>
    (\<forall>dl. d = Some dl \<longrightarrow>
       upsert dl = filter (\<lambda>e. map_of (sent st) (key e) \<noteq> Some (stringify e)) es \<and>
       set (remove dl) = fst ` set (sent st) - key ` set es)"
  using assms by (auto simp: keyed_next_eq Let_def filter_empty_conv split: if_splits) force+

theorem keyed_next_minimal_witness:
  "let a = JObj [(''id'', JStr ''a'')]; b = JObj [(''id'', JStr ''b'')] in
   snd (keyed_next id_key (keyed_reset id_key keyed_new [a]) [a]) = None \<and>
   (\<exists>d. snd (keyed_next id_key (keyed_reset id_key keyed_new [a]) [b]) = Some d \<and> upsert d = [b] \<and> set (remove d) = {''a''})"
proof -
  let ?a = "JObj [(''id'', JStr ''a'')]" and ?b = "JObj [(''id'', JStr ''b'')]"
  let ?st = "keyed_reset id_key keyed_new [?a]"
  have s: "sent ?st = [(''a'', stringify ?a)]" and k: "id_key ?a = ''a''" "id_key ?b = ''b''"
    by (simp_all add: keyed_reset_def js_map_def id_key_def jstr_field_def jfield_def)
  obtain st1 d1 where 1: "keyed_next id_key ?st [?a] = (st1, d1)" by fastforce
  obtain st2 d2 where 2: "keyed_next id_key ?st [?b] = (st2, d2)" by fastforce
  from keyed_next_minimal [OF 1] have "d1 = None" by (simp add: s k)
  moreover from keyed_next_minimal [OF 2] obtain d where "d2 = Some d" "upsert d = [?b]" "set (remove d) = {''a''}"
    by (cases d2) (auto simp: s k)
  ultimately show ?thesis by (simp add: 1 2)
qed

text \<open>
  Applying a delta keeps the client's order: the entities that stay keep their places, the
  removed keys are gone, and new keys come at the end.
\<close>

theorem applyKeyedDelta_order:
  assumes "distinct (map key c)" and "distinct (map key (upsert d))"
  shows "map key (applyKeyedDelta c d key) =
    filter (\<lambda>k. k \<notin> set (remove d)) (map key c) @
    filter (\<lambda>k. k \<notin> set (filter (\<lambda>k. k \<notin> set (remove d)) (map key c))) (map key (upsert d))"
proof -
  let ?new = "map_of (map (\<lambda>u. (key u, u)) (upsert d))"
  have "key (case ?new (key e) of Some r \<Rightarrow> r | None \<Rightarrow> e) = key e" for e
    using assms(2) by (auto split: option.splits simp: map_of_map_key)
  then show ?thesis
    by (simp add: applyKeyedDelta_eq [OF assms] filter_map comp_def image_Collect [symmetric])
qed

theorem applyKeyedDelta_order_witness:
  "let a = JObj [(''id'', JStr ''a'')]; b = JObj [(''id'', JStr ''b'')]; c = JObj [(''id'', JStr ''c'')] in
   map id_key (applyKeyedDelta [a, b] \<lparr>upsert = [c, b], remove = [''a'']\<rparr> id_key) = [''b'', ''c'']"
proof -
  let ?a = "JObj [(''id'', JStr ''a'')]" and ?b = "JObj [(''id'', JStr ''b'')]" and ?c = "JObj [(''id'', JStr ''c'')]"
  have k: "id_key ?a = ''a''" "id_key ?b = ''b''" "id_key ?c = ''c''"
    by (simp_all add: id_key_def jstr_field_def jfield_def)
  show ?thesis
    using applyKeyedDelta_order [of id_key "[?a, ?b]" "\<lparr>upsert = [?c, ?b], remove = [''a'']\<rparr>"] by (simp add: k)
qed

end
