(* ===== verification/Iso_Date.thy ===== *)
theory Iso_Date
  imports Stim_Prelude
begin

text \<open>
  The part of the JavaScript \<open>Date\<close> library the program uses for its timestamps:
  \<open>toISOString\<close> (\<open>to_iso\<close>) and \<open>Date.parse\<close> (\<open>date_parse\<close>) on the text
  \<open>toISOString\<close> writes, \<open>YYYY-MM-DDTHH:mm:ss.sssZ\<close> or its six-digit signed-year form.
  Any other text reads as \<open>NaN\<close> (\<open>None\<close>); every timestamp the modelled code reads back was
  written by \<open>toISOString\<close>. The round trip \<open>date_parse_to_iso\<close> holds on the whole range
  of valid dates, so a deadline written to a file is the deadline read back.
\<close>

section \<open>The proleptic Gregorian calendar\<close>

definition ceil_div :: "int \<Rightarrow> int \<Rightarrow> int" where
  "ceil_div a b = (a + b - 1) div b"

definition leap_year :: "int \<Rightarrow> bool" where
  "leap_year y = ((y mod 4 = 0 \<and> y mod 100 \<noteq> 0) \<or> y mod 400 = 0)"

text \<open>Days from 1 January of year 0 to 1 January of year \<open>y\<close>.\<close>

definition days_before_year :: "int \<Rightarrow> int" where
  "days_before_year y = 365 * y + ceil_div y 4 - ceil_div y 100 + ceil_div y 400"

definition year_of_day :: "int \<Rightarrow> int" where
  "year_of_day n = (let y = (400 * n) div 146097 in
     if n < days_before_year y then y - 1 else if days_before_year (y + 1) \<le> n then y + 1 else y)"

definition month_lengths :: "int \<Rightarrow> int list" where
  "month_lengths y = [31, if leap_year y then 29 else 28, 31, 30, 31, 30, 31, 31, 30, 31, 30, 31]"

fun month_of :: "int list \<Rightarrow> int \<Rightarrow> nat \<times> int" where
  "month_of [] d = (0, d)"
| "month_of (l # ls) d = (if d < l then (0, d) else (let (m, r) = month_of ls (d - l) in (Suc m, r)))"

lemma ceil_div_bounds: "0 < b \<Longrightarrow> a \<le> b * ceil_div a b \<and> b * ceil_div a b < a + b"
proof -
  assume b: "0 < b"
  have "b * ((a + b - 1) div b) + (a + b - 1) mod b = a + b - 1" by simp
  moreover have "0 \<le> (a + b - 1) mod b" "(a + b - 1) mod b < b" using b by simp_all
  ultimately show ?thesis unfolding ceil_div_def by linarith
qed

lemma ceil_div_Suc: "0 < b \<Longrightarrow> ceil_div (a + 1) b = ceil_div a b + (if a mod b = 0 then 1 else 0)"
proof -
  assume b: "0 < b"
  have eq: "a = b * (a div b) + a mod b" and r: "0 \<le> a mod b" "a mod b < b" using b by simp_all
  have 1: "(a + b) div b = a div b + 1" using b div_add_self2 [of b a] by simp
  have 2: "(a + b - 1) div b = a div b + (if a mod b = 0 then 0 else 1)"
  proof (cases "a mod b = 0")
    case True
    then have "a + b - 1 = b * (a div b) + (b - 1)" using eq by simp
    then have "(a + b - 1) div b = a div b" by (rule int_div_pos_eq) (use b in auto)
    then show ?thesis using True by simp
  next
    case False
    have "a + b - 1 = b * (a div b + 1) + (a mod b - 1)"
      using eq by (simp add: algebra_simps)
    then have "(a + b - 1) div b = a div b + 1" by (rule int_div_pos_eq) (use r False in auto)
    then show ?thesis using False by simp
  qed
  have "ceil_div (a + 1) b = (a + b) div b" by (simp add: ceil_div_def algebra_simps)
  with 1 2 show ?thesis by (simp add: ceil_div_def)
qed

lemma days_before_year_Suc: "days_before_year (y + 1) = days_before_year y + sum_list (month_lengths y)"
proof -
  have "y mod 100 = 0 \<Longrightarrow> y mod 4 = 0" for y :: int using dvd_trans [of 4 100 y] by (simp add: mod_eq_0_iff_dvd)
  moreover have "y mod 400 = 0 \<Longrightarrow> y mod 100 = 0" for y :: int using dvd_trans [of 100 400 y] by (simp add: mod_eq_0_iff_dvd)
  ultimately show ?thesis
    by (auto simp: days_before_year_def ceil_div_Suc month_lengths_def leap_year_def)
qed

lemma year_of_day_bounds:
  "days_before_year (year_of_day n) \<le> n \<and> n < days_before_year (year_of_day n + 1)"
proof -
  define y where "y = (400 * n) div 146097"
  have y: "146097 * y \<le> 400 * n" "400 * n < 146097 * (y + 1)" unfolding y_def by simp_all
  have ceil: "a \<le> b * ceil_div a b" "b * ceil_div a b < a + b" if "0 < b" for a b
    using ceil_div_bounds [OF that] by auto
  have up: "400 * days_before_year a < 146097 * a + 700" for a
    using ceil [of 4 a] ceil [of 100 a] ceil [of 400 a] unfolding days_before_year_def by simp
  have lo: "146097 * a - 400 < 400 * days_before_year a" for a
    using ceil [of 4 a] ceil [of 100 a] ceil [of 400 a] unfolding days_before_year_def by simp
  have len: "days_before_year a + 365 \<le> days_before_year (a + 1)" for a
    by (simp add: days_before_year_Suc month_lengths_def)
  show ?thesis
    using y up [of y] lo [of "y + 1"] len [of "y - 1"] len [of y] len [of "y + 1"]
    unfolding year_of_day_def Let_def y_def [symmetric] by auto
qed

lemma month_of_bounds:
  "0 \<le> d \<Longrightarrow> d < sum_list ls \<Longrightarrow> month_of ls d = (m, r) \<Longrightarrow>
   m < length ls \<and> 0 \<le> r \<and> r < ls ! m \<and> d = sum_list (take m ls) + r"
proof (induction ls arbitrary: d m)
  case (Cons l ls)
  show ?case
  proof (cases "d < l")
    case False
    obtain m' r' where mr: "month_of ls (d - l) = (m', r')" by fastforce
    with False Cons.prems(3) have m: "m = Suc m'" and r: "r = r'" by auto
    from mr r have "month_of ls (d - l) = (m', r)" by simp
    with Cons.IH [of "d - l" m'] Cons.prems(2) False m show ?thesis by auto
  qed (use Cons.prems in auto)
qed simp

section \<open>Text\<close>

fun pad :: "nat \<Rightarrow> nat \<Rightarrow> string" where
  "pad 0 n = []"
| "pad (Suc w) n = pad w (n div 10) @ [digit_char (n mod 10)]"

definition iso_year :: "int \<Rightarrow> string" where
  "iso_year y = (if 0 \<le> y \<and> y \<le> 9999 then pad 4 (nat y)
     else (if y < 0 then ''-'' else ''+'') @ pad 6 (nat \<bar>y\<bar>))"

definition iso_rest :: "nat \<Rightarrow> nat \<Rightarrow> nat \<Rightarrow> nat \<Rightarrow> nat \<Rightarrow> nat \<Rightarrow> string" where
  "iso_rest mo d h mi s ms = ''-'' @ pad 2 mo @ ''-'' @ pad 2 d @ ''T'' @ pad 2 h @ '':'' @ pad 2 mi @ '':'' @
     pad 2 s @ ''.'' @ pad 3 ms @ ''Z''"

definition ms_per_day :: int where
  "ms_per_day = 86400000"

definition epoch_day :: int where
  "epoch_day = 719528"

text \<open>\<open>new Date(t).toISOString()\<close>.\<close>

definition to_iso :: "int \<Rightarrow> string" where
  "to_iso t = (let n = t div ms_per_day + epoch_day; r = t mod ms_per_day; y = year_of_day n;
       (m, d) = month_of (month_lengths y) (n - days_before_year y)
     in iso_year y @ iso_rest (Suc m) (nat d + 1) (nat (r div 3600000)) (nat (r div 60000 mod 60)) (nat (r div 1000 mod 60)) (nat (r mod 1000)))"

definition read_digits :: "string \<Rightarrow> nat option" where
  "read_digits s = (if s \<noteq> [] \<and> (\<forall>c \<in> set s. is_digit c) then Some (nat_of_digits s) else None)"

definition read_year :: "string \<Rightarrow> (int \<times> string) option" where
  "read_year s = (case s of [] \<Rightarrow> None | c # cs \<Rightarrow>
     (if c = CHR ''+'' \<or> c = CHR ''-''
      then map_option (\<lambda>y. (if c = CHR ''-'' then - int y else int y, drop 6 cs)) (read_digits (take 6 cs))
      else map_option (\<lambda>y. (int y, drop 4 s)) (read_digits (take 4 s))))"

definition time_limit :: int where
  "time_limit = 8640000000000000"

definition make_time :: "int \<Rightarrow> nat \<Rightarrow> nat \<Rightarrow> nat \<Rightarrow> nat \<Rightarrow> nat \<Rightarrow> nat \<Rightarrow> int option" where
  "make_time y mo d h mi s ms =
     (let ls = month_lengths y;
          t = (days_before_year y + sum_list (take (mo - 1) ls) + int d - 1 - epoch_day) * ms_per_day +
              int h * 3600000 + int mi * 60000 + int s * 1000 + int ms
      in if 1 \<le> mo \<and> mo \<le> 12 \<and> 1 \<le> d \<and> int d \<le> ls ! (mo - 1) \<and> h < 24 \<and> mi < 60 \<and> s < 60 \<and> \<bar>t\<bar> \<le> time_limit
         then Some t else None)"

definition read_rest :: "int \<Rightarrow> string \<Rightarrow> int option" where
  "read_rest y r =
     (if length r = 20 \<and> r ! 0 = CHR ''-'' \<and> r ! 3 = CHR ''-'' \<and> r ! 6 = CHR ''T'' \<and> r ! 9 = CHR '':'' \<and>
         r ! 12 = CHR '':'' \<and> r ! 15 = CHR ''.'' \<and> r ! 19 = CHR ''Z''
      then (case (read_digits (take 2 (drop 1 r)), read_digits (take 2 (drop 4 r)), read_digits (take 2 (drop 7 r)),
                  read_digits (take 2 (drop 10 r)), read_digits (take 2 (drop 13 r)), read_digits (take 3 (drop 16 r))) of
              (Some mo, Some d, Some h, Some mi, Some s, Some ms) \<Rightarrow> make_time y mo d h mi s ms
            | _ \<Rightarrow> None)
      else None)"

text \<open>\<open>Date.parse\<close>.\<close>

definition date_parse :: "string \<Rightarrow> jsnum" where
  "date_parse s = (case read_year s of None \<Rightarrow> None | Some (y, r) \<Rightarrow> read_rest y r)"

section \<open>The round trip\<close>

lemma length_pad [simp]: "length (pad w n) = w"
  by (induction w n rule: pad.induct) simp_all

lemma pad_digits: "c \<in> set (pad w n) \<Longrightarrow> is_digit c"
  by (induction w n rule: pad.induct) (auto simp: is_digit_digit_char)

lemma nat_of_digits_pad: "n < 10 ^ w \<Longrightarrow> nat_of_digits (pad w n) = n"
proof (induction w n rule: pad.induct)
  case (1 n)
  then show ?case by (simp add: nat_of_digits_def)
next
  case (2 w n)
  then have "nat_of_digits (pad w (n div 10)) = n div 10" by (simp add: less_mult_imp_div_less)
  then show ?case by (simp add: nat_of_digits_def digit_val_digit_char)
qed

lemma read_digits_pad [simp]: "n < 10 ^ w \<Longrightarrow> 0 < w \<Longrightarrow> read_digits (pad w n) = Some n"
  using nat_of_digits_pad [of n w] pad_digits [of _ w n] length_pad [of w n]
  by (auto simp: read_digits_def simp del: length_pad)

lemma read_year_iso: "\<bar>y\<bar> < 1000000 \<Longrightarrow> read_year (iso_year y @ r) = Some (y, r)"
proof (cases "0 \<le> y \<and> y \<le> 9999")
  case True
  then have "read_digits (pad 4 (nat y)) = Some (nat y)" by (intro read_digits_pad) auto
  moreover obtain c cs where c: "pad 4 (nat y) = c # cs" using length_pad [of 4 "nat y"] by (cases "pad 4 (nat y)") auto
  moreover from c have "is_digit c" using pad_digits [of c 4 "nat y"] by simp
  moreover have "length cs = 3" using c length_pad [of 4 "nat y"] by simp
  ultimately show ?thesis using True by (auto simp: iso_year_def read_year_def is_digit_def)
next
  case False
  assume "\<bar>y\<bar> < 1000000"
  then have "read_digits (pad 6 (nat \<bar>y\<bar>)) = Some (nat \<bar>y\<bar>)" by (intro read_digits_pad) auto
  with False show ?thesis by (auto simp: iso_year_def read_year_def)
qed

lemma read_rest_iso:
  assumes "mo < 100" "d < 100" "h < 100" "mi < 100" "s < 100" "ms < 1000"
  shows "read_rest y (iso_rest mo d h mi s ms) = make_time y mo d h mi s ms"
proof -
  have two: "\<exists>a b. pad 2 n = [a, b]" and three: "\<exists>a b c. pad 3 n = [a, b, c]" for n
    by (simp_all add: numeral_2_eq_2 numeral_3_eq_3)
  from two [of mo] obtain a1 a2 where 1: "pad 2 mo = [a1, a2]" by blast
  from two [of d] obtain b1 b2 where 2: "pad 2 d = [b1, b2]" by blast
  from two [of h] obtain c1 c2 where 3: "pad 2 h = [c1, c2]" by blast
  from two [of mi] obtain e1 e2 where 4: "pad 2 mi = [e1, e2]" by blast
  from two [of s] obtain f1 f2 where 5: "pad 2 s = [f1, f2]" by blast
  from three [of ms] obtain g1 g2 g3 where 6: "pad 3 ms = [g1, g2, g3]" by blast
  note ps = 1 2 3 4 5 6
  have "read_digits (pad 2 mo) = Some mo" "read_digits (pad 2 d) = Some d" "read_digits (pad 2 h) = Some h"
    "read_digits (pad 2 mi) = Some mi" "read_digits (pad 2 s) = Some s" "read_digits (pad 3 ms) = Some ms"
    using assms by simp_all
  then show ?thesis
    unfolding ps by (simp add: read_rest_def iso_rest_def ps)
qed

lemma clock_split:
  "(r::int) = (r div 3600000) * 3600000 + (r div 60000 mod 60) * 60000 + (r div 1000 mod 60) * 1000 + r mod 1000"
proof -
  have d: "r div 60000 = r div 1000 div 60" "r div 3600000 = r div 60000 div 60"
    by (simp_all flip: zdiv_zmult2_eq)
  have "r = 1000 * (r div 1000) + r mod 1000" "r div 1000 = 60 * (r div 60000) + r div 1000 mod 60"
    "r div 60000 = 60 * (r div 3600000) + r div 60000 mod 60"
    by (simp_all only: d mult_div_mod_eq)
  then show ?thesis by linarith
qed

theorem date_parse_to_iso:
  assumes t: "\<bar>t\<bar> \<le> time_limit"
  shows "date_parse (to_iso t) = Some t"
proof -
  define n r y where "n = t div ms_per_day + epoch_day" and "r = t mod ms_per_day" and "y = year_of_day n"
  obtain m d where md: "month_of (month_lengths y) (n - days_before_year y) = (m, d)" by fastforce
  have yb: "days_before_year y \<le> n" "n < days_before_year y + sum_list (month_lengths y)"
    using year_of_day_bounds [of n] by (auto simp: y_def days_before_year_Suc)
  then have mb: "m < 12" "0 \<le> d" "d < month_lengths y ! m" "n - days_before_year y = sum_list (take m (month_lengths y)) + d"
    using month_of_bounds [OF _ _ md] by (auto simp: month_lengths_def)
  have "month_lengths y ! m \<le> 31" using mb(1) by (auto simp: month_lengths_def less_Suc_eq eval_nat_numeral)
  with mb have d31: "nat d + 1 < 100" by simp
  have r: "0 \<le> r" "r < 86400000" by (simp_all add: r_def ms_per_day_def)
  have nb: "\<bar>n - epoch_day\<bar> \<le> 100000000"
    using t by (auto simp: n_def time_limit_def ms_per_day_def)
  have "\<bar>y\<bar> < 1000000"
    using nb by (auto simp: y_def year_of_day_def Let_def epoch_day_def)
  moreover define h mi s ms where "h = nat (r div 3600000)" and "mi = nat (r div 60000 mod 60)"
    and "s = nat (r div 1000 mod 60)" and "ms = nat (r mod 1000)"
  moreover have "to_iso t = iso_year y @ iso_rest (Suc m) (nat d + 1) h mi s ms"
    unfolding to_iso_def Let_def n_def [symmetric] r_def [symmetric] y_def [symmetric] md prod.case
      h_def [symmetric] mi_def [symmetric] s_def [symmetric] ms_def [symmetric] by (rule refl)
  ultimately have ry: "read_year (to_iso t) = Some (y, iso_rest (Suc m) (nat d + 1) h mi s ms)"
    by (simp only: read_year_iso)
  have h: "h < 24" "mi < 60" "s < 60" "ms < 1000" using r by (auto simp: h_def mi_def s_def ms_def nat_less_iff)
  have hms: "int h = r div 3600000" "int mi = r div 60000 mod 60" "int s = r div 1000 mod 60" "int ms = r mod 1000"
    using r(1) by (simp_all add: h_def mi_def s_def ms_def pos_imp_zdiv_nonneg_iff)
  have dp: "date_parse (to_iso t) = make_time y (Suc m) (nat d + 1) h mi s ms"
    unfolding date_parse_def ry option.case prod.case
    by (rule read_rest_iso) (use mb d31 h in auto)
  have "t = (n - epoch_day) * ms_per_day + r"
    by (simp add: n_def r_def)
  moreover have "r = int h * 3600000 + int mi * 60000 + int s * 1000 + int ms"
    unfolding hms by (rule clock_split)
  ultimately have "t = (days_before_year y + sum_list (take m (month_lengths y)) + int (nat d + 1) - 1 - epoch_day) * ms_per_day +
      int h * 3600000 + int mi * 60000 + int s * 1000 + int ms"
    using mb by simp
  then have "make_time y (Suc m) (nat d + 1) h mi s ms = Some t"
    using mb h t unfolding make_time_def Let_def by simp
  then show ?thesis by (simp only: dp)
qed

end
