(* ===== verification/Admission.thy ===== *)
theory Admission
  imports Iso_Date
begin

text \<open>
  The admission policy (\<open>packages/stim-cli/src/policy/admission.ts\<close>): which waiting build may
  try a build slot, and whether a workspace gets, keeps or loses the lease on a device. These
  are pure decisions over readings of the claim and lease files; the files themselves are in
  \<open>Device_Lease\<close> and \<open>Build_Slots\<close>.
\<close>

section \<open>Build slots\<close>

record slot_reading =
  slot_index :: "int option"
  alive :: bool
  unresolved :: bool

definition busySlots :: "('a slot_reading_scheme) list \<Rightarrow> int \<Rightarrow> ('a slot_reading_scheme) list" where
  "busySlots slots cap = filter (\<lambda>s. (case slot_index s of None \<Rightarrow> False | Some i \<Rightarrow> i < cap) \<and> (alive s \<or> unresolved s)) slots"

record 'a slot_turn =
  turn_claim :: bool
  turn_unverified :: "'a list"

definition slotTurn :: "int \<Rightarrow> int \<Rightarrow> ('a slot_reading_scheme) list \<Rightarrow> ('a slot_reading_scheme) slot_turn" where
  "slotTurn position cap busy =
     \<lparr>turn_claim = (position \<le> cap - int (length (filter alive busy))),
      turn_unverified = filter unresolved busy\<rparr>"

section \<open>Device leases\<close>

record lease_reading =
  holder :: string
  slot :: "string option"
  token :: string
  expiresAt :: string

datatype lease_kind = Declared | Run

definition slot_or_default :: "('a lease_reading_scheme) \<Rightarrow> string" where
  "slot_or_default l = (case slot l of None \<Rightarrow> ''default'' | Some s \<Rightarrow> s)"

definition leaseIsExpired :: "('a lease_reading_scheme) \<Rightarrow> int \<Rightarrow> bool" where
  "leaseIsExpired l now = js_le (date_parse (expiresAt l)) (Some now)"

text \<open>The lease file as granting reads it: missing, not a lease, or a lease.\<close>

datatype 'l lease_file = NoLease | Unreadable | Lease 'l

datatype 'l lease_grant =
    GrantUnreadable
  | GrantHeld 'l
  | GrantSet 'l jsnum lease_kind
  | GrantTaken jsnum lease_kind

definition js_max :: "jsnum \<Rightarrow> jsnum \<Rightarrow> jsnum" where
  "js_max a b = (case (a, b) of (Some x, Some y) \<Rightarrow> Some (max x y) | _ \<Rightarrow> None)"

definition leaseGrant :: "('a lease_reading_scheme) lease_file \<Rightarrow> string \<Rightarrow> string \<Rightarrow> lease_kind \<Rightarrow> bool \<Rightarrow> int \<Rightarrow> int \<Rightarrow>
    ('a lease_reading_scheme) lease_grant" where
  "leaseGrant file root slt kind declared now durationMs =
     (let asked = Some (now + durationMs) in
      case file of
        Unreadable \<Rightarrow> GrantUnreadable
      | NoLease \<Rightarrow> GrantTaken asked kind
      | Lease l \<Rightarrow>
          (if leaseIsExpired l now then GrantTaken asked kind
           else if holder l \<noteq> root \<or> slot_or_default l \<noteq> slt then GrantHeld l
           else GrantSet l
             (if declared \<and> kind = Run then js_max asked (date_parse (expiresAt l)) else asked)
             (if declared then Declared else kind)))"

text \<open>
  The leases \<open>root\<close> holds for a platform and slot on devices other than \<open>did\<close>. The extra
  fields a listed lease has (its platform and device id) are read by the two selectors.
\<close>

definition displacedLeases :: "(('a lease_reading_scheme) \<Rightarrow> string) \<Rightarrow> (('a lease_reading_scheme) \<Rightarrow> string) \<Rightarrow>
    ('a lease_reading_scheme) option list \<Rightarrow> string \<Rightarrow> string \<Rightarrow> string \<Rightarrow> string \<Rightarrow> ('a lease_reading_scheme) list" where
  "displacedLeases platform_of id_of leases root platform slt did =
     filter (\<lambda>l. platform_of l = platform \<and> holder l = root \<and> slot_or_default l = slt \<and> id_of l \<noteq> did)
       (List.map_filter id leases)"

datatype 'l lease_raise = RaiseLost | RaiseKept 'l | RaiseRaised 'l int

definition leaseRaise :: "('a lease_reading_scheme) option \<Rightarrow> string \<Rightarrow> int \<Rightarrow> int \<Rightarrow> ('a lease_reading_scheme) lease_raise" where
  "leaseRaise l tok now minMs = (case l of
     None \<Rightarrow> RaiseLost
   | Some l \<Rightarrow> (if token l \<noteq> tok then RaiseLost
       else let floor = now + minMs in
         if js_le (Some floor) (date_parse (expiresAt l)) then RaiseKept l else RaiseRaised l floor))"

section \<open>Properties of the slot queue\<close>

lemma slotTurn_claim_iff: "turn_claim (slotTurn p cap busy) \<longleftrightarrow> p \<le> cap - int (length (filter alive busy))"
  by (simp add: slotTurn_def)

lemma claimants_card:
  "int (length (filter alive busy)) \<le> cap \<Longrightarrow>
   card {p. 1 \<le> p \<and> turn_claim (slotTurn p cap busy)} + length (filter alive busy) = nat cap"
proof -
  assume le: "int (length (filter alive busy)) \<le> cap"
  have "{p. 1 \<le> p \<and> turn_claim (slotTurn p cap busy)} = {1..cap - int (length (filter alive busy))}"
    by (auto simp: slotTurn_claim_iff)
  with le show ?thesis by simp
qed

text \<open>
  Turns are first come, first served and never oversubscribe: if a waiter may try for a
  slot, so may every waiter before it, and the waiters that may try together with the slots
  that live builds hold make up exactly \<open>cap\<close>.
\<close>

theorem slotTurn_fifo:
  assumes "int (length (filter alive busy)) \<le> cap"
  shows "(\<forall>p q. p \<le> q \<and> turn_claim (slotTurn q cap busy) \<longrightarrow> turn_claim (slotTurn p cap busy)) \<and>
    card {p. 1 \<le> p \<and> turn_claim (slotTurn p cap busy)} + length (filter alive busy) = nat cap"
  using claimants_card [OF assms] by (auto simp: slotTurn_claim_iff)

theorem slotTurn_fifo_witness:
  "card {p. 1 \<le> p \<and> turn_claim (slotTurn p 3 [\<lparr>slot_index = Some 0, alive = True, unresolved = False\<rparr>,
      \<lparr>slot_index = Some 1, alive = False, unresolved = True\<rparr>])} + 1 = 3"
  using slotTurn_fifo [of "[\<lparr>slot_index = Some 0, alive = True, unresolved = False\<rparr>,
      \<lparr>slot_index = Some 1, alive = False, unresolved = True\<rparr>]" 3] by simp

section \<open>Properties of lease grants\<close>

lemma leaseGrant_cases:
  "leaseGrant file root slt kind declared now d =
     (case file of Unreadable \<Rightarrow> GrantUnreadable
      | NoLease \<Rightarrow> GrantTaken (Some (now + d)) kind
      | Lease l \<Rightarrow> if leaseIsExpired l now then GrantTaken (Some (now + d)) kind
          else if holder l = root \<and> slot_or_default l = slt
          then GrantSet l (if declared \<and> kind = Run then js_max (Some (now + d)) (date_parse (expiresAt l)) else Some (now + d))
             (if declared then Declared else kind)
          else GrantHeld l)"
  by (auto simp: leaseGrant_def Let_def split: lease_file.splits)

definition granted :: "'l lease_grant \<Rightarrow> bool" where
  "granted g = (case g of GrantSet _ _ _ \<Rightarrow> True | GrantTaken _ _ \<Rightarrow> True | _ \<Rightarrow> False)"

text \<open>
  A device is granted exactly when its lease file is readable and holds no lease, an
  expired lease, or this workspace's own lease for the same slot; so a workspace never gets a
  device while another workspace's or slot's lease on it runs.
\<close>

theorem leaseGrant_exclusive:
  "granted (leaseGrant file root slt kind declared now d) \<longleftrightarrow>
     (case file of Unreadable \<Rightarrow> False | NoLease \<Rightarrow> True
      | Lease l \<Rightarrow> leaseIsExpired l now \<or> (holder l = root \<and> slot_or_default l = slt))"
  by (auto simp: leaseGrant_cases granted_def split: lease_file.splits)

text \<open>
  A run on a lease its workspace declared never shortens it and never demotes it: the new
  deadline is the later of the old one and the one the run asks for, and the lease stays
  declared.
\<close>

theorem leaseGrant_declared_run:
  assumes "leaseGrant (Lease l) root slt Run True now d = GrantSet l' e k"
    and "date_parse (expiresAt l) = Some old"
  shows "l' = l \<and> k = Declared \<and> (\<exists>new. e = Some new \<and> old \<le> new \<and> now + d \<le> new \<and> (new = old \<or> new = now + d))"
  using assms by (auto simp: leaseGrant_cases js_max_def split: if_splits)

definition sample_lease :: lease_reading where
  "sample_lease = \<lparr>holder = ''/w'', slot = None, token = ''t'', expiresAt = ''2023-11-14T22:13:20.000Z''\<rparr>"

lemma sample_expiry: "date_parse (expiresAt sample_lease) = Some 1700000000000"
  unfolding sample_lease_def by code_simp

theorem leaseGrant_declared_run_witness:
  "\<exists>new. leaseGrant (Lease sample_lease) ''/w'' ''default'' Run True 1699999999000 60000 = GrantSet sample_lease (Some new) Declared \<and>
    1700000000000 \<le> new \<and> 1699999999000 + 60000 \<le> new"
proof -
  have g: "leaseGrant (Lease sample_lease) ''/w'' ''default'' Run True 1699999999000 60000
      = GrantSet sample_lease (Some 1700000059000) Declared"
    by (simp add: leaseGrant_cases leaseIsExpired_def sample_expiry js_max_def) (simp add: sample_lease_def slot_or_default_def)
  show ?thesis using leaseGrant_declared_run [OF g sample_expiry] g by auto
qed

text \<open>
  Raising a lease never lowers its deadline: the run is told the lease is lost exactly
  when the file no longer carries its token, and otherwise the deadline that results is at
  least \<open>now + minMs\<close> and at least the one it had.
\<close>

theorem leaseRaise_monotone:
  "(leaseRaise l tok now minMs = RaiseLost \<longleftrightarrow> (\<forall>x. l = Some x \<longrightarrow> token x \<noteq> tok)) \<and>
   (\<forall>x. leaseRaise l tok now minMs = RaiseKept x \<longrightarrow> l = Some x \<and> js_le (Some (now + minMs)) (date_parse (expiresAt x))) \<and>
   (\<forall>x e. leaseRaise l tok now minMs = RaiseRaised x e \<longrightarrow>
      l = Some x \<and> e = now + minMs \<and> (\<forall>old. date_parse (expiresAt x) = Some old \<longrightarrow> old < e))"
  by (auto simp: leaseRaise_def Let_def split: option.splits if_splits)

theorem leaseRaise_monotone_witness:
  "leaseRaise (Some sample_lease) ''t'' 1700000000000 60000 = RaiseRaised sample_lease 1700000060000 \<and>
   leaseRaise (Some sample_lease) ''u'' 1700000000000 60000 = RaiseLost"
proof -
  have "leaseRaise (Some sample_lease) ''t'' 1700000000000 60000 = RaiseRaised sample_lease 1700000060000"
    by (simp add: leaseRaise_def Let_def sample_expiry) (simp add: sample_lease_def)
  moreover have "leaseRaise (Some sample_lease) ''u'' 1700000000000 60000 = RaiseLost"
    using leaseRaise_monotone [of "Some sample_lease" "''u''" 1700000000000 60000] by (simp add: sample_lease_def)
  ultimately show ?thesis by simp
qed

end
