(* ===== verification/Device_Slots.thy ===== *)
theory Device_Slots
  imports Json_Value
begin

text \<open>
  Device slot names and keys (\<open>packages/stim-cli/src/devices/device-slots.ts\<close>) and the file
  name segments of \<open>packages/stim-cli/src/engine/path-segment.ts\<close>. A workspace has one device
  per platform and slot; the slot key \<open>platform\<close> or \<open>platform:slot\<close> names the pair in
  the workspace state, and \<open>parseDeviceSlotKey\<close> reads it back.
\<close>

datatype slot_error = BadSlot | UnknownPlatform

definition is_alnum :: "char \<Rightarrow> bool" where
  "is_alnum c = (let n = (of_char c :: nat) in
     (48 \<le> n \<and> n \<le> 57) \<or> (65 \<le> n \<and> n \<le> 90) \<or> (97 \<le> n \<and> n \<le> 122))"

definition is_slot_char :: "char \<Rightarrow> bool" where
  "is_slot_char c = (is_alnum c \<or> c = CHR ''_'' \<or> c = CHR ''-'')"

text \<open>The regular expression \<open>^[a-zA-Z0-9][a-zA-Z0-9_-]{0,63}$\<close> and the reserved names.\<close>

definition isDeviceSlot :: "string \<Rightarrow> bool" where
  "isDeviceSlot s = ((case s of [] \<Rightarrow> False | c # cs \<Rightarrow> is_alnum c \<and> length cs \<le> 63 \<and> list_all is_slot_char cs) \<and>
     s \<notin> {''constructor'', ''prototype'', ''__proto__''})"

definition validateDeviceSlot :: "string \<Rightarrow> slot_error + string" where
  "validateDeviceSlot s = (if isDeviceSlot s then Inr s else Inl BadSlot)"

definition deviceSlotKey :: "string \<Rightarrow> string \<Rightarrow> slot_error + string" where
  "deviceSlotKey platform s = (case validateDeviceSlot s of Inl e \<Rightarrow> Inl e | Inr _ \<Rightarrow>
     (if platform \<noteq> ''ios'' \<and> platform \<noteq> ''android'' then Inl UnknownPlatform
      else Inr (if s = ''default'' then platform else platform @ '':'' @ s)))"

text \<open>\<open>deviceSlotKey(...).replace(':', '.')\<close>: the first colon only.\<close>

fun replace_first :: "char \<Rightarrow> char \<Rightarrow> string \<Rightarrow> string" where
  "replace_first a b [] = []"
| "replace_first a b (c # cs) = (if c = a then b # cs else c # replace_first a b cs)"

definition deviceSlotFileKey :: "string \<Rightarrow> string \<Rightarrow> slot_error + string" where
  "deviceSlotFileKey platform s = map_sum id (replace_first CHR '':'' CHR ''.'') (deviceSlotKey platform s)"

definition parseDeviceSlotKey :: "string \<Rightarrow> (string \<times> string) option" where
  "parseDeviceSlotKey key = (case split_at CHR '':'' key of
     [] \<Rightarrow> None
   | platform # rest \<Rightarrow>
      (let s = (case rest of [] \<Rightarrow> ''default'' | x # _ \<Rightarrow> x) in
       if (platform \<noteq> ''ios'' \<and> platform \<noteq> ''android'') \<or> length rest > 1 then None
       else (case deviceSlotKey platform s of Inl _ \<Rightarrow> None | Inr k \<Rightarrow> if key \<noteq> k then None else Some (platform, s))))"

section \<open>File name segments\<close>

definition is_segment_char :: "char \<Rightarrow> bool" where
  "is_segment_char c = (is_alnum c \<or> c = CHR ''.'' \<or> c = CHR ''_'' \<or> c = CHR ''-'')"

text \<open>\<open>replace(/[^A-Za-z0-9._-]+/g, '-')\<close>: each run of other characters becomes one hyphen.\<close>

fun squash :: "bool \<Rightarrow> string \<Rightarrow> string" where
  "squash inrun [] = []"
| "squash inrun (c # cs) = (if is_segment_char c then c # squash False cs
     else if inrun then squash True cs else CHR ''-'' # squash True cs)"

definition segment :: "string \<Rightarrow> string" where
  "segment v = (let s = dropWhile (\<lambda>c. c = CHR ''.'') (squash False v) in if s = [] then ''unknown'' else s)"

section \<open>Slot keys round trip\<close>

lemma isDeviceSlot_chars: "isDeviceSlot s \<Longrightarrow> c \<in> set s \<Longrightarrow> is_slot_char c"
  by (auto simp: isDeviceSlot_def is_slot_char_def list_all_iff split: list.splits)

lemma isDeviceSlot_no_colon: "isDeviceSlot s \<Longrightarrow> CHR '':'' \<notin> set s \<and> CHR ''.'' \<notin> set s"
  using isDeviceSlot_chars [of s "CHR '':''"] isDeviceSlot_chars [of s "CHR ''.''"]
  by (auto simp: is_slot_char_def is_alnum_def)

lemma isDeviceSlot_default [simp]: "isDeviceSlot ''default''"
  by (simp add: isDeviceSlot_def is_slot_char_def is_alnum_def)

lemma deviceSlotKey_Inr:
  "deviceSlotKey platform s = Inr k \<longleftrightarrow> isDeviceSlot s \<and> platform \<in> {''ios'', ''android''} \<and>
     k = (if s = ''default'' then platform else platform @ '':'' @ s)"
  by (auto simp: deviceSlotKey_def validateDeviceSlot_def)

lemma parseDeviceSlotKey_key: "deviceSlotKey platform s = Inr k \<Longrightarrow> parseDeviceSlotKey k = Some (platform, s)"
proof -
  assume key: "deviceSlotKey platform s = Inr k"
  then have s: "isDeviceSlot s" and p: "platform \<in> {''ios'', ''android''}"
    and k: "k = (if s = ''default'' then platform else platform @ CHR '':'' # s)"
    by (auto simp: deviceSlotKey_Inr)
  from p have pc: "CHR '':'' \<notin> set platform" by auto
  have "split_at CHR '':'' k = (if s = ''default'' then [platform] else [platform, s])"
    using isDeviceSlot_no_colon [OF s] by (auto simp: k split_at_none [OF pc] split_at_one [OF pc] split_at_none)
  with key p show ?thesis
    by (auto simp: parseDeviceSlotKey_def)
qed

text \<open>
  A slot key names one platform and slot: parsing the key of a valid pair gives the pair
  back, and a key that parses is the key of the pair it parses to. In particular the keys of
  different devices of a workspace never collide.
\<close>

theorem parseDeviceSlotKey_iff:
  "parseDeviceSlotKey k = Some (platform, s) \<longleftrightarrow> deviceSlotKey platform s = Inr k"
  by (auto simp: parseDeviceSlotKey_key)
    (auto simp: parseDeviceSlotKey_def Let_def split: list.splits if_splits sum.splits)

lemma replace_first_none: "a \<notin> set s \<Longrightarrow> replace_first a b s = s"
  by (induction s) auto

lemma replace_first_one: "a \<notin> set s \<Longrightarrow> replace_first a b (s @ a # t) = s @ b # t"
  by (induction s) auto

text \<open>The file form of the key, with a dot for the colon, is one-to-one too.\<close>

lemma deviceSlotFileKey_inj:
  assumes "deviceSlotFileKey p s = Inr k" and "deviceSlotFileKey q t = Inr k"
  shows "p = q \<and> s = t"
proof -
  have form: "isDeviceSlot s \<and> p \<in> {''ios'', ''android''} \<and> k = (if s = ''default'' then p else p @ CHR ''.'' # s)"
    if "deviceSlotFileKey p s = Inr k" for p s k
  proof -
    from that obtain j where j: "deviceSlotKey p s = Inr j" "k = replace_first CHR '':'' CHR ''.'' j"
      by (cases "deviceSlotKey p s") (auto simp: deviceSlotFileKey_def)
    then show ?thesis by (auto simp: deviceSlotKey_Inr replace_first_none replace_first_one)
  qed
  from form [OF assms(1)] form [OF assms(2)] isDeviceSlot_no_colon show ?thesis
    by (auto split: if_splits)
qed

end
