(* ===== verification/Device_Lease.thy ===== *)
theory Device_Lease
  imports Admission Device_Slots "HOL-Library.List_Lexorder" "HOL-Library.Char_ord"
begin

text \<open>
  Device leases (\<open>packages/stim-cli/src/engine/device-lease.ts\<close>). Two stores are kept on disk:
  one lease file per device, which says who holds it, and in each workspace's state the records
  of the leases it took, under the slot key. The state \<open>lease_store\<close> holds both; every
  exported operation of the file is a function on it, in the order of the code: reads, guards,
  and writes. Each operation runs under the workspace's and the device's lock, so it is atomic
  here; the clock value and the fresh random token it draws are arguments.
\<close>

section \<open>Records and files\<close>

datatype lease_platform = Ios | Android

fun platform_text :: "lease_platform \<Rightarrow> string" where
  "platform_text Ios = ''ios''"
| "platform_text Android = ''android''"

definition platform_of_text :: "string \<Rightarrow> lease_platform option" where
  "platform_of_text s = (if s = ''ios'' then Some Ios else if s = ''android'' then Some Android else None)"

record device_lease = lease_reading +
  lease_platform :: lease_platform
  lease_id :: string
  deviceName :: "string option"
  grantedAt :: "string option"

record workspace_lease_record =
  rec_id :: string
  rec_token :: string
  rec_kind :: lease_kind

type_synonym workspace_leases = "(string \<times> workspace_lease_record) list"

record lease_store =
  lease_files :: "(string \<times> file_text) list"
  holder_leases :: "string \<rightharpoonup> json"

definition LEASE_VERSION :: int where "LEASE_VERSION = 1"
definition DEFAULT_LEASE_MS :: int where "DEFAULT_LEASE_MS = 5 * 60 * 1000"
definition MIN_LEASE_MS :: int where "MIN_LEASE_MS = 10 * 1000"
definition MAX_LEASE_MS :: int where "MAX_LEASE_MS = 30 * 60 * 1000"

definition leaseStem :: "string \<Rightarrow> string \<Rightarrow> string" where
  "leaseStem platform did = segment platform @ ''-'' @ segment did"

text \<open>The lease file's name in the \<open>device-locks\<close> directory; a path is the directory and the name.\<close>

definition deviceLeasePath :: "lease_platform \<Rightarrow> string \<Rightarrow> string" where
  "deviceLeasePath platform did = leaseStem (platform_text platform) did @ ''.json''"

section \<open>Reading and writing the records\<close>

text \<open>\<open>text(value)\<close>: a string that is not blank, as it is.\<close>

definition text_of :: "json option \<Rightarrow> string option" where
  "text_of v = (case v of Some (JStr s) \<Rightarrow> (if trim s \<noteq> [] then Some s else None) | _ \<Rightarrow> None)"

definition parseLease :: "file_text option \<Rightarrow> device_lease option" where
  "parseLease raw = (case raw of
     None \<Rightarrow> None
   | Some None \<Rightarrow> None
   | Some (Some entry) \<Rightarrow>
      (if \<not> is_obj entry then None
       else if jfield ''version'' entry \<noteq> Some (JNum LEASE_VERSION) then None
       else (case Option.bind (jstr_field ''platform'' entry) platform_of_text of None \<Rightarrow> None | Some p \<Rightarrow>
        (case (text_of (jfield ''id'' entry), text_of (jfield ''holder'' entry),
               text_of (jfield ''token'' entry), text_of (jfield ''expiresAt'' entry)) of
           (Some did, Some hol, Some tok, Some ex) \<Rightarrow>
             (if date_parse ex = None then None
              else if (case jfield ''slot'' entry of None \<Rightarrow> False | Some (JStr s) \<Rightarrow> \<not> isDeviceSlot s | _ \<Rightarrow> True) then None
              else Some \<lparr>holder = hol, slot = jstr_field ''slot'' entry, token = tok, expiresAt = ex,
                         lease_platform = p, lease_id = did, deviceName = text_of (jfield ''deviceName'' entry),
                         grantedAt = text_of (jfield ''grantedAt'' entry)\<rparr>)
         | _ \<Rightarrow> None))))"

definition opt_json :: "string option \<Rightarrow> json" where
  "opt_json v = (case v of None \<Rightarrow> JNull | Some s \<Rightarrow> JStr s)"

text \<open>The object \<open>JSON.stringify(lease)\<close> writes; an absent slot is left out.\<close>

definition lease_json :: "device_lease \<Rightarrow> json" where
  "lease_json l = JObj ([(''version'', JNum LEASE_VERSION)] @
     (case slot l of None \<Rightarrow> [] | Some s \<Rightarrow> [(''slot'', JStr s)]) @
     [(''platform'', JStr (platform_text (lease_platform l))), (''id'', JStr (lease_id l)),
      (''deviceName'', opt_json (deviceName l)), (''holder'', JStr (holder l)), (''token'', JStr (token l)),
      (''grantedAt'', opt_json (grantedAt l)), (''expiresAt'', JStr (expiresAt l))])"

definition parse_record :: "json \<Rightarrow> workspace_lease_record option" where
  "parse_record entry = (if \<not> is_obj entry \<and> (case entry of JArr _ \<Rightarrow> False | _ \<Rightarrow> True) then None
     else (case (text_of (jfield ''id'' entry), text_of (jfield ''token'' entry)) of
       (Some did, Some tok) \<Rightarrow>
         Some \<lparr>rec_id = did, rec_token = tok, rec_kind = (if jfield ''kind'' entry = Some (JStr ''run'') then Run else Declared)\<rparr>
     | _ \<Rightarrow> None))"

definition parseWorkspaceLeases :: "json option \<Rightarrow> workspace_leases" where
  "parseWorkspaceLeases v = (case v of Some (JObj fs) \<Rightarrow>
      js_map (List.map_filter (\<lambda>(k, e). if parseDeviceSlotKey k = None then None
                                      else map_option (Pair k) (parse_record e)) fs)
    | _ \<Rightarrow> [])"

definition record_json :: "workspace_lease_record \<Rightarrow> json" where
  "record_json r = JObj [(''id'', JStr (rec_id r)), (''token'', JStr (rec_token r)),
     (''kind'', JStr (case rec_kind r of Run \<Rightarrow> ''run'' | Declared \<Rightarrow> ''declared''))]"

definition leases_json :: "workspace_leases \<Rightarrow> json" where
  "leases_json ls = JObj (map (\<lambda>(k, r). (k, record_json r)) ls)"

section \<open>The file operations\<close>

definition readLease :: "lease_store \<Rightarrow> string \<Rightarrow> file_text option" where
  "readLease st name = map_of (lease_files st) name"

definition put_lease :: "lease_store \<Rightarrow> string \<Rightarrow> file_text \<Rightarrow> lease_store" where
  "put_lease st name body = st\<lparr>lease_files := AList.update name body (lease_files st)\<rparr>"

definition removeLease :: "lease_store \<Rightarrow> string \<Rightarrow> lease_store" where
  "removeLease st name = st\<lparr>lease_files := AList.delete name (lease_files st)\<rparr>"

definition listLeaseNames :: "lease_store \<Rightarrow> string list" where
  "listLeaseNames st = map fst (lease_files st)"

definition readHolder :: "lease_store \<Rightarrow> string \<Rightarrow> workspace_leases" where
  "readHolder st root = parseWorkspaceLeases (holder_leases st root)"

definition writeHolder :: "lease_store \<Rightarrow> string \<Rightarrow> workspace_leases \<Rightarrow> lease_store" where
  "writeHolder st root ls =
     (if ls = [] then st\<lparr>holder_leases := (holder_leases st)(root := None)\<rparr>
      else st\<lparr>holder_leases := (holder_leases st)(root \<mapsto> leases_json ls)\<rparr>)"

definition writeLease :: "device_lease \<Rightarrow> lease_store \<Rightarrow> lease_store" where
  "writeLease l st = put_lease st (deviceLeasePath (lease_platform l) (lease_id l)) (Some (lease_json l))"

record lease_file_entry =
  entry_name :: string
  entry_platform :: string
  entry_id :: "string option"
  entry_lease :: "device_lease option"

text \<open>\<open>stem.indexOf('-')\<close> cuts the stem of a file that holds no lease.\<close>

definition lease_entry :: "lease_store \<Rightarrow> string \<Rightarrow> lease_file_entry" where
  "lease_entry st name =
     (let lease = parseLease (readLease st name); stem = take (length name - 5) name; cut = index_of CHR ''-'' stem in
      \<lparr>entry_name = name,
       entry_platform = (case lease of Some l \<Rightarrow> platform_text (lease_platform l)
         | None \<Rightarrow> (case cut of Some i \<Rightarrow> if 0 < i then take i stem else stem | None \<Rightarrow> stem)),
       entry_id = (case lease of Some l \<Rightarrow> Some (lease_id l)
         | None \<Rightarrow> (case cut of Some i \<Rightarrow> if 0 < i then Some (drop (Suc i) stem) else None | None \<Rightarrow> None)),
       entry_lease = lease\<rparr>)"

definition listLeaseFiles :: "lease_store \<Rightarrow> lease_file_entry list" where
  "listLeaseFiles st = map (lease_entry st) (filter (\<lambda>n. suffix ''.json'' n) (sort (listLeaseNames st)))"

text \<open>\<open>parseLeaseDuration\<close>: the expression \<open>^[1-9][0-9]*(s|m)$\<close>, then the bounds.\<close>

datatype duration_error = BadDuration string | DurationOutOfRange string

definition parseLeaseDuration :: "string \<Rightarrow> duration_error + int" where
  "parseLeaseDuration value =
     (let raw = trim value in
      if raw = [] then Inl (BadDuration raw)
      else let ds = butlast raw; u = last raw in
        if ds = [] \<or> \<not> list_all is_digit ds \<or> hd ds = CHR ''0'' \<or> (u \<noteq> CHR ''s'' \<and> u \<noteq> CHR ''m'') then Inl (BadDuration raw)
        else let ms = int (nat_of_digits ds) * (if u = CHR ''s'' then 1000 else 60 * 1000) in
          if ms < MIN_LEASE_MS \<or> ms > MAX_LEASE_MS then Inl (DurationOutOfRange raw) else Inr ms)"

section \<open>Taking, raising and releasing leases\<close>

datatype lease_error = SlotError slot_error | RangeError

text \<open>\<open>new Date(t).toISOString()\<close>, which throws for \<open>NaN\<close> and beyond the range of dates.\<close>

definition iso_string :: "jsnum \<Rightarrow> lease_error + string" where
  "iso_string t = (case t of None \<Rightarrow> Inl RangeError | Some x \<Rightarrow> if \<bar>x\<bar> \<le> time_limit then Inr (to_iso x) else Inl RangeError)"

text \<open>\<open>releaseHeld\<close>; \<open>key\<close> is the slot key of the record's platform and slot.\<close>

definition releaseHeld :: "string \<Rightarrow> lease_platform \<Rightarrow> workspace_lease_record \<Rightarrow> string \<Rightarrow> lease_store \<Rightarrow> device_lease option \<times> lease_store" where
  "releaseHeld root platform r key st =
     (let path = deviceLeasePath platform (rec_id r);
          current = parseLease (readLease st path);
          mine = (case current of None \<Rightarrow> False | Some l \<Rightarrow> token l = rec_token r);
          released = (if mine then current else None);
          st1 = (if mine then removeLease st path else st);
          held = readHolder st1 root;
          st2 = (if map_option rec_token (map_of held key) = Some (rec_token r)
                 then writeHolder st1 root (AList.delete key held) else st1)
      in (released, st2))"

definition releaseByRoot :: "string \<Rightarrow> lease_platform \<Rightarrow> string \<Rightarrow> lease_store \<Rightarrow> device_lease option \<times> lease_store" where
  "releaseByRoot root platform did st =
     (let path = deviceLeasePath platform did; current = parseLease (readLease st path) in
      case current of None \<Rightarrow> (None, st)
      | Some l \<Rightarrow> if holder l \<noteq> root then (None, st) else (current, removeLease st path))"

datatype take_result = Taken device_lease | Set device_lease | Held device_lease | UnreadableAt string

fun is_taken :: "take_result \<Rightarrow> bool" where
  "is_taken (Taken _) = True"
| "is_taken _ = False"

fun result_lease :: "take_result \<Rightarrow> device_lease option" where
  "result_lease (Taken l) = Some l"
| "result_lease (Set l) = Some l"
| "result_lease (Held l) = Some l"
| "result_lease (UnreadableAt _) = None"

definition lease_file_of :: "lease_store \<Rightarrow> string \<Rightarrow> device_lease lease_file" where
  "lease_file_of st path = (case (readLease st path, parseLease (readLease st path)) of
     (None, _) \<Rightarrow> NoLease | (Some _, None) \<Rightarrow> Unreadable | (Some _, Some l) \<Rightarrow> Lease l)"

text \<open>The part of \<open>takeLease\<close> under the device's lock: decide on the lease file as it is now and write it.\<close>

definition take_locked :: "string \<Rightarrow> lease_platform \<Rightarrow> string \<Rightarrow> string \<Rightarrow> string option \<Rightarrow> lease_kind \<Rightarrow> bool \<Rightarrow> int \<Rightarrow> int \<Rightarrow> string \<Rightarrow>
    lease_store \<Rightarrow> (lease_error + take_result \<times> lease_kind option) \<times> lease_store" where
  "take_locked root platform slt did name kind declared now durationMs tok st =
     (let path = deviceLeasePath platform did in
      case leaseGrant (lease_file_of st path) root slt kind declared now durationMs of
        GrantUnreadable \<Rightarrow> (Inr (UnreadableAt path, None), st)
      | GrantHeld l \<Rightarrow> (Inr (Held l, None), st)
      | GrantSet l e k \<Rightarrow> (case iso_string e of Inl err \<Rightarrow> (Inl err, st) | Inr ex \<Rightarrow>
          (let kept = l\<lparr>deviceName := (case name of Some n \<Rightarrow> Some n | None \<Rightarrow> deviceName l), expiresAt := ex\<rparr>
           in (Inr (Set kept, Some k), writeLease kept st)))
      | GrantTaken e k \<Rightarrow> (case iso_string (Some now) of Inl err \<Rightarrow> (Inl err, st) | Inr ga \<Rightarrow>
          (case iso_string e of Inl err \<Rightarrow> (Inl err, st) | Inr ex \<Rightarrow>
            (let l = \<lparr>holder = root, slot = (if slt = ''default'' then None else Some slt), token = tok, expiresAt = ex,
                      lease_platform = platform, lease_id = did, deviceName = name, grantedAt = Some ga\<rparr>
             in (Inr (Taken l, Some k), writeLease l st)))))"

definition release_others :: "string \<Rightarrow> lease_platform \<Rightarrow> string \<Rightarrow> string \<Rightarrow> lease_store \<Rightarrow> lease_store" where
  "release_others root platform slt did st =
     fold (\<lambda>l s. snd (releaseByRoot root platform (lease_id l) s))
       (displacedLeases (platform_text \<circ> lease_platform) lease_id (map entry_lease (listLeaseFiles st))
          root (platform_text platform) slt did) st"

definition takeLease :: "string \<Rightarrow> lease_platform \<Rightarrow> string \<Rightarrow> string \<Rightarrow> string option \<Rightarrow> lease_kind \<Rightarrow> int \<Rightarrow> int \<Rightarrow> string \<Rightarrow>
    lease_store \<Rightarrow> (lease_error + take_result) \<times> lease_store" where
  "takeLease root platform slt did name kind durationMs now tok st =
     (case deviceSlotKey (platform_text platform) slt of Inl e \<Rightarrow> (Inl (SlotError e), st)
      | Inr key \<Rightarrow>
        (let previous = map_of (readHolder st root) key;
             st1 = (case previous of None \<Rightarrow> st
                    | Some p \<Rightarrow> if rec_id p \<noteq> did then snd (releaseHeld root platform p key st) else st);
             st2 = release_others root platform slt did st1;
             declared = (case previous of None \<Rightarrow> False | Some p \<Rightarrow> rec_kind p = Declared \<and> rec_id p = did);
             (res, st3) = take_locked root platform slt did name kind declared now durationMs tok st2
         in case res of
              Inl err \<Rightarrow> (Inl err, st3)
            | Inr (r, recorded) \<Rightarrow>
                (Inr r,
                 case (recorded, r) of
                   (Some k, Taken l) \<Rightarrow> writeHolder st3 root (AList.update key \<lparr>rec_id = did, rec_token = token l, rec_kind = k\<rparr> (readHolder st3 root))
                 | (Some k, Set l) \<Rightarrow> writeHolder st3 root (AList.update key \<lparr>rec_id = did, rec_token = token l, rec_kind = k\<rparr> (readHolder st3 root))
                 | _ \<Rightarrow> st3)))"

datatype raise_result = Raised device_lease | NoRecord | Lost "device_lease option"

definition raiseLease :: "string \<Rightarrow> lease_platform \<Rightarrow> string \<Rightarrow> int \<Rightarrow> int \<Rightarrow> lease_store \<Rightarrow> (lease_error + raise_result) \<times> lease_store" where
  "raiseLease root platform slt minMs now st =
     (case deviceSlotKey (platform_text platform) slt of Inl e \<Rightarrow> (Inl (SlotError e), st)
      | Inr key \<Rightarrow> (case map_of (readHolder st root) key of None \<Rightarrow> (Inr NoRecord, st)
        | Some r \<Rightarrow>
          (let current = parseLease (readLease st (deviceLeasePath platform (rec_id r))) in
           case leaseRaise current (rec_token r) now minMs of
             RaiseLost \<Rightarrow> (Inr (Lost current), st)
           | RaiseKept l \<Rightarrow> (Inr (Raised l), st)
           | RaiseRaised l e \<Rightarrow> (case iso_string (Some e) of Inl err \<Rightarrow> (Inl err, st)
               | Inr ex \<Rightarrow> (let l' = l\<lparr>expiresAt := ex\<rparr> in (Inr (Raised l'), writeLease l' st))))))"

record released_lease =
  rel_platform :: lease_platform
  rel_id :: string
  rel_deviceName :: "string option"
  rel_expiresAt :: string

definition summarize :: "device_lease \<Rightarrow> released_lease" where
  "summarize l = \<lparr>rel_platform = lease_platform l, rel_id = lease_id l, rel_deviceName = deviceName l, rel_expiresAt = expiresAt l\<rparr>"

definition releaseRunLease :: "string \<Rightarrow> lease_platform \<Rightarrow> string \<Rightarrow> lease_store \<Rightarrow> (lease_error + released_lease option) \<times> lease_store" where
  "releaseRunLease root platform slt st =
     (case deviceSlotKey (platform_text platform) slt of Inl e \<Rightarrow> (Inl (SlotError e), st)
      | Inr key \<Rightarrow> (case map_of (readHolder st root) key of None \<Rightarrow> (Inr None, st)
        | Some r \<Rightarrow> (if rec_kind r \<noteq> Run then (Inr None, st)
            else (let (released, st') = releaseHeld root platform r key st in (Inr (map_option summarize released), st')))))"

fun release_records :: "string \<Rightarrow> lease_platform option \<Rightarrow> string option \<Rightarrow> workspace_leases \<Rightarrow> lease_store \<Rightarrow> released_lease list \<times> lease_store" where
  "release_records root pf sf [] st = ([], st)"
| "release_records root pf sf ((name, r) # rs) st =
     (case Option.bind (parseDeviceSlotKey name) (\<lambda>(p, s). map_option (\<lambda>p. (p, s)) (platform_of_text p)) of
        None \<Rightarrow> release_records root pf sf rs st
      | Some (p, s) \<Rightarrow>
          (if (pf \<noteq> None \<and> pf \<noteq> Some p) \<or> (sf \<noteq> None \<and> sf \<noteq> Some s) then release_records root pf sf rs st
           else (let (l, st1) = releaseHeld root p r name st; (out, st2) = release_records root pf sf rs st1
                 in ((case l of None \<Rightarrow> out | Some l \<Rightarrow> summarize l # out), st2))))"

fun release_files :: "string \<Rightarrow> lease_platform option \<Rightarrow> string option \<Rightarrow> lease_file_entry list \<Rightarrow> lease_store \<Rightarrow> released_lease list \<times> lease_store" where
  "release_files root pf sf [] st = ([], st)"
| "release_files root pf sf (e # es) st =
     (case entry_lease e of None \<Rightarrow> release_files root pf sf es st
      | Some l \<Rightarrow>
          (if holder l \<noteq> root \<or> (pf \<noteq> None \<and> pf \<noteq> Some (lease_platform l)) \<or> (sf \<noteq> None \<and> sf \<noteq> Some (slot_or_default l))
           then release_files root pf sf es st
           else (let (r, st1) = releaseByRoot root (lease_platform l) (lease_id l) st; (out, st2) = release_files root pf sf es st1
                 in ((case r of None \<Rightarrow> out | Some l \<Rightarrow> summarize l # out), st2))))"

definition releaseWorkspaceLeases :: "string \<Rightarrow> lease_platform option \<Rightarrow> string option \<Rightarrow> lease_store \<Rightarrow> released_lease list \<times> lease_store" where
  "releaseWorkspaceLeases root pf sf st =
     (let (out1, st1) = release_records root pf sf (readHolder st root) st;
          (out2, st2) = release_files root pf sf (listLeaseFiles st1) st1
      in (out1 @ out2, st2))"

definition dropExpiredLease :: "lease_file_entry \<Rightarrow> int \<Rightarrow> lease_store \<Rightarrow> bool \<times> lease_store" where
  "dropExpiredLease e now st = (case parseLease (readLease st (entry_name e)) of None \<Rightarrow> (False, st)
     | Some l \<Rightarrow> if \<not> leaseIsExpired l now then (False, st) else (True, removeLease st (entry_name e)))"

definition removeExpiredLease :: "lease_file_entry \<Rightarrow> int \<Rightarrow> lease_store \<Rightarrow> bool \<times> lease_store" where
  "removeExpiredLease e now st = (case entry_lease e of None \<Rightarrow> (False, st) | Some _ \<Rightarrow> dropExpiredLease e now st)"

end
