(* ===== verification/Lease_Laws.thy ===== *)
theory Lease_Laws
  imports Device_Lease
begin

text \<open>
  Laws of the lease store: what is written is what is read back, what each operation does to
  the lease files and to the workspaces' records, the invariant of the store, and the
  interface \<open>lease_authority\<close> under which no workspace loses a running lease to another.
\<close>

section \<open>What is written is read back\<close>

lemma dropWhile_space_nonempty: "dropWhile P s \<noteq> [] \<longleftrightarrow> (\<exists>c \<in> set s. \<not> P c)"
  by (auto simp: dropWhile_eq_Nil_conv)

lemma trim_nonempty: "trim s \<noteq> [] \<longleftrightarrow> (\<exists>c \<in> set s. \<not> is_space c)"
proof -
  have "trim s \<noteq> [] \<longleftrightarrow> (\<exists>c \<in> set (dropWhile is_space s). \<not> is_space c)"
    by (simp add: trim_def dropWhile_space_nonempty)
  also have "\<dots> \<longleftrightarrow> (\<exists>c \<in> set s. \<not> is_space c)"
    by (metis dropWhile_eq_Nil_conv hd_dropWhile hd_in_set set_dropWhileD)
  finally show ?thesis .
qed

lemma trim_to_iso: "trim (to_iso t) \<noteq> []"
proof -
  have "CHR ''Z'' \<in> set (to_iso t)"
    by (simp add: to_iso_def Let_def iso_rest_def case_prod_beta)
  then show ?thesis
    unfolding trim_nonempty by (rule bexI [rotated]) (simp add: is_space_def)
qed

definition opt_text :: "string option \<Rightarrow> bool" where
  "opt_text v = (case v of None \<Rightarrow> True | Some s \<Rightarrow> trim s \<noteq> [])"

definition lease_ok :: "device_lease \<Rightarrow> bool" where
  "lease_ok l \<longleftrightarrow> trim (lease_id l) \<noteq> [] \<and> trim (holder l) \<noteq> [] \<and> trim (token l) \<noteq> [] \<and>
     trim (expiresAt l) \<noteq> [] \<and> date_parse (expiresAt l) \<noteq> None \<and>
     (case slot l of None \<Rightarrow> True | Some s \<Rightarrow> isDeviceSlot s) \<and> opt_text (deviceName l) \<and> opt_text (grantedAt l)"

lemma platform_round_trip [simp]: "platform_of_text (platform_text p) = Some p"
  by (cases p) (simp_all add: platform_of_text_def)

lemma platform_text_inj [simp]: "platform_text p = platform_text q \<longleftrightarrow> p = q"
  by (cases p; cases q) simp_all

lemma platform_of_text_Some: "platform_of_text s = Some p \<Longrightarrow> s = platform_text p"
  by (auto simp: platform_of_text_def split: if_splits)

lemma text_of_opt_json: "opt_text v \<Longrightarrow> text_of (Some (opt_json v)) = v"
  by (auto simp: text_of_def opt_json_def opt_text_def split: option.splits)

lemma parseLease_lease_json:
  assumes "lease_ok l"
  shows "parseLease (Some (Some (lease_json l))) = Some l"
proof -
  have f: "jfield ''version'' (lease_json l) = Some (JNum LEASE_VERSION)"
    "jfield ''platform'' (lease_json l) = Some (JStr (platform_text (lease_platform l)))"
    "jfield ''id'' (lease_json l) = Some (JStr (lease_id l))"
    "jfield ''holder'' (lease_json l) = Some (JStr (holder l))"
    "jfield ''token'' (lease_json l) = Some (JStr (token l))"
    "jfield ''expiresAt'' (lease_json l) = Some (JStr (expiresAt l))"
    "jfield ''deviceName'' (lease_json l) = Some (opt_json (deviceName l))"
    "jfield ''grantedAt'' (lease_json l) = Some (opt_json (grantedAt l))"
    "jfield ''slot'' (lease_json l) = map_option JStr (slot l)"
    by (auto simp: lease_json_def jfield_def split: option.splits)
  have "is_obj (lease_json l)" by (simp add: lease_json_def)
  moreover have "text_of (Some (opt_json (deviceName l))) = deviceName l" "text_of (Some (opt_json (grantedAt l))) = grantedAt l"
    using assms by (simp_all add: lease_ok_def text_of_opt_json)
  moreover have t: "text_of (Some (JStr s)) = Some s" if "trim s \<noteq> []" for s
    using that by (simp add: text_of_def)
  ultimately show ?thesis
    using assms by (auto simp: parseLease_def f jstr_field_def lease_ok_def split: option.splits)
qed

lemma text_of_nonblank: "text_of v = Some s \<Longrightarrow> trim s \<noteq> []"
  by (auto simp: text_of_def split: option.splits json.splits if_splits)

lemma parseLease_ok: "parseLease raw = Some l \<Longrightarrow> lease_ok l"
  by (auto simp: parseLease_def lease_ok_def opt_text_def jstr_field_def text_of_nonblank
      split: option.splits if_splits json.splits dest: text_of_nonblank)

text \<open>The workspace's records.\<close>

definition record_ok :: "workspace_lease_record \<Rightarrow> bool" where
  "record_ok r \<longleftrightarrow> trim (rec_id r) \<noteq> [] \<and> trim (rec_token r) \<noteq> []"

definition records_ok :: "workspace_leases \<Rightarrow> bool" where
  "records_ok ls \<longleftrightarrow> distinct (map fst ls) \<and> (\<forall>(k, r) \<in> set ls. parseDeviceSlotKey k \<noteq> None \<and> record_ok r)"

lemma parse_record_json: "record_ok r \<Longrightarrow> parse_record (record_json r) = Some r"
  by (cases r) (auto simp: parse_record_def record_json_def jfield_def text_of_def record_ok_def split: lease_kind.splits)

lemma parse_record_ok: "parse_record e = Some r \<Longrightarrow> record_ok r"
  by (auto simp: parse_record_def record_ok_def split: if_splits option.splits dest: text_of_nonblank)

lemma parseWorkspaceLeases_json:
  assumes "records_ok ls"
  shows "parseWorkspaceLeases (Some (leases_json ls)) = ls"
proof -
  let ?p = "\<lambda>(k, e). if parseDeviceSlotKey k = None then None else map_option (Pair k) (parse_record e)"
  have "List.map_filter ?p (map (\<lambda>(k, r). (k, record_json r)) ls) = ls"
    using assms by (induction ls) (auto simp: records_ok_def List.map_filter_def parse_record_json)
  with assms show ?thesis
    by (simp add: parseWorkspaceLeases_def leases_json_def js_map_id records_ok_def)
qed

lemma fold_update_set: "set (fold (\<lambda>(k, v) m. AList.update k v m) ps m) \<subseteq> set m \<union> set ps"
proof (induction ps arbitrary: m)
  case (Cons p ps)
  have "set (AList.update k v m) \<subseteq> insert (k, v) (set m)" for k :: 'a and v :: 'b and m
    by (induction m) auto
  with Cons.IH show ?case by (cases p) fastforce
qed simp

lemma parseWorkspaceLeases_ok: "records_ok (parseWorkspaceLeases v)"
proof (cases "\<exists>fs. v = Some (JObj fs)")
  case True
  then obtain fs where v: "v = Some (JObj fs)" by blast
  let ?p = "\<lambda>(k, e). if parseDeviceSlotKey k = None then None else map_option (Pair k) (parse_record e)"
  have "\<forall>(k, r) \<in> set (List.map_filter ?p fs). parseDeviceSlotKey k \<noteq> None \<and> record_ok r"
    by (auto simp: map_filter_set split: if_splits dest: parse_record_ok)
  moreover have "set (js_map (List.map_filter ?p fs)) \<subseteq> set (List.map_filter ?p fs)"
    using fold_update_set [of "List.map_filter ?p fs" "[]"] by (simp add: js_map_def)
  ultimately show ?thesis
    using js_map_distinct [of "List.map_filter ?p fs"] by (auto simp: records_ok_def parseWorkspaceLeases_def v)
next
  case False
  then have "parseWorkspaceLeases v = []"
    by (auto simp: parseWorkspaceLeases_def split: option.splits json.splits)
  then show ?thesis by (simp add: records_ok_def)
qed

section \<open>Reads after writes\<close>

definition lease_at :: "lease_store \<Rightarrow> string \<Rightarrow> device_lease option" where
  "lease_at st name = parseLease (readLease st name)"

definition rec_at :: "lease_store \<Rightarrow> string \<Rightarrow> string \<Rightarrow> workspace_lease_record option" where
  "rec_at st root key = map_of (readHolder st root) key"

lemma lease_at_remove [simp]: "lease_at (removeLease st n) m = (if m = n then None else lease_at st m)"
  by (simp add: lease_at_def readLease_def removeLease_def delete_conv' parseLease_def)

lemma readHolder_remove [simp]: "readHolder (removeLease st n) root = readHolder st root"
  by (simp add: readHolder_def removeLease_def)

lemma lease_at_write:
  "lease_ok l \<Longrightarrow> lease_at (writeLease l st) m =
     (if m = deviceLeasePath (lease_platform l) (lease_id l) then Some l else lease_at st m)"
  by (simp add: lease_at_def readLease_def writeLease_def put_lease_def update_conv' parseLease_lease_json)

lemma readHolder_write [simp]: "readHolder (writeLease l st) root = readHolder st root"
  by (simp add: readHolder_def writeLease_def put_lease_def)

lemma lease_at_writeHolder [simp]: "lease_at (writeHolder st root ls) m = lease_at st m"
  by (simp add: lease_at_def readLease_def writeHolder_def)

lemma readLease_writeHolder [simp]: "readLease (writeHolder st root ls) m = readLease st m"
  by (simp add: readLease_def writeHolder_def)

lemma readHolder_writeHolder:
  "records_ok ls \<Longrightarrow> readHolder (writeHolder st root ls) r = (if r = root then ls else readHolder st r)"
  by (auto simp: readHolder_def writeHolder_def parseWorkspaceLeases_json) (simp add: parseWorkspaceLeases_def)

lemma records_ok_readHolder [simp]: "records_ok (readHolder st root)"
  by (simp add: readHolder_def parseWorkspaceLeases_ok)

lemma records_ok_delete: "records_ok ls \<Longrightarrow> records_ok (AList.delete k ls)"
  unfolding records_ok_def by (auto simp: AList.delete_eq distinct_map_filter)

lemma set_update_subset: "set (AList.update k v ls) \<subseteq> insert (k, v) (set ls)"
  by (induction ls) auto

lemma records_ok_update:
  "records_ok ls \<Longrightarrow> parseDeviceSlotKey k \<noteq> None \<Longrightarrow> record_ok r \<Longrightarrow> records_ok (AList.update k r ls)"
  unfolding records_ok_def using set_update_subset [of k r ls] by (fastforce simp: distinct_update)

section \<open>What the operations do\<close>

text \<open>Releasing only takes away: \<open>st'\<close> has no lease and no record that \<open>st\<close> did not have.\<close>

definition shrinks :: "lease_store \<Rightarrow> lease_store \<Rightarrow> bool" where
  "shrinks st st' \<longleftrightarrow> (\<forall>n l. lease_at st' n = Some l \<longrightarrow> lease_at st n = Some l) \<and>
     (\<forall>root k r. rec_at st' root k = Some r \<longrightarrow> rec_at st root k = Some r)"

lemma shrinks_refl [simp]: "shrinks st st"
  by (simp add: shrinks_def)

lemma shrinks_trans [trans]: "shrinks a b \<Longrightarrow> shrinks b c \<Longrightarrow> shrinks a c"
  by (auto simp: shrinks_def)

lemma releaseHeld_lease_at:
  "lease_at (snd (releaseHeld root p r key st)) n =
     (if n = deviceLeasePath p (rec_id r) \<and> (\<exists>l. lease_at st n = Some l \<and> token l = rec_token r) then None else lease_at st n)"
  by (auto simp: releaseHeld_def Let_def lease_at_def [symmetric] split: option.splits)

lemma releaseHeld_rec_at:
  "rec_at (snd (releaseHeld root p r key st)) rt k =
     (if rt = root \<and> k = key \<and> map_option rec_token (rec_at st root key) = Some (rec_token r) then None else rec_at st rt k)"
  by (auto simp: releaseHeld_def Let_def rec_at_def readHolder_writeHolder records_ok_delete delete_conv' split: option.splits)

lemma releaseHeld_shrinks: "shrinks st (snd (releaseHeld root p r key st))"
  by (auto simp: shrinks_def releaseHeld_lease_at releaseHeld_rec_at split: if_splits)

lemma releaseHeld_fst:
  "fst (releaseHeld root p r key st) =
     (case lease_at st (deviceLeasePath p (rec_id r)) of Some l \<Rightarrow> if token l = rec_token r then Some l else None | None \<Rightarrow> None)"
  by (auto simp: releaseHeld_def Let_def lease_at_def split: option.splits)

lemma releaseByRoot_lease_at:
  "lease_at (snd (releaseByRoot root p did st)) n =
     (if n = deviceLeasePath p did \<and> (\<exists>l. lease_at st n = Some l \<and> holder l = root) then None else lease_at st n)"
  by (auto simp: releaseByRoot_def Let_def lease_at_def [symmetric] split: option.splits)

lemma releaseByRoot_rec_at: "rec_at (snd (releaseByRoot root p did st)) rt k = rec_at st rt k"
  by (auto simp: releaseByRoot_def Let_def rec_at_def split: option.splits)

lemma releaseByRoot_shrinks: "shrinks st (snd (releaseByRoot root p did st))"
  by (auto simp: shrinks_def releaseByRoot_lease_at releaseByRoot_rec_at split: if_splits)

lemma fold_releaseByRoot_lease_at:
  "lease_at (fold (\<lambda>l s. snd (releaseByRoot root p (lease_id l) s)) ls st) n =
     (if (\<exists>l \<in> set ls. n = deviceLeasePath p (lease_id l)) \<and> (\<exists>l. lease_at st n = Some l \<and> holder l = root)
      then None else lease_at st n)"
proof (induction ls arbitrary: st)
  case (Cons x ls)
  show ?case
  proof (cases "n = deviceLeasePath p (lease_id x) \<and> (\<exists>l. lease_at st n = Some l \<and> holder l = root)")
    case True
    then have "lease_at (snd (releaseByRoot root p (lease_id x) st)) n = None"
      by (auto simp: releaseByRoot_lease_at)
    with Cons.IH [of "snd (releaseByRoot root p (lease_id x) st)"] True show ?thesis by auto
  next
    case False
    then have "lease_at (snd (releaseByRoot root p (lease_id x) st)) n = lease_at st n"
      by (auto simp: releaseByRoot_lease_at)
    with Cons.IH [of "snd (releaseByRoot root p (lease_id x) st)"] False show ?thesis by auto
  qed
qed simp

lemma fold_releaseByRoot_rec_at:
  "rec_at (fold (\<lambda>l s. snd (releaseByRoot root p (lease_id l) s)) ls st) rt k = rec_at st rt k"
  by (induction ls arbitrary: st) (simp_all add: releaseByRoot_rec_at)

lemma release_others_rec_at: "rec_at (release_others root p slt did st) rt k = rec_at st rt k"
  by (simp add: release_others_def fold_releaseByRoot_rec_at)

lemma release_others_others:
  "lease_at st n = Some l \<Longrightarrow> holder l \<noteq> root \<Longrightarrow> lease_at (release_others root p slt did st) n = Some l"
  by (simp add: release_others_def fold_releaseByRoot_lease_at)

lemma release_others_shrinks: "shrinks st (release_others root p slt did st)"
  by (auto simp: shrinks_def release_others_rec_at) (auto simp: release_others_def fold_releaseByRoot_lease_at split: if_splits)

text \<open>The lease files listed are exactly those whose name ends in \<open>.json\<close>.\<close>

lemma lease_at_listed:
  "lease_at st n = Some l \<Longrightarrow> suffix ''.json'' n \<Longrightarrow> \<exists>e \<in> set (listLeaseFiles st). entry_name e = n \<and> entry_lease e = Some l"
proof -
  assume l: "lease_at st n = Some l" and n: "suffix ''.json'' n"
  from l have "map_of (lease_files st) n \<noteq> None"
    by (cases "map_of (lease_files st) n") (simp_all add: lease_at_def readLease_def parseLease_def)
  then have "n \<in> set (listLeaseNames st)"
    by (simp add: listLeaseNames_def map_of_eq_None_iff)
  with n have "lease_entry st n \<in> set (listLeaseFiles st)" by (simp add: listLeaseFiles_def)
  moreover have "entry_name (lease_entry st n) = n" "entry_lease (lease_entry st n) = Some l"
    using l by (simp_all add: lease_entry_def Let_def lease_at_def)
  ultimately show ?thesis by blast
qed

lemma listed_lease_at: "e \<in> set (listLeaseFiles st) \<Longrightarrow> entry_lease e = lease_at st (entry_name e)"
  by (auto simp: listLeaseFiles_def lease_entry_def Let_def lease_at_def)

lemma deviceLeasePath_json [simp]: "suffix ''.json'' (deviceLeasePath p did)"
  by (simp add: deviceLeasePath_def suffix_def)

section \<open>The invariant of the store\<close>

text \<open>
  A lease lies in the file of its own device; a token marks one lease; and a workspace's record
  carries the token of a lease only if that workspace holds the lease.
\<close>

definition path_inv :: "lease_store \<Rightarrow> bool" where
  "path_inv st \<longleftrightarrow> (\<forall>n l. lease_at st n = Some l \<longrightarrow> n = deviceLeasePath (lease_platform l) (lease_id l))"

definition token_inv :: "lease_store \<Rightarrow> bool" where
  "token_inv st \<longleftrightarrow> (\<forall>n l m k. lease_at st n = Some l \<longrightarrow> lease_at st m = Some k \<longrightarrow> token l = token k \<longrightarrow> n = m)"

definition owner_inv :: "lease_store \<Rightarrow> bool" where
  "owner_inv st \<longleftrightarrow> (\<forall>root key r n l. rec_at st root key = Some r \<longrightarrow> lease_at st n = Some l \<longrightarrow> token l = rec_token r \<longrightarrow> holder l = root)"

definition lease_inv :: "lease_store \<Rightarrow> bool" where
  "lease_inv st \<longleftrightarrow> path_inv st \<and> token_inv st \<and> owner_inv st"

definition fresh_token :: "string \<Rightarrow> lease_store \<Rightarrow> bool" where
  "fresh_token tok st \<longleftrightarrow> trim tok \<noteq> [] \<and> (\<forall>n l. lease_at st n = Some l \<longrightarrow> token l \<noteq> tok) \<and>
     (\<forall>root key r. rec_at st root key = Some r \<longrightarrow> rec_token r \<noteq> tok)"

lemma lease_invI:
  assumes "\<And>n l. lease_at st n = Some l \<Longrightarrow> n = deviceLeasePath (lease_platform l) (lease_id l)"
    and "\<And>n l m k. lease_at st n = Some l \<Longrightarrow> lease_at st m = Some k \<Longrightarrow> token l = token k \<Longrightarrow> n = m"
    and "\<And>root key r n l. rec_at st root key = Some r \<Longrightarrow> lease_at st n = Some l \<Longrightarrow> token l = rec_token r \<Longrightarrow> holder l = root"
  shows "lease_inv st"
proof -
  have "path_inv st" unfolding path_inv_def using assms(1) by blast
  moreover have "token_inv st" unfolding token_inv_def using assms(2) by blast
  moreover have "owner_inv st" unfolding owner_inv_def using assms(3) by blast
  ultimately show ?thesis by (simp add: lease_inv_def)
qed

lemma lease_inv_path: "lease_inv st \<Longrightarrow> lease_at st n = Some l \<Longrightarrow> n = deviceLeasePath (lease_platform l) (lease_id l)"
  unfolding lease_inv_def path_inv_def by blast

lemma lease_inv_token: "lease_inv st \<Longrightarrow> lease_at st n = Some l \<Longrightarrow> lease_at st m = Some k \<Longrightarrow> token l = token k \<Longrightarrow> n = m"
  unfolding lease_inv_def token_inv_def by blast

lemma lease_inv_owner: "lease_inv st \<Longrightarrow> rec_at st root key = Some r \<Longrightarrow> lease_at st n = Some l \<Longrightarrow> token l = rec_token r \<Longrightarrow> holder l = root"
  unfolding lease_inv_def owner_inv_def by blast

lemma shrinks_lease: "shrinks st st' \<Longrightarrow> lease_at st' n = Some l \<Longrightarrow> lease_at st n = Some l"
  by (simp add: shrinks_def)

lemma shrinks_rec: "shrinks st st' \<Longrightarrow> rec_at st' root k = Some r \<Longrightarrow> rec_at st root k = Some r"
  by (simp add: shrinks_def)

lemma lease_inv_shrinks:
  assumes "lease_inv st" "shrinks st st'"
  shows "lease_inv st'"
proof (rule lease_invI)
  note lease = shrinks_lease [OF assms(2)] and rec = shrinks_rec [OF assms(2)]
  show "lease_at st' n = Some l \<Longrightarrow> n = deviceLeasePath (lease_platform l) (lease_id l)" for n l
    by (rule lease_inv_path [OF assms(1) lease])
  show "lease_at st' n = Some l \<Longrightarrow> lease_at st' m = Some k \<Longrightarrow> token l = token k \<Longrightarrow> n = m" for n l m k
    by (rule lease_inv_token [OF assms(1) lease lease])
  show "rec_at st' root key = Some r \<Longrightarrow> lease_at st' n = Some l \<Longrightarrow> token l = rec_token r \<Longrightarrow> holder l = root" for root key r n l
    by (rule lease_inv_owner [OF assms(1) rec lease])
qed

lemma fresh_shrinks: "fresh_token tok st \<Longrightarrow> shrinks st st' \<Longrightarrow> fresh_token tok st'"
  unfolding fresh_token_def using shrinks_lease shrinks_rec by blast

lemma iso_string_Inr: "iso_string t = Inr s \<longleftrightarrow> (\<exists>x. t = Some x \<and> \<bar>x\<bar> \<le> time_limit \<and> s = to_iso x)"
  by (auto simp: iso_string_def split: option.splits)

lemma iso_string_ok: "iso_string t = Inr s \<Longrightarrow> date_parse s = t \<and> date_parse s \<noteq> None \<and> trim s \<noteq> []"
  by (auto simp: iso_string_Inr date_parse_to_iso trim_to_iso)

lemma rec_at_writeLease [simp]: "rec_at (writeLease l st) root key = rec_at st root key"
  by (simp add: rec_at_def)

text \<open>Changing the deadline, or the name, of a lease in place keeps the invariant.\<close>

lemma lease_at_rewrite:
  assumes "lease_inv st" "lease_at st n = Some l" "lease_ok l'"
    and "lease_platform l' = lease_platform l" "lease_id l' = lease_id l"
  shows "lease_at (writeLease l' st) m = (if m = n then Some l' else lease_at st m)"
  using lease_inv_path [OF assms(1,2)] by (simp add: lease_at_write [OF assms(3)] assms(4,5))

lemma lease_inv_rewrite:
  assumes inv: "lease_inv st" and old: "lease_at st n = Some l" and ok: "lease_ok l'"
    and same: "lease_platform l' = lease_platform l" "lease_id l' = lease_id l" "token l' = token l" "holder l' = holder l"
  shows "lease_inv (writeLease l' st)"
proof (rule lease_invI)
  note at = lease_at_rewrite [OF inv old ok same(1,2)]
  show "m = deviceLeasePath (lease_platform k) (lease_id k)" if "lease_at (writeLease l' st) m = Some k" for m k
    using that same lease_inv_path [OF inv old] lease_inv_path [OF inv, of m k] by (auto simp: at split: if_splits)
  show "m = m'" if "lease_at (writeLease l' st) m = Some k" "lease_at (writeLease l' st) m' = Some k'" "token k = token k'" for m k m' k'
    using that same old lease_inv_token [OF inv, of m _ m'] by (auto simp: at split: if_splits)
  show "holder k = root" if "rec_at (writeLease l' st) root key = Some r" "lease_at (writeLease l' st) m = Some k" "token k = rec_token r" for root key r m k
    using that same old lease_inv_owner [OF inv, of root key r] by (auto simp: at split: if_splits)
qed

lemma lease_inv_new:
  assumes inv: "lease_inv st" and fresh: "fresh_token (token l) st" and ok: "lease_ok l"
  shows "lease_inv (writeLease l st)"
proof (rule lease_invI)
  note at = lease_at_write [OF ok]
  show "m = deviceLeasePath (lease_platform k) (lease_id k)" if "lease_at (writeLease l st) m = Some k" for m k
    using that lease_inv_path [OF inv, of m k] by (auto simp: at split: if_splits)
  show "m = m'" if "lease_at (writeLease l st) m = Some k" "lease_at (writeLease l st) m' = Some k'" "token k = token k'" for m k m' k'
    using that fresh lease_inv_token [OF inv, of m k m' k'] by (auto simp: at fresh_token_def split: if_splits)
  show "holder k = root" if "rec_at (writeLease l st) root key = Some r" "lease_at (writeLease l st) m = Some k" "token k = rec_token r" for root key r m k
    using that fresh lease_inv_owner [OF inv, of root key r m k] by (fastforce simp: at fresh_token_def split: if_splits)
qed

lemma rec_at_writeHolder:
  assumes "parseDeviceSlotKey key \<noteq> None" "record_ok r"
  shows "rec_at (writeHolder st root (AList.update key r (readHolder st root))) rt k =
    (if rt = root \<and> k = key then Some r else rec_at st rt k)"
  using assms by (simp add: rec_at_def readHolder_writeHolder records_ok_update update_conv')

lemma lease_inv_record:
  assumes inv: "lease_inv st" and l: "lease_at st n = Some l" and h: "holder l = root" "rec_token r = token l"
    and ok: "parseDeviceSlotKey key \<noteq> None" "record_ok r"
  shows "lease_inv (writeHolder st root (AList.update key r (readHolder st root)))" (is "lease_inv ?st")
proof (rule lease_invI)
  show "m = deviceLeasePath (lease_platform k) (lease_id k)" if "lease_at ?st m = Some k" for m k
    using that lease_inv_path [OF inv, of m k] by simp
  show "m = m'" if "lease_at ?st m = Some k" "lease_at ?st m' = Some k'" "token k = token k'" for m k m' k'
    using that lease_inv_token [OF inv, of m k m' k'] by simp
  show "holder k = rt" if "rec_at ?st rt ky = Some r'" "lease_at ?st m = Some k" "token k = rec_token r'" for rt ky r' m k
  proof (cases "rt = root \<and> ky = key")
    case True
    with that h have "token k = token l" by (simp add: rec_at_writeHolder [OF ok])
    with that(2) l have "m = n" by (auto dest: lease_inv_token [OF inv])
    with that(2) l h True show ?thesis by simp
  next
    case False
    with that show ?thesis using lease_inv_owner [OF inv, of rt ky r' m k] by (auto simp: rec_at_writeHolder [OF ok])
  qed
qed

section \<open>Taking a lease\<close>

definition new_lease :: "string \<Rightarrow> lease_platform \<Rightarrow> string \<Rightarrow> string \<Rightarrow> string option \<Rightarrow> int \<Rightarrow> string \<Rightarrow> string \<Rightarrow> device_lease" where
  "new_lease root platform slt did name now tok ex =
     \<lparr>holder = root, slot = (if slt = ''default'' then None else Some slt), token = tok, expiresAt = ex,
      lease_platform = platform, lease_id = did, deviceName = name, grantedAt = Some (to_iso now)\<rparr>"

lemma lease_file_of_cases:
  "lease_file_of st path = Lease l \<longleftrightarrow> lease_at st path = Some l"
  "lease_file_of st path = NoLease \<longleftrightarrow> readLease st path = None"
  by (auto simp: lease_file_of_def lease_at_def parseLease_def split: option.splits)

text \<open>What the locked part can do, one case per branch of the grant.\<close>

lemma take_locked_taken:
  assumes "leaseGrant (lease_file_of st (deviceLeasePath p did)) root slt kind declared now d = GrantTaken (Some (now + d)) kind"
  shows "take_locked root p slt did name kind declared now d tok st =
    (if \<bar>now\<bar> \<le> time_limit \<and> \<bar>now + d\<bar> \<le> time_limit
     then (let l = new_lease root p slt did name now tok (to_iso (now + d)) in (Inr (Taken l, Some kind), writeLease l st))
     else (Inl RangeError, st))"
  by (simp add: take_locked_def assms iso_string_def new_lease_def Let_def)

definition kept_lease :: "string option \<Rightarrow> string \<Rightarrow> device_lease \<Rightarrow> device_lease" where
  "kept_lease name ex l = l\<lparr>deviceName := (case name of Some n \<Rightarrow> Some n | None \<Rightarrow> deviceName l), expiresAt := ex\<rparr>"

lemma take_locked_set:
  assumes "leaseGrant (lease_file_of st (deviceLeasePath p did)) root slt kind declared now d = GrantSet l e k"
  shows "take_locked root p slt did name kind declared now d tok st =
    (case iso_string e of Inl err \<Rightarrow> (Inl err, st)
     | Inr ex \<Rightarrow> (Inr (Set (kept_lease name ex l), Some k), writeLease (kept_lease name ex l) st))"
  by (simp add: take_locked_def assms kept_lease_def Let_def split: sum.splits)

lemma take_locked_split:
  assumes "take_locked root p slt did name kind declared now d tok st = (res, st')"
    and "leaseGrant (lease_file_of st (deviceLeasePath p did)) root slt kind declared now d = GrantTaken (Some (now + d)) kind"
  shows "res = Inl RangeError \<and> st' = st \<or>
    (\<exists>l. res = Inr (Taken l, Some kind) \<and> st' = writeLease l st \<and> l = new_lease root p slt did name now tok (to_iso (now + d)) \<and>
      \<bar>now\<bar> \<le> time_limit \<and> \<bar>now + d\<bar> \<le> time_limit)"
  using assms(1) unfolding take_locked_taken [OF assms(2)] by (simp add: Let_def split: if_splits)

lemma take_locked_cases:
  assumes take: "take_locked root p slt did name kind declared now d tok st = (res, st')"
  obtains (kept) r where "res = Inr (r, None)" "st' = st" "\<not> is_taken r" "\<And>l. r \<noteq> Set l"
      "(\<exists>l. r = Held l \<and> lease_at st (deviceLeasePath p did) = Some l \<and> \<not> leaseIsExpired l now \<and> (holder l \<noteq> root \<or> slot_or_default l \<noteq> slt)) \<or>
       (r = UnreadableAt (deviceLeasePath p did) \<and> lease_file_of st (deviceLeasePath p did) = Unreadable)"
  | (set) l ex k x where "res = Inr (Set (kept_lease name ex l), Some k)" "st' = writeLease (kept_lease name ex l) st"
      "lease_at st (deviceLeasePath p did) = Some l" "\<not> leaseIsExpired l now" "holder l = root" "slot_or_default l = slt"
      "iso_string (Some x) = Inr ex" "now + d \<le> x" "k = (if declared then Declared else kind)"
  | (taken) l where "res = Inr (Taken l, Some kind)" "st' = writeLease l st" "l = new_lease root p slt did name now tok (to_iso (now + d))"
      "\<bar>now\<bar> \<le> time_limit" "\<bar>now + d\<bar> \<le> time_limit"
      "readLease st (deviceLeasePath p did) = None \<or> (\<exists>l. lease_at st (deviceLeasePath p did) = Some l \<and> leaseIsExpired l now)"
  | (failed) e where "res = Inl e" "st' = st"
proof (cases "lease_file_of st (deviceLeasePath p did)")
  case Unreadable
  then show ?thesis using take by (intro kept) (auto simp: take_locked_def leaseGrant_cases)
next
  case NoLease
  then have "leaseGrant (lease_file_of st (deviceLeasePath p did)) root slt kind declared now d = GrantTaken (Some (now + d)) kind"
    by (simp add: leaseGrant_cases)
  from take_locked_split [OF take this] show ?thesis
  proof
    assume "res = Inl RangeError \<and> st' = st"
    then show ?thesis by (intro failed) simp_all
  next
    assume "\<exists>l. res = Inr (Taken l, Some kind) \<and> st' = writeLease l st \<and> l = new_lease root p slt did name now tok (to_iso (now + d)) \<and>
      \<bar>now\<bar> \<le> time_limit \<and> \<bar>now + d\<bar> \<le> time_limit"
    with NoLease show ?thesis by (auto simp only: lease_file_of_cases intro: taken)
  qed
next
  case (Lease l)
  then have at: "lease_at st (deviceLeasePath p did) = Some l" by (simp add: lease_file_of_cases)
  consider (exp) "leaseIsExpired l now" | (held) "\<not> leaseIsExpired l now" "holder l \<noteq> root \<or> slot_or_default l \<noteq> slt"
    | (own) "\<not> leaseIsExpired l now" "holder l = root" "slot_or_default l = slt" by blast
  then show ?thesis
  proof cases
    case exp
    with Lease have "leaseGrant (lease_file_of st (deviceLeasePath p did)) root slt kind declared now d = GrantTaken (Some (now + d)) kind"
      by (simp add: leaseGrant_cases)
    from take_locked_split [OF take this] show ?thesis
    proof
      assume "res = Inl RangeError \<and> st' = st"
      then show ?thesis by (intro failed) simp_all
    next
      assume "\<exists>l. res = Inr (Taken l, Some kind) \<and> st' = writeLease l st \<and> l = new_lease root p slt did name now tok (to_iso (now + d)) \<and>
        \<bar>now\<bar> \<le> time_limit \<and> \<bar>now + d\<bar> \<le> time_limit"
      with exp at show ?thesis using taken by blast
    qed
  next
    case held
    with Lease take at show ?thesis by (intro kept [of "Held l"]) (auto simp: take_locked_def leaseGrant_cases)
  next
    case own
    let ?e = "if declared \<and> kind = Run then js_max (Some (now + d)) (date_parse (expiresAt l)) else Some (now + d)"
    from own Lease have g: "leaseGrant (lease_file_of st (deviceLeasePath p did)) root slt kind declared now d =
        GrantSet l ?e (if declared then Declared else kind)"
      by (simp add: leaseGrant_cases)
    show ?thesis
    proof (cases "iso_string ?e")
      case (Inl e)
      with take show ?thesis unfolding take_locked_set [OF g] by (intro failed) auto
    next
      case (Inr ex)
      then obtain x where x: "?e = Some x" by (auto simp: iso_string_Inr)
      then have le: "now + d \<le> x" by (auto simp: js_max_def split: if_splits option.splits)
      from take have res: "res = Inr (Set (kept_lease name ex l), Some (if declared then Declared else kind))"
        "st' = writeLease (kept_lease name ex l) st"
        unfolding take_locked_set [OF g] Inr by simp_all
      show ?thesis by (rule set [OF res at own Inr [unfolded x] le refl])
    qed
  qed
qed


text \<open>The whole of \<open>takeLease\<close>: what it released first, the locked part, and the record it writes.\<close>

definition take_released :: "string \<Rightarrow> lease_platform \<Rightarrow> string \<Rightarrow> string \<Rightarrow> string \<Rightarrow> lease_store \<Rightarrow> lease_store" where
  "take_released root p slt did key st = release_others root p slt did
     (case rec_at st root key of None \<Rightarrow> st
      | Some r \<Rightarrow> if rec_id r \<noteq> did then snd (releaseHeld root p r key st) else st)"

lemma take_released_shrinks: "shrinks st (take_released root p slt did key st)"
  unfolding take_released_def
  by (rule shrinks_trans [OF _ release_others_shrinks]) (simp split: option.split add: releaseHeld_shrinks)

lemma take_released_others:
  assumes "lease_inv st" "lease_at st n = Some l" "holder l \<noteq> root"
  shows "lease_at (take_released root p slt did key st) n = Some l"
proof -
  have "lease_at (snd (releaseHeld root p r key st)) n = Some l" if "rec_at st root key = Some r" for r
    using lease_inv_owner [OF assms(1) that assms(2)] assms(2,3) by (auto simp: releaseHeld_lease_at)
  then show ?thesis
    unfolding take_released_def using assms(2,3) by (intro release_others_others) (simp_all split: option.split)
qed

lemma displaced_listed:
  "l \<in> set (displacedLeases (platform_text \<circ> lease_platform) lease_id (map entry_lease (listLeaseFiles st)) root (platform_text p) slt did) \<longleftrightarrow>
     (\<exists>e \<in> set (listLeaseFiles st). entry_lease e = Some l) \<and> lease_platform l = p \<and> holder l = root \<and> slot_or_default l = slt \<and> lease_id l \<noteq> did"
  by (auto simp: displacedLeases_def map_filter_set image_iff) metis

lemma release_others_only:
  assumes inv: "lease_inv st" and l: "lease_at (release_others root p slt did st) n = Some l"
    and h: "holder l = root" "lease_platform l = p" "slot_or_default l = slt"
  shows "lease_id l = did"
proof (rule ccontr)
  assume ne: "lease_id l \<noteq> did"
  from l have at: "lease_at st n = Some l" by (rule shrinks_lease [OF release_others_shrinks])
  then have n: "n = deviceLeasePath p (lease_id l)" using lease_inv_path [OF inv at] h by simp
  with lease_at_listed [OF at] h ne have "l \<in> set (displacedLeases (platform_text \<circ> lease_platform) lease_id
      (map entry_lease (listLeaseFiles st)) root (platform_text p) slt did)"
    by (auto simp: displaced_listed)
  with n have "lease_at (release_others root p slt did st) n = None"
    unfolding release_others_def fold_releaseByRoot_lease_at using at h by (subst if_P) blast+
  with l show False by simp
qed

lemma takeLease_key:
  assumes "deviceSlotKey (platform_text p) slt = Inr key"
  shows "takeLease root p slt did name kind d now tok st =
    (let (res, st3) = take_locked root p slt did name kind
       (case rec_at st root key of None \<Rightarrow> False | Some r \<Rightarrow> rec_kind r = Declared \<and> rec_id r = did) now d tok
       (take_released root p slt did key st)
     in case res of Inl err \<Rightarrow> (Inl err, st3)
        | Inr (r, recorded) \<Rightarrow> (Inr r,
           case (recorded, r) of
             (Some k, Taken l) \<Rightarrow> writeHolder st3 root (AList.update key \<lparr>rec_id = did, rec_token = token l, rec_kind = k\<rparr> (readHolder st3 root))
           | (Some k, Set l) \<Rightarrow> writeHolder st3 root (AList.update key \<lparr>rec_id = did, rec_token = token l, rec_kind = k\<rparr> (readHolder st3 root))
           | _ \<Rightarrow> st3))"
  by (simp add: takeLease_def assms Let_def take_released_def rec_at_def cong: option.case_cong)

end
