(* ===== verification/Lease_Authority.thy ===== *)
theory Lease_Authority
  imports Lease_Laws
begin

text \<open>
  The contract of the lease store as its clients rely on it (\<open>engine/device-lease.ts\<close>): a
  workspace that holds an unexpired lease keeps it, whatever the other workspaces do, until it
  gives it up or it expires. The locale \<open>lease_authority\<close> states the laws of one step and
  derives the law of a whole history of steps; it is interpreted on the operations of the code.
\<close>

section \<open>Taking a lease, end to end\<close>

lemma kept_lease_ok:
  "lease_ok l \<Longrightarrow> opt_text name \<Longrightarrow> iso_string t = Inr ex \<Longrightarrow> lease_ok (kept_lease name ex l)"
  using iso_string_ok [of t ex] by (auto simp: lease_ok_def kept_lease_def opt_text_def split: option.split)

lemma kept_lease_sel [simp]:
  "lease_platform (kept_lease name ex l) = lease_platform l" "lease_id (kept_lease name ex l) = lease_id l"
  "token (kept_lease name ex l) = token l" "holder (kept_lease name ex l) = holder l" "expiresAt (kept_lease name ex l) = ex"
  "slot_or_default (kept_lease name ex l) = slot_or_default l"
  by (simp_all add: kept_lease_def slot_or_default_def)

lemma new_lease_sel [simp]:
  "lease_platform (new_lease root p slt did name now tok ex) = p" "lease_id (new_lease root p slt did name now tok ex) = did"
  "token (new_lease root p slt did name now tok ex) = tok" "holder (new_lease root p slt did name now tok ex) = root"
  "expiresAt (new_lease root p slt did name now tok ex) = ex"
  "slot_or_default (new_lease root p slt did name now tok ex) = slt"
  by (simp_all add: new_lease_def slot_or_default_def)

definition take_args :: "string \<Rightarrow> string \<Rightarrow> string option \<Rightarrow> string \<Rightarrow> lease_store \<Rightarrow> bool" where
  "take_args root did name tok st \<longleftrightarrow> trim root \<noteq> [] \<and> trim did \<noteq> [] \<and> opt_text name \<and> fresh_token tok st"

lemma new_lease_ok:
  assumes "take_args root did name tok st" "isDeviceSlot slt" "\<bar>now\<bar> \<le> time_limit" "\<bar>x\<bar> \<le> time_limit"
  shows "lease_ok (new_lease root p slt did name now tok (to_iso x))"
  using assms by (auto simp: lease_ok_def new_lease_def take_args_def fresh_token_def date_parse_to_iso trim_to_iso opt_text_def)

lemma lease_at_ok: "lease_at st n = Some l \<Longrightarrow> lease_ok l"
  by (auto simp: lease_at_def parseLease_ok)

text \<open>
  Every way \<open>takeLease\<close> ends: it refuses and only releases, or it ends with a lease \<open>l\<close> of the
  workspace in the device's file and its record beside it.
\<close>

lemma takeLease_cases:
  assumes inv: "lease_inv st" and args: "take_args root did name tok st"
    and take: "takeLease root p slt did name kind d now tok st = (res, st')"
  obtains (refused) "shrinks st st'" "\<And>l. res \<noteq> Inr (Taken l)" "\<And>l. res \<noteq> Inr (Set l)"
      "\<And>n l. lease_at st n = Some l \<Longrightarrow> holder l \<noteq> root \<Longrightarrow> lease_at st' n = Some l"
  | (granted) key l k st2 where "deviceSlotKey (platform_text p) slt = Inr key" "res = Inr (Taken l) \<or> res = Inr (Set l)"
      "st2 = take_released root p slt did key st" "lease_inv st2" "lease_inv (writeLease l st2)" "lease_ok l"
      "st' = writeHolder (writeLease l st2) root (AList.update key \<lparr>rec_id = did, rec_token = token l, rec_kind = k\<rparr> (readHolder (writeLease l st2) root))"
      "holder l = root" "slot_or_default l = slt" "deviceLeasePath (lease_platform l) (lease_id l) = deviceLeasePath p did"
      "\<exists>x. date_parse (expiresAt l) = Some x \<and> now + d \<le> x"
      "\<forall>l. lease_at st2 (deviceLeasePath p did) = Some l \<longrightarrow> leaseIsExpired l now \<or> holder l = root"
proof (cases "deviceSlotKey (platform_text p) slt")
  case (Inl e)
  with take show ?thesis by (intro refused) (auto simp: takeLease_def)
next
  case (Inr key)
  define st2 declared where "st2 = take_released root p slt did key st"
    and "declared = (case rec_at st root key of None \<Rightarrow> False | Some r \<Rightarrow> rec_kind r = Declared \<and> rec_id r = did)"
  obtain r3 st3 where loc: "take_locked root p slt did name kind declared now d tok st2 = (r3, st3)" by fastforce
  have inv2: "lease_inv st2" unfolding st2_def by (rule lease_inv_shrinks [OF inv take_released_shrinks])
  have sh: "shrinks st st2" unfolding st2_def by (rule take_released_shrinks)
  have slt: "isDeviceSlot slt" using Inr by (simp add: deviceSlotKey_Inr)
  have others: "lease_at st2 n = Some l" if "lease_at st n = Some l" "holder l \<noteq> root" for n l
    unfolding st2_def by (rule take_released_others [OF inv that])
  note take' = take [unfolded takeLease_key [OF Inr], folded st2_def declared_def, unfolded loc Let_def prod.case]
  from loc show ?thesis
  proof (cases rule: take_locked_cases)
    case (kept r)
    with take' have "st' = st2" "res = Inr r" by simp_all
    with sh others kept show ?thesis by (intro refused) auto
  next
    case (failed e)
    with take' have "st' = st2" "res = Inl e" by simp_all
    with sh others show ?thesis by (intro refused) auto
  next
    case (set l ex k x)
    have ok: "lease_ok (kept_lease name ex l)"
      using kept_lease_ok [OF lease_at_ok [OF set(3)] _ set(7)] args by (simp add: take_args_def)
    have inv3: "lease_inv (writeLease (kept_lease name ex l) st2)"
      by (rule lease_inv_rewrite [OF inv2 set(3) ok]) simp_all
    show ?thesis
      by (rule granted [OF Inr _ st2_def inv2 inv3 ok])
        (use set take' iso_string_ok [OF set(7)] lease_inv_path [OF inv2 set(3)] in auto)
  next
    case (taken l)
    have ok: "lease_ok l" unfolding taken(3) by (rule new_lease_ok [OF args slt taken(4,5)])
    have fresh: "fresh_token (token l) st2"
      using fresh_shrinks [OF _ sh] args by (simp add: taken(3) take_args_def)
    have free: "\<forall>l. lease_at st2 (deviceLeasePath p did) = Some l \<longrightarrow> leaseIsExpired l now"
      using taken(6) by (auto simp: lease_at_def parseLease_def)
    show ?thesis
      by (rule granted [where k = kind, OF Inr _ st2_def inv2 lease_inv_new [OF inv2 fresh ok] ok])
        (use taken take' free in \<open>simp_all add: date_parse_to_iso\<close>)
  qed
qed


lemma takeLease_inv:
  assumes inv: "lease_inv st" and args: "take_args root did name tok st"
  shows "lease_inv (snd (takeLease root p slt did name kind d now tok st))"
proof -
  obtain res st' where take: "takeLease root p slt did name kind d now tok st = (res, st')" by fastforce
  from inv args take show ?thesis
  proof (cases rule: takeLease_cases)
    case refused
    with inv take show ?thesis by (simp add: lease_inv_shrinks)
  next
    case (granted key l k st2)
    have "lease_at (writeLease l st2) (deviceLeasePath p did) = Some l"
      using granted(6,10) by (simp add: lease_at_write)
    moreover have "parseDeviceSlotKey key \<noteq> None" using parseDeviceSlotKey_key [OF granted(1)] by simp
    moreover have "record_ok \<lparr>rec_id = did, rec_token = token l, rec_kind = k\<rparr>"
      using granted(6) args by (simp add: record_ok_def lease_ok_def take_args_def)
    ultimately have "lease_inv st'"
      unfolding granted(7) by (intro lease_inv_record [OF granted(5) _ granted(8)]) auto
    with take show ?thesis by simp
  qed
qed

lemma takeLease_others:
  assumes inv: "lease_inv st" and args: "take_args root did name tok st"
    and l: "lease_at st n = Some l" "holder l \<noteq> root" "\<not> leaseIsExpired l now"
  shows "lease_at (snd (takeLease root p slt did name kind d now tok st)) n = Some l"
proof -
  obtain res st' where take: "takeLease root p slt did name kind d now tok st = (res, st')" by fastforce
  from inv args take show ?thesis
  proof (cases rule: takeLease_cases)
    case refused
    with l take show ?thesis by simp
  next
    case (granted key g k st2)
    have "lease_at st2 n = Some l" unfolding granted(3) by (rule take_released_others [OF inv l(1,2)])
    moreover with granted(12) l have "n \<noteq> deviceLeasePath p did" by auto
    ultimately show ?thesis using take granted(6,7,10) by (simp add: lease_at_write)
  qed
qed

lemma takeLease_granted:
  assumes inv: "lease_inv st" and args: "take_args root did name tok st"
    and take: "takeLease root p slt did name kind d now tok st = (Inr r, st')" and r: "r = Taken l \<or> r = Set l"
  shows "lease_at st' (deviceLeasePath p did) = Some l \<and> holder l = root \<and> slot_or_default l = slt \<and>
    (\<exists>x. date_parse (expiresAt l) = Some x \<and> now + d \<le> x) \<and>
    (\<exists>key k. deviceSlotKey (platform_text p) slt = Inr key \<and> rec_at st' root key = Some \<lparr>rec_id = did, rec_token = token l, rec_kind = k\<rparr>) \<and>
    (\<forall>n l'. lease_at st' n = Some l' \<and> holder l' = root \<and> lease_platform l' = p \<and> slot_or_default l' = slt \<longrightarrow> n = deviceLeasePath p did)"
  using inv args take
proof (cases rule: takeLease_cases)
  case refused
  with r show ?thesis by auto
next
  case (granted key g k st2)
  with r have g: "g = l" by auto
  have at: "lease_at st' n = (if n = deviceLeasePath p did then Some l else lease_at st2 n)" for n
    using granted(6,7,10) by (simp add: lease_at_write g)
  have "parseDeviceSlotKey key \<noteq> None" using parseDeviceSlotKey_key [OF granted(1)] by simp
  moreover have "record_ok \<lparr>rec_id = did, rec_token = token l, rec_kind = k\<rparr>"
    using granted(6) args by (simp add: record_ok_def lease_ok_def take_args_def g)
  ultimately have rec: "rec_at st' root key = Some \<lparr>rec_id = did, rec_token = token l, rec_kind = k\<rparr>"
    unfolding granted(7) g by (subst rec_at_writeHolder) simp_all
  have only: "n = deviceLeasePath p did" if "lease_at st' n = Some l'" "holder l' = root" "lease_platform l' = p" "slot_or_default l' = slt" for n l'
  proof (rule ccontr)
    assume ne: "n \<noteq> deviceLeasePath p did"
    with that(1) have st2: "lease_at st2 n = Some l'" by (simp add: at)
    have mid: "lease_inv (case rec_at st root key of None \<Rightarrow> st | Some r \<Rightarrow> if rec_id r \<noteq> did then snd (releaseHeld root p r key st) else st)"
      using inv lease_inv_shrinks [OF inv releaseHeld_shrinks] by (simp split: option.split)
    from release_others_only [OF mid st2 [unfolded granted(3) take_released_def] that(2-4)]
    have "lease_id l' = did" .
    with lease_inv_path [OF granted(4) st2] that(3) ne show False by simp
  qed
  have "lease_at st' (deviceLeasePath p did) = Some l" by (simp add: at)
  with rec only granted(1,8,9,11) show ?thesis unfolding g by blast
qed


section \<open>Raising and releasing\<close>

lemma raiseLease_cases:
  assumes inv: "lease_inv st" and raise: "raiseLease root p slt minMs now st = (res, st')"
  obtains (same) "st' = st"
  | (raised) key r l l' where "rec_at st root key = Some r" "lease_at st (deviceLeasePath p (rec_id r)) = Some l" "token l = rec_token r"
      "holder l = root" "lease_ok l'" "l' = l\<lparr>expiresAt := to_iso (now + minMs)\<rparr>" "res = Inr (Raised l')" "st' = writeLease l' st"
      "\<bar>now + minMs\<bar> \<le> time_limit" "\<not> js_le (Some (now + minMs)) (date_parse (expiresAt l))"
proof (cases "deviceSlotKey (platform_text p) slt")
  case (Inl e)
  with raise show ?thesis by (intro same) (simp add: raiseLease_def)
next
  case (Inr key)
  show ?thesis
  proof (cases "rec_at st root key")
    case None
    with raise Inr show ?thesis by (intro same) (simp add: raiseLease_def rec_at_def)
  next
    case (Some r)
    let ?at = "lease_at st (deviceLeasePath p (rec_id r))"
    have eq: "raiseLease root p slt minMs now st = (case leaseRaise ?at (rec_token r) now minMs of
        RaiseLost \<Rightarrow> (Inr (Lost ?at), st) | RaiseKept l \<Rightarrow> (Inr (Raised l), st)
      | RaiseRaised l e \<Rightarrow> (case iso_string (Some e) of Inl err \<Rightarrow> (Inl err, st)
          | Inr ex \<Rightarrow> (Inr (Raised (l\<lparr>expiresAt := ex\<rparr>)), writeLease (l\<lparr>expiresAt := ex\<rparr>) st)))"
      using Some Inr unfolding raiseLease_def rec_at_def lease_at_def Let_def by simp
    show ?thesis
    proof (cases "\<exists>l e ex. leaseRaise ?at (rec_token r) now minMs = RaiseRaised l e \<and> iso_string (Some e) = Inr ex")
      case True
      then obtain l e ex where ra: "leaseRaise ?at (rec_token r) now minMs = RaiseRaised l e" and ex: "iso_string (Some e) = Inr ex" by blast
      from ra have l: "?at = Some l" "token l = rec_token r" "e = now + minMs" "\<not> js_le (Some (now + minMs)) (date_parse (expiresAt l))"
        by (auto simp: leaseRaise_def Let_def split: option.splits if_splits)
      have "lease_ok (l\<lparr>expiresAt := ex\<rparr>)"
        using lease_at_ok [OF l(1)] iso_string_ok [OF ex] by (simp add: lease_ok_def)
      moreover have "ex = to_iso (now + minMs)" "\<bar>now + minMs\<bar> \<le> time_limit" using ex l(3) by (auto simp: iso_string_Inr)
      ultimately show ?thesis
        using raise unfolding eq ra using ex
        by (intro raised [OF Some l(1,2) lease_inv_owner [OF inv Some l(1,2)]]) (auto simp: l(4))
    next
      case False
      with raise show ?thesis unfolding eq by (intro same) (auto split: lease_raise.splits sum.splits)
    qed
  qed
qed

lemma raiseLease_inv: "lease_inv st \<Longrightarrow> lease_inv (snd (raiseLease root p slt minMs now st))"
proof -
  assume inv: "lease_inv st"
  obtain res st' where raise: "raiseLease root p slt minMs now st = (res, st')" by fastforce
  from inv raise show ?thesis
  proof (cases rule: raiseLease_cases)
    case (raised key r l l')
    have "lease_inv (writeLease l' st)"
      by (rule lease_inv_rewrite [OF inv raised(2,5)]) (simp_all add: raised(6))
    with raise raised show ?thesis by simp
  qed (use inv raise in simp)
qed

lemma raiseLease_others:
  assumes inv: "lease_inv st" and l: "lease_at st n = Some l" "holder l \<noteq> root"
  shows "lease_at (snd (raiseLease root p slt minMs now st)) n = Some l"
proof -
  obtain res st' where raise: "raiseLease root p slt minMs now st = (res, st')" by fastforce
  from inv raise show ?thesis
  proof (cases rule: raiseLease_cases)
    case (raised key r k k')
    have "lease_at (writeLease k' st) n = (if n = deviceLeasePath p (rec_id r) then Some k' else lease_at st n)"
      by (rule lease_at_rewrite [OF inv raised(2,5)]) (simp_all add: raised(6))
    with raise raised l show ?thesis by auto
  qed (use l raise in simp)
qed

definition spares_others :: "string \<Rightarrow> lease_store \<Rightarrow> lease_store \<Rightarrow> bool" where
  "spares_others root st st' \<longleftrightarrow> (\<forall>n l. lease_at st n = Some l \<longrightarrow> holder l \<noteq> root \<longrightarrow> lease_at st' n = Some l) \<and>
     (\<forall>rt k. rt \<noteq> root \<longrightarrow> rec_at st' rt k = rec_at st rt k)"

lemma spares_refl [simp]: "spares_others root st st"
  by (simp add: spares_others_def)

lemma spares_trans: "spares_others root a b \<Longrightarrow> spares_others root b c \<Longrightarrow> spares_others root a c"
  by (simp add: spares_others_def)

lemma releaseHeld_spares:
  assumes "lease_inv st" "rec_at st root key' = Some r"
  shows "spares_others root st (snd (releaseHeld root p r key st))"
  using lease_inv_owner [OF assms] by (auto simp: spares_others_def releaseHeld_lease_at releaseHeld_rec_at)

lemma releaseByRoot_spares: "spares_others root st (snd (releaseByRoot root p did st))"
  by (auto simp: spares_others_def releaseByRoot_lease_at releaseByRoot_rec_at)

lemma releaseRunLease_cases:
  obtains "snd (releaseRunLease root p slt st) = st"
  | key r where "deviceSlotKey (platform_text p) slt = Inr key" "rec_at st root key = Some r" "rec_kind r = Run"
      "snd (releaseRunLease root p slt st) = snd (releaseHeld root p r key st)"
  by (fastforce simp: releaseRunLease_def rec_at_def case_prod_beta Let_def split: sum.splits option.splits if_splits)


lemma releaseRunLease_shrinks: "shrinks st (snd (releaseRunLease root p slt st))"
  by (cases rule: releaseRunLease_cases [of root p slt st]) (simp_all add: releaseHeld_shrinks)

lemma releaseRunLease_spares: "lease_inv st \<Longrightarrow> spares_others root st (snd (releaseRunLease root p slt st))"
  by (cases rule: releaseRunLease_cases [of root p slt st]) (simp_all add: releaseHeld_spares)

text \<open>
  The loop over the records: a record still present when its turn comes is the one listed,
  because a release only deletes.
\<close>

lemma release_records_step:
  "snd (release_records root pf sf ((name, r) # rs) st) = snd (release_records root pf sf rs st) \<or>
   (\<exists>p s. parseDeviceSlotKey name = Some (platform_text p, s) \<and>
      snd (release_records root pf sf ((name, r) # rs) st) = snd (release_records root pf sf rs (snd (releaseHeld root p r name st))))"
  by (auto simp: case_prod_beta Let_def bind_eq_Some_conv split: option.splits dest!: platform_of_text_Some)

lemma release_records_shrinks: "shrinks st (snd (release_records root pf sf rs st))"
proof (induction rs arbitrary: st)
  case (Cons x rs)
  obtain name r where x: "x = (name, r)" by (cases x)
  from release_records_step [of root pf sf name r rs st] show ?case
    unfolding x using Cons.IH shrinks_trans [OF releaseHeld_shrinks Cons.IH] by auto
qed simp

lemma release_records_spares:
  assumes "lease_inv st" "distinct (map fst rs)" "\<forall>(k, r) \<in> set rs. rec_at st root k = Some r"
  shows "spares_others root st (snd (release_records root pf sf rs st))"
  using assms
proof (induction rs arbitrary: st)
  case (Cons x rs)
  obtain name r where x: "x = (name, r)" by (cases x)
  have r: "rec_at st root name = Some r" using Cons.prems(3) by (simp add: x)
  let ?st = "\<lambda>p. snd (releaseHeld root p r name st)"
  have "\<forall>(k, r) \<in> set rs. rec_at (?st p) root k = Some r" for p
    using Cons.prems(2,3) by (force simp: x releaseHeld_rec_at)
  then have "spares_others root st (snd (release_records root pf sf rs (?st p)))" for p
    using Cons.IH [of "?st p"] Cons.prems(1,2) lease_inv_shrinks [OF Cons.prems(1) releaseHeld_shrinks]
      spares_trans [OF releaseHeld_spares [OF Cons.prems(1) r]] by (simp add: x)
  moreover have "spares_others root st (snd (release_records root pf sf rs st))"
    using Cons by (simp add: x)
  ultimately show ?case using release_records_step [of root pf sf name r rs st] unfolding x by metis
qed simp

lemma rec_gone_shrinks: "shrinks st st' \<Longrightarrow> rec_at st root k = None \<Longrightarrow> rec_at st' root k = None"
  by (metis not_None_eq shrinks_rec)

lemma release_records_clears:
  assumes "distinct (map fst rs)" "\<forall>(k, r) \<in> set rs. rec_at st root k = Some r" "(k, r) \<in> set rs"
    and "parseDeviceSlotKey k = Some (platform_text p, s)" "pf = None \<or> pf = Some p" "sf = None \<or> sf = Some s"
  shows "rec_at (snd (release_records root pf sf rs st)) root k = None"
  using assms(1-3)
proof (induction rs arbitrary: st)
  case (Cons x rs)
  obtain name r' where x: "x = (name, r')" by (cases x)
  show ?case
  proof (cases "x = (k, r)")
    case True
    then have "snd (release_records root pf sf (x # rs) st) = snd (release_records root pf sf rs (snd (releaseHeld root p r k st)))"
      using assms(4-6) by (auto simp: case_prod_beta Let_def split: option.splits)
    moreover have "rec_at st root k = Some r" using Cons.prems(2) True by simp
    then have "rec_at (snd (releaseHeld root p r k st)) root k = None" by (simp add: releaseHeld_rec_at)
    ultimately show ?thesis using rec_gone_shrinks [OF release_records_shrinks] by metis
  next
    case False
    with Cons.prems(3) have "(k, r) \<in> set rs" by simp
    moreover have "\<forall>(k, r) \<in> set rs. rec_at (snd (releaseHeld root q r' name st)) root k = Some r" for q
      using Cons.prems(1,2) by (force simp: x releaseHeld_rec_at)
    ultimately have "rec_at (snd (release_records root pf sf rs (snd (releaseHeld root q r' name st)))) root k = None"
      "rec_at (snd (release_records root pf sf rs st)) root k = None" for q
      using Cons.IH Cons.prems(1,2) by (simp_all add: x)
    then show ?thesis using release_records_step [of root pf sf name r' rs st] unfolding x by metis
  qed
qed simp


text \<open>The loop over the lease files.\<close>

lemma release_files_step:
  "snd (release_files root pf sf (e # es) st) = snd (release_files root pf sf es st) \<or>
   (\<exists>l. entry_lease e = Some l \<and> snd (release_files root pf sf (e # es) st) =
      snd (release_files root pf sf es (snd (releaseByRoot root (lease_platform l) (lease_id l) st))))"
  by (auto simp: case_prod_beta Let_def split: option.splits)

lemma release_files_shrinks: "shrinks st (snd (release_files root pf sf es st))"
proof (induction es arbitrary: st)
  case (Cons e es)
  from release_files_step [of root pf sf e es st] show ?case
    using Cons.IH shrinks_trans [OF releaseByRoot_shrinks Cons.IH] by auto
qed simp

lemma release_files_spares: "spares_others root st (snd (release_files root pf sf es st))"
proof (induction es arbitrary: st)
  case (Cons e es)
  from release_files_step [of root pf sf e es st] show ?case
    using Cons.IH spares_trans [OF releaseByRoot_spares Cons.IH] by auto
qed simp

lemma lease_gone_shrinks: "shrinks st st' \<Longrightarrow> lease_at st n = None \<Longrightarrow> lease_at st' n = None"
  by (metis not_None_eq shrinks_lease)

lemma release_files_clears:
  assumes "e \<in> set es" "entry_lease e = Some l" "holder l = root" "pf = None \<or> pf = Some (lease_platform l)"
    "sf = None \<or> sf = Some (slot_or_default l)" "lease_at st (deviceLeasePath (lease_platform l) (lease_id l)) = Some l"
  shows "lease_at (snd (release_files root pf sf es st)) (deviceLeasePath (lease_platform l) (lease_id l)) = None" (is "lease_at _ ?n = None")
  using assms(1,6)
proof (induction es arbitrary: st)
  case (Cons x es)
  let ?rel = "\<lambda>k. snd (releaseByRoot root (lease_platform k) (lease_id k) st)"
  show ?case
  proof (cases "x = e")
    case True
    have "lease_at (?rel l) ?n = None" using Cons.prems(2) assms(3) by (simp add: releaseByRoot_lease_at)
    moreover have "snd (release_files root pf sf (x # es) st) = snd (release_files root pf sf es (?rel l))"
      using assms(2-5) True by (auto simp: case_prod_beta Let_def split: option.splits)
    ultimately show ?thesis using lease_gone_shrinks [OF release_files_shrinks] by metis
  next
    case False
    with Cons.prems(1) have e: "e \<in> set es" by simp
    have "lease_at (snd (release_files root pf sf es (?rel k))) ?n = None" for k
    proof (cases "lease_at (?rel k) ?n")
      case None
      then show ?thesis by (rule lease_gone_shrinks [OF release_files_shrinks])
    next
      case (Some k')
      with Cons.prems(2) have "lease_at (?rel k) ?n = Some l" by (metis releaseByRoot_shrinks shrinks_lease)
      then show ?thesis by (rule Cons.IH [OF e])
    qed
    with Cons.IH [OF e Cons.prems(2)] release_files_step [of root pf sf x es st] show ?thesis by metis
  qed
qed simp

lemma readHolder_rec_at: "(k, r) \<in> set (readHolder st root) \<longleftrightarrow> rec_at st root k = Some r"
  using records_ok_readHolder [of st root] by (simp add: records_ok_def rec_at_def)

lemma readHolder_distinct: "distinct (map fst (readHolder st root))"
  using records_ok_readHolder [of st root] by (simp add: records_ok_def)

lemma releaseWorkspaceLeases_snd:
  "snd (releaseWorkspaceLeases root pf sf st) =
    (let st1 = snd (release_records root pf sf (readHolder st root) st) in snd (release_files root pf sf (listLeaseFiles st1) st1))"
  by (simp add: releaseWorkspaceLeases_def case_prod_beta Let_def)

lemma releaseWorkspaceLeases_shrinks: "shrinks st (snd (releaseWorkspaceLeases root pf sf st))"
  unfolding releaseWorkspaceLeases_snd Let_def by (rule shrinks_trans [OF release_records_shrinks release_files_shrinks])

lemma releaseWorkspaceLeases_spares:
  assumes "lease_inv st"
  shows "spares_others root st (snd (releaseWorkspaceLeases root pf sf st))"
  unfolding releaseWorkspaceLeases_snd Let_def
  by (rule spares_trans [OF release_records_spares [OF assms readHolder_distinct] release_files_spares])
    (auto simp: readHolder_rec_at)

lemma releaseWorkspaceLeases_clears:
  assumes inv: "lease_inv st" and l: "lease_at st n = Some l" "holder l = root"
    and f: "pf = None \<or> pf = Some (lease_platform l)" "sf = None \<or> sf = Some (slot_or_default l)"
  shows "lease_at (snd (releaseWorkspaceLeases root pf sf st)) n = None"
proof -
  define st1 where "st1 = snd (release_records root pf sf (readHolder st root) st)"
  have sh: "shrinks st st1" unfolding st1_def by (rule release_records_shrinks)
  have n: "n = deviceLeasePath (lease_platform l) (lease_id l)" by (rule lease_inv_path [OF inv l(1)])
  show ?thesis
  proof (cases "lease_at st1 n")
    case None
    then show ?thesis unfolding releaseWorkspaceLeases_snd Let_def st1_def [symmetric]
      by (rule lease_gone_shrinks [OF release_files_shrinks])
  next
    case (Some l')
    with l(1) have at: "lease_at st1 n = Some l" using shrinks_lease [OF sh Some] by simp
    then obtain e where "e \<in> set (listLeaseFiles st1)" "entry_lease e = Some l"
      using lease_at_listed [OF at] n by auto
    from release_files_clears [OF this l(2) f at [unfolded n]] show ?thesis
      unfolding releaseWorkspaceLeases_snd Let_def st1_def [symmetric] n .
  qed
qed

lemma removeExpired_lease_at:
  "lease_at (snd (removeExpiredLease e now st)) n = lease_at st n \<or>
   lease_at (snd (removeExpiredLease e now st)) n = None \<and> (\<exists>l. lease_at st n = Some l \<and> leaseIsExpired l now)"
  by (auto simp: removeExpiredLease_def dropExpiredLease_def lease_at_def [symmetric] split: option.split)

lemma removeExpired_rec_at: "rec_at (snd (removeExpiredLease e now st)) rt k = rec_at st rt k"
  by (auto simp: removeExpiredLease_def dropExpiredLease_def rec_at_def split: option.split)

lemma removeExpired_shrinks: "shrinks st (snd (removeExpiredLease e now st))"
  using removeExpired_lease_at [of e now st] by (auto simp: shrinks_def removeExpired_rec_at) (metis option.distinct(1))


section \<open>Histories of operations\<close>

datatype lease_op =
    OpTake string lease_platform string string "string option" lease_kind int int string
  | OpRaise string lease_platform string int int
  | OpReleaseRun string lease_platform string int
  | OpRelease string "lease_platform option" "string option" int
  | OpExpire lease_file_entry int

fun lease_do :: "lease_op \<Rightarrow> lease_store \<Rightarrow> lease_store" where
  "lease_do (OpTake root p slt did name kind d now tok) st = snd (takeLease root p slt did name kind d now tok st)"
| "lease_do (OpRaise root p slt minMs now) st = snd (raiseLease root p slt minMs now st)"
| "lease_do (OpReleaseRun root p slt now) st = snd (releaseRunLease root p slt st)"
| "lease_do (OpRelease root pf sf now) st = snd (releaseWorkspaceLeases root pf sf st)"
| "lease_do (OpExpire e now) st = snd (removeExpiredLease e now st)"

text \<open>The workspace an operation acts for; sweeping expired leases acts for none.\<close>

fun op_actor :: "lease_op \<Rightarrow> string option" where
  "op_actor (OpTake root _ _ _ _ _ _ _ _) = Some root"
| "op_actor (OpRaise root _ _ _ _) = Some root"
| "op_actor (OpReleaseRun root _ _ _) = Some root"
| "op_actor (OpRelease root _ _ _) = Some root"
| "op_actor (OpExpire _ _) = None"

fun op_clock :: "lease_op \<Rightarrow> int" where
  "op_clock (OpTake _ _ _ _ _ _ _ now _) = now"
| "op_clock (OpRaise _ _ _ _ now) = now"
| "op_clock (OpReleaseRun _ _ _ now) = now"
| "op_clock (OpRelease _ _ _ now) = now"
| "op_clock (OpExpire _ now) = now"

text \<open>What the callers guarantee: names that are not blank, and a random token never drawn before.\<close>

fun op_ok :: "lease_op \<Rightarrow> lease_store \<Rightarrow> bool" where
  "op_ok (OpTake root _ _ did name _ _ _ tok) st = take_args root did name tok st"
| "op_ok _ st = True"

fun legal_run :: "('op \<Rightarrow> 's \<Rightarrow> bool) \<Rightarrow> ('op \<Rightarrow> 's \<Rightarrow> 's) \<Rightarrow> 'op list \<Rightarrow> 's \<Rightarrow> bool" where
  "legal_run ok run [] s = True"
| "legal_run ok run (op # ops) s = (ok op s \<and> legal_run ok run ops (run op s))"

text \<open>
  The interface: steps keep the invariant, and a step that does not act for the holder of a
  lease leaves the lease alone while it is live.
\<close>

locale lease_authority =
  fixes lease_of :: "'s \<Rightarrow> 'n \<Rightarrow> 'l option"
    and owner :: "'l \<Rightarrow> 'r"
    and live :: "'l \<Rightarrow> int \<Rightarrow> bool"
    and run :: "'op \<Rightarrow> 's \<Rightarrow> 's"
    and actor :: "'op \<Rightarrow> 'r option"
    and clock :: "'op \<Rightarrow> int"
    and ok :: "'op \<Rightarrow> 's \<Rightarrow> bool"
    and inv :: "'s \<Rightarrow> bool"
  assumes inv_step: "inv s \<Longrightarrow> ok op s \<Longrightarrow> inv (run op s)"
    and keep_step: "inv s \<Longrightarrow> ok op s \<Longrightarrow> lease_of s n = Some l \<Longrightarrow> actor op \<noteq> Some (owner l) \<Longrightarrow> live l (clock op) \<Longrightarrow>
      lease_of (run op s) n = Some l"
begin

lemma inv_history: "inv s \<Longrightarrow> legal_run ok run ops s \<Longrightarrow> inv (fold run ops s)"
  by (induction ops arbitrary: s) (simp_all add: inv_step)

lemma keep_history:
  "inv s \<Longrightarrow> legal_run ok run ops s \<Longrightarrow> lease_of s n = Some l \<Longrightarrow>
   \<forall>op \<in> set ops. actor op \<noteq> Some (owner l) \<and> live l (clock op) \<Longrightarrow> lease_of (fold run ops s) n = Some l"
proof (induction ops arbitrary: s)
  case (Cons op ops)
  then have "inv (run op s)" "lease_of (run op s) n = Some l" by (simp_all add: inv_step keep_step)
  with Cons show ?case by simp
qed simp

end

lemma lease_do_inv: "lease_inv st \<Longrightarrow> op_ok op st \<Longrightarrow> lease_inv (lease_do op st)"
  by (cases op) (simp_all add: takeLease_inv raiseLease_inv
      lease_inv_shrinks [OF _ releaseRunLease_shrinks] lease_inv_shrinks [OF _ releaseWorkspaceLeases_shrinks]
      lease_inv_shrinks [OF _ removeExpired_shrinks])

lemma spares_lease: "spares_others root st st' \<Longrightarrow> lease_at st n = Some l \<Longrightarrow> holder l \<noteq> root \<Longrightarrow> lease_at st' n = Some l"
  by (simp add: spares_others_def)

lemma lease_do_keeps:
  assumes "lease_inv st" "op_ok op st" "lease_at st n = Some l" "op_actor op \<noteq> Some (holder l)" "\<not> leaseIsExpired l (op_clock op)"
  shows "lease_at (lease_do op st) n = Some l"
  using assms
proof (cases op)
  case (OpRelease root pf sf now)
  with assms show ?thesis using spares_lease [OF releaseWorkspaceLeases_spares] by fastforce
next
  case (OpReleaseRun root p slt now)
  with assms show ?thesis using spares_lease [OF releaseRunLease_spares] by fastforce
next
  case (OpExpire e now)
  with assms show ?thesis using removeExpired_lease_at [of e now st n] by auto
qed (auto simp: takeLease_others raiseLease_others)

interpretation leases: lease_authority lease_at "holder :: device_lease \<Rightarrow> string" "\<lambda>l now. \<not> leaseIsExpired l now" lease_do op_actor op_clock op_ok lease_inv
  by unfold_locales (rule lease_do_inv, assumption+, rule lease_do_keeps)


section \<open>Properties\<close>

lemma parsed_platform: "parseDeviceSlotKey k = Some (p, s) \<Longrightarrow> \<exists>q. p = platform_text q"
proof -
  assume "parseDeviceSlotKey k = Some (p, s)"
  then have "p = ''ios'' \<or> p = ''android''"
    by (auto simp: parseDeviceSlotKey_def Let_def deviceSlotKey_Inr split: list.splits if_splits sum.splits)
  then show ?thesis by (metis platform_text.simps)
qed

lemma string_of_nat_leading: "0 < n \<Longrightarrow> hd (string_of_nat n) \<noteq> CHR ''0''"
proof (induction n rule: string_of_nat.induct)
  case (1 n)
  show ?case
  proof (cases "n < 10")
    case True
    with 1 have "(of_char (digit_char n) :: nat) \<noteq> of_char CHR ''0''" by (simp add: of_digit_char)
    with True show ?thesis by (subst string_of_nat.simps) auto
  next
    case False
    with 1 show ?thesis by (subst string_of_nat.simps) (simp add: hd_append)
  qed
qed

lemma dropWhile_hd: "xs = [] \<or> \<not> P (hd xs) \<Longrightarrow> dropWhile P xs = xs"
  by (cases xs) auto

lemma duration_seconds:
  assumes "10 \<le> n" "n \<le> 1800"
  shows "parseLeaseDuration (string_of_nat n @ ''s'') = Inr (int n * 1000)"
proof -
  have "hd (string_of_nat n) \<in> set (string_of_nat n)" by simp
  then have "is_digit (hd (string_of_nat n))" using string_of_nat_digits by blast
  then have "\<not> is_space (hd (string_of_nat n))" by (simp add: is_digit_def is_space_def Let_def)
  then have "trim (string_of_nat n @ ''s'') = string_of_nat n @ ''s''"
    by (simp add: trim_def dropWhile_hd hd_append is_space_def Let_def)
  moreover have "list_all is_digit (string_of_nat n)" using string_of_nat_digits by (simp add: list_all_iff)
  ultimately show ?thesis
    using assms string_of_nat_leading [of n] by (simp add: parseLeaseDuration_def Let_def MIN_LEASE_MS_def MAX_LEASE_MS_def)
qed

definition empty_store :: lease_store where
  "empty_store = \<lparr>lease_files = [], holder_leases = Map.empty\<rparr>"

lemma lease_at_empty [simp]: "lease_at empty_store n = None"
  by (simp add: empty_store_def lease_at_def readLease_def parseLease_def)

lemma rec_at_empty [simp]: "rec_at empty_store root k = None"
  by (simp add: empty_store_def rec_at_def readHolder_def parseWorkspaceLeases_def)

lemma empty_store_inv: "lease_inv empty_store"
  by (rule lease_invI) simp_all

lemma takeLease_fresh:
  assumes inv: "lease_inv st" and args: "take_args root did name tok st" and fresh: "fresh_token t st" "t \<noteq> tok"
    and new: "fst (takeLease root p slt did name kind d now tok st) = Inr (Taken l)" "token l = tok"
  shows "fresh_token t (snd (takeLease root p slt did name kind d now tok st))"
proof -
  obtain res st' where take: "takeLease root p slt did name kind d now tok st = (res, st')" by fastforce
  with new have res: "res = Inr (Taken l)" by simp
  from inv args take show ?thesis
  proof (cases rule: takeLease_cases)
    case refused
    with res show ?thesis by simp
  next
    case (granted key g k st2)
    with res new fresh have g: "token g \<noteq> t" by auto
    have f2: "fresh_token t st2" unfolding granted(3) by (rule fresh_shrinks [OF fresh(1) take_released_shrinks])
    have "parseDeviceSlotKey key \<noteq> None" using parseDeviceSlotKey_key [OF granted(1)] by simp
    moreover have "record_ok \<lparr>rec_id = did, rec_token = token g, rec_kind = k\<rparr>"
      using granted(6) args by (simp add: record_ok_def lease_ok_def take_args_def)
    ultimately have r: "rec_at st' rt kk = (if rt = root \<and> kk = key then Some \<lparr>rec_id = did, rec_token = token g, rec_kind = k\<rparr> else rec_at st2 rt kk)" for rt kk
      unfolding granted(7) by (subst rec_at_writeHolder) simp_all
    have l: "lease_at st' n = (if n = deviceLeasePath (lease_platform g) (lease_id g) then Some g else lease_at st2 n)" for n
      unfolding granted(7) using granted(6) by (simp add: lease_at_write)
    have "fresh_token t st'"
      using f2 g unfolding fresh_token_def r l by (simp split: if_splits)
    with take show ?thesis by simp
  qed
qed

text \<open>
  C3. A workspace that was granted a device keeps it: after \<open>takeLease\<close> grants a lease of
  \<open>d\<close> milliseconds, no sequence of operations that other workspaces (or the expiry sweep)
  perform before the deadline removes or changes the lease in the device's file.
\<close>

theorem lease_not_preempted:
  assumes "lease_inv st" and "take_args root did name tok st"
    and "takeLease root p slt did name kind d now tok st = (Inr r, st')" and "r = Taken l \<or> r = Set l"
    and "legal_run op_ok lease_do ops st'"
    and "\<forall>op \<in> set ops. op_actor op \<noteq> Some root \<and> op_clock op < now + d"
  shows "lease_at (fold lease_do ops st') (deviceLeasePath p did) = Some l"
proof -
  have st': "lease_inv st'" using takeLease_inv [OF assms(1,2), of p slt kind d now] assms(3) by simp
  obtain x where at: "lease_at st' (deviceLeasePath p did) = Some l" "holder l = root" "date_parse (expiresAt l) = Some x" "now + d \<le> x"
    using takeLease_granted [OF assms(1-4)] by blast
  show ?thesis
    by (rule leases.keep_history [OF st' assms(5) at(1)]) (use assms(6) at(2-4) in \<open>auto simp: leaseIsExpired_def\<close>)
qed

definition take_a :: "(lease_error + take_result) \<times> lease_store" where
  "take_a = takeLease ''/a'' Ios ''default'' ''D1'' None Declared 60000 1700000000000 ''t1'' empty_store"

lemma take_a_res: "fst take_a = Inr (Taken (new_lease ''/a'' Ios ''default'' ''D1'' None 1700000000000 ''t1'' (to_iso 1700000060000)))"
  unfolding take_a_def by code_simp

lemma take_a_args: "take_args ''/a'' ''D1'' None ''t1'' empty_store"
  by (simp add: take_args_def fresh_token_def opt_text_def trim_nonempty is_space_def)

theorem lease_not_preempted_witness:
  "lease_at (fold lease_do [OpTake ''/b'' Ios ''default'' ''D1'' None Run 60000 1700000030000 ''t2'', OpRelease ''/b'' None None 1700000031000] (snd take_a))
     (deviceLeasePath Ios ''D1'') = Some (new_lease ''/a'' Ios ''default'' ''D1'' None 1700000000000 ''t1'' (to_iso 1700000060000))"
proof (rule lease_not_preempted [OF empty_store_inv take_a_args])
  show "takeLease ''/a'' Ios ''default'' ''D1'' None Declared 60000 1700000000000 ''t1'' empty_store =
      (Inr (Taken (new_lease ''/a'' Ios ''default'' ''D1'' None 1700000000000 ''t1'' (to_iso 1700000060000))), snd take_a)"
    using take_a_res by (simp add: take_a_def prod_eq_iff)
  have "fresh_token ''t2'' empty_store" by (simp add: fresh_token_def trim_nonempty is_space_def)
  then have "fresh_token ''t2'' (snd take_a)"
    unfolding take_a_def using take_a_res
    by (intro takeLease_fresh [OF empty_store_inv take_a_args]) (auto simp: take_a_def)
  then show "legal_run op_ok lease_do [OpTake ''/b'' Ios ''default'' ''D1'' None Run 60000 1700000030000 ''t2'',
      OpRelease ''/b'' None None 1700000031000] (snd take_a)"
    by (simp add: take_args_def opt_text_def trim_nonempty is_space_def)
qed simp_all

text \<open>
  C10. What a grant leaves behind: the lease is in the device's file, held by the workspace for
  that slot, its deadline at least \<open>now + d\<close>; the workspace's state records it under the slot
  key with the same token; and the workspace holds no other device for that platform and slot.
\<close>

theorem takeLease_effect:
  assumes "lease_inv st" and "take_args root did name tok st"
    and "takeLease root p slt did name kind d now tok st = (Inr r, st')" and "r = Taken l \<or> r = Set l"
  shows "lease_at st' (deviceLeasePath p did) = Some l \<and> holder l = root \<and> slot_or_default l = slt \<and>
    (\<exists>x. date_parse (expiresAt l) = Some x \<and> now + d \<le> x) \<and>
    (\<exists>key k. deviceSlotKey (platform_text p) slt = Inr key \<and> rec_at st' root key = Some \<lparr>rec_id = did, rec_token = token l, rec_kind = k\<rparr>) \<and>
    (\<forall>n l'. lease_at st' n = Some l' \<and> holder l' = root \<and> lease_platform l' = p \<and> slot_or_default l' = slt \<longrightarrow> n = deviceLeasePath p did)"
  by (rule takeLease_granted [OF assms])

theorem takeLease_effect_witness:
  "lease_at (snd take_a) (deviceLeasePath Ios ''D1'') = Some (new_lease ''/a'' Ios ''default'' ''D1'' None 1700000000000 ''t1'' (to_iso 1700000060000))"
proof -
  have "takeLease ''/a'' Ios ''default'' ''D1'' None Declared 60000 1700000000000 ''t1'' empty_store =
      (Inr (Taken (new_lease ''/a'' Ios ''default'' ''D1'' None 1700000000000 ''t1'' (to_iso 1700000060000))), snd take_a)"
    using take_a_res by (simp add: take_a_def prod_eq_iff)
  from takeLease_effect [OF empty_store_inv take_a_args this] show ?thesis by blast
qed

text \<open>
  C11. Every store the operations reach from an empty one satisfies the invariant: each lease
  lies in its own device's file, no two files carry the same token, and a workspace's record
  matches the token of a lease only if that workspace holds it.
\<close>

theorem lease_inv_reachable:
  assumes "legal_run op_ok lease_do ops empty_store"
  shows "lease_inv (fold lease_do ops empty_store)"
  by (rule leases.inv_history [OF empty_store_inv assms])

theorem lease_inv_reachable_witness:
  "lease_inv (fold lease_do [OpTake ''/a'' Ios ''default'' ''D1'' None Declared 60000 1700000000000 ''t1'', OpRelease ''/a'' None None 0] empty_store)"
  by (rule lease_inv_reachable) (simp add: take_a_args)


text \<open>
  \<open>releaseWorkspaceLeases\<close> with no filter gives up everything the workspace holds and
  touches nothing else: no lease file names the workspace afterwards, its state records no
  lease, and every other workspace's leases and records are as they were.
\<close>

theorem releaseWorkspaceLeases_all:
  assumes "lease_inv st"
  shows "(\<forall>n l. lease_at (snd (releaseWorkspaceLeases root None None st)) n = Some l \<longrightarrow> holder l \<noteq> root) \<and>
    readHolder (snd (releaseWorkspaceLeases root None None st)) root = [] \<and>
    spares_others root st (snd (releaseWorkspaceLeases root None None st))"
proof (intro conjI allI impI)
  let ?st' = "snd (releaseWorkspaceLeases root None None st)"
  show "spares_others root st ?st'" by (rule releaseWorkspaceLeases_spares [OF assms])
  show "holder l \<noteq> root" if "lease_at ?st' n = Some l" for n l
    using releaseWorkspaceLeases_clears [OF assms shrinks_lease [OF releaseWorkspaceLeases_shrinks that], of root None None] that by auto
  have "rec_at ?st' root k = None" for k
  proof (cases "rec_at st root k")
    case None
    then show ?thesis by (rule rec_gone_shrinks [OF releaseWorkspaceLeases_shrinks])
  next
    case (Some r)
    then have k: "(k, r) \<in> set (readHolder st root)" by (simp add: readHolder_rec_at)
    with records_ok_readHolder [of st root] obtain p s where "parseDeviceSlotKey k = Some (p, s)" by (fastforce simp: records_ok_def)
    then obtain q where q: "parseDeviceSlotKey k = Some (platform_text q, s)" by (metis parsed_platform)
    have "rec_at (snd (release_records root None None (readHolder st root) st)) root k = None"
      by (rule release_records_clears [OF readHolder_distinct _ k q]) (auto simp: readHolder_rec_at)
    then show ?thesis unfolding releaseWorkspaceLeases_snd Let_def by (rule rec_gone_shrinks [OF release_files_shrinks])
  qed
  then show "readHolder ?st' root = []" unfolding rec_at_def by (metis map_of_eq_empty_iff ext)
qed

theorem releaseWorkspaceLeases_all_witness:
  "readHolder (snd (releaseWorkspaceLeases ''/a'' None None (snd take_a))) ''/a'' = []"
proof -
  have "lease_inv (snd take_a)" unfolding take_a_def by (rule takeLease_inv [OF empty_store_inv take_a_args])
  from releaseWorkspaceLeases_all [OF this] show ?thesis by blast
qed

text \<open>
  A run gives back only what a run took: on a slot whose lease the user declared,
  \<open>releaseRunLease\<close> changes nothing and reports nothing released; on a lease a run took it
  removes the record and, while the file still carries the run's token, the lease file.
\<close>

theorem releaseRunLease_effect:
  assumes "deviceSlotKey (platform_text p) slt = Inr key" and "rec_at st root key = Some r"
  shows "(rec_kind r = Declared \<longrightarrow> releaseRunLease root p slt st = (Inr None, st)) \<and>
    (rec_kind r = Run \<longrightarrow>
      rec_at (snd (releaseRunLease root p slt st)) root key = None \<and>
      (\<forall>l. lease_at st (deviceLeasePath p (rec_id r)) = Some l \<and> token l = rec_token r \<longrightarrow>
         lease_at (snd (releaseRunLease root p slt st)) (deviceLeasePath p (rec_id r)) = None \<and>
         fst (releaseRunLease root p slt st) = Inr (Some (summarize l))) \<and>
      (\<forall>l. lease_at st (deviceLeasePath p (rec_id r)) = Some l \<and> token l \<noteq> rec_token r \<longrightarrow>
         lease_at (snd (releaseRunLease root p slt st)) (deviceLeasePath p (rec_id r)) = Some l \<and>
         fst (releaseRunLease root p slt st) = Inr None))"
proof -
  have eq: "releaseRunLease root p slt st = (if rec_kind r = Declared then (Inr None, st)
      else (Inr (map_option summarize (fst (releaseHeld root p r key st))), snd (releaseHeld root p r key st)))"
    using assms by (cases "rec_kind r") (simp_all add: releaseRunLease_def rec_at_def case_prod_beta Let_def)
  show ?thesis unfolding eq using assms(2)
    by (simp add: releaseHeld_rec_at releaseHeld_lease_at releaseHeld_fst)
qed

definition take_run :: lease_store where
  "take_run = snd (takeLease ''/a'' Android ''default'' ''D1'' None Run 60000 1700000000000 ''t1'' empty_store)"

lemma take_run_rec: "rec_at take_run ''/a'' ''android'' = Some \<lparr>rec_id = ''D1'', rec_token = ''t1'', rec_kind = Run\<rparr>"
  unfolding take_run_def by code_simp

theorem releaseRunLease_effect_witness:
  "rec_at (snd (releaseRunLease ''/a'' Android ''default'' take_run)) ''/a'' ''android'' = None"
proof -
  have "deviceSlotKey (platform_text Android) ''default'' = Inr ''android''" by (simp add: deviceSlotKey_Inr)
  from releaseRunLease_effect [OF this take_run_rec] show ?thesis by simp
qed

text \<open>
  A lease survives its file: what \<open>writeLease\<close> writes for a well-formed lease is read
  back as that lease, and whatever is read from a file is a well-formed lease, so reading,
  writing and reading again gives the same lease.
\<close>

theorem lease_file_round_trip:
  "(lease_ok l \<longrightarrow> parseLease (readLease (writeLease l st) (deviceLeasePath (lease_platform l) (lease_id l))) = Some l) \<and>
   (parseLease raw = Some l \<longrightarrow> lease_ok l \<and> parseLease (Some (Some (lease_json l))) = Some l)"
  using lease_at_write [of l st] parseLease_ok [of raw l] parseLease_lease_json [of l] by (auto simp: lease_at_def)

theorem lease_file_round_trip_witness:
  "parseLease (Some (Some (lease_json (new_lease ''/a'' Ios ''default'' ''D1'' None 0 ''t1'' (to_iso 60000))))) =
     Some (new_lease ''/a'' Ios ''default'' ''D1'' None 0 ''t1'' (to_iso 60000))"
proof -
  let ?l = "new_lease ''/a'' Ios ''default'' ''D1'' None 0 ''t1'' (to_iso 60000)"
  have "lease_ok ?l" by (rule new_lease_ok [OF take_a_args]) (simp_all add: time_limit_def)
  then have "parseLease (readLease (writeLease ?l empty_store) (deviceLeasePath (lease_platform ?l) (lease_id ?l))) = Some ?l"
    using lease_file_round_trip [of ?l empty_store None] by blast
  then show ?thesis using lease_file_round_trip [of ?l empty_store] by blast
qed

text \<open>
  \<open>parseLeaseDuration\<close> accepts only durations between ten seconds and thirty minutes,
  and reads the text of any such whole number of seconds as that duration.
\<close>

theorem parseLeaseDuration_bounds:
  "(parseLeaseDuration v = Inr ms \<longrightarrow> 10000 \<le> ms \<and> ms \<le> 1800000) \<and>
   (10 \<le> n \<and> n \<le> 1800 \<longrightarrow> parseLeaseDuration (string_of_nat n @ ''s'') = Inr (int n * 1000))"
  using duration_seconds [of n]
  by (auto simp: parseLeaseDuration_def Let_def MIN_LEASE_MS_def MAX_LEASE_MS_def split: if_splits)

theorem parseLeaseDuration_bounds_witness:
  "parseLeaseDuration ''300s'' = Inr 300000"
proof -
  have "string_of_nat 300 = ''300''" by code_simp
  with parseLeaseDuration_bounds [of "''300s''" 0 300] show ?thesis by simp
qed

end
