(* ===== verification/Run_Lease.thy ===== *)
theory Run_Lease
  imports Lease_Authority
begin

text \<open>
  The lease a run takes on the device it installs to
  (\<open>packages/stim-cli/src/engine/device-lease-run.ts\<close>): waiting for a device another workspace
  holds, taking or raising the run's lease, and the handle the rest of the run keeps. The code
  polls, and between any two of its steps other processes may change the lease files; so a run of
  the loop is given the list of its polls and rounds, each with what the others did before it and
  with every clock reading the code makes. The list ending is the loop still running, \<open>None\<close>.
  A refusal keeps its code and its lease facts; the wording of messages is left out, and a
  warning is the data it is written from.
\<close>

section \<open>Requests, refusals and warnings\<close>

definition LEASE_STEP_FLOOR_MS :: int where "LEASE_STEP_FLOOR_MS = 60000"
definition DEVICE_WAIT_LINE_MS :: int where "DEVICE_WAIT_LINE_MS = 30000"
definition DEVICE_BUSY :: string where "DEVICE_BUSY = ''STIM_DEVICE_BUSY''"
definition DEVICE_LOST :: string where "DEVICE_LOST = ''STIM_DEVICE_LOST''"

definition leaseStepMs :: "int \<Rightarrow> int" where
  "leaseStepMs boundMs = max LEASE_STEP_FLOOR_MS boundMs"

definition waitFlagConflict :: "string list \<Rightarrow> bool" where
  "waitFlagConflict argv =
     (let named = list_ex (\<lambda>a. a = ''--wait'' \<or> prefix ''--wait='' a) argv in named \<and> ''--no-wait'' \<in> set argv)"

record lease_facts =
  facts_platform :: "string option"
  facts_id :: "string option"
  facts_deviceName :: "string option"
  facts_holder :: "string option"
  facts_expiresAt :: "string option"

definition no_facts :: lease_facts where
  "no_facts = \<lparr>facts_platform = None, facts_id = None, facts_deviceName = None, facts_holder = None, facts_expiresAt = None\<rparr>"

definition facts :: "device_lease \<Rightarrow> lease_facts" where
  "facts l = \<lparr>facts_platform = Some (platform_text (lease_platform l)), facts_id = Some (lease_id l),
     facts_deviceName = deviceName l, facts_holder = Some (holder l), facts_expiresAt = Some (expiresAt l)\<rparr>"

record run_lease_refusal =
  refusal_code :: string
  refusal_lease :: "lease_facts option"

datatype app_id_match = Same | Different | Unknown

text \<open>An empty id is falsy, as a missing one is.\<close>

definition appIdMatch :: "string option \<Rightarrow> string option \<Rightarrow> app_id_match" where
  "appIdMatch ours theirs =
     (if ours = None \<or> ours = Some [] \<or> theirs = None \<or> theirs = Some [] then Unknown
      else if ours = theirs then Same else Different)"

datatype lease_warning = WaitingLine device_lease | BypassLines device_lease app_id_match

definition busyRefusal :: "device_lease \<Rightarrow> run_lease_refusal" where
  "busyRefusal l = \<lparr>refusal_code = DEVICE_BUSY, refusal_lease = Some (facts l)\<rparr>"

definition unreadableRefusal :: run_lease_refusal where
  "unreadableRefusal = \<lparr>refusal_code = DEVICE_BUSY, refusal_lease = Some no_facts\<rparr>"

definition untokenedRefusal :: "device_lease \<Rightarrow> run_lease_refusal" where
  "untokenedRefusal l = \<lparr>refusal_code = DEVICE_BUSY, refusal_lease = Some (facts l)\<rparr>"

definition otherDeviceRefusal :: run_lease_refusal where
  "otherDeviceRefusal = \<lparr>refusal_code = ''STIM_NO_DEVICE'', refusal_lease = None\<rparr>"

definition lostRefusal :: run_lease_refusal where
  "lostRefusal = \<lparr>refusal_code = DEVICE_LOST, refusal_lease = None\<rparr>"

record run_request =
  req_root :: string
  req_platform :: lease_platform
  req_slot :: string
  req_id :: string
  req_deviceName :: "string option"
  req_waitSeconds :: int
  req_noWait :: bool
  req_installBoundMs :: int
  req_appId :: "string option"
  req_holderAppId :: "string \<Rightarrow> string option"

definition req_path :: "run_request \<Rightarrow> string" where
  "req_path q = deviceLeasePath (req_platform q) (req_id q)"

section \<open>The handle of a run's lease\<close>

record run_handle =
  handle_kind :: "lease_kind option"
  handle_expiresAt :: "string option"
  handle_lost :: bool

record run_lease_step =
  step_ok :: bool
  step_holder :: "string option"
  step_expiresAt :: "string option"

definition runLease :: "lease_kind option \<Rightarrow> string option \<Rightarrow> run_handle" where
  "runLease kind ex = \<lparr>handle_kind = kind, handle_expiresAt = ex, handle_lost = False\<rparr>"

definition handle_raise :: "string \<Rightarrow> lease_platform \<Rightarrow> string \<Rightarrow> int \<Rightarrow> int \<Rightarrow> run_handle \<Rightarrow> lease_store \<Rightarrow>
    (lease_error + run_lease_step) \<times> run_handle \<times> lease_store" where
  "handle_raise root platform slt boundMs now h st =
     (if handle_kind h = None \<or> handle_lost h
      then (Inr \<lparr>step_ok = (\<not> handle_lost h), step_holder = None, step_expiresAt = handle_expiresAt h\<rparr>, h, st)
      else (case raiseLease root platform slt (leaseStepMs boundMs) now st of
          (Inl e, st') \<Rightarrow> (Inl e, h, st')
        | (Inr (Raised l), st') \<Rightarrow>
            (Inr \<lparr>step_ok = True, step_holder = Some (holder l), step_expiresAt = Some (expiresAt l)\<rparr>,
             h\<lparr>handle_expiresAt := Some (expiresAt l)\<rparr>, st')
        | (Inr NoRecord, st') \<Rightarrow> (Inr \<lparr>step_ok = False, step_holder = None, step_expiresAt = None\<rparr>, h\<lparr>handle_lost := True\<rparr>, st')
        | (Inr (Lost taken), st') \<Rightarrow>
            (Inr \<lparr>step_ok = False, step_holder = map_option holder taken, step_expiresAt = map_option expiresAt taken\<rparr>,
             h\<lparr>handle_lost := True\<rparr>, st')))"

definition handle_release :: "string \<Rightarrow> lease_platform \<Rightarrow> string \<Rightarrow> run_handle \<Rightarrow> lease_store \<Rightarrow> (lease_error + unit) \<times> lease_store" where
  "handle_release root platform slt h st =
     (if handle_kind h = None then (Inr (), st)
      else (case releaseRunLease root platform slt st of (r, st') \<Rightarrow> (map_sum id (\<lambda>_. ()) r, st')))"

definition handle_facts :: "run_handle \<Rightarrow> (lease_kind \<times> string) option" where
  "handle_facts h = (if handle_lost h then None else
     (case (handle_kind h, handle_expiresAt h) of (Some k, Some ex) \<Rightarrow> Some (k, ex) | _ \<Rightarrow> None))"

section \<open>Waiting for a device\<close>

record wait_poll =
  poll_others :: "lease_store \<Rightarrow> lease_store"
  poll_expiry :: int
  poll_check :: int
  poll_since :: int
  poll_line :: int

datatype lease_wait_outcome = WaitFree | WaitOurs device_lease | WaitBypassed device_lease | WaitRefused run_lease_refusal

text \<open>One turn of the loop: an outcome, or the time of the last waiting line and the warnings of this turn.\<close>

definition wait_turn :: "run_request \<Rightarrow> int \<Rightarrow> wait_poll \<Rightarrow> int option \<Rightarrow> lease_store \<Rightarrow>
    lease_wait_outcome option \<times> lease_warning list \<times> int option" where
  "wait_turn q deadline p lastLine st =
     (let raw = readLease st (req_path q) in
      case parseLease raw of
        None \<Rightarrow> (Some (if raw \<noteq> None then WaitRefused unreadableRefusal else WaitFree), [], lastLine)
      | Some current \<Rightarrow>
          (if leaseIsExpired current (poll_expiry p) then (Some WaitFree, [], lastLine)
           else if holder current = req_root q \<and> slot_or_default current = req_slot q then (Some (WaitOurs current), [], lastLine)
           else if req_noWait q
             then (Some (WaitBypassed current), [BypassLines current (appIdMatch (req_appId q) (req_holderAppId q (holder current)))], lastLine)
           else if deadline \<le> poll_check p then (Some (WaitRefused (busyRefusal current)), [], lastLine)
           else if (case lastLine of None \<Rightarrow> True | Some t \<Rightarrow> DEVICE_WAIT_LINE_MS \<le> poll_since p - t)
             then (None, [WaitingLine current], Some (poll_line p))
           else (None, [], lastLine)))"

fun waitForDevice :: "run_request \<Rightarrow> int \<Rightarrow> wait_poll list \<Rightarrow> int option \<Rightarrow> lease_store \<Rightarrow>
    (lease_wait_outcome \<times> lease_warning list \<times> int option \<times> lease_store) option" where
  "waitForDevice q deadline [] lastLine st = None"
| "waitForDevice q deadline (p # ps) lastLine st =
     (let st = poll_others p st; (out, lines, lastLine) = wait_turn q deadline p lastLine st in
      case out of Some r \<Rightarrow> Some (r, lines, lastLine, st)
      | None \<Rightarrow> map_option (\<lambda>(r, ls, t, s). (r, lines @ ls, t, s)) (waitForDevice q deadline ps lastLine st))"

section \<open>Taking the run's lease\<close>

datatype acquire_result = Leased lease_kind string | Unleased | Refused run_lease_refusal

record acquire_round =
  round_others :: "lease_store \<Rightarrow> lease_store"
  round_expiry :: int
  round_raise_others :: "lease_store \<Rightarrow> lease_store"
  round_raise_now :: int
  round_polls :: "wait_poll list"
  round_take_others :: "lease_store \<Rightarrow> lease_store"
  round_take_now :: int
  round_token :: string

text \<open>
  The first half of a round: raise the lease this workspace already has on the device. \<open>held\<close>
  is the workspace's record of it as read when the command began.
\<close>

definition raise_own :: "run_request \<Rightarrow> workspace_lease_record option \<Rightarrow> acquire_round \<Rightarrow> lease_store \<Rightarrow>
    (lease_error + acquire_result) option \<times> lease_store" where
  "raise_own q held r st =
     (case (parseLease (readLease st (req_path q)), held) of
        (Some current, Some rc) \<Rightarrow>
          (if token current = rec_token rc \<and> (rec_kind rc = Run \<or> \<not> leaseIsExpired current (round_expiry r))
           then (case raiseLease (req_root q) (req_platform q) (req_slot q) (leaseStepMs (req_installBoundMs q)) (round_raise_now r)
                       (round_raise_others r st) of
                   (Inl e, st') \<Rightarrow> (Some (Inl e), st')
                 | (Inr (Raised l), st') \<Rightarrow> (Some (Inr (Leased (rec_kind rc) (expiresAt l))), st')
                 | (Inr _, st') \<Rightarrow> (None, st'))
           else (None, st))
      | _ \<Rightarrow> (None, st))"

text \<open>The second half, when the device is free: take it. Losing the race to another workspace starts the next round.\<close>

definition take_free :: "run_request \<Rightarrow> workspace_lease_record option \<Rightarrow> acquire_round \<Rightarrow> lease_store \<Rightarrow>
    (lease_error + acquire_result) option \<times> lease_store" where
  "take_free q held r st =
     (case takeLease (req_root q) (req_platform q) (req_slot q) (req_id q) (req_deviceName q) Run (leaseStepMs (req_installBoundMs q))
             (round_take_now r) (round_token r) (round_take_others r st) of
        (Inl e, st') \<Rightarrow> (Some (Inl e), st')
      | (Inr (UnreadableAt _), st') \<Rightarrow> (Some (Inr (Refused unreadableRefusal)), st')
      | (Inr (Taken l), st') \<Rightarrow> (Some (Inr (Leased Run (expiresAt l))), st')
      | (Inr (Set l), st') \<Rightarrow> (Some (Inr (Leased (case held of None \<Rightarrow> Run | Some rc \<Rightarrow> rec_kind rc) (expiresAt l))), st')
      | (Inr (Held _), st') \<Rightarrow> (None, st'))"

fun acquire_rounds :: "run_request \<Rightarrow> workspace_lease_record option \<Rightarrow> int \<Rightarrow> acquire_round list \<Rightarrow> int option \<Rightarrow> lease_store \<Rightarrow>
    ((lease_error + acquire_result) \<times> lease_warning list \<times> lease_store) option" where
  "acquire_rounds q held deadline [] lastLine st = None"
| "acquire_rounds q held deadline (r # rs) lastLine st =
     (case raise_own q held r (round_others r st) of
        (Some out, st1) \<Rightarrow> Some (out, [], st1)
      | (None, st1) \<Rightarrow>
          (case waitForDevice q deadline (round_polls r) lastLine st1 of
             None \<Rightarrow> None
           | Some (WaitRefused ref, lines, _, st2) \<Rightarrow> Some (Inr (Refused ref), lines, st2)
           | Some (WaitBypassed _, lines, _, st2) \<Rightarrow> Some (Inr Unleased, lines, st2)
           | Some (WaitOurs l, lines, _, st2) \<Rightarrow> Some (Inr (Refused (untokenedRefusal l)), lines, st2)
           | Some (WaitFree, lines, lastLine', st2) \<Rightarrow>
               (case take_free q held r st2 of
                  (Some out, st3) \<Rightarrow> Some (out, lines, st3)
                | (None, st3) \<Rightarrow> map_option (\<lambda>(out, ls, s). (out, lines @ ls, s)) (acquire_rounds q held deadline rs lastLine' st3))))"

text \<open>The clock is read once for the other device's lease (\<open>now0\<close>) and once for the deadline (\<open>now1\<close>).\<close>

definition acquireRunLease :: "run_request \<Rightarrow> int \<Rightarrow> int \<Rightarrow> acquire_round list \<Rightarrow> lease_store \<Rightarrow>
    ((lease_error + acquire_result) \<times> lease_warning list \<times> lease_store) option" where
  "acquireRunLease q now0 now1 rounds st =
     (case deviceSlotKey (platform_text (req_platform q)) (req_slot q) of
        Inl e \<Rightarrow> Some (Inl (SlotError e), [], st)
      | Inr key \<Rightarrow>
          (let recorded = map_of (readHolder st (req_root q)) key;
               other = (case recorded of None \<Rightarrow> None
                 | Some rc \<Rightarrow> if rec_id rc = req_id q then None else parseLease (readLease st (deviceLeasePath (req_platform q) (rec_id rc))));
               elsewhere = (case (recorded, other) of
                   (Some rc, Some l) \<Rightarrow> rec_id rc \<noteq> req_id q \<and> token l = rec_token rc \<and> \<not> leaseIsExpired l now0
                 | _ \<Rightarrow> False);
               held = (case recorded of Some rc \<Rightarrow> if rec_id rc = req_id q then recorded else None | None \<Rightarrow> None)
           in if elsewhere then Some (Inr (Refused otherDeviceRefusal), [], st)
              else acquire_rounds q held (now1 + req_waitSeconds q * 1000) rounds None st))"

end
