(* ===== verification/Device_Pool.thy ===== *)
theory Device_Pool
  imports Run_Lease
begin

text \<open>
  Picking a device from the pool of connected ones: \<open>selectPoolDevice\<close>, the decision over the
  candidates and their leases (\<open>packages/stim-cli/src/engine/device-lease.ts\<close>), and
  \<open>selectFromPool\<close>, the loop that waits until one is free
  (\<open>packages/stim-cli/src/engine/device-pool.ts\<close>). A round of the loop is given the
  candidates the platform listed, the lease store as it was read, and the clock readings.
\<close>

section \<open>The decision\<close>

record pool_candidate =
  cand_id :: string
  cand_name :: "string option"
  fallback :: bool

record pool_holder =
  ph_id :: string
  ph_holder :: string
  ph_expiresAt :: string

datatype pool_selection = Selected pool_candidate | HeldDisconnected string | AllBusy "pool_holder list" "string list" | NoDevice

text \<open>\<open>toLowerCase\<close> on the first 256 characters.\<close>

definition lower_char :: "char \<Rightarrow> char" where
  "lower_char c = (let n = (of_char c :: nat) in
     if (65 \<le> n \<and> n \<le> 90) \<or> (192 \<le> n \<and> n \<le> 222 \<and> n \<noteq> 215) then char_of (n + 32) else c)"

definition toLowerCase :: "string \<Rightarrow> string" where
  "toLowerCase s = map lower_char s"

definition pool_free :: "(string \<times> device_lease) list \<Rightarrow> int \<Rightarrow> pool_candidate \<Rightarrow> bool" where
  "pool_free byId now c = (case map_of byId (cand_id c) of None \<Rightarrow> True | Some l \<Rightarrow> leaseIsExpired l now)"

definition holder_of :: "device_lease \<Rightarrow> pool_holder" where
  "holder_of l = \<lparr>ph_id = lease_id l, ph_holder = holder l, ph_expiresAt = expiresAt l\<rparr>"

text \<open>The loop over the pool: the first free candidate, or the holders of all of them.\<close>

fun pool_scan :: "(string \<times> device_lease) list \<Rightarrow> int \<Rightarrow> pool_candidate list \<Rightarrow> pool_holder list \<Rightarrow> pool_candidate + pool_holder list" where
  "pool_scan byId now [] holders = Inr holders"
| "pool_scan byId now (c # cs) holders =
     (case map_of byId (cand_id c) of
        None \<Rightarrow> Inl c
      | Some l \<Rightarrow> if leaseIsExpired l now then Inl c else pool_scan byId now cs (holders @ [holder_of l]))"

definition selectPoolDevice :: "pool_candidate list \<Rightarrow> device_lease list \<Rightarrow> string option \<Rightarrow> int \<Rightarrow> pool_selection" where
  "selectPoolDevice candidates leases held now =
     (let ordered = sort_key (\<lambda>c. toLowerCase (cand_id c)) candidates in
      if held \<noteq> None \<and> held \<noteq> Some []
      then (case List.find (\<lambda>c. Some (cand_id c) = held) ordered of Some mine \<Rightarrow> Selected mine | None \<Rightarrow> HeldDisconnected (the held))
      else
        (let preferred = filter (\<lambda>c. \<not> fallback c) ordered;
             pool = (if preferred \<noteq> [] then preferred else ordered) in
         if pool = [] then NoDevice
         else
           (let byId = js_map (map (\<lambda>l. (lease_id l, l)) leases) in
            case pool_scan byId now pool [] of
              Inl c \<Rightarrow> Selected c
            | Inr holders \<Rightarrow> AllBusy holders (map cand_id (filter (\<lambda>c. fallback c \<and> pool_free byId now c) ordered)))))"

section \<open>The loop\<close>

definition heldPoolId :: "string \<Rightarrow> lease_platform \<Rightarrow> int \<Rightarrow> string \<Rightarrow> lease_store \<Rightarrow> lease_error + string option" where
  "heldPoolId root platform now slt st =
     (case deviceSlotKey (platform_text platform) slt of Inl e \<Rightarrow> Inl (SlotError e)
      | Inr key \<Rightarrow> Inr (case map_of (readHolder st root) key of None \<Rightarrow> None
        | Some r \<Rightarrow> (case parseLease (readLease st (deviceLeasePath platform (rec_id r))) of None \<Rightarrow> None
          | Some l \<Rightarrow> if token l \<noteq> rec_token r \<or> leaseIsExpired l now then None else Some (rec_id r))))"

record pool_reading =
  usable :: "pool_candidate list"
  pool_leases :: "device_lease list"
  unreadable :: "string list"

definition read_candidate :: "lease_platform \<Rightarrow> lease_store \<Rightarrow> pool_candidate \<Rightarrow> pool_reading \<Rightarrow> pool_reading" where
  "read_candidate platform st c rd =
     (let path = deviceLeasePath platform (cand_id c); raw = readLease st path; lease = parseLease raw in
      if raw \<noteq> None \<and> lease = None then rd\<lparr>unreadable := unreadable rd @ [path]\<rparr>
      else rd\<lparr>usable := usable rd @ [c],
              pool_leases := (case lease of None \<Rightarrow> pool_leases rd | Some l \<Rightarrow> pool_leases rd @ [l])\<rparr>)"

definition readPool :: "lease_platform \<Rightarrow> pool_candidate list \<Rightarrow> lease_store \<Rightarrow> pool_reading" where
  "readPool platform candidates st =
     fold (read_candidate platform st) candidates \<lparr>usable = [], pool_leases = [], unreadable = []\<rparr>"

definition disconnectedHeldRefusal :: run_lease_refusal where
  "disconnectedHeldRefusal = \<lparr>refusal_code = ''STIM_NO_DEVICE'', refusal_lease = None\<rparr>"

definition noCandidatesRefusal :: run_lease_refusal where
  "noCandidatesRefusal = \<lparr>refusal_code = ''STIM_NO_DEVICE'', refusal_lease = None\<rparr>"

definition poolBusyRefusal :: "pool_holder list \<Rightarrow> device_lease list \<Rightarrow> run_lease_refusal" where
  "poolBusyRefusal holders leases =
     (case holders of [] \<Rightarrow> \<lparr>refusal_code = DEVICE_BUSY, refusal_lease = Some no_facts\<rparr>
      | first # _ \<Rightarrow>
          (let lease = List.find (\<lambda>l. lease_id l = ph_id first) leases in
           \<lparr>refusal_code = DEVICE_BUSY,
            refusal_lease = Some \<lparr>facts_platform = map_option (platform_text \<circ> lease_platform) lease, facts_id = Some (ph_id first),
              facts_deviceName = Option.bind lease deviceName, facts_holder = Some (ph_holder first),
              facts_expiresAt = Some (ph_expiresAt first)\<rparr>\<rparr>))"

record pool_round =
  pr_candidates :: "pool_candidate list"
  pr_store :: lease_store
  pr_now :: int
  pr_check :: int
  pr_since :: int
  pr_line :: int

datatype pool_result = PoolSelected pool_candidate | PoolRefused run_lease_refusal

text \<open>One turn: an answer, or the time of the last waiting line and the holders it named.\<close>

definition pool_turn :: "lease_platform \<Rightarrow> string option \<Rightarrow> int \<Rightarrow> bool \<Rightarrow> pool_round \<Rightarrow> int option \<Rightarrow>
    pool_result option \<times> pool_holder list list \<times> int option" where
  "pool_turn platform held until noWait r lastLine =
     (let rd = readPool platform (pr_candidates r) (pr_store r) in
      case selectPoolDevice (usable rd) (pool_leases rd) held (pr_now r) of
        Selected c \<Rightarrow> (Some (PoolSelected c), [], lastLine)
      | HeldDisconnected _ \<Rightarrow> (Some (PoolRefused disconnectedHeldRefusal), [], lastLine)
      | NoDevice \<Rightarrow> (Some (PoolRefused (if unreadable rd \<noteq> [] then poolBusyRefusal [] (pool_leases rd) else noCandidatesRefusal)), [], lastLine)
      | AllBusy holders spare \<Rightarrow>
          (case (if noWait then Option.bind (case holders of [] \<Rightarrow> None | h # _ \<Rightarrow> Some h)
                   (\<lambda>first. List.find (\<lambda>c. cand_id c = ph_id first) (usable rd)) else None) of
             Some c \<Rightarrow> (Some (PoolSelected c), [], lastLine)
           | None \<Rightarrow>
               (if until \<le> pr_check r then (Some (PoolRefused (poolBusyRefusal holders (pool_leases rd))), [], lastLine)
                else if (case lastLine of None \<Rightarrow> True | Some t \<Rightarrow> DEVICE_WAIT_LINE_MS \<le> pr_since r - t)
                  then (None, [holders], Some (pr_line r))
                else (None, [], lastLine))))"

fun pool_rounds :: "lease_platform \<Rightarrow> string option \<Rightarrow> int \<Rightarrow> bool \<Rightarrow> pool_round list \<Rightarrow> int option \<Rightarrow>
    (pool_result \<times> pool_holder list list) option" where
  "pool_rounds platform held until noWait [] lastLine = None"
| "pool_rounds platform held until noWait (r # rs) lastLine =
     (case pool_turn platform held until noWait r lastLine of
        (Some out, lines, _) \<Rightarrow> Some (out, lines)
      | (None, lines, lastLine') \<Rightarrow> map_option (map_prod id ((@) lines)) (pool_rounds platform held until noWait rs lastLine'))"

text \<open>\<open>now0\<close> and \<open>now1\<close> are the readings before the loop; a deadline the caller gives replaces the second.\<close>

definition selectFromPool :: "string \<Rightarrow> lease_platform \<Rightarrow> string \<Rightarrow> int \<Rightarrow> int option \<Rightarrow> bool \<Rightarrow> int \<Rightarrow> int \<Rightarrow> lease_store \<Rightarrow> pool_round list \<Rightarrow>
    (lease_error + pool_result \<times> pool_holder list list) option" where
  "selectFromPool root platform slt waitSeconds deadline noWait now0 now1 st rounds =
     (case heldPoolId root platform now0 slt st of Inl e \<Rightarrow> Some (Inl e)
      | Inr held \<Rightarrow>
          (let until = (case deadline of Some d \<Rightarrow> d | None \<Rightarrow> now1 + waitSeconds * 1000) in
           map_option Inr (pool_rounds platform held until noWait rounds None)))"

end
