(* ===== verification/Run_Lease_Properties.thy ===== *)
theory Run_Lease_Properties
  imports Run_Lease
begin

text \<open>
  What a run can rely on: the wait for a device ends at its deadline and answers by the lease
  file it read last; a run that was told it is leased has its lease in the device's file, and
  keeps it while other workspaces act; the handle reports a lease only as long as every raise
  of it succeeded.
\<close>

section \<open>One turn of the wait\<close>

text \<open>What an outcome says of the lease file at the poll that gave it.\<close>

definition wait_says :: "run_request \<Rightarrow> int \<Rightarrow> wait_poll \<Rightarrow> lease_store \<Rightarrow> lease_wait_outcome \<Rightarrow> bool" where
  "wait_says q deadline p st out =
     (let live = (\<lambda>l. lease_at st (req_path q) = Some l \<and> \<not> leaseIsExpired l (poll_expiry p));
          ours = (\<lambda>l. holder l = req_root q \<and> slot_or_default l = req_slot q) in
      case out of
        WaitFree \<Rightarrow> readLease st (req_path q) = None \<or> (\<exists>l. lease_at st (req_path q) = Some l \<and> leaseIsExpired l (poll_expiry p))
      | WaitOurs l \<Rightarrow> live l \<and> ours l
      | WaitBypassed l \<Rightarrow> live l \<and> \<not> ours l \<and> req_noWait q
      | WaitRefused ref \<Rightarrow> refusal_code ref = DEVICE_BUSY \<and>
          (lease_file_of st (req_path q) = Unreadable \<and> refusal_lease ref = Some no_facts \<or>
           (\<exists>l. live l \<and> \<not> ours l \<and> \<not> req_noWait q \<and> deadline \<le> poll_check p \<and> refusal_lease ref = Some (facts l))))"

lemma wait_turn_says: "wait_turn q deadline p t0 st = (Some out, ls, t) \<Longrightarrow> wait_says q deadline p st out"
  by (auto simp: wait_turn_def wait_says_def Let_def lease_at_def lease_file_of_def busyRefusal_def unreadableRefusal_def
      split: option.splits if_splits)

lemma wait_turn_waits: "wait_turn q deadline p t0 st = (None, ls, t) \<Longrightarrow> poll_check p < deadline"
  by (auto simp: wait_turn_def Let_def split: option.splits if_splits)

lemma waitForDevice_split:
  assumes "waitForDevice q deadline ps t st = Some (out, ls, t', st')"
  shows "\<exists>pre p rest. ps = pre @ p # rest \<and> st' = fold poll_others (pre @ [p]) st \<and>
    list_all (\<lambda>p. poll_check p < deadline) pre \<and> wait_says q deadline p st' out"
  using assms
proof (induction ps arbitrary: t st ls)
  case (Cons p ps)
  obtain o1 l1 t1 where turn: "wait_turn q deadline p t (poll_others p st) = (o1, l1, t1)" by (metis prod_cases3)
  show ?case
  proof (cases o1)
    case (Some r)
    with Cons.prems turn have "r = out" "st' = poll_others p st" by auto
    then show ?thesis using wait_turn_says turn Some by (intro exI [of _ "[]"] exI [of _ p] exI [of _ ps]) auto
  next
    case None
    with Cons.prems turn obtain ls' where "waitForDevice q deadline ps t1 (poll_others p st) = Some (out, ls', t', st')"
      by (auto split: prod.splits)
    from Cons.IH [OF this] obtain pre x rest where "ps = pre @ x # rest" "st' = fold poll_others (pre @ [x]) (poll_others p st)"
      "list_all (\<lambda>p. poll_check p < deadline) pre" "wait_says q deadline x st' out" by blast
    then show ?thesis using wait_turn_waits turn None
      by (intro exI [of _ "p # pre"] exI [of _ x] exI [of _ rest]) auto
  qed
qed simp

lemma waitForDevice_ends:
  "p \<in> set ps \<Longrightarrow> deadline \<le> poll_check p \<Longrightarrow> waitForDevice q deadline ps t st \<noteq> None"
proof (induction ps arbitrary: t st)
  case (Cons x ps)
  obtain o1 l1 t1 where turn: "wait_turn q deadline x t (poll_others x st) = (o1, l1, t1)" by (metis prod_cases3)
  show ?case
  proof (cases o1)
    case None
    with turn wait_turn_waits have "poll_check x < deadline" by blast
    with Cons.prems have "p \<in> set ps" by auto
    with Cons.IH Cons.prems turn None show ?thesis by auto
  qed (use turn in auto)
qed simp

section \<open>Raising a lease\<close>

lemma raiseLease_raised:
  assumes inv: "lease_inv st" and raise: "raiseLease root p slt minMs now st = (Inr (Raised l), st')"
  shows "\<exists>key r. deviceSlotKey (platform_text p) slt = Inr key \<and> rec_at st root key = Some r \<and> token l = rec_token r \<and>
    holder l = root \<and> lease_at st' (deviceLeasePath p (rec_id r)) = Some l \<and>
    (\<exists>x. date_parse (expiresAt l) = Some x \<and> now + minMs \<le> x) \<and> (\<forall>rt k. rec_at st' rt k = rec_at st rt k)"
proof -
  obtain key r where key: "deviceSlotKey (platform_text p) slt = Inr key" and r: "rec_at st root key = Some r"
    using raise by (auto simp: raiseLease_def rec_at_def split: sum.splits option.splits)
  let ?n = "deviceLeasePath p (rec_id r)"
  have eq: "raiseLease root p slt minMs now st = (case leaseRaise (lease_at st ?n) (rec_token r) now minMs of
        RaiseLost \<Rightarrow> (Inr (Lost (lease_at st ?n)), st) | RaiseKept l \<Rightarrow> (Inr (Raised l), st)
      | RaiseRaised l e \<Rightarrow> (case iso_string (Some e) of Inl err \<Rightarrow> (Inl err, st)
          | Inr ex \<Rightarrow> (Inr (Raised (l\<lparr>expiresAt := ex\<rparr>)), writeLease (l\<lparr>expiresAt := ex\<rparr>) st)))"
    using key r unfolding raiseLease_def rec_at_def lease_at_def Let_def by simp
  obtain k where k: "lease_at st ?n = Some k" "token k = rec_token r"
    using raise unfolding eq by (auto simp: leaseRaise_def split: option.splits if_splits)
  note own = lease_inv_owner [OF inv r k]
  show ?thesis
  proof (cases "js_le (Some (now + minMs)) (date_parse (expiresAt k))")
    case True
    with raise k have "l = k" "st' = st" unfolding eq by (auto simp: leaseRaise_def)
    with True key r k own show ?thesis by (auto simp: js_le_Some_iff2)
  next
    case False
    with raise k obtain ex where ex: "iso_string (Some (now + minMs)) = Inr ex" and l: "l = k\<lparr>expiresAt := ex\<rparr>" and st': "st' = writeLease l st"
      unfolding eq by (auto simp: leaseRaise_def split: sum.splits)
    have "lease_ok l" using lease_at_ok [OF k(1)] iso_string_ok [OF ex] by (simp add: l lease_ok_def)
    then have "lease_at st' m = (if m = ?n then Some l else lease_at st m)" for m
      unfolding st' by (intro lease_at_rewrite [OF inv k(1)]) (simp_all add: l)
    with key r k own iso_string_ok [OF ex] show ?thesis by (auto simp: l st')
  qed
qed

section \<open>The environment of a run\<close>

text \<open>
  What the other processes do between two steps of the run: they keep the store's invariant, they
  do not touch this workspace's own records, and they never come by the random tokens this run
  draws.
\<close>

definition undisturbed :: "string list \<Rightarrow> lease_store \<Rightarrow> bool" where
  "undisturbed toks st \<longleftrightarrow> lease_inv st \<and> list_all (\<lambda>t. fresh_token t st) toks"

definition others_ok :: "string \<Rightarrow> string list \<Rightarrow> (lease_store \<Rightarrow> lease_store) \<Rightarrow> bool" where
  "others_ok root toks f \<longleftrightarrow> (\<forall>st. undisturbed toks st \<longrightarrow>
     undisturbed toks (f st) \<and> (\<forall>key. rec_at (f st) root key = rec_at st root key))"

definition round_ok :: "string \<Rightarrow> string list \<Rightarrow> acquire_round \<Rightarrow> bool" where
  "round_ok root toks r \<longleftrightarrow> others_ok root toks (round_others r) \<and> others_ok root toks (round_raise_others r) \<and>
     others_ok root toks (round_take_others r) \<and> list_all (\<lambda>p. others_ok root toks (poll_others p)) (round_polls r) \<and>
     round_token r \<in> set toks"

lemma others_okD:
  "others_ok root toks f \<Longrightarrow> undisturbed toks st \<Longrightarrow> undisturbed toks (f st) \<and> rec_at (f st) root key = rec_at st root key"
  by (simp add: others_ok_def)

lemma polls_ok:
  "list_all (\<lambda>p. others_ok root toks (poll_others p)) ps \<Longrightarrow> undisturbed toks st \<Longrightarrow>
   undisturbed toks (fold poll_others ps st) \<and> rec_at (fold poll_others ps st) root key = rec_at st root key"
  by (induction ps arbitrary: st) (auto simp: others_okD)

lemma waitForDevice_ok:
  assumes "waitForDevice q deadline ps t st = Some (out, ls, t', st')"
    and "list_all (\<lambda>p. others_ok root toks (poll_others p)) ps" "undisturbed toks st"
  shows "undisturbed toks st' \<and> rec_at st' root key = rec_at st root key"
proof -
  from waitForDevice_split [OF assms(1)] obtain pre p rest where "ps = pre @ p # rest" "st' = fold poll_others (pre @ [p]) st" by blast
  with polls_ok [of root toks "pre @ [p]" st key] assms(2,3) show ?thesis by simp
qed

text \<open>Operations of other workspaces that draw no token are such actions.\<close>

lemma undisturbed_shrinks: "undisturbed toks st \<Longrightarrow> shrinks st st' \<Longrightarrow> undisturbed toks st'"
  by (auto simp: undisturbed_def list_all_iff intro: lease_inv_shrinks fresh_shrinks)

lemma others_ok_id [simp]: "others_ok root toks id" "others_ok root toks (\<lambda>st. st)"
  by (simp_all add: others_ok_def)

lemma others_ok_release: "rt \<noteq> root \<Longrightarrow> others_ok root toks (\<lambda>st. snd (releaseWorkspaceLeases rt pf sf st))"
  using releaseWorkspaceLeases_spares
  by (auto simp: others_ok_def spares_others_def intro: undisturbed_shrinks [OF _ releaseWorkspaceLeases_shrinks])
    (metis undisturbed_def releaseWorkspaceLeases_spares spares_others_def)

section \<open>A leased run holds its device\<close>

text \<open>
  The device's file carries a lease of this workspace that runs until \<open>ex\<close>, at least the
  step of this run after one of the clock readings \<open>ts\<close>, and the workspace's record names it.
\<close>

definition holds_device :: "run_request \<Rightarrow> int set \<Rightarrow> string \<Rightarrow> lease_store \<Rightarrow> bool" where
  "holds_device q ts ex st \<longleftrightarrow>
     (\<exists>l t x key rc. lease_at st (req_path q) = Some l \<and> holder l = req_root q \<and> expiresAt l = ex \<and>
        t \<in> ts \<and> date_parse ex = Some x \<and> t + leaseStepMs (req_installBoundMs q) \<le> x \<and>
        deviceSlotKey (platform_text (req_platform q)) (req_slot q) = Inr key \<and>
        rec_at st (req_root q) key = Some rc \<and> rec_id rc = req_id q \<and> rec_token rc = token l)"

lemma holds_device_mono: "holds_device q ts ex st \<Longrightarrow> ts \<subseteq> ts' \<Longrightarrow> holds_device q ts' ex st"
  unfolding holds_device_def by blast

definition request_ok :: "run_request \<Rightarrow> bool" where
  "request_ok q \<longleftrightarrow> trim (req_root q) \<noteq> [] \<and> trim (req_id q) \<noteq> [] \<and> opt_text (req_deviceName q)"

lemma request_take_args:
  "request_ok q \<Longrightarrow> undisturbed toks st \<Longrightarrow> t \<in> set toks \<Longrightarrow> take_args (req_root q) (req_id q) (req_deviceName q) t st"
  by (simp add: request_ok_def undisturbed_def take_args_def list_all_iff)

lemma raise_own_leased:
  assumes env: "undisturbed toks st" "others_ok (req_root q) toks (round_raise_others r)"
    and key: "deviceSlotKey (platform_text (req_platform q)) (req_slot q) = Inr key"
    and held: "held = None \<or> (\<forall>rc. rec_at st (req_root q) key = Some rc \<longrightarrow> rec_id rc = req_id q)"
    and out: "raise_own q held r st = (Some (Inr (Leased k ex)), st')"
  shows "lease_inv st' \<and> holds_device q {round_raise_now r} ex st'"
proof -
  let ?st = "round_raise_others r st"
  from out obtain l where raise: "raiseLease (req_root q) (req_platform q) (req_slot q) (leaseStepMs (req_installBoundMs q)) (round_raise_now r) ?st =
      (Inr (Raised l), st')" and ex: "ex = expiresAt l" and h: "held \<noteq> None"
    by (auto simp: raise_own_def split: option.splits if_splits prod.splits sum.splits raise_result.splits)
  have st: "undisturbed toks ?st" "rec_at ?st (req_root q) key = rec_at st (req_root q) key"
    using others_okD [OF env(2,1)] by simp_all
  then have inv: "lease_inv ?st" by (simp add: undisturbed_def)
  from raiseLease_raised [OF inv raise] key obtain rc where "rec_at ?st (req_root q) key = Some rc" "token l = rec_token rc" "holder l = req_root q"
      "lease_at st' (deviceLeasePath (req_platform q) (rec_id rc)) = Some l"
      "\<exists>x. date_parse (expiresAt l) = Some x \<and> round_raise_now r + leaseStepMs (req_installBoundMs q) \<le> x" "\<forall>rt k. rec_at st' rt k = rec_at ?st rt k"
    by auto
  moreover with held h st(2) have "rec_id rc = req_id q" by simp
  moreover have "lease_inv st'" using raiseLease_inv [OF inv] raise by (metis snd_conv)
  ultimately show ?thesis using key unfolding holds_device_def req_path_def ex by (metis singletonI)
qed

lemma raise_own_continues:
  assumes env: "undisturbed toks st" "others_ok (req_root q) toks (round_raise_others r)"
    and out: "raise_own q held r st = (None, st')"
  shows "undisturbed toks st' \<and> rec_at st' (req_root q) key = rec_at st (req_root q) key"
proof -
  have "st' = st \<or> st' = round_raise_others r st"
    using out by (auto simp: raise_own_def raiseLease_def Let_def
        split: option.splits if_splits prod.splits sum.splits raise_result.splits lease_raise.splits)
  with others_okD [OF env(2,1)] env(1) show ?thesis by auto
qed

lemma take_free_leased:
  assumes env: "undisturbed toks st" "others_ok (req_root q) toks (round_take_others r)" "round_token r \<in> set toks"
    and q: "request_ok q" and out: "take_free q held r st = (Some (Inr (Leased k ex)), st')"
  shows "lease_inv st' \<and> holds_device q {round_take_now r} ex st'"
proof -
  let ?st = "round_take_others r st"
  from out obtain res l where take: "takeLease (req_root q) (req_platform q) (req_slot q) (req_id q) (req_deviceName q) Run
        (leaseStepMs (req_installBoundMs q)) (round_take_now r) (round_token r) ?st = (Inr res, st')"
      and res: "res = Taken l \<or> res = Set l" and ex: "ex = expiresAt l"
    by (auto simp: take_free_def split: prod.splits sum.splits take_result.splits)
  have st: "undisturbed toks ?st" using others_okD [OF env(2,1)] by simp
  then have inv: "lease_inv ?st" by (simp add: undisturbed_def)
  note args = request_take_args [OF q st env(3)]
  have "lease_inv st'" using takeLease_inv [OF inv args] take by (metis snd_conv)
  moreover from takeLease_granted [OF inv args take res] have "holds_device q {round_take_now r} ex st'"
    unfolding holds_device_def req_path_def ex by fastforce
  ultimately show ?thesis ..
qed

lemma take_free_continues:
  assumes env: "undisturbed toks st" "others_ok (req_root q) toks (round_take_others r)" "round_token r \<in> set toks"
    and q: "request_ok q" and out: "take_free q held r st = (None, st')"
  shows "undisturbed toks st' \<and> (rec_at st' (req_root q) key = Some rc \<longrightarrow> rec_at st (req_root q) key = Some rc)"
proof -
  let ?st = "round_take_others r st"
  from out obtain l where take: "takeLease (req_root q) (req_platform q) (req_slot q) (req_id q) (req_deviceName q) Run
        (leaseStepMs (req_installBoundMs q)) (round_take_now r) (round_token r) ?st = (Inr (Held l), st')"
    by (auto simp: take_free_def split: prod.splits sum.splits take_result.splits)
  have st: "undisturbed toks ?st" "rec_at ?st (req_root q) key = rec_at st (req_root q) key" using others_okD [OF env(2,1)] by simp_all
  then have inv: "lease_inv ?st" by (simp add: undisturbed_def)
  from inv request_take_args [OF q st(1) env(3)] take have "shrinks ?st st'" by (cases rule: takeLease_cases) auto
  with st show ?thesis by (metis undisturbed_shrinks shrinks_rec)
qed


definition round_clocks :: "acquire_round list \<Rightarrow> int set" where
  "round_clocks rs = set (map round_raise_now rs) \<union> set (map round_take_now rs)"

lemma acquire_rounds_leased:
  assumes "acquire_rounds q held deadline rs t st = Some (Inr (Leased k ex), ls, st')"
    and "undisturbed toks st" "list_all (round_ok (req_root q) toks) rs" "request_ok q"
    and "deviceSlotKey (platform_text (req_platform q)) (req_slot q) = Inr key"
    and "held = None \<or> (\<forall>rc. rec_at st (req_root q) key = Some rc \<longrightarrow> rec_id rc = req_id q)"
  shows "lease_inv st' \<and> holds_device q (round_clocks rs) ex st'"
  using assms
proof (induction rs arbitrary: t st ls)
  case (Cons r rs)
  have rr: "round_ok (req_root q) toks r" and rs: "list_all (round_ok (req_root q) toks) rs"
    using Cons.prems(3) by simp_all
  from rr have r: "others_ok (req_root q) toks (round_others r)" "others_ok (req_root q) toks (round_raise_others r)"
      "others_ok (req_root q) toks (round_take_others r)" "list_all (\<lambda>p. others_ok (req_root q) toks (poll_others p)) (round_polls r)"
      "round_token r \<in> set toks"
    by (simp_all add: round_ok_def)
  have clocks: "{round_raise_now r} \<subseteq> round_clocks (r # rs)" "{round_take_now r} \<subseteq> round_clocks (r # rs)" "round_clocks rs \<subseteq> round_clocks (r # rs)"
    by (auto simp: round_clocks_def)
  have st0: "undisturbed toks (round_others r st)" "rec_at (round_others r st) (req_root q) key = rec_at st (req_root q) key"
    using others_okD [OF r(1) Cons.prems(2)] by simp_all
  have own0: "held = None \<or> (\<forall>rc. rec_at (round_others r st) (req_root q) key = Some rc \<longrightarrow> rec_id rc = req_id q)"
    using Cons.prems(6) st0(2) by simp
  obtain o1 st1 where raise: "raise_own q held r (round_others r st) = (o1, st1)" by fastforce
  show ?case
  proof (cases o1)
    case (Some a)
    with Cons.prems(1) raise have "raise_own q held r (round_others r st) = (Some (Inr (Leased k ex)), st')" by simp
    from raise_own_leased [OF st0(1) r(2) Cons.prems(5) own0 this] show ?thesis
      using holds_device_mono clocks(1) by blast
  next
    case None
    have st1: "undisturbed toks st1" "rec_at st1 (req_root q) key = rec_at st (req_root q) key"
      using raise_own_continues [OF st0(1) r(2) raise [unfolded None], of key] st0(2) by simp_all
    from Cons.prems(1) raise None obtain l2 t2 st2 where wait: "waitForDevice q deadline (round_polls r) t st1 = Some (WaitFree, l2, t2, st2)"
      by (auto split: option.splits prod.splits lease_wait_outcome.splits)
    have st2: "undisturbed toks st2" "rec_at st2 (req_root q) key = rec_at st (req_root q) key"
      using waitForDevice_ok [OF wait r(4) st1(1), of key] st1(2) by simp_all
    obtain o3 st3 where take: "take_free q held r st2 = (o3, st3)" by fastforce
    show ?thesis
    proof (cases o3)
      case (Some a)
      with Cons.prems(1) raise None wait take have "take_free q held r st2 = (Some (Inr (Leased k ex)), st')" by simp
      from take_free_leased [OF st2(1) r(3,5) Cons.prems(4) this] show ?thesis
        using holds_device_mono clocks(2) by blast
    next
      case None2: None
      note cont = take_free_continues [OF st2(1) r(3,5) Cons.prems(4) take [unfolded None2], of key]
      from Cons.prems(1) raise None wait take None2 obtain ls3 where
        "acquire_rounds q held deadline rs t2 st3 = Some (Inr (Leased k ex), ls3, st')"
        by (auto split: prod.splits)
      from Cons.IH [OF this _ rs Cons.prems(4,5)] cont st2(2) Cons.prems(6)
      have "lease_inv st' \<and> holds_device q (round_clocks rs) ex st'" by auto
      then show ?thesis using holds_device_mono clocks(3) by blast
    qed
  qed
qed simp

lemma acquireRunLease_rounds:
  assumes "acquireRunLease q now0 now1 rs st = Some (Inr (Leased k ex), ls, st')"
  obtains key held where "deviceSlotKey (platform_text (req_platform q)) (req_slot q) = Inr key"
    "held = None \<or> (\<forall>rc. rec_at st (req_root q) key = Some rc \<longrightarrow> rec_id rc = req_id q)"
    "acquire_rounds q held (now1 + req_waitSeconds q * 1000) rs None st = Some (Inr (Leased k ex), ls, st')"
proof -
  obtain key where key: "deviceSlotKey (platform_text (req_platform q)) (req_slot q) = Inr key"
    using assms by (auto simp: acquireRunLease_def split: sum.splits)
  define held where "held = (case rec_at st (req_root q) key of Some rc \<Rightarrow> if rec_id rc = req_id q then Some rc else None | None \<Rightarrow> None)"
  have "acquire_rounds q held (now1 + req_waitSeconds q * 1000) rs None st = Some (Inr (Leased k ex), ls, st')"
    using assms key by (auto simp: acquireRunLease_def held_def rec_at_def Let_def split: option.splits if_splits)
  moreover have "held = None \<or> (\<forall>rc. rec_at st (req_root q) key = Some rc \<longrightarrow> rec_id rc = req_id q)"
    by (auto simp: held_def split: option.splits)
  ultimately show thesis using that key by blast
qed


section \<open>A free device is taken at once\<close>

text \<open>Releasing leases leaves a file as it is or removes it.\<close>

lemma readLease_releaseByRoot: "readLease (snd (releaseByRoot root p did st)) n \<in> {readLease st n, None}"
  and readLease_releaseHeld: "readLease (snd (releaseHeld root p r key st)) n \<in> {readLease st n, None}"
  by (auto simp: releaseByRoot_def releaseHeld_def Let_def readLease_def removeLease_def writeHolder_def delete_conv' split: option.split)

lemma readLease_release_fold:
  "readLease (fold (\<lambda>l s. snd (releaseByRoot root p (lease_id l) s)) ls st) n \<in> {readLease st n, None}"
proof (induction ls arbitrary: st)
  case (Cons l ls)
  from Cons.IH [of "snd (releaseByRoot root p (lease_id l) st)"] readLease_releaseByRoot [of root p "lease_id l" st n]
  show ?case by auto
qed simp

lemma readLease_take_released: "readLease (take_released root p slt did key st) n \<in> {readLease st n, None}"
proof -
  define st1 where "st1 = (case rec_at st root key of None \<Rightarrow> st | Some r \<Rightarrow> if rec_id r \<noteq> did then snd (releaseHeld root p r key st) else st)"
  have "readLease st1 n \<in> {readLease st n, None}"
    using readLease_releaseHeld by (auto simp: st1_def split: option.split)
  moreover have "readLease (take_released root p slt did key st) n \<in> {readLease st1 n, None}"
    unfolding take_released_def release_others_def st1_def [symmetric] by (rule readLease_release_fold)
  ultimately show ?thesis by auto
qed

text \<open>The device's file is missing, or its lease is expired at \<open>t\<close>.\<close>

definition file_free :: "lease_store \<Rightarrow> string \<Rightarrow> int \<Rightarrow> bool" where
  "file_free st n t \<longleftrightarrow> readLease st n = None \<or> (\<exists>l. lease_at st n = Some l \<and> leaseIsExpired l t)"

lemma file_free_mono: "file_free st n t \<Longrightarrow> t \<le> t' \<Longrightarrow> file_free st n t'"
  by (auto simp: file_free_def leaseIsExpired_def js_le_Some_iff)

lemma takeLease_free:
  assumes key: "deviceSlotKey (platform_text p) slt = Inr key" and free: "file_free st (deviceLeasePath p did) now"
    and "\<bar>now\<bar> \<le> time_limit" "\<bar>now + d\<bar> \<le> time_limit"
  shows "fst (takeLease root p slt did name kind d now tok st) = Inr (Taken (new_lease root p slt did name now tok (to_iso (now + d))))"
proof -
  let ?st = "take_released root p slt did key st" and ?n = "deviceLeasePath p did"
  have "lease_file_of ?st ?n = NoLease \<or> (\<exists>l. lease_file_of ?st ?n = Lease l \<and> leaseIsExpired l now)"
    using readLease_take_released [of root p slt did key st ?n] free
    by (auto simp: file_free_def lease_file_of_cases lease_at_def)
  then have "leaseGrant (lease_file_of ?st ?n) root slt kind c now d = GrantTaken (Some (now + d)) kind" for c
    by (auto simp: leaseGrant_def)
  from take_locked_taken [OF this] assms(3,4) show ?thesis
    by (simp add: takeLease_key [OF key] Let_def case_prod_beta)
qed

text \<open>A round in which nobody interferes, and whose clock readings are at or after \<open>t\<close>.\<close>

definition quiet_round :: "int \<Rightarrow> int \<Rightarrow> acquire_round \<Rightarrow> bool" where
  "quiet_round t step r \<longleftrightarrow> round_others r = id \<and> round_take_others r = id \<and>
     (case round_polls r of [] \<Rightarrow> False | p # _ \<Rightarrow> poll_others p = id \<and> t \<le> poll_expiry p) \<and>
     t \<le> round_take_now r \<and> \<bar>round_take_now r\<bar> \<le> time_limit \<and> \<bar>round_take_now r + step\<bar> \<le> time_limit"

lemma acquire_free:
  assumes key: "deviceSlotKey (platform_text (req_platform q)) (req_slot q) = Inr key" and none: "rec_at st (req_root q) key = None"
    and free: "file_free st (req_path q) t" and r: "quiet_round t (leaseStepMs (req_installBoundMs q)) r"
  shows "\<exists>st'. acquireRunLease q now0 now1 (r # rs) st =
    Some (Inr (Leased Run (to_iso (round_take_now r + leaseStepMs (req_installBoundMs q)))), [], st')"
proof -
  obtain p ps where polls: "round_polls r = p # ps" "poll_others p = id" "t \<le> poll_expiry p"
    using r by (auto simp: quiet_round_def split: list.splits)
  have "raise_own q None r st = (None, st)" by (simp add: raise_own_def split: option.split)
  moreover have "waitForDevice q deadline (round_polls r) None st = Some (WaitFree, [], None, st)" for deadline
    using file_free_mono [OF free polls(3)] polls(1,2)
    by (auto simp: wait_turn_def file_free_def lease_at_def parseLease_def [of None])
  moreover have "\<exists>st'. take_free q None r st = (Some (Inr (Leased Run (to_iso (round_take_now r + leaseStepMs (req_installBoundMs q))))), st')"
    using takeLease_free [OF key file_free_mono [OF free [unfolded req_path_def]], of "round_take_now r" "leaseStepMs (req_installBoundMs q)"
        "req_root q" "req_deviceName q" Run "round_token r"] r
    by (cases "takeLease (req_root q) (req_platform q) (req_slot q) (req_id q) (req_deviceName q) Run
        (leaseStepMs (req_installBoundMs q)) (round_take_now r) (round_token r) st") (simp add: take_free_def quiet_round_def)
  ultimately show ?thesis
    using key none r by (auto simp: acquireRunLease_def rec_at_def quiet_round_def)
qed

section \<open>Properties\<close>

text \<open>
  C2. A run that was granted its device holds it: when \<open>acquireRunLease\<close> answers \<open>leased\<close>
  with deadline \<open>ex\<close>, the device's file carries this workspace's lease with that deadline, at
  least the run's step after the clock reading of the grant, the workspace's record names the same
  device and token, and nothing the other workspaces do before the deadline removes it.
\<close>

theorem acquired_lease_kept:
  assumes "acquireRunLease q now0 now1 rs st = Some (Inr (Leased k ex), ls, st')"
    and "undisturbed toks st" and "list_all (round_ok (req_root q) toks) rs" and "request_ok q"
  shows "holds_device q (round_clocks rs) ex st' \<and>
    (\<forall>ops x. date_parse ex = Some x \<and> legal_run op_ok lease_do ops st' \<and>
        list_all (\<lambda>op. op_actor op \<noteq> Some (req_root q) \<and> op_clock op < x) ops \<longrightarrow>
      (\<exists>l. lease_at (fold lease_do ops st') (req_path q) = Some l \<and> holder l = req_root q \<and> expiresAt l = ex))"
proof -
  obtain key held where "deviceSlotKey (platform_text (req_platform q)) (req_slot q) = Inr key"
    "held = None \<or> (\<forall>rc. rec_at st (req_root q) key = Some rc \<longrightarrow> rec_id rc = req_id q)"
    "acquire_rounds q held (now1 + req_waitSeconds q * 1000) rs None st = Some (Inr (Leased k ex), ls, st')"
    using acquireRunLease_rounds [OF assms(1)] by blast
  with acquire_rounds_leased assms(2-4) have *: "lease_inv st'" "holds_device q (round_clocks rs) ex st'" by blast+
  then obtain l where l: "lease_at st' (req_path q) = Some l" "holder l = req_root q" "expiresAt l = ex"
    unfolding holds_device_def by blast
  have "lease_at (fold lease_do ops st') (req_path q) = Some l"
    if "date_parse ex = Some x" "legal_run op_ok lease_do ops st'" "list_all (\<lambda>op. op_actor op \<noteq> Some (req_root q) \<and> op_clock op < x) ops" for ops x
    by (rule leases.keep_history [OF *(1) that(2) l(1)]) (use that(1,3) l(2,3) in \<open>auto simp: leaseIsExpired_def list_all_iff\<close>)
  with *(2) l(2,3) show ?thesis by blast
qed

definition lease_request :: run_request where
  "lease_request = \<lparr>req_root = ''/a'', req_platform = Ios, req_slot = ''default'', req_id = ''D1'', req_deviceName = None,
     req_waitSeconds = 60, req_noWait = False, req_installBoundMs = 90000, req_appId = None, req_holderAppId = (\<lambda>_. None)\<rparr>"

definition quiet_poll :: "int \<Rightarrow> wait_poll" where
  "quiet_poll t = \<lparr>poll_others = (\<lambda>st. st), poll_expiry = t, poll_check = t, poll_since = t, poll_line = t\<rparr>"

definition sample_round :: acquire_round where
  "sample_round = \<lparr>round_others = (\<lambda>st. snd (releaseWorkspaceLeases ''/b'' None None st)), round_expiry = 1700000000000, round_raise_others = (\<lambda>st. st), round_raise_now = 1700000000000,
     round_polls = [quiet_poll 1700000000000], round_take_others = (\<lambda>st. st), round_take_now = 1700000000000, round_token = ''t1''\<rparr>"

theorem acquired_lease_kept_witness:
  "holds_device lease_request {1700000000000} ''2023-11-14T22:14:50.000Z''
     (snd (snd (the (acquireRunLease lease_request 1700000000000 1700000000000 [sample_round] empty_store))))"
proof -
  let ?res = "acquireRunLease lease_request 1700000000000 1700000000000 [sample_round] empty_store"
  have "map_option (\<lambda>(r, ls, _). (r, ls)) ?res = Some (Inr (Leased Run ''2023-11-14T22:14:50.000Z''), [])" by code_simp
  then have res: "?res = Some (Inr (Leased Run ''2023-11-14T22:14:50.000Z''), [], snd (snd (the ?res)))" by auto
  have env: "undisturbed [''t1''] empty_store"
    by (simp add: undisturbed_def empty_store_inv fresh_token_def trim_nonempty is_space_def)
  have rounds: "list_all (round_ok (req_root lease_request) [''t1'']) [sample_round]"
    by (simp add: round_ok_def sample_round_def quiet_poll_def lease_request_def others_ok_release)
  have req: "request_ok lease_request"
    by (simp add: request_ok_def lease_request_def opt_text_def trim_nonempty is_space_def)
  from acquired_lease_kept [OF res env rounds req] show ?thesis by (simp add: round_clocks_def sample_round_def)
qed

text \<open>
  The wait answers by what it last read: it waited only at polls before the deadline; \<open>free\<close>
  means the lease file was missing or its lease had expired; \<open>ours\<close> and \<open>bypassed\<close>
  name the live lease of this workspace and slot or, under \<open>--no-wait\<close>, of another; and a refusal
  is the busy code, for an unreadable file or for another's live lease once the deadline had passed.
\<close>

theorem waitForDevice_answers:
  assumes "waitForDevice q deadline ps t st = Some (out, ls, t', st')"
  shows "\<exists>pre p rest. ps = pre @ p # rest \<and> st' = fold poll_others (pre @ [p]) st \<and>
    list_all (\<lambda>p. poll_check p < deadline) pre \<and> wait_says q deadline p st' out"
  by (rule waitForDevice_split [OF assms])

theorem waitForDevice_answers_witness:
  "wait_says lease_request 5 (quiet_poll 3) empty_store WaitFree"
proof -
  have "waitForDevice lease_request 5 [quiet_poll 3] None empty_store = Some (WaitFree, [], None, empty_store)"
    by (simp add: quiet_poll_def wait_turn_def empty_store_def readLease_def parseLease_def)
  from waitForDevice_answers [OF this] obtain pre p rest
    where "[quiet_poll 3] = pre @ p # rest" "wait_says lease_request 5 p empty_store WaitFree" by blast
  then show ?thesis by (cases pre) auto
qed

text \<open>
  The wait ends: whatever the other workspaces do to the lease file, \<open>waitForDevice\<close> has
  answered by the first poll whose clock is at or past the deadline.
\<close>

theorem waitForDevice_returns:
  assumes "list_ex (\<lambda>p. deadline \<le> poll_check p) ps"
  shows "\<exists>out ls t' st'. waitForDevice q deadline ps t st = Some (out, ls, t', st')"
proof -
  from assms obtain p where "p \<in> set ps" "deadline \<le> poll_check p" by (auto simp: list_ex_iff)
  from waitForDevice_ends [OF this, of q t st] show ?thesis by (metis not_Some_eq prod_cases4)
qed

theorem waitForDevice_returns_witness:
  "\<exists>out ls t' st'. waitForDevice lease_request 5 [quiet_poll 3, quiet_poll 5] None (snd take_a) = Some (out, ls, t', st')"
  by (rule waitForDevice_returns) (simp add: quiet_poll_def)

lemma readLease_empty: "readLease empty_store n = None"
  by (simp add: empty_store_def readLease_def)

text \<open>
  A device nobody holds is taken in the first round: when the workspace records no lease in its
  slot and the device's file is missing or its lease has expired, an undisturbed run is leased, as
  a run, until its step from the clock.
\<close>

theorem acquireRunLease_free:
  assumes "deviceSlotKey (platform_text (req_platform q)) (req_slot q) = Inr key" and "rec_at st (req_root q) key = None"
    and "file_free st (req_path q) t" and "quiet_round t (leaseStepMs (req_installBoundMs q)) r"
  shows "\<exists>st'. acquireRunLease q now0 now1 (r # rs) st =
    Some (Inr (Leased Run (to_iso (round_take_now r + leaseStepMs (req_installBoundMs q)))), [], st')"
  by (rule acquire_free [OF assms])

definition quiet_sample :: acquire_round where
  "quiet_sample = \<lparr>round_others = id, round_expiry = 0, round_raise_others = id, round_raise_now = 0,
     round_polls = [\<lparr>poll_others = id, poll_expiry = 5, poll_check = 5, poll_since = 5, poll_line = 5\<rparr>],
     round_take_others = id, round_take_now = 5, round_token = ''t1''\<rparr>"

lemma quiet_sample_ok: "quiet_round 5 (leaseStepMs (req_installBoundMs lease_request)) quiet_sample"
  by (simp add: quiet_round_def quiet_sample_def time_limit_def lease_request_def leaseStepMs_def LEASE_STEP_FLOOR_MS_def)

lemma sample_key: "deviceSlotKey (platform_text (req_platform lease_request)) (req_slot lease_request) = Inr ''ios''"
  by (simp add: lease_request_def deviceSlotKey_Inr)

theorem acquireRunLease_free_witness:
  "\<exists>st'. acquireRunLease lease_request 0 0 [quiet_sample] empty_store = Some (Inr (Leased Run (to_iso 90005)), [], st')"
proof -
  have "file_free empty_store (req_path lease_request) 5" by (simp add: file_free_def readLease_empty)
  from acquireRunLease_free [OF sample_key rec_at_empty this quiet_sample_ok, of 0 0 "[]"] show ?thesis
    by (simp add: quiet_sample_def lease_request_def leaseStepMs_def LEASE_STEP_FLOOR_MS_def)
qed

text \<open>
  The handle tells the truth about the run's lease: once a raise has failed the handle is lost for
  good, changes nothing and reports no lease; a raise that succeeds leaves in the device's file this
  workspace's lease with the deadline the handle reports, at least the step after the clock.
\<close>

theorem handle_raise_effect:
  assumes "lease_inv st" and "handle_raise root p slt bound now h st = (out, h', st')"
  shows "(handle_lost h \<longrightarrow> h' = h \<and> st' = st \<and> handle_facts h' = None) \<and>
    (\<forall>s. out = Inr s \<and> \<not> step_ok s \<longrightarrow> handle_lost h' \<and> handle_facts h' = None) \<and>
    (\<forall>s k. out = Inr s \<and> step_ok s \<and> handle_kind h = Some k \<longrightarrow>
      (\<exists>key r l x. deviceSlotKey (platform_text p) slt = Inr key \<and> rec_at st' root key = Some r \<and>
         lease_at st' (deviceLeasePath p (rec_id r)) = Some l \<and> token l = rec_token r \<and> holder l = root \<and>
         handle_facts h' = Some (k, expiresAt l) \<and> date_parse (expiresAt l) = Some x \<and> now + leaseStepMs bound \<le> x))"
proof (cases "handle_kind h = None \<or> handle_lost h")
  case True
  with assms(2) show ?thesis by (auto simp: handle_raise_def handle_facts_def)
next
  case False
  obtain res st1 where raise: "raiseLease root p slt (leaseStepMs bound) now st = (res, st1)" by fastforce
  show ?thesis
  proof (cases "\<exists>l. res = Inr (Raised l)")
    case True
    then obtain l where res: "res = Inr (Raised l)" ..
    with False assms(2) raise have "h' = h\<lparr>handle_expiresAt := Some (expiresAt l)\<rparr>" "st' = st1" "\<forall>s. out = Inr s \<longrightarrow> step_ok s"
      by (auto simp: handle_raise_def)
    with raiseLease_raised [OF assms(1) raise [unfolded res]] False show ?thesis
      by (fastforce simp: handle_facts_def)
  next
    case other: False
    with False assms(2) raise show ?thesis
      by (auto simp: handle_raise_def handle_facts_def split: sum.splits raise_result.splits)
  qed
qed

theorem handle_raise_effect_witness:
  "handle_facts (fst (snd (handle_raise ''/a'' Android ''default'' 0 0 (runLease (Some Run) None) empty_store))) = None"
proof -
  have "fst (handle_raise ''/a'' Android ''default'' 0 0 (runLease (Some Run) None) empty_store) =
      Inr \<lparr>step_ok = False, step_holder = None, step_expiresAt = None\<rparr>" by code_simp
  then have "handle_raise ''/a'' Android ''default'' 0 0 (runLease (Some Run) None) empty_store =
      (Inr \<lparr>step_ok = False, step_holder = None, step_expiresAt = None\<rparr>,
       fst (snd (handle_raise ''/a'' Android ''default'' 0 0 (runLease (Some Run) None) empty_store)),
       snd (snd (handle_raise ''/a'' Android ''default'' 0 0 (runLease (Some Run) None) empty_store)))"
    by (metis prod.collapse)
  from handle_raise_effect [OF empty_store_inv this] show ?thesis by simp
qed

end
