(* ===== verification/Device_Pool_Properties.thy ===== *)
theory Device_Pool_Properties
  imports Device_Pool Run_Lease_Properties
begin

text \<open>
  What the pool promises: the device picked is connected and, unless \<open>--no-wait\<close> was given,
  not under anybody's live lease; a workspace that already holds a device gets that one or none;
  dedicated devices go before fallbacks and each in the order of their ids; and the loop answers
  by the first round at or past the deadline.
\<close>

section \<open>The scan\<close>

lemma pool_scan_Inl:
  "pool_scan byId now cs hs = Inl c \<Longrightarrow> \<exists>pre post. cs = pre @ c # post \<and> pool_free byId now c \<and> list_all (\<lambda>d. \<not> pool_free byId now d) pre"
proof (induction cs arbitrary: hs)
  case (Cons d cs)
  show ?case
  proof (cases "pool_free byId now d")
    case True
    with Cons.prems have "c = d" by (auto simp: pool_free_def split: option.splits if_splits)
    with True show ?thesis by (intro exI [of _ "[]"] exI [of _ cs]) simp
  next
    case False
    with Cons.prems obtain l where "pool_scan byId now cs (hs @ [holder_of l]) = Inl c"
      by (auto simp: pool_free_def split: option.splits if_splits)
    from Cons.IH [OF this] False show ?thesis
      by (metis append_Cons list.pred_inject(2))
  qed
qed simp

lemma pool_scan_Inr:
  "pool_scan byId now cs hs = Inr hs' \<Longrightarrow>
   list_all (\<lambda>d. \<not> pool_free byId now d) cs \<and> hs' = hs @ map (\<lambda>c. holder_of (the (map_of byId (cand_id c)))) cs"
  by (induction cs arbitrary: hs) (fastforce simp: pool_free_def split: option.splits if_splits)+

text \<open>The lease that counts for a device: the last one read with its id.\<close>

definition lease_for :: "device_lease list \<Rightarrow> string \<Rightarrow> device_lease option" where
  "lease_for leases did = map_of (rev (map (\<lambda>l. (lease_id l, l)) leases)) did"

definition taken :: "device_lease list \<Rightarrow> int \<Rightarrow> pool_candidate \<Rightarrow> bool" where
  "taken leases now c = (case lease_for leases (cand_id c) of None \<Rightarrow> False | Some l \<Rightarrow> \<not> leaseIsExpired l now)"

text \<open>The candidates that are considered: the dedicated ones, or all when there are only fallbacks.\<close>

definition in_pool :: "pool_candidate list \<Rightarrow> pool_candidate \<Rightarrow> bool" where
  "in_pool cs c \<longleftrightarrow> c \<in> set cs \<and> (fallback c \<longrightarrow> list_all fallback cs)"

lemma pool_free_taken: "pool_free (js_map (map (\<lambda>l. (lease_id l, l)) ls)) now c \<longleftrightarrow> \<not> taken ls now c"
  by (simp add: pool_free_def taken_def lease_for_def map_of_js_map rev_map split: option.split)

lemma in_pool_set:
  "set (if filter (\<lambda>c. \<not> fallback c) (sort_key f cs) \<noteq> [] then filter (\<lambda>c. \<not> fallback c) (sort_key f cs) else sort_key f cs) =
     {c. in_pool cs c}"
  by (auto simp: in_pool_def list_all_iff filter_empty_conv)

lemma sorted_before:
  assumes "sorted (map f (pre @ c # post))" "d \<in> set (pre @ c # post)" "f d < f c"
  shows "d \<in> set pre"
  using assms by (auto simp: sorted_append)

definition selection_ok :: "pool_candidate list \<Rightarrow> device_lease list \<Rightarrow> int \<Rightarrow> pool_selection \<Rightarrow> bool" where
  "selection_ok cs ls now sel \<longleftrightarrow> (case sel of
     Selected c \<Rightarrow> in_pool cs c \<and> \<not> taken ls now c \<and>
       (\<forall>d. in_pool cs d \<and> toLowerCase (cand_id d) < toLowerCase (cand_id c) \<longrightarrow> taken ls now d)
   | HeldDisconnected _ \<Rightarrow> False
   | AllBusy holders spare \<Rightarrow> cs \<noteq> [] \<and> (\<forall>d. in_pool cs d \<longrightarrow> taken ls now d) \<and>
       set holders = {h. \<exists>d l. in_pool cs d \<and> lease_for ls (cand_id d) = Some l \<and> h = holder_of l} \<and>
       set spare = {i. \<exists>d \<in> set cs. cand_id d = i \<and> fallback d \<and> \<not> taken ls now d}
   | NoDevice \<Rightarrow> cs = [])"

lemma selectPoolDevice_free: "selection_ok cs ls now (selectPoolDevice cs ls None now)"
proof -
  define ordered pool byId where "ordered = sort_key (\<lambda>c. toLowerCase (cand_id c)) cs"
    and "pool = (if filter (\<lambda>c. \<not> fallback c) ordered \<noteq> [] then filter (\<lambda>c. \<not> fallback c) ordered else ordered)"
    and "byId = js_map (map (\<lambda>l. (lease_id l, l)) ls)"
  have set_pool: "set pool = {c. in_pool cs c}" unfolding pool_def ordered_def by (rule in_pool_set)
  have sorted: "sorted (map (\<lambda>c. toLowerCase (cand_id c)) pool)" unfolding pool_def ordered_def by (simp add: sorted_filter)
  have free: "pool_free byId now c \<longleftrightarrow> \<not> taken ls now c" for c unfolding byId_def by (rule pool_free_taken)
  have sel: "selectPoolDevice cs ls None now = (if pool = [] then NoDevice else
      (case pool_scan byId now pool [] of Inl c \<Rightarrow> Selected c
       | Inr holders \<Rightarrow> AllBusy holders (map cand_id (filter (\<lambda>c. fallback c \<and> pool_free byId now c) ordered))))"
    unfolding selectPoolDevice_def ordered_def pool_def byId_def Let_def by simp
  show ?thesis
  proof (cases "pool = []")
    case True
    then have "filter (\<lambda>c. \<not> fallback c) ordered = [] \<and> ordered = []" unfolding pool_def by (simp split: if_splits)
    then have "set cs = {}" by (metis ordered_def set_empty set_sort)
    with True sel show ?thesis by (simp add: selection_ok_def)
  next
    case False
    show ?thesis
    proof (cases "pool_scan byId now pool []")
      case (Inl c)
      then obtain pre post where c: "pool = pre @ c # post" "pool_free byId now c" "list_all (\<lambda>d. \<not> pool_free byId now d) pre"
        using pool_scan_Inl by blast
      have "taken ls now d" if "in_pool cs d" "toLowerCase (cand_id d) < toLowerCase (cand_id c)" for d
        using sorted_before [OF sorted [unfolded c(1)], of d] that set_pool c(1,3) by (auto simp: list_all_iff free)
      moreover have "in_pool cs c" using set_pool c(1) by auto
      ultimately show ?thesis using False Inl c(2) sel by (simp add: selection_ok_def free)
    next
      case (Inr hs)
      from pool_scan_Inr [OF this] have all: "\<And>d. in_pool cs d \<Longrightarrow> taken ls now d"
        and hs: "hs = map (\<lambda>c. holder_of (the (map_of byId (cand_id c)))) pool"
        using set_pool by (auto simp: list_all_iff free)
      have lease: "\<exists>l. lease_for ls (cand_id d) = Some l \<and> map_of byId (cand_id d) = Some l" if "in_pool cs d" for d
        using all [OF that] by (auto simp: taken_def byId_def lease_for_def map_of_js_map rev_map split: option.splits)
      have "set hs = {h. \<exists>d l. in_pool cs d \<and> lease_for ls (cand_id d) = Some l \<and> h = holder_of l}"
        unfolding hs using lease set_pool by (fastforce simp: image_iff)
      moreover have "set (map cand_id (filter (\<lambda>c. fallback c \<and> pool_free byId now c) ordered)) = {i. \<exists>d \<in> set cs. cand_id d = i \<and> fallback d \<and> \<not> taken ls now d}"
        by (auto simp: ordered_def free)
      moreover have "cs \<noteq> []" using False by (auto simp: pool_def ordered_def)
      ultimately show ?thesis using False Inr sel all by (simp add: selection_ok_def)
    qed
  qed
qed

lemma selectPoolDevice_held:
  assumes "h \<noteq> []"
  shows "case selectPoolDevice cs ls (Some h) now of Selected c \<Rightarrow> c \<in> set cs \<and> cand_id c = h
    | HeldDisconnected i \<Rightarrow> i = h \<and> h \<notin> cand_id ` set cs | _ \<Rightarrow> False"
  using assms by (auto simp: selectPoolDevice_def Let_def find_None_iff split: option.split dest!: find_SomeD)


section \<open>Reading the pool\<close>

lemma read_candidate_cases:
  "lease_file_of st (deviceLeasePath p (cand_id c)) = Unreadable \<Longrightarrow>
     lease_at st (deviceLeasePath p (cand_id c)) = None \<and>
     read_candidate p st c rd = rd\<lparr>unreadable := unreadable rd @ [deviceLeasePath p (cand_id c)]\<rparr>"
  "lease_file_of st (deviceLeasePath p (cand_id c)) \<noteq> Unreadable \<Longrightarrow>
     read_candidate p st c rd = rd\<lparr>usable := usable rd @ [c],
       pool_leases := (case lease_at st (deviceLeasePath p (cand_id c)) of None \<Rightarrow> pool_leases rd | Some l \<Rightarrow> pool_leases rd @ [l])\<rparr>"
  by (auto simp: read_candidate_def Let_def lease_file_of_def lease_at_def parseLease_def [of None] split: option.splits)

lemma read_candidate_fold:
  "fold (read_candidate p st) cs rd =
     \<lparr>usable = usable rd @ filter (\<lambda>c. lease_file_of st (deviceLeasePath p (cand_id c)) \<noteq> Unreadable) cs,
      pool_leases = pool_leases rd @ List.map_filter (\<lambda>c. lease_at st (deviceLeasePath p (cand_id c))) cs,
      unreadable = unreadable rd @ map (\<lambda>c. deviceLeasePath p (cand_id c)) (filter (\<lambda>c. lease_file_of st (deviceLeasePath p (cand_id c)) = Unreadable) cs)\<rparr>"
proof (induction cs arbitrary: rd)
  case (Cons c cs)
  show ?case
    by (cases "lease_file_of st (deviceLeasePath p (cand_id c)) = Unreadable") (simp_all add: Cons.IH read_candidate_cases map_filter_simps split: option.split)
qed (simp add: map_filter_simps)

lemma readPool_eq:
  "usable (readPool p cs st) = filter (\<lambda>c. lease_file_of st (deviceLeasePath p (cand_id c)) \<noteq> Unreadable) cs"
  "pool_leases (readPool p cs st) = List.map_filter (\<lambda>c. lease_at st (deviceLeasePath p (cand_id c))) cs"
  "unreadable (readPool p cs st) = map (\<lambda>c. deviceLeasePath p (cand_id c)) (filter (\<lambda>c. lease_file_of st (deviceLeasePath p (cand_id c)) = Unreadable) cs)"
  by (simp_all add: readPool_def read_candidate_fold)

lemma deviceLeasePath_platform: "deviceLeasePath p a = deviceLeasePath q b \<Longrightarrow> p = q"
  by (cases p; cases q) (simp_all add: deviceLeasePath_def leaseStem_def segment_def is_segment_char_def is_alnum_def)

text \<open>
  The lease the pool counts for a candidate is the one in the candidate's own file, if that lease
  is for this device.
\<close>

lemma lease_for_own:
  assumes inv: "lease_inv st" and c: "c \<in> set cs" and l: "lease_at st (deviceLeasePath p (cand_id c)) = Some l" "lease_id l = cand_id c"
  shows "lease_for (pool_leases (readPool p cs st)) (cand_id c) = Some l"
proof -
  let ?ls = "pool_leases (readPool p cs st)"
  have in_ls: "l \<in> set ?ls" using c l by (auto simp: readPool_eq map_filter_set)
  have only: "k = l" if "k \<in> set ?ls" "lease_id k = cand_id c" for k
  proof -
    from that obtain d :: pool_candidate where d: "lease_at st (deviceLeasePath p (cand_id d)) = Some k" by (auto simp: readPool_eq map_filter_set)
    note lease_inv_path [OF inv d]
    then have "deviceLeasePath p (cand_id d) = deviceLeasePath p (cand_id c)"
      using deviceLeasePath_platform that(2) by metis
    with d l show ?thesis by simp
  qed
  have "lease_for ?ls (cand_id c) \<noteq> None"
    using in_ls l(2) unfolding lease_for_def map_of_eq_None_iff by (metis (mono_tags, lifting) fst_conv image_eqI list.set_map set_rev)
  then obtain k where k: "lease_for ?ls (cand_id c) = Some k" by blast
  then have "(cand_id c, k) \<in> set (rev (map (\<lambda>l. (lease_id l, l)) ?ls))" unfolding lease_for_def by (rule map_of_SomeD)
  with only k show ?thesis by auto
qed

section \<open>The rounds\<close>

text \<open>What an answer of the loop means in the round that gave it.\<close>

definition pool_says :: "lease_platform \<Rightarrow> string option \<Rightarrow> int \<Rightarrow> bool \<Rightarrow> pool_round \<Rightarrow> pool_result \<Rightarrow> bool" where
  "pool_says p held until noWait r out \<longleftrightarrow> (case out of
     PoolSelected c \<Rightarrow> c \<in> set (pr_candidates r) \<and>
       lease_file_of (pr_store r) (deviceLeasePath p (cand_id c)) \<noteq> Unreadable \<and>
       (case held of Some h \<Rightarrow> cand_id c = h
        | None \<Rightarrow> noWait \<or> (\<forall>l. lease_at (pr_store r) (deviceLeasePath p (cand_id c)) = Some l \<and> lease_id l = cand_id c \<longrightarrow> leaseIsExpired l (pr_now r)))
   | PoolRefused ref \<Rightarrow> (case held of
         Some h \<Rightarrow> ref = disconnectedHeldRefusal \<and>
           \<not> list_ex (\<lambda>c. cand_id c = h \<and> lease_file_of (pr_store r) (deviceLeasePath p (cand_id c)) \<noteq> Unreadable) (pr_candidates r)
       | None \<Rightarrow> (refusal_code ref = ''STIM_NO_DEVICE'' \<longleftrightarrow> pr_candidates r = []) \<and>
           (refusal_code ref = DEVICE_BUSY \<longleftrightarrow> pr_candidates r \<noteq> []) \<and>
           (until \<le> pr_check r \<or>
            list_all (\<lambda>c. lease_file_of (pr_store r) (deviceLeasePath p (cand_id c)) = Unreadable) (pr_candidates r))))"

lemma refusal_codes:
  "refusal_code (poolBusyRefusal hs ls) = DEVICE_BUSY" "refusal_code noCandidatesRefusal = ''STIM_NO_DEVICE''"
  "DEVICE_BUSY \<noteq> ''STIM_NO_DEVICE''"
  by (simp_all add: poolBusyRefusal_def noCandidatesRefusal_def DEVICE_BUSY_def Let_def split: list.split)

lemma pool_turn_held:
  assumes "pool_turn p (Some h) until noWait r t = (Some out, ls, t')" "h \<noteq> []"
  shows "pool_says p (Some h) until noWait r out"
  using assms selectPoolDevice_held [OF assms(2), of "usable (readPool p (pr_candidates r) (pr_store r))" "pool_leases (readPool p (pr_candidates r) (pr_store r))" "pr_now r"]
  by (auto simp: pool_turn_def pool_says_def Let_def readPool_eq list_ex_iff split: pool_selection.splits)

lemma pool_turn_free:
  assumes turn: "pool_turn p None until noWait r t = (Some out, ls, t')" and inv: "lease_inv (pr_store r)"
  shows "pool_says p None until noWait r out"
proof -
  define rd where "rd = readPool p (pr_candidates r) (pr_store r)"
  note turn = turn [unfolded pool_turn_def, folded rd_def, unfolded Let_def]
  note ok = selectPoolDevice_free [of "usable rd" "pool_leases rd" "pr_now r"]
  have usable: "c \<in> set (usable rd) \<longleftrightarrow> c \<in> set (pr_candidates r) \<and> lease_file_of (pr_store r) (deviceLeasePath p (cand_id c)) \<noteq> Unreadable" for c
    by (simp add: rd_def readPool_eq)
  have expired: "leaseIsExpired l (pr_now r)" if "c \<in> set (usable rd)" "\<not> taken (pool_leases rd) (pr_now r) c"
      "lease_at (pr_store r) (deviceLeasePath p (cand_id c)) = Some l" "lease_id l = cand_id c" for c l
    using lease_for_own [OF inv _ that(3,4), of "pr_candidates r"] that(1,2) usable by (auto simp: taken_def rd_def [symmetric])
  show ?thesis
  proof (cases "selectPoolDevice (usable rd) (pool_leases rd) None (pr_now r)")
    case (Selected c)
    with ok have c: "c \<in> set (usable rd)" "\<not> taken (pool_leases rd) (pr_now r) c" by (auto simp: selection_ok_def in_pool_def)
    from turn Selected have "out = PoolSelected c" by simp
    with c usable expired show ?thesis by (auto simp: pool_says_def)
  next
    case (HeldDisconnected i)
    with ok show ?thesis by (simp add: selection_ok_def)
  next
    case NoDevice
    with ok have "usable rd = []" by (simp add: selection_ok_def)
    then have all: "list_all (\<lambda>c. lease_file_of (pr_store r) (deviceLeasePath p (cand_id c)) = Unreadable) (pr_candidates r)"
      by (auto simp: rd_def readPool_eq filter_empty_conv list_all_iff)
    moreover have "unreadable rd = [] \<longleftrightarrow> pr_candidates r = []"
      using all by (cases "pr_candidates r") (auto simp: rd_def readPool_eq)
    moreover have "out = PoolRefused (if unreadable rd \<noteq> [] then poolBusyRefusal [] (pool_leases rd) else noCandidatesRefusal)"
      using turn NoDevice by simp
    ultimately show ?thesis
      using refusal_codes(1) [of "[]" "pool_leases rd"] refusal_codes(2,3) by (simp add: pool_says_def)
  next
    case (AllBusy holders spare)
    with ok have ne: "pr_candidates r \<noteq> []" by (auto simp: selection_ok_def rd_def readPool_eq)
    from turn AllBusy consider c where "noWait" "out = PoolSelected c" "c \<in> set (usable rd)"
      | "until \<le> pr_check r" "out = PoolRefused (poolBusyRefusal holders (pool_leases rd))"
      by (auto split: option.splits if_splits list.splits dest!: find_SomeD)
    then show ?thesis
      by cases (use ne usable refusal_codes in \<open>auto simp: pool_says_def\<close>)
  qed
qed

lemma pool_turn_waits: "pool_turn p held until noWait r t = (None, ls, t') \<Longrightarrow> pr_check r < until"
  by (auto simp: pool_turn_def Let_def split: pool_selection.splits option.splits if_splits)

lemma pool_rounds_split:
  "pool_rounds p held until noWait rs t = Some (out, ls) \<Longrightarrow>
   \<exists>pre r rest t1 ls1 t2. rs = pre @ r # rest \<and> list_all (\<lambda>r. pr_check r < until) pre \<and> pool_turn p held until noWait r t1 = (Some out, ls1, t2) \<and>
     pool_rounds p held until noWait pre t = None \<and> pool_rounds p held until noWait (pre @ [r]) t = Some (out, ls)"
proof (induction rs arbitrary: t ls)
  case (Cons r rs)
  obtain o1 l1 t1 where turn: "pool_turn p held until noWait r t = (o1, l1, t1)" by (metis prod_cases3)
  show ?case
  proof (cases o1)
    case (Some a)
    with Cons.prems turn have "a = out" by simp
    then show ?thesis using turn Some Cons.prems by (intro exI [of _ "[]"] exI [of _ r] exI [of _ rs]) auto
  next
    case None
    with Cons.prems turn obtain ls' where ls': "pool_rounds p held until noWait rs t1 = Some (out, ls')" "ls = l1 @ ls'" by auto
    from Cons.IH [OF ls'(1)] obtain pre r' rest t2 ls1 t3 where p: "rs = pre @ r' # rest" "list_all (\<lambda>r. pr_check r < until) pre"
        "pool_turn p held until noWait r' t2 = (Some out, ls1, t3)" "pool_rounds p held until noWait pre t1 = None"
        "pool_rounds p held until noWait (pre @ [r']) t1 = Some (out, ls')" by blast
    with turn None ls'(2) pool_turn_waits [OF turn [unfolded None]] show ?thesis
      by (intro exI [of _ "r # pre"] exI [of _ r'] exI [of _ rest] exI [of _ t2] exI [of _ ls1] exI [of _ t3]) simp
  qed
qed simp

lemma pool_rounds_ends: "r \<in> set rs \<Longrightarrow> until \<le> pr_check r \<Longrightarrow> pool_rounds p held until noWait rs t \<noteq> None"
proof (induction rs arbitrary: t)
  case (Cons x rs)
  obtain o1 l1 t1 where turn: "pool_turn p held until noWait x t = (o1, l1, t1)" by (metis prod_cases3)
  show ?case
  proof (cases o1)
    case None
    with turn pool_turn_waits have "pr_check x < until" by blast
    with Cons.prems have "r \<in> set rs" by auto
    with Cons.IH Cons.prems turn None show ?thesis by auto
  qed (use turn in auto)
qed simp

lemma heldPoolId_nonblank: "heldPoolId root p now slt st = Inr (Some h) \<Longrightarrow> h \<noteq> []"
proof -
  assume "heldPoolId root p now slt st = Inr (Some h)"
  then obtain key r where "map_of (readHolder st root) key = Some r" "h = rec_id r"
    by (auto simp: heldPoolId_def split: sum.splits option.splits if_splits)
  then have "(key, r) \<in> set (readHolder st root)" "h = rec_id r" by (auto dest: map_of_SomeD)
  with records_ok_readHolder [of st root] have "trim h \<noteq> []" by (auto simp: records_ok_def record_ok_def)
  then show ?thesis by (auto simp: trim_def)
qed


text \<open>The answer comes from the first round at which the wait has one.\<close>

lemma selectFromPool_first:
  assumes "selectFromPool root p slt waitSeconds deadline noWait now0 now1 st rounds = Some (Inr (out, ls))"
    and "list_all (\<lambda>r. lease_inv (pr_store r)) rounds"
  shows "\<exists>held until pre r rest. heldPoolId root p now0 slt st = Inr held \<and>
    until = (case deadline of Some d \<Rightarrow> d | None \<Rightarrow> now1 + waitSeconds * 1000) \<and>
    rounds = pre @ r # rest \<and> list_all (\<lambda>r. pr_check r < until) pre \<and> pool_says p held until noWait r out \<and>
    selectFromPool root p slt waitSeconds deadline noWait now0 now1 st pre = None \<and>
    selectFromPool root p slt waitSeconds deadline noWait now0 now1 st (pre @ [r]) = Some (Inr (out, ls))"
proof -
  let ?until = "case deadline of Some d \<Rightarrow> d | None \<Rightarrow> now1 + waitSeconds * 1000"
  from assms(1) obtain held where held: "heldPoolId root p now0 slt st = Inr held"
    and rounds: "pool_rounds p held ?until noWait rounds None = Some (out, ls)"
    by (auto simp: selectFromPool_def Let_def split: sum.splits)
  from pool_rounds_split [OF rounds] obtain pre r rest t1 ls1 t2 where r: "rounds = pre @ r # rest"
    "list_all (\<lambda>r. pr_check r < ?until) pre" "pool_turn p held ?until noWait r t1 = (Some out, ls1, t2)"
    and run: "pool_rounds p held ?until noWait pre None = None" "pool_rounds p held ?until noWait (pre @ [r]) None = Some (out, ls)" by blast
  have "pool_says p held ?until noWait r out"
  proof (cases held)
    case None
    with pool_turn_free r assms(2) show ?thesis by auto
  next
    case (Some h)
    with pool_turn_held r heldPoolId_nonblank held show ?thesis by blast
  qed
  moreover have "selectFromPool root p slt waitSeconds deadline noWait now0 now1 st pre = None"
    "selectFromPool root p slt waitSeconds deadline noWait now0 now1 st (pre @ [r]) = Some (Inr (out, ls))"
    using run by (simp_all add: selectFromPool_def held)
  ultimately show ?thesis using held r by blast
qed

lemma selectFromPool_says:
  assumes "selectFromPool root p slt waitSeconds deadline noWait now0 now1 st rounds = Some (Inr (out, ls))"
    and "list_all (\<lambda>r. lease_inv (pr_store r)) rounds"
  shows "\<exists>held until pre r rest. heldPoolId root p now0 slt st = Inr held \<and>
    until = (case deadline of Some d \<Rightarrow> d | None \<Rightarrow> now1 + waitSeconds * 1000) \<and>
    rounds = pre @ r # rest \<and> list_all (\<lambda>r. pr_check r < until) pre \<and> pool_says p held until noWait r out"
  using selectFromPool_first [OF assms] by blast

section \<open>Properties\<close>

text \<open>
  The decision over the pool: with no lease of its own a workspace is given the free candidate
  whose id comes first in the alphabet, a fallback only when every candidate is one; it is told all
  are busy, with who holds them and which fallbacks are spare, exactly when every candidate it may
  have is under a live lease, and that there is no device only when none is connected. A workspace
  that holds a device is given that one, or told that it is not connected.
\<close>

theorem selectPoolDevice_decision:
  "selection_ok cs ls now (selectPoolDevice cs ls None now) \<and>
   (h \<noteq> [] \<longrightarrow> (case selectPoolDevice cs ls (Some h) now of Selected c \<Rightarrow> c \<in> set cs \<and> cand_id c = h
      | HeldDisconnected i \<Rightarrow> i = h \<and> h \<notin> cand_id ` set cs | _ \<Rightarrow> False))"
  using selectPoolDevice_free selectPoolDevice_held by blast

theorem selectPoolDevice_decision_witness:
  "selectPoolDevice [\<lparr>cand_id = ''b'', cand_name = None, fallback = False\<rparr>] [] (Some ''a'') 0 = HeldDisconnected ''a''"
  using selectPoolDevice_decision [of "[\<lparr>cand_id = ''b'', cand_name = None, fallback = False\<rparr>]" "[]" 0 "''a''"]
  by (auto split: pool_selection.splits)

text \<open>
  C4. What an answer of the pool means: it came from a round before which the clock had never reached
  the deadline; a device selected is one that round listed, with a readable lease file, and, without
  \<open>--no-wait\<close>, not under a live lease of its own at that moment; a workspace that holds a live
  lease gets that device or is refused because it is not connected; otherwise it is refused as busy
  only when every device is unreadable or at the deadline, and with no device only when none is listed.
\<close>

theorem selectFromPool_answer:
  assumes "selectFromPool root p slt waitSeconds deadline noWait now0 now1 st rounds = Some (Inr (out, ls))"
    and "list_all (\<lambda>r. lease_inv (pr_store r)) rounds"
  shows "\<exists>held until pre r rest. heldPoolId root p now0 slt st = Inr held \<and>
    until = (case deadline of Some d \<Rightarrow> d | None \<Rightarrow> now1 + waitSeconds * 1000) \<and>
    rounds = pre @ r # rest \<and> list_all (\<lambda>r. pr_check r < until) pre \<and> pool_says p held until noWait r out"
  by (rule selectFromPool_says [OF assms])

definition sample_pool :: pool_round where
  "sample_pool = \<lparr>pr_candidates = [\<lparr>cand_id = ''D1'', cand_name = None, fallback = False\<rparr>], pr_store = empty_store,
     pr_now = 5, pr_check = 5, pr_since = 5, pr_line = 5\<rparr>"

theorem selectFromPool_answer_witness:
  "pool_says Ios None 60000 False sample_pool (PoolSelected \<lparr>cand_id = ''D1'', cand_name = None, fallback = False\<rparr>)"
proof -
  let ?c = "\<lparr>cand_id = ''D1'', cand_name = None, fallback = False\<rparr> :: pool_candidate"
  have "selectFromPool ''/a'' Ios ''default'' 60 None False 0 0 empty_store [sample_pool] = Some (Inr (PoolSelected ?c, []))" by code_simp
  moreover have "list_all (\<lambda>r. lease_inv (pr_store r)) [sample_pool]" by (simp add: sample_pool_def empty_store_inv)
  ultimately obtain held pre r rest where "heldPoolId ''/a'' Ios 0 ''default'' empty_store = Inr held" "[sample_pool] = pre @ r # rest"
      "pool_says Ios held 60000 False r (PoolSelected ?c)"
    using selectFromPool_answer by fastforce
  moreover have "heldPoolId ''/a'' Ios 0 ''default'' empty_store = Inr None" by code_simp
  ultimately show ?thesis by (cases pre) auto
qed

text \<open>
  Waiting for the pool ends: whatever is listed and leased in each round, \<open>selectFromPool\<close> has
  answered by the first round whose clock is at or past the deadline.
\<close>

theorem selectFromPool_returns:
  assumes "list_ex (\<lambda>r. (case deadline of Some d \<Rightarrow> d | None \<Rightarrow> now1 + waitSeconds * 1000) \<le> pr_check r) rounds"
  shows "\<exists>ans. selectFromPool root p slt waitSeconds deadline noWait now0 now1 st rounds = Some ans"
proof -
  from assms obtain r where "r \<in> set rounds" "(case deadline of Some d \<Rightarrow> d | None \<Rightarrow> now1 + waitSeconds * 1000) \<le> pr_check r"
    by (auto simp: list_ex_iff)
  from pool_rounds_ends [OF this, of p _ noWait None] show ?thesis
    unfolding selectFromPool_def Let_def by (cases "heldPoolId root p now0 slt st") fastforce+
qed

theorem selectFromPool_returns_witness:
  "\<exists>ans. selectFromPool ''/a'' Ios ''default'' 60 (Some 4) False 0 0 empty_store [sample_pool] = Some ans"
  by (rule selectFromPool_returns) (simp add: sample_pool_def)

end
