(* ===== verification/Slot_Records.thy ===== *)
theory Slot_Records
  imports Device_Slots
begin

text \<open>
  The devices of a workspace in its state record
  (\<open>packages/stim-cli/src/devices/device-slots.ts\<close>). The default slot's devices are in
  \<open>platforms\<close>; every other slot has its own record under \<open>deviceSlots\<close>. A slot's record is
  kept as the JSON it was read from, because the code checks it only when it lists the slots; both
  fields are left out of the state when they have nothing to hold. Slots are listed in the order they were
  added; JavaScript lists names that read as an array index before the others, which changes that order only.
\<close>

section \<open>The records\<close>

type_synonym platform_records = "(string \<times> json) list"

record project_record =
  project_platforms :: "platform_records option"
  project_deviceSlots :: "(string \<times> json) list option"

datatype slot_record_error = SlotRule slot_error | ReservedWebSlot | DefaultInSlots | InvalidSlotRecord string

definition WEB_SLOT :: string where "WEB_SLOT = ''web''"
definition DEFAULT_DEVICE_SLOT :: string where "DEFAULT_DEVICE_SLOT = ''default''"

definition parseDeviceSlotOption :: "string \<Rightarrow> slot_record_error + string" where
  "parseDeviceSlotOption s = (if \<not> isDeviceSlot s then Inl (SlotRule BadSlot) else if s = WEB_SLOT then Inl ReservedWebSlot else Inr s)"

text \<open>\<open>{...value}\<close>: the enumerable own properties a JSON value has.\<close>

fun spread :: "json \<Rightarrow> (string \<times> json) list" where
  "spread (JObj fs) = fs"
| "spread (JArr xs) = zip (map string_of_nat [0..<length xs]) xs"
| "spread (JStr s) = zip (map string_of_nat [0..<length s]) (map (\<lambda>c. JStr [c]) s)"
| "spread _ = []"

definition deviceSlotPlatforms :: "project_record option \<Rightarrow> string \<Rightarrow> slot_record_error + json option" where
  "deviceSlotPlatforms project s = (case validateDeviceSlot s of Inl e \<Rightarrow> Inl (SlotRule e) | Inr _ \<Rightarrow>
     Inr (if s = DEFAULT_DEVICE_SLOT then map_option JObj (Option.bind project project_platforms)
          else Option.bind (Option.bind project project_deviceSlots) (\<lambda>slots. map_of slots s)))"

fun list_slots :: "(string \<times> json) list \<Rightarrow> slot_record_error + (string \<times> platform_records) list" where
  "list_slots [] = Inr []"
| "list_slots ((s, v) # rest) =
     (case validateDeviceSlot s of Inl e \<Rightarrow> Inl (SlotRule e) | Inr _ \<Rightarrow>
        (if s = DEFAULT_DEVICE_SLOT then Inl DefaultInSlots
         else (case v of JObj fs \<Rightarrow> map_sum id ((#) (s, fs)) (list_slots rest) | _ \<Rightarrow> Inl (InvalidSlotRecord s))))"

definition projectDeviceSlots :: "project_record option \<Rightarrow> slot_record_error + (string \<times> platform_records) list" where
  "projectDeviceSlots project =
     map_sum id ((#) (DEFAULT_DEVICE_SLOT, case Option.bind project project_platforms of None \<Rightarrow> [] | Some ps \<Rightarrow> ps))
       (list_slots (case Option.bind project project_deviceSlots of None \<Rightarrow> [] | Some slots \<Rightarrow> slots))"

definition assignSlotDevice :: "project_record \<Rightarrow> string \<Rightarrow> json \<Rightarrow> string \<Rightarrow> slot_record_error + project_record" where
  "assignSlotDevice project platform device s = (case validateDeviceSlot s of Inl e \<Rightarrow> Inl (SlotRule e) | Inr _ \<Rightarrow>
     (if platform \<noteq> ''ios'' \<and> platform \<noteq> ''android'' then Inl (SlotRule UnknownPlatform)
      else if s = DEFAULT_DEVICE_SLOT
        then Inr (project\<lparr>project_platforms := Some (AList.update platform device (case project_platforms project of None \<Rightarrow> [] | Some ps \<Rightarrow> ps))\<rparr>)
      else (case deviceSlotPlatforms (Some project) s of Inl e \<Rightarrow> Inl e | Inr old \<Rightarrow>
        (let fields = (case old of None \<Rightarrow> [] | Some v \<Rightarrow> spread v);
             slots = (case project_deviceSlots project of None \<Rightarrow> [] | Some ss \<Rightarrow> ss)
         in Inr (project\<lparr>project_deviceSlots := Some (AList.update s (JObj (AList.update platform device fields)) slots)\<rparr>)))))"

text \<open>\<open>delete platforms[platform]\<close> on the record in place; a value that is not an object has no such property.\<close>

fun delete_field :: "string \<Rightarrow> json \<Rightarrow> json" where
  "delete_field k (JObj fs) = JObj (AList.delete k fs)"
| "delete_field k v = v"

fun falsy :: "json \<Rightarrow> bool" where
  "falsy JNull = True"
| "falsy (JBool b) = (\<not> b)"
| "falsy (JNum n) = (n = 0)"
| "falsy (JStr s) = (s = [])"
| "falsy _ = False"

definition removeSlotDevice :: "project_record \<Rightarrow> string \<Rightarrow> string \<Rightarrow> slot_record_error + project_record" where
  "removeSlotDevice project platform s = (case deviceSlotPlatforms (Some project) s of Inl e \<Rightarrow> Inl e
     | Inr None \<Rightarrow> Inr project
     | Inr (Some v) \<Rightarrow>
        (if falsy v then Inr project
         else if s = DEFAULT_DEVICE_SLOT
           then Inr (project\<lparr>project_platforms := map_option (AList.delete platform) (project_platforms project)\<rparr>)
         else (let v' = delete_field platform v; slots = the (project_deviceSlots project) in
           if spread v' \<noteq> [] then Inr (project\<lparr>project_deviceSlots := Some (AList.update s v' slots)\<rparr>)
           else (let left = AList.delete s slots in Inr (project\<lparr>project_deviceSlots := if left = [] then None else Some left\<rparr>)))))"

section \<open>Looking a device up\<close>

definition assigned_device :: "project_record \<Rightarrow> string \<Rightarrow> string \<Rightarrow> json option" where
  "assigned_device project platform s = (case deviceSlotPlatforms (Some project) s of Inr (Some v) \<Rightarrow> jfield platform v | _ \<Rightarrow> None)"

text \<open>The state as the program writes it: slot records are objects with a device, and no empty table.\<close>

definition slots_wf :: "project_record \<Rightarrow> bool" where
  "slots_wf project \<longleftrightarrow> (case project_deviceSlots project of None \<Rightarrow> True
     | Some slots \<Rightarrow> slots \<noteq> [] \<and> distinct (map fst slots) \<and>
         list_all (\<lambda>(s, v). isDeviceSlot s \<and> s \<noteq> DEFAULT_DEVICE_SLOT \<and> is_obj v \<and> spread v \<noteq> []) slots)"

lemma validate_Inr [simp]: "validateDeviceSlot s = Inr x \<longleftrightarrow> isDeviceSlot s \<and> x = s"
  by (auto simp: validateDeviceSlot_def)

lemma assigned_device_eq:
  "assigned_device project platform s = (if \<not> isDeviceSlot s then None
     else if s = DEFAULT_DEVICE_SLOT then Option.bind (project_platforms project) (\<lambda>ps. map_of ps platform)
     else Option.bind (Option.bind (project_deviceSlots project) (\<lambda>slots. map_of slots s)) (jfield platform))"
  by (cases "project_platforms project"; cases "project_deviceSlots project")
    (auto simp: assigned_device_def deviceSlotPlatforms_def validateDeviceSlot_def jfield_def split: option.split)

lemma slots_wf_value:
  assumes "slots_wf project" "project_deviceSlots project = Some slots" "map_of slots s = Some v"
  shows "\<exists>fs. v = JObj fs \<and> fs \<noteq> []"
proof -
  from assms(3) have "(s, v) \<in> set slots" by (rule map_of_SomeD)
  with assms have "is_obj v" "spread v \<noteq> []" by (auto simp: slots_wf_def list_all_iff)
  then show ?thesis by (cases v) auto
qed

lemma update_nonempty [simp]: "AList.update k v xs \<noteq> []"
  by (cases xs) auto

lemma all_update: "list_all P xs \<Longrightarrow> P (k, v) \<Longrightarrow> list_all P (AList.update k v xs)"
  by (induction xs) auto

lemma all_delete: "list_all P xs \<Longrightarrow> list_all P (AList.delete k xs)"
  by (auto simp: list_all_iff AList.delete_eq)

lemma assign_cases:
  assumes "assignSlotDevice project platform device s = Inr project'"
  obtains (default) ps where "s = DEFAULT_DEVICE_SLOT" "project' = project\<lparr>project_platforms := Some (AList.update platform device ps)\<rparr>"
      "ps = (case project_platforms project of None \<Rightarrow> [] | Some ps \<Rightarrow> ps)"
  | (slot) fs slots where "isDeviceSlot s" "s \<noteq> DEFAULT_DEVICE_SLOT"
      "project' = project\<lparr>project_deviceSlots := Some (AList.update s (JObj (AList.update platform device fs)) slots)\<rparr>"
      "slots = (case project_deviceSlots project of None \<Rightarrow> [] | Some ss \<Rightarrow> ss)"
      "fs = (case map_of slots s of None \<Rightarrow> [] | Some v \<Rightarrow> spread v)"
  using assms
  by (auto simp: assignSlotDevice_def deviceSlotPlatforms_def Let_def split: sum.splits if_splits option.splits)


lemma assign_device:
  assumes "assignSlotDevice project platform device s = Inr project'" "slots_wf project"
  shows "assigned_device project' q t = (if q = platform \<and> t = s then Some device else assigned_device project q t)"
  using assms(1)
proof (cases rule: assign_cases)
  case (default ps)
  have "isDeviceSlot s" using default(1) by (simp add: DEFAULT_DEVICE_SLOT_def)
  with default show ?thesis by (cases "project_platforms project") (auto simp: assigned_device_eq update_conv')
next
  case (slot fs slots)
  have "jfield q (JObj fs) = Option.bind (map_of slots s) (jfield q)"
  proof (cases "map_of slots s")
    case (Some v)
    with slot(4) have "project_deviceSlots project = Some slots" by (cases "project_deviceSlots project") auto
    with slots_wf_value [OF assms(2)] Some obtain gs where "v = JObj gs" by blast
    with Some slot(5) show ?thesis by simp
  qed (simp add: slot(5) jfield_def)
  with slot show ?thesis
    by (cases "project_deviceSlots project") (auto simp: assigned_device_eq update_conv' jfield_def)
qed

lemma assign_wf:
  assumes "assignSlotDevice project platform device s = Inr project'" "slots_wf project"
  shows "slots_wf project'"
  using assms(1)
proof (cases rule: assign_cases)
  case (slot fs slots)
  have "list_all (\<lambda>(s, v). isDeviceSlot s \<and> s \<noteq> DEFAULT_DEVICE_SLOT \<and> is_obj v \<and> spread v \<noteq> []) slots" "distinct (map fst slots)"
    using assms(2) slot(4) by (auto simp: slots_wf_def split: option.splits)
  with slot show ?thesis by (auto simp: slots_wf_def distinct_update intro!: all_update)
qed (use assms(2) in \<open>simp add: slots_wf_def\<close>)

lemma remove_cases:
  assumes "removeSlotDevice project platform s = Inr project'" "slots_wf project"
  obtains (absent) "project' = project" "isDeviceSlot s" "assigned_device project platform s = None"
  | (default) ps where "s = DEFAULT_DEVICE_SLOT" "project_platforms project = Some ps" "project' = project\<lparr>project_platforms := Some (AList.delete platform ps)\<rparr>"
  | (slot) fs slots where "isDeviceSlot s" "s \<noteq> DEFAULT_DEVICE_SLOT" "project_deviceSlots project = Some slots" "map_of slots s = Some (JObj fs)"
      "AList.delete platform fs \<noteq> []" "project' = project\<lparr>project_deviceSlots := Some (AList.update s (JObj (AList.delete platform fs)) slots)\<rparr>"
  | (emptied) fs slots where "isDeviceSlot s" "s \<noteq> DEFAULT_DEVICE_SLOT" "project_deviceSlots project = Some slots" "map_of slots s = Some (JObj fs)"
      "AList.delete platform fs = []" "project' = project\<lparr>project_deviceSlots := (let left = AList.delete s slots in if left = [] then None else Some left)\<rparr>"
proof -
  have ok: "isDeviceSlot s" using assms(1) by (auto simp: removeSlotDevice_def deviceSlotPlatforms_def validateDeviceSlot_def split: if_splits)
  show thesis
  proof (cases "s = DEFAULT_DEVICE_SLOT")
    case True
    show thesis
    proof (cases "project_platforms project")
      case None
      with True ok assms(1) show thesis
        by (intro absent) (auto simp: removeSlotDevice_def deviceSlotPlatforms_def validateDeviceSlot_def assigned_device_eq)
    next
      case (Some ps)
      with True ok assms(1) show thesis
        by (intro default) (auto simp: removeSlotDevice_def deviceSlotPlatforms_def validateDeviceSlot_def)
    qed
  next
    case False
    show thesis
    proof (cases "Option.bind (project_deviceSlots project) (\<lambda>slots. map_of slots s)")
      case None
      with False ok assms(1) have "project' = project"
        by (simp add: removeSlotDevice_def deviceSlotPlatforms_def validateDeviceSlot_def)
      moreover have "assigned_device project platform s = None"
        using False None by (cases "project_deviceSlots project") (simp_all add: assigned_device_eq)
      ultimately show thesis using ok absent by blast
    next
      case (Some v)
      then obtain slots where slots: "project_deviceSlots project = Some slots" "map_of slots s = Some v"
        by (cases "project_deviceSlots project") auto
      with slots_wf_value [OF assms(2)] obtain fs where v: "v = JObj fs" by blast
      have eq: "removeSlotDevice project platform s = Inr (if AList.delete platform fs \<noteq> []
          then project\<lparr>project_deviceSlots := Some (AList.update s (JObj (AList.delete platform fs)) slots)\<rparr>
          else project\<lparr>project_deviceSlots := (let left = AList.delete s slots in if left = [] then None else Some left)\<rparr>)"
        using False ok slots v by (simp add: removeSlotDevice_def deviceSlotPlatforms_def validateDeviceSlot_def Let_def)
      show thesis
      proof (cases "AList.delete platform fs = []")
        case True
        with eq assms(1) show thesis by (intro emptied [OF ok False slots(1) slots(2) [unfolded v]]) auto
      next
        case keep: False
        with eq assms(1) show thesis by (intro slot [OF ok False slots(1) slots(2) [unfolded v] keep]) auto
      qed
    qed
  qed
qed

lemma remove_device:
  assumes "removeSlotDevice project platform s = Inr project'" "slots_wf project"
  shows "assigned_device project' q t = (if q = platform \<and> t = s then None else assigned_device project q t)"
  using assms
proof (cases rule: remove_cases)
  case (emptied fs slots)
  have gone: "map_of (AList.delete platform fs) q = (if q = platform then None else map_of fs q)"
    by (simp add: delete_conv')
  then have "q \<noteq> platform \<Longrightarrow> map_of fs q = None" using emptied(5) by simp
  moreover have "Option.bind (project_deviceSlots project') (\<lambda>slots. map_of slots t) = (if t = s then None else map_of slots t)"
    using emptied(6) delete_conv' [of s slots] by (auto simp: Let_def fun_eq_iff split: if_splits)
  ultimately show ?thesis
    using emptied(1-4,6) by (auto simp: assigned_device_eq jfield_def simp flip: Option.bind_assoc)
qed (auto simp: assigned_device_eq delete_conv' update_conv' jfield_def DEFAULT_DEVICE_SLOT_def)

lemma remove_wf:
  assumes "removeSlotDevice project platform s = Inr project'" "slots_wf project"
  shows "slots_wf project'"
  using assms
proof (cases rule: remove_cases)
  case (slot fs slots)
  with assms(2) show ?thesis by (auto simp: slots_wf_def distinct_update intro!: all_update)
next
  case (emptied fs slots)
  with assms(2) show ?thesis by (auto simp: slots_wf_def Let_def distinct_delete intro!: all_delete)
qed (use assms(2) in \<open>simp_all add: slots_wf_def\<close>)


lemma list_slots_wf:
  "list_all (\<lambda>(s, v). isDeviceSlot s \<and> s \<noteq> DEFAULT_DEVICE_SLOT \<and> is_obj v \<and> spread v \<noteq> []) slots \<Longrightarrow>
   list_slots slots = Inr (map (map_prod id spread) slots)"
proof (induction slots)
  case (Cons x slots)
  obtain s v where x: "x = (s, v)" by (cases x)
  with Cons show ?case by (cases v) (auto simp: validateDeviceSlot_def)
qed simp

section \<open>Properties\<close>

text \<open>
  Assigning and removing devices is lookup and update on platform and slot: after
  \<open>assignSlotDevice\<close> that platform and slot have the device and every other pair what it had;
  after \<open>removeSlotDevice\<close> that pair has none and every other pair what it had.
\<close>

theorem slot_device_laws:
  assumes "slots_wf project"
  shows "(assignSlotDevice project platform device s = Inr project' \<longrightarrow>
      assigned_device project' q t = (if q = platform \<and> t = s then Some device else assigned_device project q t)) \<and>
    (removeSlotDevice project platform s = Inr project'' \<longrightarrow>
      assigned_device project'' q t = (if q = platform \<and> t = s then None else assigned_device project q t))"
  using assign_device [OF _ assms] remove_device [OF _ assms] by blast

theorem slot_device_laws_witness:
  "assigned_device \<lparr>project_platforms = None, project_deviceSlots = Some [(''tablet'', JObj [(''ios'', JNum 7)])]\<rparr> ''ios'' ''tablet'' = Some (JNum 7)"
proof -
  have "assignSlotDevice \<lparr>project_platforms = None, project_deviceSlots = None\<rparr> ''ios'' (JNum 7) ''tablet'' =
    Inr \<lparr>project_platforms = None, project_deviceSlots = Some [(''tablet'', JObj [(''ios'', JNum 7)])]\<rparr>" by code_simp
  with slot_device_laws [of "\<lparr>project_platforms = None, project_deviceSlots = None\<rparr>"] show ?thesis by (simp add: slots_wf_def)
qed

text \<open>
  C40. The state stays well formed: both operations keep every slot's record an object with at least one
  device and leave out the table when it would be empty, and on such a state
  \<open>projectDeviceSlots\<close> never fails but lists the default slot and then every record.
\<close>

theorem slot_records_wf:
  assumes "slots_wf project"
  shows "(assignSlotDevice project platform device s = Inr project' \<longrightarrow> slots_wf project') \<and>
    (removeSlotDevice project platform s = Inr project'' \<longrightarrow> slots_wf project'') \<and>
    projectDeviceSlots (Some project) = Inr ((DEFAULT_DEVICE_SLOT, case project_platforms project of None \<Rightarrow> [] | Some ps \<Rightarrow> ps) #
      map (map_prod id spread) (case project_deviceSlots project of None \<Rightarrow> [] | Some slots \<Rightarrow> slots))"
proof (intro conjI impI)
  have "list_slots (case project_deviceSlots project of None \<Rightarrow> [] | Some slots \<Rightarrow> slots) =
      Inr (map (map_prod id spread) (case project_deviceSlots project of None \<Rightarrow> [] | Some slots \<Rightarrow> slots))"
    by (rule list_slots_wf) (use assms in \<open>auto simp: slots_wf_def split: option.splits\<close>)
  then show "projectDeviceSlots (Some project) = Inr ((DEFAULT_DEVICE_SLOT, case project_platforms project of None \<Rightarrow> [] | Some ps \<Rightarrow> ps) #
      map (map_prod id spread) (case project_deviceSlots project of None \<Rightarrow> [] | Some slots \<Rightarrow> slots))"
    by (simp add: projectDeviceSlots_def)
qed (use assign_wf [OF _ assms] remove_wf [OF _ assms] in blast)+

theorem slot_records_wf_witness:
  "slots_wf \<lparr>project_platforms = None, project_deviceSlots = Some [(''tablet'', JObj [(''ios'', JNum 7)])]\<rparr>"
proof -
  have "assignSlotDevice \<lparr>project_platforms = None, project_deviceSlots = None\<rparr> ''ios'' (JNum 7) ''tablet'' =
    Inr \<lparr>project_platforms = None, project_deviceSlots = Some [(''tablet'', JObj [(''ios'', JNum 7)])]\<rparr>" by code_simp
  moreover have "slots_wf \<lparr>project_platforms = None, project_deviceSlots = None\<rparr>" by (simp add: slots_wf_def)
  ultimately show ?thesis using slot_records_wf by blast
qed

end
