(* ===== verification/Js_Number.thy ===== *)
theory Js_Number
  imports Stim_Prelude
begin

text \<open>
  The double arithmetic the program formats and compares byte counts with. A positive double is
  the fraction \<open>m / 2 ^ k\<close>, the pair \<open>(m, k)\<close>. \<open>double_div a b\<close> is the correctly rounded
  quotient of two positive integers: the nearest fraction with a 53-bit numerator, ties to
  even. The product of a double and an integer is the quotient of their exact product. All
  values here lie between \<open>2 ^ -75\<close> and \<open>2 ^ 53\<close>, far from overflow and subnormals.
\<close>

type_synonym double = "int \<times> nat"

definition round_even :: "int \<Rightarrow> int \<Rightarrow> int" where
  "round_even a b = (let q = a div b; r = a mod b in
     if 2 * r < b \<or> (2 * r = b \<and> even q) then q else q + 1)"

definition double_div :: "int \<Rightarrow> int \<Rightarrow> double" where
  "double_div a b = (case List.find (\<lambda>k. b * 2 ^ 52 \<le> a * 2 ^ k) [0..<128] of
     Some k \<Rightarrow> (round_even (a * 2 ^ k) b, k) | None \<Rightarrow> (0, 0))"

definition double_mul :: "double \<Rightarrow> int \<Rightarrow> double" where
  "double_mul x n = double_div (fst x * n) (2 ^ snd x)"

text \<open>\<open>toFixed(1)\<close>; \<open>toFixed(0)\<close> and \<open>Math.round\<close>, which both round halves up.\<close>

definition to_fixed1 :: "double \<Rightarrow> string" where
  "to_fixed1 x = (case x of (m, k) \<Rightarrow>
     let n = (m * 20 + 2 ^ k) div (2 * 2 ^ k) in string_of_int (n div 10) @ ''.'' @ string_of_int (n mod 10))"

definition math_round :: "double \<Rightarrow> int" where
  "math_round x = (case x of (m, k) \<Rightarrow> (m * 2 + 2 ^ k) div (2 * 2 ^ k))"

definition int_le_double :: "int \<Rightarrow> double \<Rightarrow> bool" where
  "int_le_double n x = (n * 2 ^ snd x \<le> fst x)"

definition int_less_double :: "int \<Rightarrow> double \<Rightarrow> bool" where
  "int_less_double n x = (n * 2 ^ snd x < fst x)"

definition double_less :: "double \<Rightarrow> double \<Rightarrow> bool" where
  "double_less x y = (fst x * 2 ^ snd y < fst y * 2 ^ snd x)"

section \<open>Rounding errors\<close>

lemma round_even_bounds: "0 < b \<Longrightarrow> 2 * a - b \<le> 2 * (b * round_even a b) \<and> 2 * (b * round_even a b) \<le> 2 * a + b"
proof -
  assume b: "0 < b"
  have eq: "b * (a div b) + a mod b = a" by simp
  have r: "0 \<le> a mod b" "a mod b < b" using b by simp_all
  have "b * round_even a b = b * (a div b) \<and> 2 * (a mod b) \<le> b \<or> b * round_even a b = b * (a div b) + b \<and> b \<le> 2 * (a mod b)"
    by (auto simp: round_even_def Let_def algebra_simps)
  with eq r show ?thesis by linarith
qed

lemma find_upt_least:
  assumes "List.find P [0..<n] = Some k"
  shows "P k \<and> (\<forall>j < k. \<not> P j)"
  using assms by (auto simp: find_Some_iff)

text \<open>The scale: the exponent is the least that gives the numerator 53 bits.\<close>

lemma double_div_scale:
  assumes "double_div a b = (m, k)" "0 < m" "0 < b"
  shows "b * 2 ^ 52 \<le> a * 2 ^ k" "m = round_even (a * 2 ^ k) b" "k = 0 \<or> a * 2 ^ k < b * 2 ^ 53"
proof -
  obtain k' where f: "List.find (\<lambda>k. b * 2 ^ 52 \<le> a * 2 ^ k) [0..<128] = Some k'"
    using assms(1,2) by (auto simp: double_div_def split: option.splits)
  with assms(1) have k: "k' = k" and m: "m = round_even (a * 2 ^ k) b" by (auto simp: double_div_def)
  from find_upt_least [OF f [unfolded k]] have P: "b * 2 ^ 52 \<le> a * 2 ^ k" and L: "\<forall>j < k. a * 2 ^ j < b * 2 ^ 52"
    by (auto simp: not_le)
  show "b * 2 ^ 52 \<le> a * 2 ^ k" "m = round_even (a * 2 ^ k) b" using P m .
  show "k = 0 \<or> a * 2 ^ k < b * 2 ^ 53"
    using L by (cases k) (auto simp: mult.assoc dest: spec)
qed

lemma double_div_total:
  assumes "0 < b" "b \<le> a * 2 ^ 75"
  shows "0 < fst (double_div a b)"
proof -
  have "b * 2 ^ 52 \<le> a * 2 ^ 127" using assms mult_right_mono [of b "a * 2 ^ 75" "2 ^ 52"] by (simp add: mult.assoc flip: power_add)
  then have "\<exists>x \<in> set [0..<128]. b * 2 ^ 52 \<le> a * 2 ^ x" by (intro bexI [of _ 127]) simp_all
  then have "List.find (\<lambda>k. b * 2 ^ 52 \<le> a * 2 ^ k) [0..<128] \<noteq> None" by (simp only: find_None_iff) blast
  then obtain k where f: "List.find (\<lambda>k. b * 2 ^ 52 \<le> a * 2 ^ k) [0..<128] = Some k" by blast
  have P: "b * 2 ^ 52 \<le> a * 2 ^ k" using find_upt_least [OF f] by blast
  let ?r = "round_even (a * 2 ^ k) b"
  have "2 * (a * 2 ^ k) - b \<le> 2 * (b * ?r)" using round_even_bounds [OF assms(1), of "a * 2 ^ k"] by blast
  with P assms(1) have "0 < b * ?r" by simp
  with assms(1) have "0 < ?r" by (simp add: zero_less_mult_iff)
  with f show ?thesis by (simp add: double_div_def)
qed


text \<open>
  Dividing by \<open>d\<close>, multiplying back and rounding gives the number back: two roundings of a
  number below \<open>2 ^ 50\<close> are off by less than a half.
\<close>

lemma div_mul_round:
  assumes t: "0 < t" "t < 2 ^ 50" and d: "0 < d" "d < 2 ^ 50"
  shows "math_round (double_mul (double_div t d) d) = t"
proof -
  obtain m k where mk: "double_div t d = (m, k)" by fastforce
  have m0: "0 < m" using double_div_total [of d t] t d mk by simp
  define X :: int where "X = 2 ^ k"
  have X: "0 < X" by (simp add: X_def)
  note sc = double_div_scale [OF mk m0 d(1), folded X_def]
  have dm: "2 * (t * X) - d \<le> 2 * (d * m)" "2 * (d * m) \<le> 2 * (t * X) + d"
    using round_even_bounds [OF d(1), of "t * X"] sc(2) by auto
  have "t * X \<le> 1125899906842623 * X" using t X by (intro mult_right_mono) auto
  moreover have "d * 4503599627370496 \<le> t * X" using sc(1) by simp
  ultimately have dX: "4 * d < X" using X by linarith
  have tX: "X \<le> t * X" using t X by simp
  obtain n j where nj: "double_div (m * d) X = (n, j)" by fastforce
  define Y :: int where "Y = 2 ^ j"
  have Y: "0 < Y" by (simp add: Y_def)
  have md: "X \<le> 2 * (m * d)" using dm(1) tX dX X by (simp only: mult.commute [of m d])
  have n0: "0 < n" using double_div_total [OF X, of "m * d"] md nj X by simp
  note sc2 = double_div_scale [OF nj n0 X, folded Y_def]
  have nm: "2 * (m * d * Y) - X \<le> 2 * (X * n)" "2 * (X * n) \<le> 2 * (m * d * Y) + X"
    using round_even_bounds [OF X, of "m * d * Y"] sc2(2) by auto
  have Y2: "2 \<le> Y"
  proof (cases j)
    case 0
    then have "Y = 1" by (simp add: Y_def)
    with sc2(1) have "X * 4503599627370496 \<le> m * d" by simp
    moreover have "2 * (m * d) \<le> 2 * (t * X) + X" using dm(2) dX d by (simp only: mult.commute [of m d])
    moreover have "t * X \<le> 1125899906842624 * X" using t X by (intro mult_right_mono) auto
    ultimately show ?thesis using X by linarith
  next
    case (Suc i)
    have "(1::int) \<le> 2 ^ i" by simp
    with Suc show ?thesis by (simp add: Y_def)
  qed
  have 1: "2 * (m * d * Y) \<le> 2 * (t * X * Y) + d * Y" "2 * (t * X * Y) - d * Y \<le> 2 * (m * d * Y)"
    using mult_right_mono [OF dm(2), of Y] mult_right_mono [OF dm(1), of Y] Y by (simp_all add: algebra_simps)
  have 2: "4 * (d * Y) \<le> X * Y" using mult_right_mono [of "4 * d" X Y] dX Y by (simp add: mult.assoc)
  have 3: "2 * X \<le> X * Y" using mult_left_mono [OF Y2, of X] X by (simp add: mult.commute)
  have XY: "0 < X * Y" using X Y by simp
  have "2 * (X * n) < 2 * (t * X * Y) + X * Y" "2 * (t * X * Y) - X * Y < 2 * (X * n)"
    using nm 1 2 3 XY by linarith+
  moreover have "X * ((2 * t + 1) * Y) = 2 * (t * X * Y) + X * Y" "X * ((2 * t - 1) * Y) = 2 * (t * X * Y) - X * Y" "X * (2 * n) = 2 * (X * n)"
    by (simp_all add: algebra_simps)
  ultimately have "X * (2 * n) < X * ((2 * t + 1) * Y)" "X * ((2 * t - 1) * Y) < X * (2 * n)" by (simp_all only:)
  then have b: "2 * n < (2 * t + 1) * Y" "(2 * t - 1) * Y < 2 * n" using X by (simp_all add: mult_less_cancel_left_pos)
  have "(2 * n + Y) div (2 * Y) = t"
  proof (rule int_div_pos_eq)
    show "2 * n + Y = 2 * Y * t + (2 * n + Y - 2 * Y * t)" by simp
    show "0 \<le> 2 * n + Y - 2 * Y * t" "2 * n + Y - 2 * Y * t < 2 * Y" using b by (simp_all add: algebra_simps)
  qed
  moreover have "double_mul (double_div t d) d = (n, j)" using nj by (simp add: double_mul_def mk X_def)
  ultimately show ?thesis by (simp add: math_round_def Y_def mult.commute)
qed

end
