(* ===== verification/Oversight_Data.thy ===== *)
theory Oversight_Data
  imports Iso_Date Js_Number "HOL-Library.Sublist"
begin

text \<open>
  What oversight reads and the readings it takes (\<open>packages/core/oversight.ts\<close>, up to
  \<open>failureStreak\<close>, and \<open>formatBytes\<close>): the status of a machine's workspaces, each
  workspace's title, devices, last activity and failure streaks. A list the code may leave out
  (\<open>env.slots ?? []\<close>) is a list here; any other optional field is an option. Times are
  integers in milliseconds; \<open>time\<close> of a missing or unreadable text is \<open>NaN\<close>, \<open>None\<close>.
\<close>

section \<open>The status\<close>

record driver =
  drv_tool :: string
  drv_since :: "string option"

record activity =
  act_state :: string
  act_driver :: "driver option"
  act_last :: "string option"
  act_recent :: "(string \<times> string) list option"

record device =
  dev_name :: "string option"
  dev_state :: "string option"
  dev_physical :: bool
  dev_activity :: "activity option"

record diagnostic =
  diag_file :: "string option"
  diag_line :: "int option"

record build =
  b_platform :: string
  b_status :: string
  b_result :: "string option"
  b_startedAt :: string
  b_finishedAt :: "string option"
  b_errorCode :: "string option"
  b_diagnostics :: "diagnostic list"

record slot_devices =
  sl_slot :: string
  sl_ios :: "device option"
  sl_android :: "device option"

record git_state =
  git_mergedInto :: "string option"

record worktree =
  wt_path :: string
  wt_branch :: "string option"
  wt_repository :: "string option"
  wt_git :: "git_state option"

record current_build =
  cb_state :: string
  cb_startedAt :: string
  cb_platform :: "string option"

record issue =
  iss_code :: string
  iss_severity :: string
  iss_message :: string
  iss_remedy :: string
  iss_slot :: "string option"

record physical_device =
  ph_platform :: string
  ph_slot :: string
  ph_id :: string
  ph_name :: "string option"
  ph_model :: "string option"
  ph_expiresAt :: string

record remote_device =
  rd_sessionId :: string
  rd_startedAt :: "string option"

record web_page =
  web_running :: bool
  web_activity :: "activity option"

record environment =
  env_path :: string
  env_live :: bool
  env_phase :: "string option"
  env_ios :: "device option"
  env_android :: "device option"
  env_slots :: "slot_devices list"
  env_worktree :: "worktree option"
  env_build :: "current_build option"
  env_issues :: "issue list"
  env_physicalDevices :: "physical_device list"
  env_remoteDevices :: "remote_device list"
  env_last_ios :: "build option"
  env_last_android :: "build option"
  env_builds_ios :: "build list"
  env_builds_android :: "build list"
  env_logErrors :: "int option"
  env_web :: "web_page option"

record unprovisioned =
  unp_path :: string
  unp_repository :: "string option"

record status =
  st_environments :: "environment list"
  st_unprovisioned :: "unprovisioned list"

section \<open>Names\<close>

definition platformName :: "string \<Rightarrow> string" where
  "platformName p = (if p = ''ios'' then ''iOS'' else if p = ''android'' then ''Android'' else p)"

definition basename :: "string \<Rightarrow> string" where
  "basename path = (case List.find (\<lambda>p. p \<noteq> []) (rev (split_at CHR ''/'' path)) of Some p \<Rightarrow> p | None \<Rightarrow> path)"

definition js_time :: "string option \<Rightarrow> jsnum" where
  "js_time t = (case t of None \<Rightarrow> None | Some s \<Rightarrow> if s = [] then None else date_parse s)"

text \<open>The loops run \<open>i\<close> from \<open>parts.length - 2\<close> down to \<open>1\<close>.\<close>

fun root_loop :: "string list \<Rightarrow> nat \<Rightarrow> string option" where
  "root_loop parts 0 = None"
| "root_loop parts (Suc i) =
     (if parts ! Suc i = ''.worktrees'' then Some (join ''/'' (take (Suc i) parts))
      else if parts ! Suc i = ''worktrees'' \<and> parts ! i = ''.claude'' then Some (join ''/'' (take i parts))
      else root_loop parts i)"

definition worktreeRoot :: "string \<Rightarrow> string option" where
  "worktreeRoot path = (let parts = split_at CHR ''/'' path in root_loop parts (length parts - 2))"

fun checkout_loop :: "string list \<Rightarrow> nat \<Rightarrow> string option" where
  "checkout_loop parts 0 = None"
| "checkout_loop parts (Suc i) =
     (if parts ! Suc i = ''.worktrees'' \<or> (parts ! Suc i = ''worktrees'' \<and> parts ! i = ''.claude'')
      then Some (join ''/'' (take (Suc i + 2) parts)) else checkout_loop parts i)"

definition markedCheckout :: "string \<Rightarrow> string option" where
  "markedCheckout path = (let parts = split_at CHR ''/'' path in checkout_loop parts (length parts - 2))"

definition orelse :: "'a option \<Rightarrow> 'a option \<Rightarrow> 'a option" where
  "orelse a b = (case a of None \<Rightarrow> b | Some x \<Rightarrow> Some x)"

definition truthy :: "string option \<Rightarrow> bool" where
  "truthy s = (case s of None \<Rightarrow> False | Some t \<Rightarrow> t \<noteq> [])"

text \<open>Insertion order of a JavaScript \<open>Set\<close>: the first occurrence of each element.\<close>

definition js_set :: "'a list \<Rightarrow> 'a list" where
  "js_set xs = rev (remdups (rev xs))"

definition shortest :: "string list \<Rightarrow> string option" where
  "shortest rs = fold (\<lambda>r best. case best of None \<Rightarrow> Some r | Some b \<Rightarrow> if length r < length b then Some r else Some b) rs None"

definition env_repository :: "environment \<Rightarrow> string option" where
  "env_repository env = Option.bind (env_worktree env) wt_repository"

definition status_roots :: "status \<Rightarrow> string list" where
  "status_roots st = js_set
     (map (\<lambda>e. the (orelse (worktreeRoot (env_path e)) (orelse (env_repository e) (Some (env_path e))))) (st_environments st) @
      List.map_filter (\<lambda>u. let root = orelse (worktreeRoot (unp_path u)) (unp_repository u) in if truthy root then root else None)
        (st_unprovisioned st))"

definition oversightTitle :: "environment \<Rightarrow> status \<Rightarrow> string" where
  "oversightTitle env st =
     (let branch = Option.bind (env_worktree env) wt_branch;
          checkout = orelse (map_option wt_path (env_worktree env)) (markedCheckout (env_path env)) in
      if truthy branch then the branch
      else if truthy checkout then basename (the checkout)
      else let own = orelse (worktreeRoot (env_path env)) (env_repository env);
               above = shortest (filter (\<lambda>r. env_path env = r \<or> prefix (r @ ''/'') (env_path env)) (status_roots st))
           in basename (the (orelse own (orelse above (Some (env_path env))))))"

section \<open>Devices and activity\<close>

datatype device_platform = PIos | PAndroid | PWeb

fun device_platform_text :: "device_platform \<Rightarrow> string" where
  "device_platform_text PIos = ''ios''"
| "device_platform_text PAndroid = ''android''"
| "device_platform_text PWeb = ''web''"

record slot_device =
  sd_platform :: device_platform
  sd_slot :: string
  sd_model :: string
  sd_modelLabel :: "string option"
  sd_running :: bool
  sd_activity :: "activity option"

text \<open>
  The model in a simulator's name, the first group of
  \<open>/\(([^()]*(?:\([^()]*\)[^()]*)*)\)\s*$/\<close>: from the leftmost opening bracket after which
  the text, with at most one level of nested brackets, closes at the end of the name.
\<close>

fun scan_group :: "bool \<Rightarrow> string \<Rightarrow> string \<Rightarrow> (string \<times> string) option" where
  "scan_group nested acc [] = None"
| "scan_group nested acc (c # cs) =
     (if c = CHR '')'' then (if nested then scan_group False (acc @ [c]) cs else Some (acc, cs))
      else if c = CHR ''('' then (if nested then None else scan_group True (acc @ [c]) cs)
      else scan_group nested (acc @ [c]) cs)"

fun model_of_name :: "string \<Rightarrow> string option" where
  "model_of_name [] = None"
| "model_of_name (c # cs) =
     (case (if c = CHR ''('' then scan_group False [] cs else None) of
        Some (body, rest) \<Rightarrow> if list_all is_space rest then Some body else model_of_name cs
      | None \<Rightarrow> model_of_name cs)"

definition slot_pair :: "string \<Rightarrow> device option \<Rightarrow> device option \<Rightarrow> slot_device list" where
  "slot_pair slt ios android =
     (case ios of None \<Rightarrow> [] | Some d \<Rightarrow>
        (let model = model_of_name (case dev_name d of None \<Rightarrow> [] | Some n \<Rightarrow> n) in
         [\<lparr>sd_platform = PIos, sd_slot = slt, sd_model = (case model of None \<Rightarrow> ''iOS Simulator'' | Some m \<Rightarrow> m),
           sd_modelLabel = (if model = None then Some ''ios-simulator'' else None),
           sd_running = (dev_state d = Some ''Booted''), sd_activity = dev_activity d\<rparr>])) @
     (case android of None \<Rightarrow> [] | Some d \<Rightarrow>
        [\<lparr>sd_platform = PAndroid, sd_slot = slt, sd_model = (if dev_physical d then ''Android device'' else ''Android Emulator''),
          sd_modelLabel = Some (if dev_physical d then ''android-device'' else ''android-emulator''),
          sd_running = (dev_state d = Some ''detected''), sd_activity = dev_activity d\<rparr>])"

definition devicesOf :: "environment \<Rightarrow> slot_device list" where
  "devicesOf env = slot_pair ''default'' (env_ios env) (env_android env) @
     concat (map (\<lambda>s. slot_pair (sl_slot s) (sl_ios s) (sl_android s)) (env_slots env)) @
     (case env_web env of None \<Rightarrow> [] | Some w \<Rightarrow>
        [\<lparr>sd_platform = PWeb, sd_slot = ''default'', sd_model = ''Chrome'', sd_modelLabel = Some ''chrome'',
          sd_running = web_running w, sd_activity = web_activity w\<rparr>])"

definition agentDriven :: "string list \<Rightarrow> slot_device \<Rightarrow> bool" where
  "agentDriven ownLeases d = (case sd_activity d of None \<Rightarrow> False | Some a \<Rightarrow>
     if act_state a \<noteq> ''driven'' then False
     else \<not> (case act_driver a of None \<Rightarrow> False | Some v \<Rightarrow>
        drv_tool v = ''stim device lock'' \<and> truthy (drv_since v) \<and> the (drv_since v) \<in> set ownLeases))"

definition newestBuild :: "environment \<Rightarrow> build option" where
  "newestBuild env = fold (\<lambda>b a. case a of None \<Rightarrow> Some b
        | Some x \<Rightarrow> if js_lt (js_time (Some (b_startedAt x))) (js_time (Some (b_startedAt b))) then Some b else Some x)
     (List.map_filter id [env_last_ios env, env_last_android env]) None"

definition WORK_EVIDENCE :: "string list" where
  "WORK_EVIDENCE = [''agent-action'', ''metro-bundle'', ''workspace-use'']"

definition device_times :: "slot_device \<Rightarrow> jsnum list" where
  "device_times d =
     (case Option.bind (sd_activity d) act_recent of
        None \<Rightarrow> [js_time (Option.bind (sd_activity d) act_last)]
      | Some recent \<Rightarrow> map (\<lambda>basis. js_time (map_of recent basis)) WORK_EVIDENCE @
          (if sd_platform d = PWeb \<and> map_option act_state (sd_activity d) = Some ''driven''
           then [js_time (map_of recent ''page-log'')] else [])) @
     [js_time (Option.bind (Option.bind (sd_activity d) act_driver) drv_since)]"

definition build_times :: "build option \<Rightarrow> jsnum list" where
  "build_times b = [js_time (map_option b_startedAt b), js_time (Option.bind b b_finishedAt)]"

definition lastActivityAt :: "environment \<Rightarrow> slot_device list \<Rightarrow> jsnum list \<Rightarrow> int option" where
  "lastActivityAt env devices seen =
     (let finite = List.map_filter id (seen @ concat (map device_times devices) @
            build_times (env_last_ios env) @ build_times (env_last_android env) @
            [js_time (map_option cb_startedAt (env_build env))])
      in if finite = [] then None else Some (fold max (tl finite) (hd finite)))"

section \<open>Messages\<close>

datatype attention_message =
    MIssue "string option" string
  | MSigning string string
  | MDiagnosticLoop string int string int "string option"
  | MLaunchLoop string int
  | MBuildLoop string int "string option"
  | MLease string
  | MEas int
  | MStuck int "string option" string "string option"
  | MDisk int

type_synonym attention_formatter = "attention_message \<Rightarrow> string"

definition formatBytes :: "int \<Rightarrow> string" where
  "formatBytes bytes =
     (if 1000000000000 \<le> bytes then to_fixed1 (double_div bytes 1000000000000) @ '' TB''
      else let gb = double_div bytes 1000000000 in
        if int_le_double 100 gb then string_of_int (math_round gb) @ '' GB'' else to_fixed1 gb @ '' GB'')"

definition attentionBody :: attention_formatter where
  "attentionBody msg = (case msg of
     MIssue slt m \<Rightarrow> if truthy slt then the slt @ '': '' @ m else m
   | MSigning p code \<Rightarrow> platformName p @ '' signing or provisioning failed ('' @ code @ '')''
   | MDiagnosticLoop p n file line lang \<Rightarrow>
       ''Same '' @ (if truthy lang then the lang @ '' '' else platformName p @ '' build '') @ ''error '' @ string_of_int n @ ''x at '' @
         file @ '':'' @ string_of_int line
   | MLaunchLoop p n \<Rightarrow> ''App failed to launch on '' @ platformName p @ '' '' @ string_of_int n @ ''x in a row''
   | MBuildLoop p n code \<Rightarrow> platformName p @ '' build failed '' @ string_of_int n @ ''x in a row'' @
       (if truthy code then '' ('' @ the code @ '')'' else [])
   | MLease leased \<Rightarrow> ''Lease on '' @ leased @ '' expired''
   | MEas n \<Rightarrow> ''EAS session running for '' @ string_of_int n @ '' min with no agent; billed while it runs''
   | MStuck n green model lbl \<Rightarrow> ''No agent activity for '' @ string_of_int n @ '' min'' @
       (if truthy green then '' after a green '' @ platformName (the green) @ '' build'' else []) @ ''; '' @ model @ '' still up''
   | MDisk free \<Rightarrow> formatBytes free @ '' free, below Stim'' @ [CHR 0x27] @ ''s floor'')"

section \<open>Failure streaks\<close>

definition LANGUAGES :: "(string \<times> string) list" where
  "LANGUAGES = [(''swift'', ''Swift''), (''m'', ''Objective-C''), (''mm'', ''Objective-C++''), (''kt'', ''Kotlin''), (''java'', ''Java''),
     (''c'', ''C''), (''cc'', ''C++''), (''cpp'', ''C++''), (''h'', ''C''), (''hpp'', ''C++''), (''js'', ''JavaScript''),
     (''ts'', ''TypeScript''), (''tsx'', ''TypeScript''), (''gradle'', ''Gradle''), (''kts'', ''Gradle'')]"

definition lower :: "char \<Rightarrow> char" where
  "lower c = (let n = (of_char c :: nat) in if 65 \<le> n \<and> n \<le> 90 then char_of (n + 32) else c)"

definition LOOP_COUNT :: int where "LOOP_COUNT = 3"

definition failed :: "build \<Rightarrow> bool" where
  "failed b = (the (orelse (b_result b) (Some (b_status b))) = ''failed'')"

text \<open>The key that identifies a failure, and the diagnostic it points at.\<close>

definition causeOf :: "build \<Rightarrow> string \<times> (string \<times> int) option" where
  "causeOf b = (case List.find (\<lambda>d. truthy (diag_file d) \<and> diag_line d \<noteq> None) (b_diagnostics b) of
     Some d \<Rightarrow> (the (diag_file d) @ '':'' @ string_of_int (the (diag_line d)), Some (the (diag_file d), the (diag_line d)))
   | None \<Rightarrow> (the (orelse (b_errorCode b) (Some ''failed'')), None))"

record streak =
  signature :: string
  streak_count :: int
  streak_at :: "(string \<times> int) option"
  streak_code :: "string option"

definition failureStreak :: "build list \<Rightarrow> streak option" where
  "failureStreak history = (case history of [] \<Rightarrow> None | head # _ \<Rightarrow>
     if \<not> failed head then None
     else let cause = causeOf head in
       Some \<lparr>signature = fst cause,
             streak_count = int (length (takeWhile (\<lambda>b. failed b \<and> fst (causeOf b) = fst cause) history)),
             streak_at = snd cause, streak_code = b_errorCode head\<rparr>)"

definition streak_body :: "string \<Rightarrow> streak \<Rightarrow> int \<Rightarrow> attention_formatter \<Rightarrow> string" where
  "streak_body platform s n format = (case streak_at s of
     Some (path, line) \<Rightarrow>
       (let file = basename path in
        format (MDiagnosticLoop platform n file line (map_of LANGUAGES (map lower (last (split_at CHR ''.'' file))))))
   | None \<Rightarrow> if streak_code s = Some ''STIM_LAUNCH_FAILED'' then format (MLaunchLoop platform n)
       else format (MBuildLoop platform n (streak_code s)))"

end
