(* ===== verification/Oversight.thy ===== *)
theory Oversight
  imports Oversight_Data "HOL-Library.Product_Lexorder"
begin

text \<open>
  The oversight policy (\<open>packages/core/oversight.ts\<close>): what needs a person's attention, and
  which notifications a machine owes since the last look. A look threads the record \<open>run\<close>
  (the notifications raised so far and the next wake-up) and the entry of the workspace it
  is at, as the code mutates them; the state it returns is the \<open>previous\<close> of the next look.
\<close>

section \<open>What needs attention\<close>

datatype category = CStarted | CStuck | CLooping | CFinished | CMachine | CControl | CAttention

definition OVERSIGHT_CATEGORIES :: "category list" where
  "OVERSIGHT_CATEGORIES = [CStarted, CStuck, CLooping, CFinished, CMachine, CControl, CAttention]"

fun category_text :: "category \<Rightarrow> string" where
  "category_text CStarted = ''started''"
| "category_text CStuck = ''stuck''"
| "category_text CLooping = ''looping''"
| "category_text CFinished = ''finished''"
| "category_text CMachine = ''machine''"
| "category_text CControl = ''control''"
| "category_text CAttention = ''attention''"

datatype severity = SError | SWarning

record attention_item =
  item_id :: string
  item_category :: category
  item_severity :: severity
  item_workspace :: "string option"
  item_body :: string
  item_remedy :: "string option"

definition EAS_SESSION_MINUTES :: int where "EAS_SESSION_MINUTES = 30"
definition STALE_MS :: int where "STALE_MS = 24 * 60 * 60 * 1000"
definition LOW_DISK_BYTES :: int where "LOW_DISK_BYTES = 20000000000"
definition DISK_CRITICAL_BYTES :: int where "DISK_CRITICAL_BYTES = LOW_DISK_BYTES div 4"
definition DISK_RECOVERED_BYTES :: int where "DISK_RECOVERED_BYTES = DISK_CRITICAL_BYTES + 1000000000"

definition PERSON_ISSUES :: "string list" where
  "PERSON_ISSUES = [''port-not-ours'', ''supervisor-unverified'', ''browser-unverified'', ''avd-unchecked'']"

definition SIGNING_CODES :: "string list" where
  "SIGNING_CODES = [''STIM_NO_SIGNING_IDENTITY'', ''STIM_CODESIGN_FAILED'', ''STIM_NO_PROFILE'', ''STIM_PROFILE_MISMATCH'']"

definition recent :: "environment \<Rightarrow> string option \<Rightarrow> int \<Rightarrow> bool" where
  "recent env at now = (env_live env \<or> js_lt (js_sub (Some now) (js_time at)) (Some STALE_MS))"

datatype build_platform = BIos | BAndroid

fun build_platform_text :: "build_platform \<Rightarrow> string" where
  "build_platform_text BIos = ''ios''"
| "build_platform_text BAndroid = ''android''"

fun last_build :: "build_platform \<Rightarrow> environment \<Rightarrow> build option" where
  "last_build BIos env = env_last_ios env"
| "last_build BAndroid env = env_last_android env"

fun build_history :: "build_platform \<Rightarrow> environment \<Rightarrow> build list" where
  "build_history BIos env = env_builds_ios env"
| "build_history BAndroid env = env_builds_android env"

definition issue_item :: "environment \<Rightarrow> attention_formatter \<Rightarrow> issue \<Rightarrow> attention_item option" where
  "issue_item env format i =
     (if iss_severity i = ''info'' \<or> iss_code i \<notin> set PERSON_ISSUES then None
      else Some \<lparr>item_id = ''issue-'' @ iss_code i @ ''-'' @ the (orelse (iss_slot i) (Some ''default'')) @ '':'' @ env_path env,
        item_category = CAttention, item_severity = (if iss_severity i = ''error'' then SError else SWarning),
        item_workspace = Some (env_path env), item_body = format (MIssue (iss_slot i) (iss_message i)),
        item_remedy = Some (iss_remedy i)\<rparr>)"

definition build_at :: "build \<Rightarrow> string option" where
  "build_at b = orelse (b_finishedAt b) (Some (b_startedAt b))"

text \<open>One platform's turn of the loop: a signing failure, else a loop of failures.\<close>

definition build_item :: "environment \<Rightarrow> attention_formatter \<Rightarrow> int \<Rightarrow> build_platform \<Rightarrow> attention_item option" where
  "build_item env format now p =
     (let platform = build_platform_text p;
          building = (case env_build env of None \<Rightarrow> False | Some c \<Rightarrow> cb_state c = ''running'' \<and> cb_platform c = Some platform);
          signing = (case last_build p env of None \<Rightarrow> None | Some b \<Rightarrow>
            (let code = the (orelse (b_errorCode b) (Some [])) in
             if b_status b = ''failed'' \<and> \<not> building \<and> code \<in> set SIGNING_CODES \<and> recent env (build_at b) now then Some code else None))
      in case signing of
        Some code \<Rightarrow> Some \<lparr>item_id = ''run-'' @ platform @ '':'' @ env_path env, item_category = CAttention, item_severity = SError,
          item_workspace = Some (env_path env), item_body = format (MSigning platform code), item_remedy = None\<rparr>
      | None \<Rightarrow> (case (failureStreak (build_history p env), build_history p env) of
          (Some s, head # _) \<Rightarrow>
            (if LOOP_COUNT \<le> streak_count s \<and> recent env (build_at head) now
             then Some \<lparr>item_id = ''looping-'' @ platform @ '':'' @ env_path env, item_category = CLooping, item_severity = SError,
               item_workspace = Some (env_path env), item_body = streak_body platform s (streak_count s) format, item_remedy = None\<rparr>
             else None)
        | _ \<Rightarrow> None))"

definition min_wake :: "int option \<Rightarrow> int \<Rightarrow> int option" where
  "min_wake w t = Some (min (the (orelse w (Some t))) t)"

definition lease_item :: "environment \<Rightarrow> attention_formatter \<Rightarrow> int \<Rightarrow> physical_device \<Rightarrow> attention_item option" where
  "lease_item env format now d =
     (if \<not> js_le (js_time (Some (ph_expiresAt d))) (Some now) then None
      else Some \<lparr>item_id = ''lease-'' @ ph_platform d @ ''-'' @ ph_slot d @ '':'' @ env_path env, item_category = CAttention,
        item_severity = SWarning, item_workspace = Some (env_path env),
        item_body = format (MLease (the (orelse (ph_name d) (orelse (ph_model d) (Some (ph_id d)))))),
        item_remedy = Some (''stim device unlock '' @ ph_platform d @ (if ph_slot d = ''default'' then [] else '' --slot '' @ ph_slot d))\<rparr>)"

definition eas_due :: "int \<Rightarrow> remote_device \<Rightarrow> jsnum" where
  "eas_due easMinutes s = js_add (js_time (rd_startedAt s)) (Some (easMinutes * 60000))"

definition eas_item :: "environment \<Rightarrow> attention_formatter \<Rightarrow> int \<Rightarrow> int \<Rightarrow> remote_device \<Rightarrow> attention_item option" where
  "eas_item env format now easMinutes s =
     (if \<not> js_le (eas_due easMinutes s) (Some now) then None
      else Some \<lparr>item_id = ''eas-'' @ rd_sessionId s @ '':'' @ env_path env, item_category = CAttention, item_severity = SWarning,
        item_workspace = Some (env_path env),
        item_body = format (MEas ((now - the (js_time (rd_startedAt s))) div 60000)), item_remedy = Some ''stim stop''\<rparr>)"

definition wake_times :: "int \<Rightarrow> jsnum list \<Rightarrow> int option \<Rightarrow> int option" where
  "wake_times now ts w = fold (\<lambda>t w. if js_lt (Some now) t then min_wake w (the t) else w) ts w"

definition workspaceAttention :: "environment \<Rightarrow> int \<Rightarrow> int \<Rightarrow> int \<Rightarrow> string list \<Rightarrow> attention_formatter \<Rightarrow>
    attention_item list \<times> int option" where
  "workspaceAttention env now stuckMinutes easMinutes ownLeases format =
     (let devices = devicesOf env;
          driven = List.find (\<lambda>d. sd_running d \<and> agentDriven ownLeases d) devices;
          sessions = (if driven = None then env_remoteDevices env else []);
          since = lastActivityAt env devices [];
          stuck = (case (driven, since) of
            (Some d, Some s) \<Rightarrow>
              (if map_option cb_state (env_build env) \<noteq> Some ''running'' \<and> stuckMinutes * 60000 \<le> now - s
               then (let green = (case newestBuild env of None \<Rightarrow> None | Some b \<Rightarrow>
                       if b_status b = ''ok'' \<and> (b_platform b = ''ios'' \<or> b_platform b = ''android'') then Some (b_platform b) else None)
                     in [\<lparr>item_id = ''stuck:'' @ env_path env, item_category = CStuck, item_severity = SWarning,
                          item_workspace = Some (env_path env),
                          item_body = format (MStuck ((now - s) div 60000) green (sd_model d) (sd_modelLabel d)), item_remedy = None\<rparr>])
               else [])
          | _ \<Rightarrow> [])
      in (List.map_filter (issue_item env format) (env_issues env) @
          List.map_filter (build_item env format now) [BIos, BAndroid] @
          List.map_filter (lease_item env format now) (env_physicalDevices env) @
          List.map_filter (eas_item env format now easMinutes) sessions @ stuck,
          wake_times now (map (eas_due easMinutes) sessions)
            (wake_times now (map (\<lambda>d. js_time (Some (ph_expiresAt d))) (env_physicalDevices env)) None)))"

definition severityRank :: "attention_item \<Rightarrow> nat" where
  "severityRank i = (if item_severity i = SError then 0 else 1)"

definition lowest_free :: "int list \<Rightarrow> int option" where
  "lowest_free vs = fold (\<lambda>v m. case m of None \<Rightarrow> Some v | Some x \<Rightarrow> Some (min x v)) vs None"

text \<open>The items with their scope, before they are ordered.\<close>

definition ranked_items :: "environment list \<Rightarrow> int list option \<Rightarrow> int \<Rightarrow> int \<Rightarrow> int \<Rightarrow> string list \<Rightarrow> attention_formatter \<Rightarrow>
    (attention_item \<times> nat) list" where
  "ranked_items envs volumes now stuckMinutes easMinutes ownLeases format =
     (case Option.bind volumes lowest_free of
        Some low \<Rightarrow> if low < DISK_CRITICAL_BYTES
          then [(\<lparr>item_id = ''machine:disk'', item_category = CMachine, item_severity = SError, item_workspace = None,
                  item_body = format (MDisk low), item_remedy = None\<rparr>, 0)] else []
      | None \<Rightarrow> []) @
     concat (map (\<lambda>env. map (\<lambda>i. (i, if env_live env then 1 else 2))
       (fst (workspaceAttention env now stuckMinutes easMinutes ownLeases format))) envs)"

definition item_rank :: "attention_item \<times> nat \<Rightarrow> nat \<times> nat" where
  "item_rank x = (severityRank (fst x), snd x)"

definition needsAttention :: "environment list \<Rightarrow> int list option \<Rightarrow> int \<Rightarrow> int \<Rightarrow> int \<Rightarrow> string list \<Rightarrow> attention_formatter \<Rightarrow>
    attention_item list" where
  "needsAttention envs volumes now stuckMinutes easMinutes ownLeases format =
     map fst (sort_key item_rank (ranked_items envs volumes now stuckMinutes easMinutes ownLeases format))"

text \<open>\<open>inQuietHours\<close>.\<close>

definition inQuietHours :: "(int \<times> int) option \<Rightarrow> int \<Rightarrow> bool" where
  "inQuietHours quietHours m = (case quietHours of None \<Rightarrow> False | Some (start, stop) \<Rightarrow>
     if start = stop then False
     else if start < stop then start \<le> m \<and> m < stop else start \<le> m \<or> m < stop)"

section \<open>The state of oversight\<close>

datatype pr_state = PrOpen | PrMerged | PrClosed

record pull_request =
  pr_number :: int
  pr_state :: pr_state
  pr_draft :: bool
  pr_url :: string

datatype link = LOpen | LOffline | LRefused | LUnpaired

record oversight_input =
  in_machine :: string
  in_status :: "status option"
  in_volumes :: "int list option"
  in_memoryPressure :: "string option"
  in_link :: "link option"
  in_pullRequests :: "(string \<times> pull_request option) list"
  in_ownLeases :: "string list"

record oversight_prefs =
  pf_categories :: "category list"
  pf_stuckMinutes :: int
  pf_quiet :: bool

datatype target =
    TMachine
  | TWorkspace string
  | TDevice string device_platform string
  | TBuild string build_platform
  | TUrl string string

record notification =
  n_id :: string
  n_category :: category
  n_title :: string
  n_body :: string
  n_quiet :: bool
  n_thread :: "string option"
  n_target :: target

record build_loop =
  loop_signature :: string
  loop_notified :: bool

datatype known_pr = PrNotLooked | PrNone | PrKnown int bool bool

record entry =
  seenAt :: int
  warmed :: bool
  drove :: bool
  drivenAt :: "int option"
  driveNotified :: bool
  errors :: int
  errorsAt :: "int option"
  stuckAt :: "int option"
  finished :: bool
  finishedInRun :: bool
  running :: bool
  attention :: "string list"
  attentionRaised :: bool
  loop_ios :: "build_loop option"
  loop_android :: "build_loop option"
  pr :: known_pr
  mergedInto :: "string option"
  mergeNotified :: bool

record held =
  since :: int
  notified :: bool

record oversight_state =
  workspaces :: "(string \<times> entry) list"
  disk :: "held option"
  memory :: "held option"
  memoryKnown :: bool
  link_held :: "(held \<times> link) option"

definition MEMORY_SETTLE_MS :: int where "MEMORY_SETTLE_MS = 60000"
definition OFFLINE_SETTLE_MS :: int where "OFFLINE_SETTLE_MS = 60000"
definition FINISH_SETTLE_MS :: int where "FINISH_SETTLE_MS = 5 * 60000"
definition FORGET_MS :: int where "FORGET_MS = 2 * 60000"
definition DEFAULT_STUCK_MINUTES :: int where "DEFAULT_STUCK_MINUTES = 15"

definition heldFor :: "held option \<Rightarrow> int \<Rightarrow> held" where
  "heldFor h now = (case h of Some x \<Rightarrow> x | None \<Rightarrow> \<lparr>since = now, notified = False\<rparr>)"

section \<open>One look\<close>

record run =
  r_input :: oversight_input
  r_prefs :: oversight_prefs
  r_now :: int
  r_baseline :: bool
  r_notifications :: "notification list"
  r_wakeAt :: "int option"

definition wake :: "int \<Rightarrow> run \<Rightarrow> run" where
  "wake at r = (if at > r_now r then r\<lparr>r_wakeAt := min_wake (r_wakeAt r) at\<rparr> else r)"

definition push :: "notification \<Rightarrow> run \<Rightarrow> run" where
  "push n r = r\<lparr>r_notifications := r_notifications r @ [n]\<rparr>"

definition event :: "notification \<Rightarrow> run \<Rightarrow> run" where
  "event n r = (if \<not> r_baseline r \<and> \<not> pf_quiet (r_prefs r) \<and> n_category n \<in> set (pf_categories (r_prefs r)) then push n r else r)"

definition lasting :: "notification \<Rightarrow> run \<Rightarrow> bool \<times> run" where
  "lasting n r = (if r_baseline r \<or> n_category n \<notin> set (pf_categories (r_prefs r)) then (True, r)
     else if pf_quiet (r_prefs r) then (False, r) else (True, push n r))"

definition machineNotification :: "run \<Rightarrow> string \<Rightarrow> string \<Rightarrow> notification" where
  "machineNotification r i body = \<lparr>n_id = ''machine:'' @ i, n_category = CMachine, n_title = in_machine (r_input r), n_body = body,
     n_quiet = True, n_thread = None, n_target = TMachine\<rparr>"

fun LINK_BODY :: "link \<Rightarrow> string" where
  "LINK_BODY LOffline = ''Offline''"
| "LINK_BODY LUnpaired = ''Not paired: pair again''"
| "LINK_BODY LRefused = ''Refused the connection: pair again or update''"
| "LINK_BODY LOpen = []"

definition overseeLink :: "oversight_state option \<Rightarrow> int \<Rightarrow> run \<times> oversight_state \<Rightarrow> run \<times> oversight_state" where
  "overseeLink previous awakeSince = (\<lambda>(r, state). case in_link (r_input r) of None \<Rightarrow> (r, state) | Some kind \<Rightarrow>
     if kind = LOpen then (r, state)
     else
      (let before = (case Option.bind previous link_held of Some (h, k) \<Rightarrow> if k = kind then Some h else None | None \<Rightarrow> None);
           h = heldFor before (r_now r);
           due = max (since h) awakeSince + (if kind = LOffline then OFFLINE_SETTLE_MS else 0);
           (h', r') =
             (if \<not> notified h \<and> r_now r < due then (h, wake due r)
              else if \<not> notified h then (let (done, r') = lasting (machineNotification r ''link'' (LINK_BODY kind)) r in (h\<lparr>notified := done\<rparr>, r'))
              else (h, r))
       in (r', state\<lparr>link_held := Some (h', kind)\<rparr>)))"

definition overseeDisk :: "oversight_state option \<Rightarrow> run \<times> oversight_state \<Rightarrow> run \<times> oversight_state" where
  "overseeDisk previous = (\<lambda>(r, state).
     let before = Option.bind previous disk in
     case in_volumes (r_input r) of
       None \<Rightarrow> (r, if before = None then state else state\<lparr>disk := before\<rparr>)
     | Some vs \<Rightarrow> (case lowest_free vs of None \<Rightarrow> (r, state) | Some low \<Rightarrow>
         if low < (if before \<noteq> None then DISK_RECOVERED_BYTES else DISK_CRITICAL_BYTES)
         then (let h = heldFor before (r_now r);
                   (h', r') = (if \<not> notified h
                     then (let (done, r') = lasting (machineNotification r ''disk'' (formatBytes low @ '' free, below Stim'' @ [CHR 0x27] @ ''s floor'')) r
                           in (h\<lparr>notified := done\<rparr>, r'))
                     else (h, r))
               in (r', state\<lparr>disk := Some h'\<rparr>))
         else (r, state)))"

definition overseeMemory :: "oversight_state option \<Rightarrow> run \<times> oversight_state \<Rightarrow> run \<times> oversight_state" where
  "overseeMemory previous = (\<lambda>(r, state0).
     let before = Option.bind previous memory;
         known = (case previous of None \<Rightarrow> False | Some p \<Rightarrow> memoryKnown p);
         state = state0\<lparr>memoryKnown := (in_memoryPressure (r_input r) \<noteq> None \<or> known)\<rparr> in
     if in_memoryPressure (r_input r) = Some ''critical''
     then (let h0 = heldFor before (r_now r);
               h = (if \<not> known then h0\<lparr>notified := True\<rparr> else h0);
               due = since h + MEMORY_SETTLE_MS;
               (h', r') =
                 (if \<not> notified h \<and> r_now r < due \<and> \<not> r_baseline r then (h, wake due r)
                  else if \<not> notified h then (let (done, r') = lasting (machineNotification r ''memory'' ''Memory pressure is critical'') r in (h\<lparr>notified := done\<rparr>, r'))
                  else (h, r))
           in (r', state\<lparr>memory := Some h'\<rparr>))
     else if in_memoryPressure (r_input r) = None \<and> before \<noteq> None then (r, state\<lparr>memory := before\<rparr>)
     else (r, state))"

definition overseeMachine :: "oversight_state option \<Rightarrow> int \<Rightarrow> run \<times> oversight_state \<Rightarrow> run \<times> oversight_state" where
  "overseeMachine previous awakeSince rs = overseeMemory previous (overseeDisk previous (overseeLink previous awakeSince rs))"


text \<open>\<open>notify\<close>, the closure \<open>overseeWorkspace\<close> builds; \<open>i\<close> is the id's stem.\<close>

definition notify :: "run \<Rightarrow> environment \<Rightarrow> string \<Rightarrow> category \<Rightarrow> string \<Rightarrow> target \<Rightarrow> string \<Rightarrow> notification" where
  "notify r env title cat body tgt i = \<lparr>n_id = i @ '':'' @ env_path env, n_category = cat, n_title = title, n_body = body, n_quiet = True,
     n_thread = (if cat = CStarted then Some (''started:'' @ in_machine (r_input r)) else None), n_target = tgt\<rparr>"

record look =
  lk_env :: environment
  lk_title :: string
  lk_devices :: "slot_device list"
  lk_driven :: "slot_device list"

definition say :: "look \<Rightarrow> category \<Rightarrow> string \<Rightarrow> target \<Rightarrow> run \<Rightarrow> notification" where
  "say lk cat body tgt r = notify r (lk_env lk) (lk_title lk) cat body tgt (category_text cat)"

definition deviceTarget :: "environment \<Rightarrow> slot_device \<Rightarrow> target" where
  "deviceTarget env d = TDevice (env_path env) (sd_platform d) (sd_slot d)"

definition overseeStart :: "look \<Rightarrow> run \<times> entry \<Rightarrow> run \<times> entry" where
  "overseeStart lk = (\<lambda>(r0, e0).
     let env = lk_env lk;
         (r, e) = (if env_phase env = Some ''warming'' \<and> \<not> warmed e0
           then (event (say lk CStarted (''Warming on '' @ in_machine (r_input r0)) (TWorkspace (env_path env)) r0) r0, e0\<lparr>warmed := True\<rparr>)
           else (r0, e0))
     in case lk_driven lk of [] \<Rightarrow> (r, e) | first # _ \<Rightarrow>
       (let e1 = e\<lparr>drove := True, drivenAt := Some (r_now r), finished := False\<rparr> in
        if driveNotified e1 then (r, e1)
        else (let tool = (case Option.bind (sd_activity first) act_driver of None \<Rightarrow> ''An agent'' | Some v \<Rightarrow> drv_tool v);
                  body = tool @ '' started driving '' @ sd_model first @ '' on '' @ in_machine (r_input r)
              in (event (say lk CStarted body (deviceTarget env first) r) r, e1\<lparr>driveNotified := True\<rparr>))))"

definition isIdle :: "environment \<Rightarrow> bool" where
  "isIdle env = (\<not> env_live env \<and> (env_phase env = None \<or> env_phase env = Some ''idle''))"

definition is_building :: "environment \<Rightarrow> bool" where
  "is_building env = (map_option cb_state (env_build env) = Some ''running'')"

definition is_green :: "environment \<Rightarrow> bool" where
  "is_green env = (map_option b_status (newestBuild env) = Some ''ok'')"

text \<open>The time since which nothing has happened, as \<open>overseeProgress\<close> reads it.\<close>

definition quiet_since :: "look \<Rightarrow> entry \<Rightarrow> int option" where
  "quiet_since lk e = lastActivityAt (lk_env lk) (lk_devices lk) [errorsAt e, if lk_driven lk \<noteq> [] then None else drivenAt e]"

definition progress_finish :: "look \<Rightarrow> int option \<Rightarrow> run \<times> entry \<Rightarrow> run \<times> entry" where
  "progress_finish lk quiet = (\<lambda>(r, e).
     let env = lk_env lk in
     case (newestBuild env, quiet) of
       (Some newest, Some quietSince) \<Rightarrow>
         (if drove e \<and> lk_driven lk = [] \<and> is_green env \<and> \<not> is_building env \<and> \<not> finished e
          then (let due = quietSince + FINISH_SETTLE_MS in
            if \<not> isIdle env \<and> r_now r < due then (wake due r, e)
            else if finishedInRun e then (r, e\<lparr>finished := True\<rparr>)
            else (event (say lk CFinished (''Agent stopped after a green '' @ platformName (b_platform newest) @ '' build'') (TWorkspace (env_path env)) r) r,
                  e\<lparr>finished := True, finishedInRun := True\<rparr>))
          else (r, e))
     | _ \<Rightarrow> (r, e))"

definition progress_reset :: "environment \<Rightarrow> entry \<Rightarrow> entry" where
  "progress_reset env e =
     (let e1 = (if isIdle env \<or> finished e then e\<lparr>drove := False, driveNotified := False\<rparr> else e)
      in if isIdle env then e1\<lparr>warmed := False, finished := False, finishedInRun := False\<rparr> else e1)"

definition progress_stuck :: "look \<Rightarrow> int option \<Rightarrow> run \<times> entry \<Rightarrow> run \<times> entry" where
  "progress_stuck lk quiet = (\<lambda>(r, e).
     let env = lk_env lk;
         device = (case lk_driven lk of d # _ \<Rightarrow> Some d | [] \<Rightarrow> List.find sd_running (lk_devices lk)) in
     case (device, quiet) of
       (Some d, Some quietSince) \<Rightarrow>
         (if \<not> drove e \<or> \<not> sd_running d \<or> is_building env \<or> (lk_driven lk = [] \<and> is_green env) \<or> stuckAt e \<noteq> None then (r, e)
          else let due = quietSince + pf_stuckMinutes (r_prefs r) * 60000 in
            if r_now r < due then (wake due r, e)
            else (let minutes = (r_now r - quietSince) div 60000;
                      after = (case newestBuild env of Some b \<Rightarrow> if is_green env then '' after a green '' @ platformName (b_platform b) @ '' build'' else []
                               | None \<Rightarrow> []);
                      body = ''No agent activity for '' @ string_of_int minutes @ '' min'' @ after @ ''; '' @ sd_model d @ '' still up'';
                      (done, r') = lasting (say lk CStuck body (deviceTarget env d) r) r
                  in (r', if done then e\<lparr>stuckAt := Some quietSince\<rparr> else e)))
     | _ \<Rightarrow> (r, e))"

definition overseeProgress :: "look \<Rightarrow> run \<times> entry \<Rightarrow> run \<times> entry" where
  "overseeProgress lk = (\<lambda>(r, e).
     let quiet = quiet_since lk e;
         e1 = (case (stuckAt e, quiet) of (Some s, Some q) \<Rightarrow> if q > s then e\<lparr>stuckAt := None\<rparr> else e | _ \<Rightarrow> e);
         (r2, e2) = progress_finish lk quiet (r, e1)
     in progress_stuck lk quiet (r2, progress_reset (lk_env lk) e2))"

fun loop_of :: "build_platform \<Rightarrow> entry \<Rightarrow> build_loop option" where
  "loop_of BIos e = loop_ios e"
| "loop_of BAndroid e = loop_android e"

fun set_loop :: "build_platform \<Rightarrow> build_loop \<Rightarrow> entry \<Rightarrow> entry" where
  "set_loop BIos l e = e\<lparr>loop_ios := Some l\<rparr>"
| "set_loop BAndroid l e = e\<lparr>loop_android := Some l\<rparr>"

definition oversee_loop :: "look \<Rightarrow> entry option \<Rightarrow> build_platform \<Rightarrow> run \<times> entry \<Rightarrow> run \<times> entry" where
  "oversee_loop lk prev p = (\<lambda>(r, e).
     case failureStreak (build_history p (lk_env lk)) of None \<Rightarrow> (r, e) | Some s \<Rightarrow>
       (let before = Option.bind prev (loop_of p);
            loop = (case before of
              Some b \<Rightarrow> if loop_signature b = signature s \<and> LOOP_COUNT \<le> streak_count s then b
                        else \<lparr>loop_signature = signature s, loop_notified = False\<rparr>
            | None \<Rightarrow> \<lparr>loop_signature = signature s, loop_notified = False\<rparr>);
            (loop', r') = (if LOOP_COUNT \<le> streak_count s \<and> \<not> loop_notified loop
              then (let (done, r') = lasting (notify r (lk_env lk) (lk_title lk) CLooping
                          (streak_body (build_platform_text p) s (streak_count s) attentionBody)
                          (TBuild (env_path (lk_env lk)) p) (''looping-'' @ build_platform_text p)) r
                    in (loop\<lparr>loop_notified := done\<rparr>, r'))
              else (loop, r))
        in (r', set_loop p loop' e)))"

definition overseeLoops :: "look \<Rightarrow> entry option \<Rightarrow> run \<times> entry \<Rightarrow> run \<times> entry" where
  "overseeLoops lk prev re = oversee_loop lk prev BAndroid (oversee_loop lk prev BIos re)"

fun pr_merged_known :: "known_pr \<Rightarrow> bool" where
  "pr_merged_known (PrKnown _ _ m) = m"
| "pr_merged_known _ = False"

fun pr_ready_known :: "known_pr \<Rightarrow> bool" where
  "pr_ready_known (PrKnown _ r _) = r"
| "pr_ready_known _ = False"

fun pr_same :: "known_pr \<Rightarrow> int \<Rightarrow> bool" where
  "pr_same (PrKnown n _ _) m = (n = m)"
| "pr_same _ m = False"

definition current_pr :: "pull_request option \<Rightarrow> known_pr" where
  "current_pr p = (case p of None \<Rightarrow> PrNone
     | Some q \<Rightarrow> PrKnown (pr_number q) (pr_state q = PrOpen \<and> \<not> pr_draft q) (pr_state q = PrMerged))"

definition merge_pull_request :: "look \<Rightarrow> run \<times> entry \<Rightarrow> run \<times> entry" where
  "merge_pull_request lk = (\<lambda>(r, e).
     case map_of (in_pullRequests (r_input r)) (env_path (lk_env lk)) of None \<Rightarrow> (r, e) | Some found \<Rightarrow>
       (let known = pr e; current = current_pr found;
            (r', e') = (case found of
                Some q \<Rightarrow>
                  (if known \<noteq> PrNotLooked
                   then (let tgt = TUrl (env_path (lk_env lk)) (pr_url q); same = pr_same known (pr_number q);
                             r1 = (if pr_ready_known current \<and> \<not> (same \<and> pr_ready_known known)
                               then event (say lk CFinished (''PR #'' @ string_of_int (pr_number q) @ '' is ready for review'') tgt r) r else r)
                         in if pr_merged_known current \<and> \<not> (same \<and> pr_merged_known known) \<and> \<not> mergeNotified e
                            then (event (say lk CFinished (''PR #'' @ string_of_int (pr_number q) @ '' merged'') tgt r1) r1, e\<lparr>mergeNotified := True\<rparr>)
                            else (r1, e))
                   else if pr_merged_known current then (r, e\<lparr>mergeNotified := True\<rparr>) else (r, e))
              | None \<Rightarrow> (r, e))
        in (r', e'\<lparr>pr := current\<rparr>)))"

definition merge_git :: "look \<Rightarrow> entry option \<Rightarrow> run \<times> entry \<Rightarrow> run \<times> entry" where
  "merge_git lk prev = (\<lambda>(r, e). case prev of
     None \<Rightarrow> (r, if mergedInto e \<noteq> None then e\<lparr>mergeNotified := True\<rparr> else e)
   | Some p \<Rightarrow> (case mergedInto e of
       None \<Rightarrow> (r, if Option.bind (env_worktree (lk_env lk)) wt_git \<noteq> None \<and> \<not> pr_merged_known (pr e) then e\<lparr>mergeNotified := False\<rparr> else e)
     | Some into \<Rightarrow> if mergedInto p = None \<and> \<not> mergeNotified e
         then (event (say lk CFinished (''Merged into '' @ into) (TWorkspace (env_path (lk_env lk))) r) r, e\<lparr>mergeNotified := True\<rparr>)
         else (r, e)))"

definition overseeMerge :: "look \<Rightarrow> entry option \<Rightarrow> run \<times> entry \<Rightarrow> run \<times> entry" where
  "overseeMerge lk prev re = merge_git lk prev (merge_pull_request lk re)"

text \<open>The items \<open>overseeAttention\<close> may notify about, each with its target.\<close>

definition pending_of :: "environment \<Rightarrow> attention_item list \<Rightarrow> (attention_item \<times> target) list" where
  "pending_of env items = List.map_filter (\<lambda>i.
     if item_category i \<noteq> CAttention then None
     else if prefix ''run-'' (item_id i)
     then (let p = (if prefix ''run-ios'' (item_id i) then BIos else BAndroid) in
           if LOOP_COUNT \<le> (case failureStreak (build_history p env) of None \<Rightarrow> 0 | Some s \<Rightarrow> streak_count s) then None
           else Some (i, TBuild (env_path env) p))
     else Some (i, TWorkspace (env_path env))) items"

fun raise_items :: "look \<Rightarrow> string list \<Rightarrow> (attention_item \<times> target) list \<Rightarrow> bool \<Rightarrow> run \<times> entry \<Rightarrow> bool \<times> run \<times> entry" where
  "raise_items lk seen [] raised (r, e) = (raised, r, e)"
| "raise_items lk seen ((i, tgt) # rest) raised (r, e) =
     (if item_id i \<in> set seen \<or> raised then raise_items lk seen rest raised (r, e\<lparr>attention := attention e @ [item_id i]\<rparr>)
      else (let n = (say lk CAttention (item_body i) tgt r)\<lparr>n_id := item_id i\<rparr>;
                sent = length (r_notifications r);
                (done, r') = lasting n r
            in if done then raise_items lk seen rest (raised \<or> sent < length (r_notifications r')) (r', e\<lparr>attention := attention e @ [item_id i]\<rparr>)
               else raise_items lk seen rest raised (r', e)))"

definition overseeAttention :: "look \<Rightarrow> entry option \<Rightarrow> run \<times> entry \<Rightarrow> run \<times> entry" where
  "overseeAttention lk prev = (\<lambda>(r0, e).
     let env = lk_env lk;
         (items, wakeAt) = workspaceAttention env (r_now r0) (pf_stuckMinutes (r_prefs r0)) EAS_SESSION_MINUTES (in_ownLeases (r_input r0)) attentionBody;
         r = (case wakeAt of None \<Rightarrow> r0 | Some t \<Rightarrow> wake t r0);
         pending = pending_of env items;
         raised = (if pending = [] \<or> (\<not> isIdle env \<and> \<not> (case prev of None \<Rightarrow> False | Some p \<Rightarrow> running p)) then False else attentionRaised e);
         (raised', r', e') = raise_items lk (case prev of None \<Rightarrow> [] | Some p \<Rightarrow> attention p) pending raised (r, e)
     in (r', e'\<lparr>attentionRaised := raised'\<rparr>))"

definition new_entry :: "run \<Rightarrow> environment \<Rightarrow> entry option \<Rightarrow> entry" where
  "new_entry r env prev =
     (let errs = (case env_logErrors env of None \<Rightarrow> 0 | Some n \<Rightarrow> n);
          git = Option.bind (env_worktree env) wt_git;
          flag = (\<lambda>f. case prev of None \<Rightarrow> False | Some p \<Rightarrow> f p) in
      \<lparr>seenAt = r_now r, warmed = flag warmed, drove = flag drove, drivenAt = Option.bind prev drivenAt,
       driveNotified = flag driveNotified, errors = errs,
       errorsAt = (case prev of None \<Rightarrow> None | Some p \<Rightarrow> if errors p \<noteq> errs then Some (r_now r) else errorsAt p),
       stuckAt = Option.bind prev stuckAt, finished = flag finished, finishedInRun = flag finishedInRun, running = \<not> isIdle env,
       attention = [], attentionRaised = flag attentionRaised, loop_ios = None, loop_android = None,
       pr = (case prev of None \<Rightarrow> PrNotLooked | Some p \<Rightarrow> pr p),
       mergedInto = (case git of Some g \<Rightarrow> git_mergedInto g | None \<Rightarrow> Option.bind prev mergedInto),
       mergeNotified = flag mergeNotified\<rparr>)"

definition look_at :: "run \<Rightarrow> environment \<Rightarrow> status \<Rightarrow> look" where
  "look_at r env st = (let devices = devicesOf env in
     \<lparr>lk_env = env, lk_title = oversightTitle env st, lk_devices = devices,
      lk_driven = filter (agentDriven (in_ownLeases (r_input r))) devices\<rparr>)"

definition overseeWorkspace :: "environment \<Rightarrow> status \<Rightarrow> entry option \<Rightarrow> run \<Rightarrow> run \<times> entry" where
  "overseeWorkspace env st prev r =
     (let lk = look_at r env st in
      overseeAttention lk prev (overseeMerge lk prev (overseeLoops lk prev (overseeProgress lk (overseeStart lk (r, new_entry r env prev))))))"

fun oversee_envs :: "(string \<Rightarrow> entry option) \<Rightarrow> status \<Rightarrow> environment list \<Rightarrow> run \<times> (string \<times> entry) list \<Rightarrow> run \<times> (string \<times> entry) list" where
  "oversee_envs prev st [] rw = rw"
| "oversee_envs prev st (env # envs) (r, ws) =
     (let (r', e) = overseeWorkspace env st (prev (env_path env)) r
      in oversee_envs prev st envs (r', AList.update (env_path env) e ws))"

definition remember :: "int \<Rightarrow> (string \<times> entry) list \<Rightarrow> (string \<times> entry) list \<Rightarrow> (string \<times> entry) list" where
  "remember now before ws = fold (\<lambda>(path, e) ws. if path \<notin> fst ` set ws \<and> now - seenAt e < FORGET_MS then AList.update path e ws else ws) before ws"

record oversight_result =
  res_state :: oversight_state
  res_notifications :: "notification list"
  res_wakeAt :: "int option"

definition oversee :: "oversight_state option \<Rightarrow> oversight_input \<Rightarrow> oversight_prefs \<Rightarrow> int \<Rightarrow> int \<Rightarrow> oversight_result" where
  "oversee previous input prefs now awakeSince =
     (let run0 = \<lparr>r_input = input, r_prefs = prefs, r_now = now, r_baseline = (previous = None), r_notifications = [], r_wakeAt = None\<rparr>;
          state0 = \<lparr>workspaces = [], disk = None, memory = None, memoryKnown = False, link_held = None\<rparr>;
          before = (case previous of None \<Rightarrow> [] | Some p \<Rightarrow> workspaces p);
          (r1, state1) = overseeMachine previous awakeSince (run0, state0);
          (r2, ws) = (case in_status input of None \<Rightarrow> (r1, before)
            | Some st \<Rightarrow> (let (r, ws) = oversee_envs (map_of before) st (st_environments st) (r1, []) in (r, remember now before ws)))
      in \<lparr>res_state = state1\<lparr>workspaces := ws\<rparr>, res_notifications = r_notifications r2, res_wakeAt = r_wakeAt r2\<rparr>)"

end
