(* ===== verification/Oversight_Laws.thy ===== *)
theory Oversight_Laws
  imports Oversight
begin

text \<open>
  Laws of oversight: when it may notify at all, that it only ever wakes in the future, that a
  look repeated with nothing changed stays silent (each problem notifies once per episode), and
  the order of the attention list.
\<close>

section \<open>How a look may change the run\<close>

text \<open>
  \<open>r'\<close> extends \<open>r\<close>: the same look, more notifications, each of them allowed, and a
  wake-up that is either the old one or in the future.
\<close>

definition allowed :: "run \<Rightarrow> notification \<Rightarrow> bool" where
  "allowed r n \<longleftrightarrow> \<not> r_baseline r \<and> \<not> pf_quiet (r_prefs r) \<and> n_category n \<in> set (pf_categories (r_prefs r))"

definition same_look :: "run \<Rightarrow> run \<Rightarrow> bool" where
  "same_look r r' \<longleftrightarrow> r_input r' = r_input r \<and> r_prefs r' = r_prefs r \<and> r_now r' = r_now r \<and> r_baseline r' = r_baseline r"

definition extends :: "run \<Rightarrow> run \<Rightarrow> bool" where
  "extends r r' \<longleftrightarrow> same_look r r' \<and> (\<exists>ns. r_notifications r' = r_notifications r @ ns \<and> (\<forall>n \<in> set ns. allowed r n)) \<and>
     (\<forall>w. r_wakeAt r' = Some w \<longrightarrow> r_wakeAt r = Some w \<or> r_now r < w)"

named_theorems look_simps

lemma extends_refl [simp]: "extends r r"
  by (simp add: extends_def same_look_def)

lemma extends_trans [trans]: "extends a b \<Longrightarrow> extends b c \<Longrightarrow> extends a c"
  by (fastforce simp: extends_def same_look_def allowed_def)

lemma extends_wake [simp]: "extends r (wake t r)"
  by (auto simp: extends_def same_look_def wake_def min_wake_def orelse_def min_def split: option.splits)

lemma extends_event [simp]: "extends r (event n r)"
  by (auto simp: extends_def same_look_def event_def push_def allowed_def)

lemma extends_lasting [simp]: "extends r (snd (lasting n r))"
  by (auto simp: extends_def same_look_def lasting_def push_def allowed_def)

lemma extends_event_of: "extends r r' \<Longrightarrow> extends r (event n r')"
  by (rule extends_trans [OF _ extends_event])

lemma extends_then:
  "(\<And>r e. extends r (fst (f (r, e)))) \<Longrightarrow> extends r (fst x) \<Longrightarrow> extends r (fst (f x))"
  by (metis extends_trans prod.collapse)

lemma lasting_pair: "lasting n r = (b, r') \<Longrightarrow> extends r r'"
  using extends_lasting [of r n] by simp

lemma extends_machine: "extends r (fst (overseeMachine previous awake (r, s)))"
proof -
  have 1: "extends r (fst (overseeLink previous awake (r, s)))" for r s
    by (auto simp: overseeLink_def Let_def case_prod_beta split: option.split if_split)
  have 2: "extends r (fst (overseeDisk previous (r, s)))" for r s
    by (auto simp: overseeDisk_def Let_def case_prod_beta split: option.split if_split)
  have 3: "extends r (fst (overseeMemory previous (r, s)))" for r s
    by (auto simp: overseeMemory_def Let_def case_prod_beta split: option.split if_split)
  show ?thesis unfolding overseeMachine_def by (intro extends_then [OF 3] extends_then [OF 2] 1)
qed

lemma extends_start: "extends r (fst (overseeStart lk (r, e)))"
  by (auto simp: overseeStart_def Let_def extends_event_of split: list.split if_split)

lemma extends_finish: "extends r (fst (progress_finish lk q (r, e)))"
  by (auto simp: progress_finish_def Let_def split: option.split if_split)

lemma extends_stuck: "extends r (fst (progress_stuck lk q (r, e)))"
  by (auto simp: progress_stuck_def Let_def case_prod_beta split: option.split if_split)

lemma extends_progress: "extends r (fst (overseeProgress lk (r, e)))"
  by (simp add: overseeProgress_def Let_def case_prod_beta extends_trans [OF extends_finish extends_stuck])

lemma extends_loop: "extends r (fst (oversee_loop lk prev p (r, e)))"
  by (auto simp: oversee_loop_def Let_def case_prod_beta split: option.split if_split)

lemma extends_loops: "extends r (fst (overseeLoops lk prev (r, e)))"
  unfolding overseeLoops_def by (intro extends_then [OF extends_loop] extends_loop)

lemma extends_pull_request: "extends r (fst (merge_pull_request lk (r, e)))"
  by (auto simp: merge_pull_request_def Let_def extends_event_of split: option.split if_split)

lemma extends_git: "extends r (fst (merge_git lk prev (r, e)))"
  by (auto simp: merge_git_def split: option.split if_split)

lemma extends_merge: "extends r (fst (overseeMerge lk prev (r, e)))"
  unfolding overseeMerge_def by (intro extends_then [OF extends_git] extends_pull_request)

lemma extends_raise: "extends r (fst (snd (raise_items lk seen items raised (r, e))))"
proof (induction lk seen items raised "(r, e)" arbitrary: r e rule: raise_items.induct)
  case (2 lk seen i tgt rest raised r e)
  show ?case
  proof (cases "item_id i \<in> set seen \<or> raised")
    case True
    with 2(1) show ?thesis by simp
  next
    case False
    obtain b r' where l: "lasting ((say lk CAttention (item_body i) tgt r)\<lparr>n_id := item_id i\<rparr>) r = (b, r')" by fastforce
    from 2(2,3) [OF False refl refl l [symmetric]] extends_trans [OF lasting_pair [OF l]] False l show ?thesis
      by (auto simp: Let_def)
  qed
qed simp

lemma extends_attention: "extends r (fst (overseeAttention lk prev (r, e)))"
  unfolding overseeAttention_def Let_def prod.case case_prod_beta fst_conv
  by (rule extends_trans [OF _ extends_raise]) (simp split: option.split)

lemma extends_workspace: "extends r (fst (overseeWorkspace env st prev r))"
  unfolding overseeWorkspace_def Let_def
  by (intro extends_then [OF extends_attention] extends_then [OF extends_merge] extends_then [OF extends_loops]
      extends_then [OF extends_progress] extends_start)

lemma extends_envs: "extends r (fst (oversee_envs prev st envs (r, ws)))"
proof (induction envs arbitrary: r ws)
  case (Cons env envs)
  show ?case
    using extends_trans [OF extends_workspace Cons.IH] by (simp add: case_prod_beta Let_def)
qed simp


lemma run_sels [simp]:
  "r_now (event n r) = r_now r" "r_input (event n r) = r_input r" "r_prefs (event n r) = r_prefs r"
  "r_now (wake t r) = r_now r" "r_input (wake t r) = r_input r" "r_prefs (wake t r) = r_prefs r"
  "r_notifications (wake t r) = r_notifications r"
  by (simp_all add: event_def push_def wake_def)

lemma lasting_done: "\<not> pf_quiet (r_prefs r) \<Longrightarrow> fst (lasting n r)"
  by (simp add: lasting_def)

lemma extends_sels:
  "extends r r' \<Longrightarrow> r_now r' = r_now r \<and> r_input r' = r_input r \<and> r_prefs r' = r_prefs r \<and> r_baseline r' = r_baseline r"
  by (simp add: extends_def same_look_def)

section \<open>A look repeated is silent\<close>

subsection \<open>The start of a run\<close>

lemma overseeStart_entry:
  "snd (overseeStart lk (r, e)) =
     (let e1 = e\<lparr>warmed := warmed e \<or> env_phase (lk_env lk) = Some ''warming''\<rparr>
      in if lk_driven lk = [] then e1 else e1\<lparr>drove := True, drivenAt := Some (r_now r), finished := False, driveNotified := True\<rparr>)"
  by (cases e) (auto simp: overseeStart_def Let_def split: list.split)

lemma overseeStart_silent:
  "(env_phase (lk_env lk) = Some ''warming'' \<longrightarrow> warmed e) \<Longrightarrow> (lk_driven lk \<noteq> [] \<longrightarrow> driveNotified e) \<Longrightarrow>
   fst (overseeStart lk (r, e)) = r"
  by (auto simp: overseeStart_def Let_def split: list.split)

subsection \<open>Progress\<close>

definition clear_stuck :: "int option \<Rightarrow> entry \<Rightarrow> entry" where
  "clear_stuck q e = (case (stuckAt e, q) of (Some s, Some q) \<Rightarrow> if q > s then e\<lparr>stuckAt := None\<rparr> else e | _ \<Rightarrow> e)"

definition finish_due :: "look \<Rightarrow> int option \<Rightarrow> int \<Rightarrow> bool \<Rightarrow> bool \<Rightarrow> bool" where
  "finish_due lk q now drv fin \<longleftrightarrow> drv \<and> \<not> fin \<and> newestBuild (lk_env lk) \<noteq> None \<and> lk_driven lk = [] \<and> is_green (lk_env lk) \<and>
     \<not> is_building (lk_env lk) \<and> (\<exists>t. q = Some t \<and> (isIdle (lk_env lk) \<or> t + FINISH_SETTLE_MS \<le> now))"

definition the_device :: "look \<Rightarrow> slot_device option" where
  "the_device lk = (case lk_driven lk of d # _ \<Rightarrow> Some d | [] \<Rightarrow> List.find sd_running (lk_devices lk))"

definition stuck_due :: "look \<Rightarrow> int option \<Rightarrow> int \<Rightarrow> int \<Rightarrow> bool \<Rightarrow> int option \<Rightarrow> bool" where
  "stuck_due lk q now minutes drv at \<longleftrightarrow> drv \<and> at = None \<and> (\<exists>d. the_device lk = Some d \<and> sd_running d) \<and> \<not> is_building (lk_env lk) \<and>
     \<not> (lk_driven lk = [] \<and> is_green (lk_env lk)) \<and> (\<exists>t. q = Some t \<and> t + minutes * 60000 \<le> now)"

lemma progress_finish_entry:
  "snd (progress_finish lk q (r, e)) =
     (if finish_due lk q (r_now r) (drove e) (finished e) then e\<lparr>finished := True, finishedInRun := True\<rparr> else e)"
  by (cases e) (auto simp: progress_finish_def finish_due_def Let_def split: option.splits)

lemma progress_finish_silent:
  "\<not> finish_due lk q (r_now r) (drove e) (finished e) \<Longrightarrow> r_notifications (fst (progress_finish lk q (r, e))) = r_notifications r"
  by (auto simp: progress_finish_def finish_due_def Let_def split: option.splits)

lemma progress_stuck_entry:
  assumes "\<not> pf_quiet (r_prefs r)"
  shows "snd (progress_stuck lk q (r, e)) =
     (if stuck_due lk q (r_now r) (pf_stuckMinutes (r_prefs r)) (drove e) (stuckAt e) then e\<lparr>stuckAt := q\<rparr> else e)"
  using lasting_done [OF assms]
  by (auto simp: progress_stuck_def stuck_due_def the_device_def [symmetric] Let_def case_prod_beta split: option.splits)

lemma progress_stuck_silent:
  "\<not> stuck_due lk q (r_now r) (pf_stuckMinutes (r_prefs r)) (drove e) (stuckAt e) \<Longrightarrow>
   r_notifications (fst (progress_stuck lk q (r, e))) = r_notifications r"
  by (auto simp: progress_stuck_def stuck_due_def the_device_def [symmetric] Let_def case_prod_beta split: option.splits)

lemma overseeProgress_eq:
  "overseeProgress lk (r, e) =
     (let q = quiet_since lk e; re = progress_finish lk q (r, clear_stuck q e)
      in progress_stuck lk q (fst re, progress_reset (lk_env lk) (snd re)))"
  by (simp add: overseeProgress_def clear_stuck_def Let_def case_prod_beta)

lemma progress_reset_sels:
  "drove (progress_reset env e) \<longleftrightarrow> drove e \<and> \<not> isIdle env \<and> \<not> finished e"
  "finished (progress_reset env e) \<longleftrightarrow> finished e \<and> \<not> isIdle env"
  "stuckAt (progress_reset env e) = stuckAt e"
  "warmed (progress_reset env e) \<longleftrightarrow> warmed e \<and> \<not> isIdle env"
  "driveNotified (progress_reset env e) \<longleftrightarrow> driveNotified e \<and> \<not> isIdle env \<and> \<not> finished e"
  by (auto simp: progress_reset_def Let_def)

lemma clear_stuck_sels:
  "drove (clear_stuck q e) = drove e" "finished (clear_stuck q e) = finished e" "warmed (clear_stuck q e) = warmed e"
  "driveNotified (clear_stuck q e) = driveNotified e"
  "stuckAt (clear_stuck q e) = (case (stuckAt e, q) of (Some s, Some t) \<Rightarrow> if t > s then None else Some s | (a, _) \<Rightarrow> a)"
  by (simp_all add: clear_stuck_def split: option.split)

text \<open>What one look leaves of the fields that progress reads.\<close>

lemma overseeProgress_entry:
  fixes r :: run and lk :: look and e :: entry
  assumes "\<not> pf_quiet (r_prefs r)"
  defines "q \<equiv> quiet_since lk e" and "P \<equiv> snd (overseeProgress lk (r, e))"
  defines "fin \<equiv> finished e \<or> finish_due lk (quiet_since lk e) (r_now r) (drove e) (finished e)"
  shows "drove P \<longleftrightarrow> drove e \<and> \<not> isIdle (lk_env lk) \<and> \<not> fin"
    "finished P \<longleftrightarrow> fin \<and> \<not> isIdle (lk_env lk)"
    "warmed P \<longleftrightarrow> warmed e \<and> \<not> isIdle (lk_env lk)"
    "driveNotified P \<longleftrightarrow> driveNotified e \<and> \<not> isIdle (lk_env lk) \<and> \<not> fin"
    "stuckAt P = (if stuck_due lk q (r_now r) (pf_stuckMinutes (r_prefs r)) (drove P) (stuckAt (clear_stuck q e)) then q else stuckAt (clear_stuck q e))"
proof -
  let ?f = "finish_due lk q (r_now r) (drove e) (finished e)"
  define e2 where "e2 = (if ?f then (clear_stuck q e)\<lparr>finished := True, finishedInRun := True\<rparr> else clear_stuck q e)"
  have e2: "snd (progress_finish lk q (r, clear_stuck q e)) = e2"
    by (simp add: progress_finish_entry e2_def clear_stuck_sels)
  let ?r = "fst (progress_finish lk q (r, clear_stuck q e))"
  have r: "r_now ?r = r_now r" "r_prefs ?r = r_prefs r"
    using extends_sels [OF extends_finish] by simp_all
  define e3 where "e3 = progress_reset (lk_env lk) e2"
  have P: "P = (if stuck_due lk q (r_now r) (pf_stuckMinutes (r_prefs r)) (drove e3) (stuckAt e3) then e3\<lparr>stuckAt := q\<rparr> else e3)"
    unfolding P_def overseeProgress_eq q_def [symmetric] Let_def e2 e3_def [symmetric]
    using progress_stuck_entry [of ?r lk q e3] assms(1) by (simp add: r)
  have fin: "finished e2 = fin" "drove e2 = drove e" "warmed e2 = warmed e" "driveNotified e2 = driveNotified e" "stuckAt e2 = stuckAt (clear_stuck q e)"
    by (auto simp: e2_def clear_stuck_sels fin_def q_def)
  show "drove P \<longleftrightarrow> drove e \<and> \<not> isIdle (lk_env lk) \<and> \<not> fin" "finished P \<longleftrightarrow> fin \<and> \<not> isIdle (lk_env lk)"
    "warmed P \<longleftrightarrow> warmed e \<and> \<not> isIdle (lk_env lk)" "driveNotified P \<longleftrightarrow> driveNotified e \<and> \<not> isIdle (lk_env lk) \<and> \<not> fin"
    by (auto simp: P e3_def progress_reset_sels fin)
  have "drove P = drove e3" by (simp add: P)
  then show "stuckAt P = (if stuck_due lk q (r_now r) (pf_stuckMinutes (r_prefs r)) (drove P) (stuckAt (clear_stuck q e)) then q else stuckAt (clear_stuck q e))"
    by (simp add: P e3_def progress_reset_sels fin)
qed


lemma overseeProgress_silent:
  assumes "\<not> finish_due lk (quiet_since lk e) (r_now r) (drove e) (finished e)"
    and "\<not> stuck_due lk (quiet_since lk e) (r_now r) (pf_stuckMinutes (r_prefs r))
      (drove e \<and> \<not> isIdle (lk_env lk) \<and> \<not> finished e) (stuckAt (clear_stuck (quiet_since lk e) e))"
  shows "r_notifications (fst (overseeProgress lk (r, e))) = r_notifications r"
proof -
  let ?q = "quiet_since lk e"
  let ?re = "progress_finish lk ?q (r, clear_stuck ?q e)"
  have 1: "\<not> finish_due lk ?q (r_now r) (drove (clear_stuck ?q e)) (finished (clear_stuck ?q e))"
    using assms(1) by (simp add: clear_stuck_sels)
  have e: "snd ?re = clear_stuck ?q e" using 1 by (simp add: progress_finish_entry)
  have r: "r_now (fst ?re) = r_now r" "r_prefs (fst ?re) = r_prefs r" using extends_sels [OF extends_finish] by simp_all
  have "r_notifications (fst (progress_stuck lk ?q (fst ?re, progress_reset (lk_env lk) (snd ?re)))) = r_notifications (fst ?re)"
    by (rule progress_stuck_silent) (use assms(2) in \<open>simp add: r e progress_reset_sels clear_stuck_sels(1,2)\<close>)
  also have "\<dots> = r_notifications r" by (rule progress_finish_silent [OF 1])
  finally show ?thesis unfolding overseeProgress_eq Let_def .
qed

lemma progress_twice:
  assumes loud: "\<not> pf_quiet (r_prefs r)" and same: "r_now s = r_now r" "r_prefs s = r_prefs r"
    and drv: "lk_driven lk \<noteq> [] \<longrightarrow> drove e \<and> \<not> finished e \<and> \<not> isIdle (lk_env lk)"
    and P: "P = snd (overseeProgress lk (r, e))"
    and y: "quiet_since lk y = quiet_since lk e" "stuckAt y = stuckAt P"
      "drove y = (if lk_driven lk = [] then drove P else True)" "finished y = (if lk_driven lk = [] then finished P else False)"
  shows "r_notifications (fst (overseeProgress lk (s, y))) = r_notifications s"
proof (rule overseeProgress_silent)
  note entry = overseeProgress_entry [OF loud, of lk e, folded P]
  let ?q = "quiet_since lk e"
  show fin: "\<not> finish_due lk (quiet_since lk y) (r_now s) (drove y) (finished y)"
    unfolding y(1) same using y(3,4) entry(1,2) by (auto simp: finish_due_def)
  have at: "stuckAt (clear_stuck ?q y) = stuckAt P"
    using entry(5) y(2) by (auto simp: clear_stuck_sels stuck_due_def split: option.splits if_splits)
  show "\<not> stuck_due lk (quiet_since lk y) (r_now s) (pf_stuckMinutes (r_prefs s))
      (drove y \<and> \<not> isIdle (lk_env lk) \<and> \<not> finished y) (stuckAt (clear_stuck (quiet_since lk y) y))"
  proof
    assume due: "stuck_due lk (quiet_since lk y) (r_now s) (pf_stuckMinutes (r_prefs s))
      (drove y \<and> \<not> isIdle (lk_env lk) \<and> \<not> finished y) (stuckAt (clear_stuck (quiet_since lk y) y))"
    then have none: "stuckAt P = None" and q: "?q \<noteq> None" unfolding y(1) at by (auto simp: stuck_due_def)
    with entry(5) have no: "\<not> stuck_due lk ?q (r_now r) (pf_stuckMinutes (r_prefs r)) (drove P) (stuckAt (clear_stuck ?q e))"
      and c: "stuckAt (clear_stuck ?q e) = None"
      by (auto split: if_splits)
    have "drove P"
    proof (cases "lk_driven lk = []")
      case True
      with due y(3) show ?thesis by (simp add: stuck_due_def)
    next
      case False
      with drv entry(1) show ?thesis by (simp add: finish_due_def)
    qed
    with due no show False unfolding y(1) at none c same by (simp add: stuck_due_def)
  qed
qed

subsection \<open>Failure loops\<close>

lemma oversee_loop_entry:
  assumes "\<not> pf_quiet (r_prefs r)" "failureStreak (build_history p (lk_env lk)) = Some s"
  shows "\<exists>l. loop_of p (snd (oversee_loop lk prev p (r, e))) = Some l \<and> loop_signature l = signature s \<and>
    (LOOP_COUNT \<le> streak_count s \<longrightarrow> loop_notified l)"
  using lasting_done [OF assms(1)] assms(2)
  by (cases p) (auto simp: oversee_loop_def Let_def case_prod_beta split: option.splits if_splits)

lemma oversee_loop_other:
  "p \<noteq> p' \<Longrightarrow> loop_of p (snd (oversee_loop lk prev p' (r, e))) = loop_of p e"
  by (cases p; cases p') (auto simp: oversee_loop_def Let_def case_prod_beta split: option.splits)

definition loop_settled :: "environment \<Rightarrow> entry \<Rightarrow> build_platform \<Rightarrow> bool" where
  "loop_settled env e p \<longleftrightarrow> (\<forall>s. failureStreak (build_history p env) = Some s \<longrightarrow>
     (\<exists>l. loop_of p e = Some l \<and> loop_signature l = signature s \<and> (LOOP_COUNT \<le> streak_count s \<longrightarrow> loop_notified l)))"

lemma overseeLoops_settled:
  assumes "\<not> pf_quiet (r_prefs r)"
  shows "loop_settled (lk_env lk) (snd (overseeLoops lk prev (r, e))) p"
proof -
  obtain r1 e1 where re: "oversee_loop lk prev BIos (r, e) = (r1, e1)" by fastforce
  have q: "\<not> pf_quiet (r_prefs r1)" using extends_sels [OF extends_loop [of r lk prev BIos e]] assms re by simp
  show ?thesis
  proof (cases p)
    case BIos
    with oversee_loop_entry [OF assms, of BIos lk _ prev e] re oversee_loop_other [of BIos BAndroid lk prev r1 e1] show ?thesis
      unfolding loop_settled_def overseeLoops_def by simp
  next
    case BAndroid
    with oversee_loop_entry [OF q, of BAndroid lk _ prev e1] re show ?thesis
      unfolding loop_settled_def overseeLoops_def by simp
  qed
qed

lemma oversee_loop_silent: "loop_settled (lk_env lk) p0 p \<Longrightarrow> fst (oversee_loop lk (Some p0) p (r, e)) = r"
  by (auto simp: loop_settled_def oversee_loop_def Let_def split: option.splits if_splits)

lemma overseeLoops_silent:
  "(\<And>p. loop_settled (lk_env lk) p0 p) \<Longrightarrow> fst (overseeLoops lk (Some p0) (r, e)) = r"
  unfolding overseeLoops_def by (metis oversee_loop_silent prod.collapse)

subsection \<open>Pull requests and merges\<close>

lemma overseeMerge_mergedInto: "mergedInto (snd (overseeMerge lk prev (r, e))) = mergedInto e"
proof -
  have 1: "mergedInto (snd (merge_pull_request lk (r, e))) = mergedInto e" for r e
    by (auto simp: merge_pull_request_def Let_def split: option.split)
  have 2: "mergedInto (snd (merge_git lk prev (r, e))) = mergedInto e" for r e
    by (auto simp: merge_git_def split: option.split)
  show ?thesis unfolding overseeMerge_def by (metis 1 2 prod.collapse)
qed

lemma overseeMerge_pr:
  "pr (snd (overseeMerge lk prev (r, e))) =
     (case map_of (in_pullRequests (r_input r)) (env_path (lk_env lk)) of None \<Rightarrow> pr e | Some q \<Rightarrow> current_pr q)"
proof -
  have 1: "pr (snd (merge_pull_request lk (r, e))) =
     (case map_of (in_pullRequests (r_input r)) (env_path (lk_env lk)) of None \<Rightarrow> pr e | Some q \<Rightarrow> current_pr q)"
    by (auto simp: merge_pull_request_def Let_def case_prod_beta split: option.split)
  have 2: "pr (snd (merge_git lk prev (r, e))) = pr e" for r e
    by (auto simp: merge_git_def split: option.split)
  show ?thesis unfolding overseeMerge_def by (metis 1 2 prod.collapse)
qed

lemma merge_pull_request_silent:
  assumes "\<And>q. map_of (in_pullRequests (r_input r)) (env_path (lk_env lk)) = Some q \<Longrightarrow> pr e = current_pr q"
  shows "fst (merge_pull_request lk (r, e)) = r" "mergedInto (snd (merge_pull_request lk (r, e))) = mergedInto e"
  using assms by (auto simp: merge_pull_request_def current_pr_def Let_def split: option.split)

lemma overseeMerge_silent:
  assumes "\<And>q. map_of (in_pullRequests (r_input r)) (env_path (lk_env lk)) = Some q \<Longrightarrow> pr e = current_pr q"
    and "mergedInto e = mergedInto p"
  shows "fst (overseeMerge lk (Some p) (r, e)) = r"
proof -
  obtain e' where e': "merge_pull_request lk (r, e) = (r, e')" "mergedInto e' = mergedInto p"
    using merge_pull_request_silent [OF assms(1)] assms(2) by (metis prod.collapse)
  then show ?thesis unfolding overseeMerge_def by (auto simp: merge_git_def split: option.splits)
qed

subsection \<open>Attention\<close>

lemma raise_items_entry:
  "\<not> pf_quiet (r_prefs r) \<Longrightarrow>
   attention (snd (snd (raise_items lk seen items raised (r, e)))) = attention e @ map (item_id \<circ> fst) items"
proof (induction lk seen items raised "(r, e)" arbitrary: r e rule: raise_items.induct)
  case (2 lk seen i tgt rest raised r e)
  show ?case
  proof (cases "item_id i \<in> set seen \<or> raised")
    case True
    with 2(1) 2(4) show ?thesis by simp
  next
    case False
    obtain b r' where l: "lasting ((say lk CAttention (item_body i) tgt r)\<lparr>n_id := item_id i\<rparr>) r = (b, r')" by fastforce
    have b: "b" using lasting_done [OF 2(4)] l by (metis fst_conv)
    have "\<not> pf_quiet (r_prefs r')" using extends_sels [OF lasting_pair [OF l]] 2(4) by simp
    with 2(2) [OF False refl refl l [symmetric]] False l b show ?thesis
      by (simp add: Let_def)
  qed
qed simp

lemma raise_items_silent:
  "\<forall>x \<in> set items. item_id (fst x) \<in> set seen \<Longrightarrow> fst (snd (raise_items lk seen items raised (r, e))) = r"
  by (induction lk seen items raised "(r, e)" arbitrary: r e rule: raise_items.induct) auto

definition pending_now :: "look \<Rightarrow> run \<Rightarrow> (attention_item \<times> target) list" where
  "pending_now lk r = pending_of (lk_env lk) (fst (workspaceAttention (lk_env lk) (r_now r) (pf_stuckMinutes (r_prefs r))
     EAS_SESSION_MINUTES (in_ownLeases (r_input r)) attentionBody))"

lemma overseeAttention_entry:
  assumes "\<not> pf_quiet (r_prefs r)"
  shows "attention (snd (overseeAttention lk prev (r, e))) = attention e @ map (item_id \<circ> fst) (pending_now lk r)"
  using assms raise_items_entry
  by (simp add: overseeAttention_def Let_def case_prod_beta pending_now_def split: option.split)

lemma overseeAttention_silent:
  assumes "\<forall>x \<in> set (pending_now lk r). item_id (fst x) \<in> set (attention p)"
  shows "r_notifications (fst (overseeAttention lk (Some p) (r, e))) = r_notifications r"
  using assms by (simp add: overseeAttention_def Let_def case_prod_beta pending_now_def raise_items_silent split: option.split)


subsection \<open>The whole workspace\<close>

text \<open>The fields each step leaves alone.\<close>

definition core :: "entry \<Rightarrow> bool \<times> bool \<times> int option \<times> bool \<times> int \<times> int option \<times> int option \<times> bool" where
  "core e = (warmed e, drove e, drivenAt e, driveNotified e, errors e, errorsAt e, stuckAt e, finished e)"

lemma core_loop: "core (snd (oversee_loop lk prev p (r, e))) = core e"
  by (cases p) (auto simp: core_def oversee_loop_def Let_def case_prod_beta split: option.split)

lemma core_loops: "core (snd (overseeLoops lk prev (r, e))) = core e"
  unfolding overseeLoops_def by (metis core_loop prod.collapse)

lemma core_merge: "core (snd (overseeMerge lk prev (r, e))) = core e"
proof -
  have 1: "core (snd (merge_pull_request lk (r, e))) = core e" for r e
    by (auto simp: core_def merge_pull_request_def Let_def split: option.split)
  have 2: "core (snd (merge_git lk prev (r, e))) = core e" for r e
    by (auto simp: core_def merge_git_def split: option.split)
  show ?thesis unfolding overseeMerge_def by (metis 1 2 prod.collapse)
qed

definition outer :: "entry \<Rightarrow> (bool \<times> bool \<times> int option \<times> bool \<times> int \<times> int option \<times> int option \<times> bool) \<times> build_loop option \<times> build_loop option \<times> known_pr \<times> string option" where
  "outer e = (core e, loop_ios e, loop_android e, pr e, mergedInto e)"

lemma outer_raise: "outer (snd (snd (raise_items lk seen items raised (r, e)))) = outer e"
proof (induction lk seen items raised "(r, e)" arbitrary: r e rule: raise_items.induct)
  case (2 lk seen i tgt rest raised r e)
  obtain b r' where l: "lasting ((say lk CAttention (item_body i) tgt r)\<lparr>n_id := item_id i\<rparr>) r = (b, r')" by fastforce
  have o: "outer (e\<lparr>attention := x\<rparr>) = outer e" for x by (simp add: outer_def core_def)
  show ?case
  proof (cases "item_id i \<in> set seen \<or> raised")
    case True
    with 2(1) o show ?thesis by simp
  next
    case False
    with 2(2,3) [OF False refl refl l [symmetric]] l o show ?thesis by (cases b) (simp_all add: Let_def)
  qed
qed simp

lemma outer_attention: "outer (snd (overseeAttention lk prev (r, e))) = outer e"
proof -
  have "outer (e\<lparr>attentionRaised := x\<rparr>) = outer e" for e x by (simp add: outer_def core_def)
  then show ?thesis by (simp add: overseeAttention_def Let_def case_prod_beta outer_raise)
qed

lemma loops_merge: "loop_of p (snd (overseeMerge lk prev (r, e))) = loop_of p e"
proof -
  have 1: "loop_of p (snd (merge_pull_request lk (r, e))) = loop_of p e" for r e
    by (cases p) (auto simp: merge_pull_request_def Let_def split: option.split)
  have 2: "loop_of p (snd (merge_git lk prev (r, e))) = loop_of p e" for r e
    by (cases p) (auto simp: merge_git_def split: option.split)
  show ?thesis unfolding overseeMerge_def by (metis 1 2 prod.collapse)
qed

definition rest :: "entry \<Rightarrow> string list \<times> known_pr \<times> string option" where
  "rest e = (attention e, pr e, mergedInto e)"

lemma rest_start: "rest (snd (overseeStart lk (r, e))) = rest e"
  by (simp add: overseeStart_entry rest_def Let_def)

lemma rest_progress: "rest (snd (overseeProgress lk (r, e))) = rest e"
  by (simp add: overseeProgress_eq Let_def rest_def)
    (auto simp: progress_stuck_def progress_finish_entry progress_reset_def clear_stuck_def Let_def case_prod_beta split: option.split list.split)

lemma rest_loops: "rest (snd (overseeLoops lk prev (r, e))) = rest e"
proof -
  have "rest (snd (oversee_loop lk prev p (r, e))) = rest e" for p r e
    by (cases p) (auto simp: rest_def oversee_loop_def Let_def case_prod_beta split: option.split)
  then show ?thesis unfolding overseeLoops_def by (metis prod.collapse)
qed

lemma attention_merge: "attention (snd (overseeMerge lk prev (r, e))) = attention e"
proof -
  have 1: "attention (snd (merge_pull_request lk (r, e))) = attention e" for r e
    by (auto simp: merge_pull_request_def Let_def split: option.split)
  have 2: "attention (snd (merge_git lk prev (r, e))) = attention e" for r e
    by (auto simp: merge_git_def split: option.split)
  show ?thesis unfolding overseeMerge_def by (metis 1 2 prod.collapse)
qed

lemma progress_times:
  "drivenAt (snd (overseeProgress lk (r, e))) = drivenAt e" "errors (snd (overseeProgress lk (r, e))) = errors e"
  "errorsAt (snd (overseeProgress lk (r, e))) = errorsAt e"
  by (simp_all add: overseeProgress_eq Let_def)
    (auto simp: progress_stuck_def progress_finish_entry progress_reset_def clear_stuck_def Let_def case_prod_beta split: option.split list.split)


lemma new_entry_sel:
  "warmed (new_entry r env (Some p)) = warmed p" "drove (new_entry r env (Some p)) = drove p"
  "driveNotified (new_entry r env (Some p)) = driveNotified p" "drivenAt (new_entry r env (Some p)) = drivenAt p"
  "stuckAt (new_entry r env (Some p)) = stuckAt p" "finished (new_entry r env (Some p)) = finished p"
  by (simp_all add: new_entry_def Let_def)

text \<open>What a look that is not in quiet hours leaves in a workspace's entry.\<close>

definition settled :: "run \<Rightarrow> look \<Rightarrow> entry \<Rightarrow> entry \<Rightarrow> bool" where
  "settled r lk S e \<longleftrightarrow> (\<exists>r1. r_now r1 = r_now r \<and> r_prefs r1 = r_prefs r \<and> core e = core (snd (overseeProgress lk (r1, S)))) \<and>
     (env_phase (lk_env lk) = Some ''warming'' \<longrightarrow> warmed S) \<and> (lk_driven lk \<noteq> [] \<longrightarrow> drove S \<and> \<not> finished S \<and> driveNotified S) \<and>
     (\<forall>p. loop_settled (lk_env lk) e p) \<and>
     (\<forall>q. map_of (in_pullRequests (r_input r)) (env_path (lk_env lk)) = Some q \<longrightarrow> pr e = current_pr q) \<and>
     (\<forall>x \<in> set (pending_now lk r). item_id (fst x) \<in> set (attention e)) \<and>
     errors S = (case env_logErrors (lk_env lk) of None \<Rightarrow> 0 | Some n \<Rightarrow> n) \<and>
     (\<forall>g. Option.bind (env_worktree (lk_env lk)) wt_git = Some g \<longrightarrow> mergedInto e = git_mergedInto g)"

lemma loop_settled_cong: "(\<And>p. loop_of p e = loop_of p e') \<Longrightarrow> loop_settled env e p = loop_settled env e' p"
  by (simp add: loop_settled_def)

lemma pending_now_cong:
  "r_now s = r_now r \<Longrightarrow> r_prefs s = r_prefs r \<Longrightarrow> r_input s = r_input r \<Longrightarrow> pending_now lk s = pending_now lk r"
  by (simp add: pending_now_def)

lemma overseeWorkspace_settled:
  assumes loud: "\<not> pf_quiet (r_prefs r)" and lk: "lk = look_at r env st"
  shows "\<exists>S. settled r lk S (snd (overseeWorkspace env st prev r))"
proof -
  define N where "N = new_entry r env prev"
  obtain r1 S where 1: "overseeStart lk (r, N) = (r1, S)" by fastforce
  obtain r2 P where 2: "overseeProgress lk (r1, S) = (r2, P)" by fastforce
  obtain r3 L where 3: "overseeLoops lk prev (r2, P) = (r3, L)" by fastforce
  obtain r4 M where 4: "overseeMerge lk prev (r3, L) = (r4, M)" by fastforce
  obtain r5 e where 5: "overseeAttention lk prev (r4, M) = (r5, e)" by fastforce
  have e: "snd (overseeWorkspace env st prev r) = e"
    unfolding overseeWorkspace_def Let_def lk [symmetric] N_def [symmetric] using 1 2 3 4 5 by simp
  have env: "lk_env lk = env" by (simp add: lk look_at_def Let_def)
  have x1: "extends r r1" using extends_start [of r lk N] 1 by simp
  have x2: "extends r r2" using extends_trans [OF x1] extends_progress [of r1 lk S] 2 by simp
  have x3: "extends r r3" using extends_trans [OF x2] extends_loops [of r2 lk prev P] 3 by simp
  have x4: "extends r r4" using extends_trans [OF x3] extends_merge [of r3 lk prev L] 4 by simp
  have o: "outer e = outer M" using outer_attention [of lk prev r4 M] 5 by simp
  have "core e = core P"
    using o core_merge [of lk prev r3 L] core_loops [of lk prev r2 P] 3 4 by (simp add: outer_def)
  then have "core e = core (snd (overseeProgress lk (r1, S)))" by (simp add: 2)
  moreover have S: "S = snd (overseeStart lk (r, N))" by (simp add: 1)
  moreover have "loop_settled env e p" for p
  proof -
    have "loop_of p e = loop_of p L" for p
      using o loops_merge [of p lk prev r3 L] 4 by (cases p) (simp_all add: outer_def)
    then have "loop_settled env e p = loop_settled env L p" by (rule loop_settled_cong)
    with overseeLoops_settled [of r2 lk prev P p] extends_sels [OF x2] loud 3 env show ?thesis by simp
  qed
  moreover have "pr e = current_pr q" if "map_of (in_pullRequests (r_input r)) (env_path env) = Some q" for q
    using that overseeMerge_pr [of lk prev r3 L] extends_sels [OF x3] 4 o env by (simp add: outer_def)
  moreover have "attention e = map (item_id \<circ> fst) (pending_now lk r)"
  proof -
    have "attention M = []"
      using attention_merge [of lk prev r3 L] rest_loops [of lk prev r2 P] rest_progress [of lk r1 S] rest_start [of lk r N] 1 2 3 4
      by (simp add: rest_def N_def new_entry_def Let_def)
    then show ?thesis
      using overseeAttention_entry [of r4 lk prev M] extends_sels [OF x4] loud 5 pending_now_cong [of r4 r lk] by simp
  qed
  moreover have "mergedInto e = git_mergedInto g" if "Option.bind (env_worktree env) wt_git = Some g" for g
    using that o overseeMerge_mergedInto [of lk prev r3 L] rest_loops [of lk prev r2 P] rest_progress [of lk r1 S] rest_start [of lk r N] 1 2 3 4
    by (simp add: rest_def N_def new_entry_def Let_def outer_def)
  ultimately show ?thesis
    unfolding e settled_def env using extends_sels [OF x1]
    by (intro exI [of _ S] conjI exI [of _ r1])
      (auto simp: overseeStart_entry Let_def env N_def new_entry_def image_image)
qed

lemma settled_silent:
  assumes loud: "\<not> pf_quiet (r_prefs r)" and same: "r_now s = r_now r" "r_prefs s = r_prefs r" "r_input s = r_input r"
    and idle: "lk_driven lk \<noteq> [] \<longrightarrow> \<not> isIdle env" and lk: "lk = look_at s env st" and e: "settled r lk S e"
  shows "r_notifications (fst (overseeWorkspace env st (Some e) s)) = r_notifications s"
proof -
  define N where "N = new_entry s env (Some e)"
  have env: "lk_env lk = env" by (simp add: lk look_at_def Let_def)
  from e obtain r1 P where r1: "r_now r1 = r_now r" "r_prefs r1 = r_prefs r" and P: "P = snd (overseeProgress lk (r1, S))"
    and core: "core e = core P" unfolding settled_def by blast
  have loud1: "\<not> pf_quiet (r_prefs r1)" using loud r1 by simp
  note entry = overseeProgress_entry [OF loud1, of lk S, folded P]
  have warm: "env_phase env = Some ''warming'' \<longrightarrow> warmed e"
    using e core entry(3) by (auto simp: settled_def core_def env isIdle_def)
  have drv: "lk_driven lk \<noteq> [] \<longrightarrow> driveNotified e"
    using e core entry(4) idle by (auto simp: settled_def core_def env finish_due_def)
  obtain Y where 1: "overseeStart lk (s, N) = (s, Y)"
    using overseeStart_silent [of lk N s] warm drv by (metis N_def env new_entry_sel prod.collapse)
  have Y: "Y = snd (overseeStart lk (s, N))" by (simp add: 1)
  have err: "errorsAt N = errorsAt e"
    using e core progress_times(2) [of lk r1 S] by (simp add: N_def new_entry_def Let_def settled_def core_def env P)
  have "r_notifications (fst (overseeProgress lk (s, Y))) = r_notifications s"
  proof (rule progress_twice [OF loud1 _ _ _ P])
    show "r_now s = r_now r1" "r_prefs s = r_prefs r1" using same r1 by simp_all
    show "lk_driven lk \<noteq> [] \<longrightarrow> drove S \<and> \<not> finished S \<and> \<not> isIdle (lk_env lk)" using e idle env by (auto simp: settled_def)
    show "quiet_since lk Y = quiet_since lk S"
      using core progress_times [of lk r1 S] err
      by (auto simp: quiet_since_def Y overseeStart_entry Let_def core_def P N_def new_entry_sel)
    show "stuckAt Y = stuckAt P" "drove Y = (if lk_driven lk = [] then drove P else True)"
      "finished Y = (if lk_driven lk = [] then finished P else False)"
      using core by (simp_all add: Y overseeStart_entry Let_def core_def N_def new_entry_sel)
  qed
  moreover obtain s2 P2 where 2: "overseeProgress lk (s, Y) = (s2, P2)" by fastforce
  moreover obtain L2 where 3: "overseeLoops lk (Some e) (s2, P2) = (s2, L2)"
    using overseeLoops_silent [of lk e s2 P2] e by (metis settled_def prod.collapse)
  have "rest L2 = rest N"
    using rest_start [of lk s N] rest_progress [of lk s Y] rest_loops [of lk "Some e" s2 P2] 1 2 3 by simp
  then have L2: "pr L2 = pr e" "mergedInto L2 = mergedInto e"
    using e by (auto simp: rest_def N_def new_entry_def Let_def settled_def env split: option.splits)
  have s2: "extends s s2" using extends_progress [of s lk Y] 2 by simp
  obtain M2 where 4: "overseeMerge lk (Some e) (s2, L2) = (s2, M2)"
    using overseeMerge_silent [of s2 lk L2 e] L2 e extends_sels [OF s2] same by (metis settled_def prod.collapse)
  have "r_notifications (fst (overseeAttention lk (Some e) (s2, M2))) = r_notifications s2"
    by (rule overseeAttention_silent)
      (use e pending_now_cong [of s2 r lk] extends_sels [OF s2] same in \<open>simp add: settled_def\<close>)
  ultimately show ?thesis
    unfolding overseeWorkspace_def Let_def lk [symmetric] N_def [symmetric] 1 2 3 4 by simp
qed


subsection \<open>The machine\<close>

lemma overseeLink_twice:
  assumes "\<not> pf_quiet (r_prefs r)" "r_now s = r_now r" "r_input s = r_input r"
    and "link_held st' = link_held (snd (overseeLink prev awake (r, s0)))"
  shows "r_notifications (fst (overseeLink (Some st') awake (s, x))) = r_notifications s"
proof (cases "in_link (r_input r) = None \<or> in_link (r_input r) = Some LOpen")
  case True
  with assms(3) show ?thesis by (auto simp: overseeLink_def)
next
  case False
  then obtain kind where k: "in_link (r_input r) = Some kind" "kind \<noteq> LOpen" by (cases "in_link (r_input r)") auto
  define h where "h = heldFor (case Option.bind prev link_held of Some (h, k) \<Rightarrow> if k = kind then Some h else None | None \<Rightarrow> None) (r_now r)"
  let ?due = "max (since h) awake + (if kind = LOffline then OFFLINE_SETTLE_MS else 0)"
  obtain h' where h': "link_held st' = Some (h', kind)" "since h' = since h" "notified h' \<or> r_now r < ?due"
    using lasting_done [OF assms(1)] unfolding assms(4) overseeLink_def Let_def prod.case k
    by (auto simp: k(2) case_prod_beta h_def [symmetric] split: if_splits)
  then show ?thesis
    using k assms(2,3) by (auto simp: overseeLink_def Let_def heldFor_def)
qed

lemma overseeDisk_twice:
  assumes "\<not> pf_quiet (r_prefs r)" "r_input s = r_input r"
    and "disk s0 = None" "disk st' = disk (snd (overseeDisk prev (r, s0)))"
  shows "r_notifications (fst (overseeDisk (Some st') (s, x))) = r_notifications s"
proof (cases "Option.bind (in_volumes (r_input r)) lowest_free")
  case None
  with assms(2) show ?thesis by (auto simp: overseeDisk_def Let_def bind_eq_None_conv split: option.splits)
next
  case (Some low)
  then obtain vs where v: "in_volumes (r_input r) = Some vs" "lowest_free vs = Some low" by (auto simp: bind_eq_Some_conv)
  have "(\<exists>h. disk st' = Some h \<and> notified h) \<or> (disk st' = None \<and> \<not> low < DISK_CRITICAL_BYTES)"
    using lasting_done [OF assms(1)] assms(3) unfolding assms(4) overseeDisk_def Let_def prod.case v
    by (auto simp: case_prod_beta v DISK_RECOVERED_BYTES_def split: if_splits)
  then show ?thesis
    using v assms(2) by (auto simp: overseeDisk_def Let_def heldFor_def)
qed

lemma overseeMemory_twice:
  assumes "\<not> pf_quiet (r_prefs r)" "r_now s = r_now r" "r_input s = r_input r" "\<not> r_baseline s"
    and "memory st' = memory (snd (overseeMemory prev (r, s0)))" "memoryKnown st' = memoryKnown (snd (overseeMemory prev (r, s0)))"
  shows "r_notifications (fst (overseeMemory (Some st') (s, x))) = r_notifications s"
proof (cases "in_memoryPressure (r_input r) = Some ''critical''")
  case False
  with assms(3) show ?thesis by (auto simp: overseeMemory_def Let_def)
next
  case True
  have known: "memoryKnown st'"
    unfolding assms(6) by (simp add: overseeMemory_def Let_def case_prod_beta True)
  obtain h where "memory st' = Some h" "notified h \<or> r_now r < since h + MEMORY_SETTLE_MS"
    using lasting_done [OF assms(1)] unfolding assms(5) overseeMemory_def Let_def prod.case True
    by (auto simp: case_prod_beta split: if_splits)
  with known True assms(2-4) show ?thesis by (auto simp: overseeMemory_def Let_def heldFor_def)
qed

lemma machine_frames:
  "disk (snd (overseeLink prev a (r, s))) = disk s" "memory (snd (overseeLink prev a (r, s))) = memory s"
  "link_held (snd (overseeDisk prev (r, s))) = link_held s" "memory (snd (overseeDisk prev (r, s))) = memory s"
  "link_held (snd (overseeMemory prev (r, s))) = link_held s" "disk (snd (overseeMemory prev (r, s))) = disk s"
  by (auto simp: overseeLink_def overseeDisk_def overseeMemory_def Let_def case_prod_beta split: option.split)

lemma extends_machine_parts:
  "extends r (fst (overseeLink prev a (r, s)))" "extends r (fst (overseeDisk prev (r, s)))" "extends r (fst (overseeMemory prev (r, s)))"
  by (auto simp: overseeLink_def overseeDisk_def overseeMemory_def Let_def case_prod_beta split: option.split if_split)

lemma overseeMachine_twice:
  assumes loud: "\<not> pf_quiet (r_prefs r)" and same: "r_now s = r_now r" "r_prefs s = r_prefs r" "r_input s = r_input r" "\<not> r_baseline s"
    and s0: "disk s0 = None" and st': "st' = (snd (overseeMachine prev a (r, s0)))\<lparr>workspaces := ws\<rparr>"
  shows "r_notifications (fst (overseeMachine (Some st') a (s, s1))) = r_notifications s"
proof -
  obtain r1 m1 where 1: "overseeLink prev a (r, s0) = (r1, m1)" by fastforce
  obtain r2 m2 where 2: "overseeDisk prev (r1, m1) = (r2, m2)" by fastforce
  obtain r3 m3 where 3: "overseeMemory prev (r2, m2) = (r3, m3)" by fastforce
  have x1: "extends r r1" using extends_machine_parts(1) [of r prev a s0] 1 by simp
  have x2: "extends r r2" using extends_trans [OF x1] extends_machine_parts(2) [of r1 prev m1] 2 by simp
  have st: "st' = m3\<lparr>workspaces := ws\<rparr>" by (simp add: st' overseeMachine_def 1 2 3)
  have fields: "link_held st' = link_held (snd (overseeLink prev a (r, s0)))" "disk st' = disk (snd (overseeDisk prev (r1, m1)))"
    "memory st' = memory (snd (overseeMemory prev (r2, m2)))" "memoryKnown st' = memoryKnown (snd (overseeMemory prev (r2, m2)))" "disk m1 = None"
    using machine_frames(1,2) [of prev a r s0] machine_frames(3,4) [of prev r1 m1] machine_frames(5,6) [of prev r2 m2] s0 by (simp_all add: st 1 2 3)
  obtain t1 n1 where t1: "overseeLink (Some st') a (s, s1) = (t1, n1)" by fastforce
  obtain t2 n2 where t2: "overseeDisk (Some st') (t1, n1) = (t2, n2)" by fastforce
  have y1: "extends s t1" using extends_machine_parts(1) [of s "Some st'" a s1] t1 by simp
  have y2: "extends s t2" using extends_trans [OF y1] extends_machine_parts(2) [of t1 "Some st'" n1] t2 by simp
  have "r_notifications t1 = r_notifications s"
    using overseeLink_twice [OF loud same(1,3) fields(1), of s1] t1 by simp
  moreover have "r_notifications t2 = r_notifications t1"
    using overseeDisk_twice [OF _ _ fields(5) fields(2), of t1 n1] extends_sels [OF x1] extends_sels [OF y1] loud same t2 by simp
  moreover have "r_notifications (fst (overseeMemory (Some st') (t2, n2))) = r_notifications t2"
    by (rule overseeMemory_twice [OF _ _ _ _ fields(3,4)])
      (use extends_sels [OF x2] extends_sels [OF y2] loud same in simp_all)
  ultimately show ?thesis by (simp add: overseeMachine_def t1 t2)
qed


subsection \<open>The whole look\<close>

lemma oversee_envs_other:
  "k \<notin> env_path ` set envs \<Longrightarrow> map_of (snd (oversee_envs prev st envs (r, ws))) k = map_of ws k"
proof (induction envs arbitrary: r ws)
  case (Cons env envs)
  then show ?case by (simp add: case_prod_beta Let_def update_conv')
qed simp

lemma oversee_envs_entry:
  assumes "distinct (map env_path envs)" "env \<in> set envs"
  shows "\<exists>r'. extends r r' \<and> map_of (snd (oversee_envs prev st envs (r, ws))) (env_path env) =
    Some (snd (overseeWorkspace env st (prev (env_path env)) r'))"
  using assms
proof (induction envs arbitrary: r ws)
  case (Cons x envs)
  obtain r1 e where 1: "overseeWorkspace x st (prev (env_path x)) r = (r1, e)" by fastforce
  have x: "extends r r1" using extends_workspace [of r x st "prev (env_path x)"] 1 by simp
  show ?case
  proof (cases "env = x")
    case True
    then have "map_of (snd (oversee_envs prev st envs (r1, AList.update (env_path x) e ws))) (env_path env) = Some e"
      using Cons.prems(1) by (simp add: oversee_envs_other update_conv')
    with True 1 show ?thesis by (intro exI [of _ r]) simp
  next
    case False
    with Cons.prems have "env \<in> set envs" "distinct (map env_path envs)" by simp_all
    from Cons.IH [OF this(2,1), of r1] x 1 show ?thesis by (auto intro: extends_trans)
  qed
qed simp

lemma oversee_envs_silent:
  assumes "\<And>env s'. env \<in> set envs \<Longrightarrow> same_look s s' \<Longrightarrow>
    r_notifications (fst (overseeWorkspace env st (prev (env_path env)) s')) = r_notifications s'"
  shows "r_notifications (fst (oversee_envs prev st envs (s, ws))) = r_notifications s"
  using assms
proof (induction envs arbitrary: s ws)
  case (Cons env envs)
  obtain s1 e where 1: "overseeWorkspace env st (prev (env_path env)) s = (s1, e)" by fastforce
  have "same_look s s1" using extends_workspace [of s env st "prev (env_path env)"] 1 by (simp add: extends_def)
  then have "same_look s s'" if "same_look s1 s'" for s' using that by (simp add: same_look_def)
  then have "r_notifications (fst (oversee_envs prev st envs (s1, AList.update (env_path env) e ws))) = r_notifications s1"
    using Cons.prems by (intro Cons.IH) auto
  moreover have "r_notifications s1 = r_notifications s" using Cons.prems [of env s] 1 by (simp add: same_look_def)
  ultimately show ?case by (simp add: 1)
qed simp

lemma remember_keeps: "map_of ws k = Some e \<Longrightarrow> map_of (remember now before ws) k = Some e"
  unfolding remember_def
proof (induction before arbitrary: ws)
  case (Cons b bs)
  obtain p x where b: "b = (p, x)" by (cases b)
  have "k \<in> fst ` set ws" using Cons.prems by (metis domI dom_map_of_conv_image_fst)
  then have "map_of (if p \<notin> fst ` set ws \<and> now - seenAt x < FORGET_MS then AList.update p x ws else ws) k = Some e"
    using Cons.prems by (auto simp: update_conv')
  with Cons.IH show ?case by (simp add: b)
qed simp

definition first_run :: "oversight_state option \<Rightarrow> oversight_input \<Rightarrow> oversight_prefs \<Rightarrow> int \<Rightarrow> run" where
  "first_run previous input prefs now = \<lparr>r_input = input, r_prefs = prefs, r_now = now, r_baseline = (previous = None), r_notifications = [], r_wakeAt = None\<rparr>"

definition first_state :: oversight_state where
  "first_state = \<lparr>workspaces = [], disk = None, memory = None, memoryKnown = False, link_held = None\<rparr>"

lemma oversee_eq:
  "oversee previous input prefs now awake =
     (let m = overseeMachine previous awake (first_run previous input prefs now, first_state);
          before = (case previous of None \<Rightarrow> [] | Some p \<Rightarrow> workspaces p);
          rw = (case in_status input of None \<Rightarrow> (fst m, before)
            | Some st \<Rightarrow> (let w = oversee_envs (map_of before) st (st_environments st) (fst m, []) in (fst w, remember now before (snd w))))
      in \<lparr>res_state = (snd m)\<lparr>workspaces := snd rw\<rparr>, res_notifications = r_notifications (fst rw), res_wakeAt = r_wakeAt (fst rw)\<rparr>)"
  by (simp add: oversee_def first_run_def first_state_def Let_def case_prod_beta split: option.split)

lemma oversee_extends:
  "\<exists>r. extends (first_run previous input prefs now) r \<and>
     res_notifications (oversee previous input prefs now awake) = r_notifications r \<and> res_wakeAt (oversee previous input prefs now awake) = r_wakeAt r"
proof -
  let ?m = "overseeMachine previous awake (first_run previous input prefs now, first_state)"
  have m: "extends (first_run previous input prefs now) (fst ?m)" by (rule extends_machine)
  show ?thesis
  proof (cases "in_status input")
    case None
    with m show ?thesis unfolding oversee_eq Let_def by (intro exI [of _ "fst ?m"]) simp
  next
    case (Some st)
    let ?b = "case previous of None \<Rightarrow> [] | Some p \<Rightarrow> workspaces p"
    from Some show ?thesis unfolding oversee_eq Let_def
      by (intro exI [of _ "fst (oversee_envs (map_of ?b) st (st_environments st) (fst ?m, []))"] conjI extends_trans [OF m extends_envs])
        simp_all
  qed
qed

lemma oversee_twice:
  assumes st: "\<And>st. in_status input = Some st \<Longrightarrow> distinct (map env_path (st_environments st)) \<and>
      (\<forall>env \<in> set (st_environments st). filter (agentDriven (in_ownLeases input)) (devicesOf env) \<noteq> [] \<longrightarrow> \<not> isIdle env)"
    and loud: "\<not> pf_quiet prefs"
  shows "res_notifications (oversee (Some (res_state (oversee previous input prefs now awake))) input prefs now awake) = []"
proof -
  define state where "state = res_state (oversee previous input prefs now awake)"
  define r s where "r = first_run previous input prefs now" and "s = first_run (Some state) input prefs now"
  define m where "m = overseeMachine previous awake (r, first_state)"
  have sels: "r_now s = r_now r" "r_prefs s = r_prefs r" "r_input s = r_input r" "\<not> r_baseline s" "r_input r = input" "r_notifications s = []"
    "\<not> pf_quiet (r_prefs r)" using loud by (simp_all add: r_def s_def first_run_def)
  have rm: "extends r (fst m)" unfolding m_def by (rule extends_machine)
  have "\<exists>ws. state = (snd m)\<lparr>workspaces := ws\<rparr>"
    unfolding state_def oversee_eq Let_def r_def [symmetric] m_def [symmetric] by auto
  then obtain ws where ws: "state = (snd m)\<lparr>workspaces := ws\<rparr>" by blast
  define n where "n = overseeMachine (Some state) awake (s, first_state)"
  have n: "r_notifications (fst n) = []"
    unfolding n_def using overseeMachine_twice [OF sels(7,1-4) _ ws [unfolded m_def]] sels(6) by (simp add: first_state_def)
  have sn: "extends s (fst n)" unfolding n_def by (rule extends_machine)
  have "r_notifications (fst (oversee_envs (map_of (workspaces state)) st (st_environments st) (fst n, []))) = r_notifications (fst n)"
    if status: "in_status input = Some st" for st
  proof (rule oversee_envs_silent)
    fix env s' assume env: "env \<in> set (st_environments st)" and s': "same_look (fst n) s'"
    let ?prev = "map_of (case previous of None \<Rightarrow> [] | Some p \<Rightarrow> workspaces p)"
    obtain r' where r': "extends (fst m) r'" and e: "map_of (snd (oversee_envs ?prev st (st_environments st) (fst m, []))) (env_path env) =
        Some (snd (overseeWorkspace env st (?prev (env_path env)) r'))"
      using oversee_envs_entry [OF _ env] st [OF status] by blast
    have "workspaces state = remember now (case previous of None \<Rightarrow> [] | Some p \<Rightarrow> workspaces p)
        (snd (oversee_envs ?prev st (st_environments st) (fst m, [])))"
      unfolding state_def oversee_eq Let_def r_def [symmetric] m_def [symmetric] by (simp add: status)
    with remember_keeps [OF e] have at: "map_of (workspaces state) (env_path env) = Some (snd (overseeWorkspace env st (?prev (env_path env)) r'))"
      by simp
    have rr: "extends r r'" by (rule extends_trans [OF rm r'])
    have ss: "r_now s' = r_now r'" "r_prefs s' = r_prefs r'" "r_input s' = r_input r'" "r_input r' = input"
      using extends_sels [OF rr] extends_sels [OF sn] s' sels by (simp_all add: same_look_def)
    have loud': "\<not> pf_quiet (r_prefs r')" using extends_sels [OF rr] sels by simp
    have lk: "look_at r' env st = look_at s' env st" by (simp add: look_at_def ss)
    obtain S where "settled r' (look_at s' env st) S (snd (overseeWorkspace env st (?prev (env_path env)) r'))"
      using overseeWorkspace_settled [OF loud' refl, of env st] unfolding lk by blast
    from settled_silent [OF loud' ss(1-3) _ refl this] st [OF status] env ss(4)
    show "r_notifications (fst (overseeWorkspace env st (map_of (workspaces state) (env_path env)) s')) = r_notifications s'"
      unfolding at by (simp add: look_at_def ss Let_def)
  qed
  then show ?thesis
    unfolding oversee_eq [of "Some _"] Let_def s_def [symmetric] state_def [symmetric] n_def [symmetric]
    by (simp add: n split: option.split)
qed

end
