(* ===== verification/Oversight_Properties.thy ===== *)
theory Oversight_Properties
  imports Oversight_Laws "HOL-Library.Multiset"
begin

text \<open>
  The properties of the oversight policy (\<open>packages/core/oversight.ts\<close>), over the laws of
  \<open>Oversight_Laws\<close>.
\<close>

section \<open>Lemmas\<close>

lemma raise_items_once:
  "\<exists>ns. r_notifications (fst (snd (raise_items lk seen items raised (r, e)))) = r_notifications r @ ns \<and>
     (\<forall>n \<in> set ns. n_category n = CAttention) \<and> length ns \<le> (if raised then 0 else 1)"
proof (induction lk seen items raised "(r, e)" arbitrary: r e rule: raise_items.induct)
  case (2 lk seen i tgt rest raised r e)
  show ?case
  proof (cases "item_id i \<in> set seen \<or> raised")
    case True
    with 2(1) show ?thesis by (cases raised) simp_all
  next
    case False
    let ?n = "(say lk CAttention (item_body i) tgt r)\<lparr>n_id := item_id i\<rparr>"
    have cat: "n_category ?n = CAttention" by (simp add: say_def notify_def)
    obtain b r' where l: "lasting ?n r = (b, r')" by fastforce
    then consider (sent) "b" "r' = push ?n r" | (dropped) "r' = r"
      by (auto simp: lasting_def split: if_splits)
    then show ?thesis
    proof cases
      case sent
      with 2(2) [OF False refl refl l [symmetric]] False l cat show ?thesis by (simp add: Let_def push_def)
    next
      case dropped
      with 2(2,3) [OF False refl refl l [symmetric]] False l show ?thesis by (cases b) (simp_all add: Let_def)
    qed
  qed
qed simp

lemma map_of_remember:
  assumes "distinct (map fst before)"
  shows "map_of (remember now before ws) k = (case map_of ws k of Some e \<Rightarrow> Some e
    | None \<Rightarrow> (case map_of before k of Some e \<Rightarrow> if now - seenAt e < FORGET_MS then Some e else None | None \<Rightarrow> None))"
  using assms unfolding remember_def
proof (induction before arbitrary: ws)
  case (Cons b bs)
  obtain p x where b: "b = (p, x)" by (cases b)
  define ws' where "ws' = (if p \<notin> fst ` set ws \<and> now - seenAt x < FORGET_MS then AList.update p x ws else ws)"
  have p: "p \<in> fst ` set ws \<longleftrightarrow> map_of ws p \<noteq> None" by (simp add: map_of_eq_None_iff)
  have bs: "map_of bs p = None" using Cons.prems by (simp add: b map_of_eq_None_iff)
  have ws': "map_of ws' k = (if k = p \<and> map_of ws p = None \<and> now - seenAt x < FORGET_MS then Some x else map_of ws k)"
    using p by (auto simp: ws'_def update_conv')
  from Cons have "map_of (fold (\<lambda>(path, e) ws. if path \<notin> fst ` set ws \<and> now - seenAt e < FORGET_MS then AList.update path e ws else ws) bs ws') k =
     (case map_of ws' k of Some e \<Rightarrow> Some e
      | None \<Rightarrow> (case map_of bs k of Some e \<Rightarrow> if now - seenAt e < FORGET_MS then Some e else None | None \<Rightarrow> None))" by simp
  then show ?case by (auto simp: b ws'_def [symmetric] ws' bs split: option.splits)
qed (simp split: option.split)

lemma takeWhile_next: "n = length (takeWhile P xs) \<Longrightarrow> n < length xs \<Longrightarrow> \<not> P (xs ! n)"
  using nth_length_takeWhile by blast

section \<open>Properties\<close>

text \<open>
  Oversight speaks only when it may: every notification of a look was raised after a first
  look (a restart stays quiet), outside quiet hours, in a category that is switched on; and the
  time it asks to be woken at lies in the future.
\<close>

theorem oversee_allowed:
  "(\<forall>n \<in> set (res_notifications (oversee previous input prefs now awake)).
      previous \<noteq> None \<and> \<not> pf_quiet prefs \<and> n_category n \<in> set (pf_categories prefs)) \<and>
   (\<forall>w. res_wakeAt (oversee previous input prefs now awake) = Some w \<longrightarrow> now < w)"
proof -
  obtain r where r: "extends (first_run previous input prefs now) r"
    "res_notifications (oversee previous input prefs now awake) = r_notifications r" "res_wakeAt (oversee previous input prefs now awake) = r_wakeAt r"
    using oversee_extends by blast
  then show ?thesis by (auto simp: extends_def allowed_def first_run_def)
qed

definition low_disk_input :: oversight_input where
  "low_disk_input = \<lparr>in_machine = ''mac'', in_status = None, in_volumes = Some [4000000000], in_memoryPressure = Some ''critical'', in_link = None,
     in_pullRequests = [], in_ownLeases = []\<rparr>"

definition all_prefs :: oversight_prefs where
  "all_prefs = \<lparr>pf_categories = OVERSIGHT_CATEGORIES, pf_stuckMinutes = 15, pf_quiet = False\<rparr>"

theorem oversee_allowed_witness:
  "res_notifications (oversee None low_disk_input all_prefs 0 0) = []"
  using oversee_allowed [of None low_disk_input all_prefs 0 0] by (cases "res_notifications (oversee None low_disk_input all_prefs 0 0)") auto

text \<open>Looks in a row at one input, each from the state the last one returned: what each of them raises.\<close>

fun repeat_looks :: "nat \<Rightarrow> oversight_state option \<Rightarrow> oversight_input \<Rightarrow> oversight_prefs \<Rightarrow> int \<Rightarrow> int \<Rightarrow> notification list list" where
  "repeat_looks 0 previous input prefs now awake = []"
| "repeat_looks (Suc n) previous input prefs now awake =
     (let res = oversee previous input prefs now awake in res_notifications res # repeat_looks n (Some (res_state res)) input prefs now awake)"

text \<open>
  C14. A problem that stays is not raised again: of any number of looks at the same input at the same time,
  each from the state the look before it returned, only the first raises anything, provided each
  workspace is listed once and no device of an idle workspace is being driven (for such a device the
  rule fails, see below). Looks at later times are not covered.
\<close>

theorem oversee_repeat_silent:
  assumes "\<And>st. in_status input = Some st \<Longrightarrow> distinct (map env_path (st_environments st)) \<and>
      (\<forall>env \<in> set (st_environments st). filter (agentDriven (in_ownLeases input)) (devicesOf env) \<noteq> [] \<longrightarrow> \<not> isIdle env)"
  shows "repeat_looks (Suc n) previous input prefs now awake = res_notifications (oversee previous input prefs now awake) # replicate n []"
proof -
  have silent: "res_notifications (oversee (Some (res_state (oversee previous input prefs now awake))) input prefs now awake) = []" for previous
  proof (cases "pf_quiet prefs")
    case False
    show ?thesis by (rule oversee_twice [OF assms False])
  next
    case True
    obtain r where "extends (first_run (Some (res_state (oversee previous input prefs now awake))) input prefs now) r"
      "res_notifications (oversee (Some (res_state (oversee previous input prefs now awake))) input prefs now awake) = r_notifications r"
      using oversee_extends by blast
    with True show ?thesis by (auto simp: extends_def allowed_def first_run_def)
  qed
  have "repeat_looks n (Some (res_state (oversee previous input prefs now awake))) input prefs now awake = replicate n []" for previous
    by (induction n arbitrary: previous) (simp_all add: Let_def silent)
  then show ?thesis by (simp add: Let_def)
qed

definition blank_env :: "string \<Rightarrow> environment" where
  "blank_env path = \<lparr>env_path = path, env_live = True, env_phase = None, env_ios = None, env_android = None, env_slots = [], env_worktree = None,
     env_build = None, env_issues = [], env_physicalDevices = [], env_remoteDevices = [], env_last_ios = None, env_last_android = None,
     env_builds_ios = [], env_builds_android = [], env_logErrors = None, env_web = None\<rparr>"

definition driven_env :: environment where
  "driven_env = (blank_env ''/w/app'')\<lparr>env_ios := Some \<lparr>dev_name = Some ''stim (iPhone 16)'', dev_state = Some ''Booted'', dev_physical = False,
     dev_activity = Some \<lparr>act_state = ''driven'', act_driver = Some \<lparr>drv_tool = ''claude'', drv_since = None\<rparr>, act_last = None, act_recent = None\<rparr>\<rparr>\<rparr>"

definition status_input :: "environment \<Rightarrow> oversight_input" where
  "status_input env = \<lparr>in_machine = ''mac'', in_status = Some \<lparr>st_environments = [env], st_unprovisioned = []\<rparr>, in_volumes = None,
     in_memoryPressure = None, in_link = None, in_pullRequests = [], in_ownLeases = []\<rparr>"

definition empty_state :: oversight_state where
  "empty_state = \<lparr>workspaces = [], disk = None, memory = None, memoryKnown = False, link_held = None\<rparr>"

theorem oversee_repeat_silent_witness:
  "map n_body (hd (repeat_looks 3 (Some empty_state) (status_input driven_env) all_prefs 1000 0)) = [''claude started driving iPhone 16 on mac''] \<and>
   tl (repeat_looks 3 (Some empty_state) (status_input driven_env) all_prefs 1000 0) = [[], []]"
proof -
  have "map n_body (res_notifications (oversee (Some empty_state) (status_input driven_env) all_prefs 1000 0)) = [''claude started driving iPhone 16 on mac'']"
    by code_simp
  moreover have "repeat_looks (Suc 2) (Some empty_state) (status_input driven_env) all_prefs 1000 0 =
      res_notifications (oversee (Some empty_state) (status_input driven_env) all_prefs 1000 0) # replicate 2 []"
    by (rule oversee_repeat_silent) (auto simp: status_input_def driven_env_def blank_env_def isIdle_def)
  ultimately show ?thesis by (simp add: numeral_3_eq_3 numeral_2_eq_2 del: repeat_looks.simps)
qed

text \<open>
  Without that proviso the rule fails: a workspace that is not live and has no phase, with a
  device an agent drives, announces the same start at every look.
\<close>

theorem oversee_idle_driven_repeats:
  "let look = (\<lambda>s. oversee (Some s) (status_input (driven_env\<lparr>env_live := False\<rparr>)) all_prefs 1000 0);
       first = look empty_state; second = look (res_state first)
   in map n_body (res_notifications first) = [''claude started driving iPhone 16 on mac''] \<and> res_notifications second = res_notifications first"
  by code_simp

text \<open>
  At most one attention notification is raised for a workspace in a look, and none while the
  run's allowance is used up.
\<close>

theorem overseeAttention_once:
  "\<exists>ns. r_notifications (fst (overseeAttention lk prev (r, e))) = r_notifications r @ ns \<and> length ns \<le> 1 \<and> (\<forall>n \<in> set ns. n_category n = CAttention) \<and>
     (attentionRaised e \<and> (isIdle (lk_env lk) \<or> (\<exists>p. prev = Some p \<and> running p)) \<longrightarrow> ns = [])"
proof -
  let ?at = "workspaceAttention (lk_env lk) (r_now r) (pf_stuckMinutes (r_prefs r)) EAS_SESSION_MINUTES (in_ownLeases (r_input r)) attentionBody"
  define r1 where "r1 = (case snd ?at of None \<Rightarrow> r | Some t \<Rightarrow> wake t r)"
  define items where "items = pending_of (lk_env lk) (fst ?at)"
  define raised where "raised = (if items = [] \<or> (\<not> isIdle (lk_env lk) \<and> \<not> (case prev of None \<Rightarrow> False | Some p \<Rightarrow> running p)) then False else attentionRaised e)"
  let ?seen = "case prev of None \<Rightarrow> [] | Some p \<Rightarrow> attention p"
  have eq: "fst (overseeAttention lk prev (r, e)) = fst (snd (raise_items lk ?seen items raised (r1, e)))"
    by (simp add: overseeAttention_def Let_def case_prod_beta r1_def items_def raised_def cong: option.case_cong)
  have r1: "r_notifications r1 = r_notifications r" by (simp add: r1_def split: option.split)
  obtain ns where ns: "r_notifications (fst (snd (raise_items lk ?seen items raised (r1, e)))) = r_notifications r @ ns"
    "\<forall>n \<in> set ns. n_category n = CAttention" "length ns \<le> (if raised then 0 else 1)"
    using raise_items_once [of lk ?seen items raised r1 e] r1 by auto
  have "ns = []" if "items = []" using ns(1) that r1 by simp
  with ns show ?thesis unfolding eq
    by (intro exI [of _ ns]) (auto simp: raised_def split: if_splits option.splits)
qed

definition two_issues :: environment where
  "two_issues = (blank_env ''/w/app'')\<lparr>env_issues :=
     [\<lparr>iss_code = ''port-not-ours'', iss_severity = ''error'', iss_message = ''Port taken'', iss_remedy = ''stim stop'', iss_slot = None\<rparr>,
      \<lparr>iss_code = ''avd-unchecked'', iss_severity = ''warning'', iss_message = ''AVD unchecked'', iss_remedy = ''stim doctor'', iss_slot = None\<rparr>]\<rparr>"

definition sample_run :: run where
  "sample_run = first_run (Some empty_state) (status_input two_issues) all_prefs 1000"

theorem overseeAttention_once_witness:
  "length (r_notifications (fst (overseeAttention (look_at sample_run two_issues \<lparr>st_environments = [two_issues], st_unprovisioned = []\<rparr>) None
     (sample_run, new_entry sample_run two_issues None)))) \<le> 1"
proof -
  obtain ns where "r_notifications (fst (overseeAttention (look_at sample_run two_issues \<lparr>st_environments = [two_issues], st_unprovisioned = []\<rparr>) None
     (sample_run, new_entry sample_run two_issues None))) = r_notifications sample_run @ ns" "length ns \<le> 1"
    using overseeAttention_once by blast
  then show ?thesis by (simp add: sample_run_def first_run_def)
qed

text \<open>
  A workspace that a status leaves out is remembered, unchanged, while it was seen less than
  \<open>FORGET_MS\<close> ago, and forgotten after; one that is listed gets a fresh entry.
\<close>

theorem oversee_forgets:
  assumes "in_status input = Some st" and "distinct (map fst (workspaces p))" and "path \<notin> env_path ` set (st_environments st)"
  shows "map_of (workspaces (res_state (oversee (Some p) input prefs now awake))) path =
    (case map_of (workspaces p) path of Some e \<Rightarrow> if now - seenAt e < FORGET_MS then Some e else None | None \<Rightarrow> None)"
  using assms(1,3) unfolding oversee_eq Let_def
  by (simp add: map_of_remember [OF assms(2)] oversee_envs_other)

theorem oversee_forgets_witness:
  "map_of (workspaces (res_state (oversee (Some (empty_state\<lparr>workspaces := [(''/old'', new_entry (first_run None low_disk_input all_prefs 0) (blank_env ''/old'') None)]\<rparr>))
     (status_input driven_env) all_prefs 120000 0))) ''/old'' = None"
  by (subst oversee_forgets [of _ "\<lparr>st_environments = [driven_env], st_unprovisioned = []\<rparr>"])
    (simp_all add: status_input_def empty_state_def driven_env_def blank_env_def new_entry_def first_run_def FORGET_MS_def Let_def)

text \<open>
  A failure streak is the longest run of failed builds at the head of the history that share
  the newest one's cause; there is none exactly when the newest build did not fail.
\<close>

theorem failureStreak_maximal:
  "(failureStreak h = None \<longleftrightarrow> h = [] \<or> \<not> failed (hd h)) \<and>
   (\<forall>s. failureStreak h = Some s \<longrightarrow>
      (\<exists>n. streak_count s = int n \<and> 1 \<le> n \<and> n \<le> length h \<and> signature s = fst (causeOf (hd h)) \<and>
        (\<forall>i < n. failed (h ! i) \<and> fst (causeOf (h ! i)) = signature s) \<and>
        (n < length h \<longrightarrow> \<not> (failed (h ! n) \<and> fst (causeOf (h ! n)) = signature s))))"
proof (cases h)
  case (Cons b bs)
  let ?P = "\<lambda>x. failed x \<and> fst (causeOf x) = fst (causeOf b)"
  define n where "n = length (takeWhile ?P h)"
  have 1: "n \<le> length h" unfolding n_def by (rule length_takeWhile_le)
  have 2: "?P (h ! i)" if "i < n" for i
  proof -
    have "takeWhile ?P h ! i \<in> set (takeWhile ?P h)" using that by (simp add: n_def)
    moreover have "takeWhile ?P h ! i = h ! i" using that by (intro takeWhile_nth) (simp add: n_def)
    ultimately show ?thesis using set_takeWhileD [of "h ! i" ?P h] by simp
  qed
  have 3: "n < length h \<longrightarrow> \<not> ?P (h ! n)" using takeWhile_next [OF n_def] by blast
  have 4: "failed b \<longrightarrow> 1 \<le> n" by (simp add: n_def Cons)
  have eq: "failureStreak h = (if failed b then Some \<lparr>signature = fst (causeOf b), streak_count = int n, streak_at = snd (causeOf b), streak_code = b_errorCode b\<rparr> else None)"
    by (simp add: failureStreak_def Cons n_def Let_def)
  show ?thesis
  proof (cases "failed b")
    case True
    have hd: "hd h = b" "h \<noteq> []" by (simp_all add: Cons)
    from 1 2 3 4 True show ?thesis unfolding eq hd(1) by (auto simp: hd(2) intro!: exI [of _ n])
  next
    case False
    then show ?thesis unfolding eq by (simp add: Cons)
  qed
qed (simp add: failureStreak_def)

definition failing :: build where
  "failing = \<lparr>b_platform = ''ios'', b_status = ''failed'', b_result = None, b_startedAt = ''2024-01-01T00:00:00.000Z'', b_finishedAt = None,
     b_errorCode = Some ''E'', b_diagnostics = []\<rparr>"

theorem failureStreak_maximal_witness:
  "\<exists>s. failureStreak [failing, failing] = Some s \<and> 1 \<le> streak_count s"
proof -
  have "failureStreak [failing, failing] \<noteq> None" using failureStreak_maximal [of "[failing, failing]"] by (simp add: failed_def failing_def orelse_def)
  then obtain s where s: "failureStreak [failing, failing] = Some s" by blast
  from failureStreak_maximal [of "[failing, failing]"] s have "1 \<le> streak_count s" by auto
  with s show ?thesis by blast
qed

text \<open>
  The attention list holds exactly the items found, errors first, then the machine's, then live
  workspaces' before idle ones', and items of one rank stay in the order of the status.
\<close>

theorem needsAttention_ordered:
  "\<exists>xs. needsAttention envs volumes now stuckMinutes easMinutes ownLeases format = map fst xs \<and>
     mset xs = mset (ranked_items envs volumes now stuckMinutes easMinutes ownLeases format) \<and> sorted (map item_rank xs) \<and>
     (\<forall>k. filter (\<lambda>x. item_rank x = k) xs = filter (\<lambda>x. item_rank x = k) (ranked_items envs volumes now stuckMinutes easMinutes ownLeases format))"
  by (intro exI [of _ "sort_key item_rank (ranked_items envs volumes now stuckMinutes easMinutes ownLeases format)"])
    (simp add: needsAttention_def sort_key_stable)

text \<open>
  Quiet hours are the stretch of the clock from \<open>start\<close> to \<open>stop\<close>, around midnight if
  need be: a minute is in them exactly when it comes before \<open>stop\<close> going round from \<open>start\<close>.
\<close>

theorem inQuietHours_clock:
  assumes "0 \<le> start" "start < 1440" "0 \<le> stop" "stop < 1440" "0 \<le> m" "m < 1440"
  shows "inQuietHours (Some (start, stop)) m \<longleftrightarrow> (m - start) mod 1440 < (stop - start) mod 1440"
proof -
  have clock: "(x - start) mod 1440 = (if start \<le> x then x - start else x - start + 1440)" if "0 \<le> x" "x < 1440" for x
  proof (cases "start \<le> x")
    case True
    with that assms(1) show ?thesis by (simp add: mod_pos_pos_trivial)
  next
    case False
    have "(x - start) mod 1440 = (x - start + 1440) mod 1440" by simp
    also have "\<dots> = x - start + 1440" using False that assms(2) by (intro mod_pos_pos_trivial) auto
    finally show ?thesis using False by simp
  qed
  show ?thesis using assms by (auto simp: inQuietHours_def clock)
qed

theorem inQuietHours_clock_witness: "inQuietHours (Some (1320, 420)) 60"
  using inQuietHours_clock [of 1320 420 60] by simp

end
