(* ===== verification/Crash_Hold.thy ===== *)
theory Crash_Hold
  imports Json_Value "HOL-Library.Sublist"
begin

text \<open>
  Crash loops of the home daemon (\<open>packages/stim-cli/src/stimd/crash-hold.ts\<close>): which boots are
  kept, when a build counts as crash looping, and what the next boot does about it. The records
  of the engine store, the schemas of the claimed homes and the answer of the previous build's
  \<open>engine-select\<close> are arguments of \<open>holdCrashLoop\<close>, which other parts of the program read.
\<close>

section \<open>Boots\<close>

definition BOOT_WINDOW_MS :: int where "BOOT_WINDOW_MS = 10 * 60000"
definition BOOTS_KEPT :: nat where "BOOTS_KEPT = 20"
definition CRASHES :: nat where "CRASHES = 3"

record boot =
  boot_at :: int
  boot_build :: string
  boot_abnormal :: bool

definition parse_boot :: "json \<Rightarrow> boot option" where
  "parse_boot j = (if \<not> is_obj j then None
     else case (jfield ''at'' j, jfield ''build'' j) of
       (Some (JNum t), Some (JStr b)) \<Rightarrow> Some \<lparr>boot_at = t, boot_build = b, boot_abnormal = (jfield ''abnormal'' j = Some (JBool True))\<rparr>
     | _ \<Rightarrow> None)"

definition parseBoots :: "json option \<Rightarrow> boot list" where
  "parseBoots v = (case v of Some (JArr js) \<Rightarrow> List.map_filter parse_boot js | _ \<Rightarrow> [])"

definition boot_json :: "boot \<Rightarrow> json" where
  "boot_json b = JObj ([(''at'', JNum (boot_at b)), (''build'', JStr (boot_build b))] @
     (if boot_abnormal b then [(''abnormal'', JBool True)] else []))"

text \<open>\<open>slice(-n)\<close>: the last \<open>n\<close>.\<close>

definition last_n :: "nat \<Rightarrow> 'a list \<Rightarrow> 'a list" where
  "last_n n xs = drop (length xs - n) xs"

definition keptBoots :: "boot list \<Rightarrow> int \<Rightarrow> boot list" where
  "keptBoots boots now = last_n BOOTS_KEPT (sort_key boot_at (filter (\<lambda>b. boot_at b \<le> now \<and> now - boot_at b < BOOT_WINDOW_MS) boots))"

definition crashLooping :: "boot list \<Rightarrow> string \<Rightarrow> bool" where
  "crashLooping boots build = (CRASHES \<le> length (filter (\<lambda>b. boot_build b = build \<and> boot_abnormal b) boots))"

section \<open>What a crash loop does\<close>

record home_schema =
  hs_home :: string
  hs_schema :: int
  hs_by :: string

datatype crash_action = Rollback string | StopWith string

definition crashLoopAction :: "string \<Rightarrow> (string \<times> int) option \<Rightarrow> home_schema list \<Rightarrow> crash_action" where
  "crashLoopAction version previous homes = (case previous of
     None \<Rightarrow> StopWith (''engine '' @ version @ '' crashes and has no previous build to go back to; run stim engine use <version> or stim engine update'')
   | Some (dir, schema) \<Rightarrow> (case List.find (\<lambda>h. hs_schema h > schema) homes of
       None \<Rightarrow> Rollback dir
     | Some newer \<Rightarrow> StopWith (''engine '' @ version @ '' crashes and home '' @ hs_home newer @ '' was migrated to schema '' @
         string_of_int (hs_schema newer) @ '' by '' @ (if hs_by newer = version then ''it'' else hs_by newer) @
         ''; run stim engine rollback --restore-state or stim engine update'')))"

record bad_build =
  bad_build :: string
  bad_version :: string
  bad_at :: string

record engine_records =
  er_current :: "string option"
  er_previous :: "string option"
  er_bad :: "bad_build list"

record manifest =
  mf_schema :: int
  mf_version :: string

datatype crash_hold =
    RolledBack string string
  | Staged string
  | StoppedWith string
  | Moved

text \<open>
  \<open>holdCrashLoop\<close> with the lock taken or not, the store's records, the previous build's manifest,
  the claimed homes and \<open>select\<close>, the object the previous build's \<open>engine-select\<close> prints; the
  records it leaves are returned beside the outcome.
\<close>

definition mark_bad :: "string \<Rightarrow> string \<Rightarrow> string \<Rightarrow> engine_records \<Rightarrow> engine_records" where
  "mark_bad build version at r = r\<lparr>er_bad := filter (\<lambda>e. bad_build e \<noteq> build) (er_bad r) @ [\<lparr>bad_build = build, bad_version = version, bad_at = at\<rparr>]\<rparr>"

definition select_outcome :: "string \<Rightarrow> manifest option \<Rightarrow> json \<Rightarrow> crash_hold" where
  "select_outcome version mf result =
     (case jstr_field ''flipped'' result of
        Some b \<Rightarrow> RolledBack b (case mf of None \<Rightarrow> [] | Some m \<Rightarrow> mf_version m)
      | None \<Rightarrow> (case jstr_field ''staged'' result of
          Some s \<Rightarrow> Staged s
        | None \<Rightarrow> StoppedWith (''engine '' @ version @ '' crashes and going back to '' @ (case mf of None \<Rightarrow> ''undefined'' | Some m \<Rightarrow> mf_version m) @
            '' was refused: '' @ (case jfield ''refused'' result of Some (JStr t) \<Rightarrow> t | _ \<Rightarrow> ''undefined''))))"

definition holdCrashLoop :: "bool \<Rightarrow> string \<Rightarrow> string \<Rightarrow> string \<Rightarrow> string \<Rightarrow> (string \<Rightarrow> manifest option) \<Rightarrow> home_schema list \<Rightarrow> (string \<Rightarrow> json) \<Rightarrow>
    engine_records \<Rightarrow> crash_hold \<times> engine_records" where
  "holdCrashLoop locked root build version at readManifest homes select r =
     (if \<not> locked then (StoppedWith (''engine '' @ version @ '' crashes; another process is changing '' @ root @ ''; trying again later''), r)
      else if er_current r \<noteq> Some build then (Moved, r)
      else
       (let r' = mark_bad build version at r;
            mf = (case er_previous r of Some d \<Rightarrow> if d = [] then None else readManifest d | None \<Rightarrow> None);
            previous = (case (er_previous r, mf) of (Some d, Some m) \<Rightarrow> Some (d, mf_schema m) | _ \<Rightarrow> None)
        in case crashLoopAction version previous homes of
             StopWith s \<Rightarrow> (StoppedWith s, r')
           | Rollback d \<Rightarrow> (select_outcome version mf (select d), r')))"

section \<open>Properties\<close>

lemma last_n_suffix: "suffix (last_n n xs) xs"
  by (simp add: last_n_def suffix_drop)

lemma length_last_n: "length (last_n n xs) = min n (length xs)"
  by (simp add: last_n_def)

text \<open>
  The boots kept are the newest, at most twenty, of the last ten minutes, oldest first: whatever
  of the window is dropped is no newer than whatever is kept.
\<close>

theorem keptBoots_newest:
  "length (keptBoots boots now) \<le> 20 \<and> sorted (map boot_at (keptBoots boots now)) \<and>
   (\<forall>b \<in> set (keptBoots boots now). b \<in> set boots \<and> boot_at b \<le> now \<and> now - boot_at b < 600000) \<and>
   (\<forall>b \<in> set boots. boot_at b \<le> now \<and> now - boot_at b < 600000 \<longrightarrow>
      b \<in> set (keptBoots boots now) \<or> (length (keptBoots boots now) = 20 \<and> (\<forall>k \<in> set (keptBoots boots now). boot_at b \<le> boot_at k)))"
proof -
  define ws where "ws = sort_key boot_at (filter (\<lambda>b. boot_at b \<le> now \<and> now - boot_at b < BOOT_WINDOW_MS) boots)"
  have k: "keptBoots boots now = last_n 20 ws" by (simp add: keptBoots_def ws_def BOOTS_KEPT_def)
  obtain old where old: "ws = old @ last_n 20 ws" using last_n_suffix by (metis suffix_def)
  have sorted: "sorted (map boot_at ws)" by (simp add: ws_def)
  have ws: "set ws = {b \<in> set boots. boot_at b \<le> now \<and> now - boot_at b < 600000}" by (auto simp: ws_def BOOT_WINDOW_MS_def)
  have sub: "set (last_n 20 ws) \<subseteq> set ws" using last_n_suffix by (rule set_mono_suffix)
  have le: "boot_at b \<le> boot_at c" if "b \<in> set old" "c \<in> set (last_n 20 ws)" for b c
  proof -
    have "sorted (map boot_at old @ map boot_at (last_n 20 ws))" using sorted by (subst (asm) old) simp
    with that show ?thesis by (auto simp: sorted_append)
  qed
  have full: "length (last_n 20 ws) = 20" if "b \<in> set old" for b
  proof -
    have "length ws = length old + length (last_n 20 ws)" by (subst (1) old) simp
    with that show ?thesis by (auto simp: length_last_n min_def split: if_splits)
  qed
  have split: "b \<in> set old \<or> b \<in> set (last_n 20 ws)" if "b \<in> set ws" for b using that by (subst (asm) old) simp
  have srt: "sorted (map boot_at (last_n 20 ws))" using sorted by (subst (asm) old) (simp add: sorted_append)
  have kept: "\<forall>b \<in> set boots. boot_at b \<le> now \<and> now - boot_at b < 600000 \<longrightarrow>
      b \<in> set (last_n 20 ws) \<or> (length (last_n 20 ws) = 20 \<and> (\<forall>k \<in> set (last_n 20 ws). boot_at b \<le> boot_at k))"
    using split full le unfolding ws by blast
  have "\<forall>b \<in> set (last_n 20 ws). b \<in> set boots \<and> boot_at b \<le> now \<and> now - boot_at b < 600000" using sub unfolding ws by blast
  with srt kept show ?thesis unfolding k by (simp add: length_last_n)
qed

theorem keptBoots_newest_witness:
  "keptBoots [\<lparr>boot_at = 5, boot_build = ''b'', boot_abnormal = True\<rparr>] 10 = [\<lparr>boot_at = 5, boot_build = ''b'', boot_abnormal = True\<rparr>] \<and>
   length (keptBoots [\<lparr>boot_at = 5, boot_build = ''b'', boot_abnormal = True\<rparr>] 10) \<le> 20"
  using keptBoots_newest [of "[\<lparr>boot_at = 5, boot_build = ''b'', boot_abnormal = True\<rparr>]" 10] by (simp add: keptBoots_def last_n_def BOOTS_KEPT_def BOOT_WINDOW_MS_def)

text \<open>
  A crash loop never goes back to a build that cannot read a claimed home: the daemon rolls back
  (or stages a roll-back) only to the previous build, when that build reads every home's schema;
  unless the engine already moved or is locked, the crashing build is marked bad, once.
\<close>

theorem holdCrashLoop_safe:
  assumes "holdCrashLoop locked root build version at readManifest homes select r = (hold, r')"
  shows "((\<exists>b v. hold = RolledBack b v) \<or> (\<exists>s. hold = Staged s) \<longrightarrow>
      (\<exists>d m. er_previous r = Some d \<and> readManifest d = Some m \<and> (\<forall>h \<in> set homes. hs_schema h \<le> mf_schema m))) \<and>
    (if locked \<and> er_current r = Some build
     then length (filter (\<lambda>e. bad_build e = build) (er_bad r')) = 1 \<and>
       filter (\<lambda>e. bad_build e \<noteq> build) (er_bad r') = filter (\<lambda>e. bad_build e \<noteq> build) (er_bad r)
     else r' = r)"
proof -
  have stop: "(\<forall>b v. hold \<noteq> RolledBack b v) \<and> (\<forall>s. hold \<noteq> Staged s)" if "\<not> locked \<or> er_current r \<noteq> Some build"
    using assms that by (auto simp: holdCrashLoop_def split: if_splits)
  have bad: "length (filter (\<lambda>e. bad_build e = build) (er_bad (mark_bad build version at r))) = 1"
    "filter (\<lambda>e. bad_build e \<noteq> build) (er_bad (mark_bad build version at r)) = filter (\<lambda>e. bad_build e \<noteq> build) (er_bad r)"
    by (simp_all add: mark_bad_def filter_empty_conv)
  show ?thesis
  proof (cases "locked \<and> er_current r = Some build")
    case False
    with stop assms show ?thesis by (auto simp: holdCrashLoop_def split: if_splits)
  next
    case True
    define mf where "mf = (case er_previous r of Some d \<Rightarrow> if d = [] then None else readManifest d | None \<Rightarrow> None)"
    define previous where "previous = (case (er_previous r, mf) of (Some d, Some m) \<Rightarrow> Some (d, mf_schema m) | _ \<Rightarrow> None)"
    have eq: "(hold, r') = (case crashLoopAction version previous homes of StopWith s \<Rightarrow> (StoppedWith s, mark_bad build version at r)
        | Rollback d \<Rightarrow> (select_outcome version mf (select d), mark_bad build version at r))"
      unfolding mf_def previous_def using assms True by (simp add: holdCrashLoop_def Let_def)
    then have r': "r' = mark_bad build version at r" by (auto split: crash_action.splits)
    have "\<exists>d m. er_previous r = Some d \<and> readManifest d = Some m \<and> (\<forall>h \<in> set homes. hs_schema h \<le> mf_schema m)"
      if "(\<exists>b v. hold = RolledBack b v) \<or> (\<exists>s. hold = Staged s)"
    proof -
      from that eq obtain d where d: "crashLoopAction version previous homes = Rollback d" by (auto split: crash_action.splits)
      then obtain d' schema where p: "previous = Some (d', schema)" and "List.find (\<lambda>h. hs_schema h > schema) homes = None"
        by (auto simp: crashLoopAction_def split: option.splits)
      then have "\<forall>h \<in> set homes. hs_schema h \<le> schema" by (auto simp: find_None_iff not_less)
      with p show ?thesis by (auto simp: previous_def mf_def split: option.splits if_splits)
    qed
    with True bad r' show ?thesis by simp
  qed
qed

theorem holdCrashLoop_safe_witness:
  "\<exists>d m. er_previous \<lparr>er_current = Some ''b2'', er_previous = Some ''b1'', er_bad = []\<rparr> = Some d \<and>
     (\<lambda>_. Some \<lparr>mf_schema = 3, mf_version = ''1.0''\<rparr>) d = Some m \<and> list_all (\<lambda>h. hs_schema h \<le> mf_schema m) [\<lparr>hs_home = ''/h'', hs_schema = 3, hs_by = []\<rparr>]"
proof -
  let ?r = "\<lparr>er_current = Some ''b2'', er_previous = Some ''b1'', er_bad = []\<rparr>"
  let ?h = "holdCrashLoop True ''/r'' ''b2'' ''1.1'' ''t'' (\<lambda>_. Some \<lparr>mf_schema = 3, mf_version = ''1.0''\<rparr>)
     [\<lparr>hs_home = ''/h'', hs_schema = 3, hs_by = []\<rparr>] (\<lambda>_. JObj [(''flipped'', JStr ''b1'')]) ?r"
  have "fst ?h = RolledBack ''b1'' ''1.0''" by code_simp
  then show ?thesis using holdCrashLoop_safe [of True "''/r''" "''b2''" "''1.1''" "''t''" _ _ _ ?r, OF prod.collapse [symmetric]] unfolding list_all_iff by blast
qed

text \<open>
  Boots survive the claim they are recorded in: parsing the boots' JSON gives them back.
\<close>

theorem parseBoots_round_trip: "parseBoots (Some (JArr (map boot_json boots))) = boots"
proof -
  have "parse_boot (boot_json b) = Some b" for b
    by (cases b) (simp add: parse_boot_def boot_json_def jfield_def)
  then have "List.map_filter parse_boot (map boot_json bs) = bs" for bs by (induction bs) (simp_all add: List.map_filter_def)
  then show ?thesis by (simp add: parseBoots_def)
qed

end
