(* ===== verification/Idle_Policy.thy ===== *)
theory Idle_Policy
  imports Stim_Prelude
begin

text \<open>
  The idle policy (\<open>packages/stim-cli/src/policy/idle.ts\<close>): whether the activity pass looks at a
  workspace, what keeps it running whatever its activity, and whether it has been idle long
  enough to stop; with \<open>formatLongDuration\<close> of \<open>command-output.ts\<close>. A time that is not
  finite is \<open>None\<close>.
\<close>

section \<open>Durations\<close>

definition pad2 :: "int \<Rightarrow> string" where
  "pad2 n = (if n < 10 then ''0'' @ string_of_int n else string_of_int n)"

definition formatLongDuration :: "jsnum \<Rightarrow> string" where
  "formatLongDuration ms = (case ms of None \<Rightarrow> ''unknown'' | Some v \<Rightarrow>
     if v < 0 then ''unknown''
     else let total = (v + 500) div 1000; hours = total div 3600; minutes = (total - hours * 3600) div 60;
              seconds = total - hours * 3600 - minutes * 60
          in if hours > 0 then (if minutes > 0 then string_of_int hours @ ''h'' @ pad2 minutes @ ''m'' else string_of_int hours @ ''h'')
             else if minutes > 0 then (if seconds > 0 then string_of_int minutes @ ''m'' @ pad2 seconds @ ''s'' else string_of_int minutes @ ''m'')
             else string_of_int seconds @ ''s'')"

section \<open>Deciding to stop\<close>

datatype idle_basis = StimCommand | NativeRun | MetroRequest | AgentDeviceCommand | ServerInput | DeviceWindow

fun basis_text :: "idle_basis \<Rightarrow> string" where
  "basis_text StimCommand = ''stim command''"
| "basis_text NativeRun = ''native run''"
| "basis_text MetroRequest = ''Metro request''"
| "basis_text AgentDeviceCommand = ''agent-device command''"
| "basis_text ServerInput = ''stim-server input''"
| "basis_text DeviceWindow = ''Simulator or emulator window''"

record idle_activity =
  ia_basis :: idle_basis
  ia_at :: jsnum

record idle_evidence =
  ev_activity :: "idle_activity list"
  ev_keep :: "string list"

datatype idle_decision =
    StopIdle int idle_activity
  | KeepActive string idle_activity
  | KeepRunning string "idle_activity option"

definition newest_activity :: "idle_activity list \<Rightarrow> idle_activity option" where
  "newest_activity as = fold (\<lambda>e best. case best of None \<Rightarrow> Some e
      | Some b \<Rightarrow> if the (ia_at e) > the (ia_at b) then Some e else Some b) (filter (\<lambda>a. ia_at a \<noteq> None) as) None"

definition decideIdleStop :: "idle_evidence \<Rightarrow> int \<Rightarrow> int \<Rightarrow> string \<Rightarrow> idle_decision" where
  "decideIdleStop ev idleMs now setting =
     (if \<not> idleMs > 0 then KeepRunning (setting @ '' is 0'') None
      else case newest_activity (ev_activity ev) of
        Some l \<Rightarrow>
          (let idle = now - the (ia_at l) in
           if idle < idleMs then KeepActive (''its last '' @ basis_text (ia_basis l) @ '' was '' @ formatLongDuration (Some (max 0 idle)) @
               '' ago, within '' @ setting) l
           else if ev_keep ev \<noteq> [] then KeepRunning (join ''; '' (ev_keep ev)) (Some l)
           else StopIdle idle l)
      | None \<Rightarrow> if ev_keep ev \<noteq> [] then KeepRunning (join ''; '' (ev_keep ev)) None
          else KeepRunning ''its last activity is unknown'' None)"

section \<open>Scope and keeps\<close>

record idle_scope_facts =
  sc_protected :: bool
  sc_serving :: bool
  sc_unsupervised :: bool
  sc_simsError :: "string option"
  sc_booted_deferred :: "bool list"
  sc_foreign :: "string list"

datatype idle_scope = LeftOut | Kept string

definition idleScope :: "idle_scope_facts \<Rightarrow> idle_scope option" where
  "idleScope f =
     (if sc_protected f \<or> (sc_unsupervised f \<and> sc_serving f) then Some LeftOut
      else case sc_simsError f of
        Some err \<Rightarrow> Some (Kept (''its simulators cannot be listed ('' @ err @ '')''))
      | None \<Rightarrow>
          if sc_serving f then None
          else if sc_booted_deferred f \<noteq> [] then (if list_all id (sc_booted_deferred f) then Some LeftOut else None)
          else if sc_foreign f = [] then Some LeftOut
          else Some (Kept (join '', '' (sc_foreign f) @ '' not in this Stim home'' @ [CHR 0x27] @
            ''s created-devices ledger, so the idle stage leaves it'')))"

definition MINUTE_MS :: int where "MINUTE_MS = 60000"
definition PRESSURE_IDLE_MS :: int where "PRESSURE_IDLE_MS = 2 * MINUTE_MS"
definition IDLE_SETTING :: string where "IDLE_SETTING = ''idle.minutes''"

record idle_settings =
  is_keep :: bool
  is_minutes :: int

record idle_keep_facts =
  kf_settings :: "string + idle_settings"
  kf_supervisor_status :: string
  kf_supervisor_reason :: "string option"
  kf_command :: bool
  kf_hmrUpdates :: bool
  kf_orphan :: "string option"
  kf_placements :: "(string \<times> string) list"
  kf_unreadable :: "string list"
  kf_pressured :: bool

text \<open>Either what keeps the workspace, or its idle threshold in milliseconds and in whole minutes.\<close>

definition idleKeep :: "idle_keep_facts \<Rightarrow> string + int \<times> int" where
  "idleKeep f = (case kf_settings f of
     Inl err \<Rightarrow> Inl (''its settings cannot be resolved: '' @ err)
   | Inr s \<Rightarrow>
      (if is_keep s then Inl ''pinned by maintenance.keep''
       else if is_minutes s = 0 then Inl (IDLE_SETTING @ '' is 0'')
       else if kf_supervisor_status f = ''unverified''
       then Inl (''its dev server supervisor cannot be verified: '' @ (case kf_supervisor_reason f of None \<Rightarrow> ''unknown identity'' | Some r \<Rightarrow> r))
       else if (case kf_orphan f of None \<Rightarrow> False | Some t \<Rightarrow> t \<noteq> []) then Inl (the (kf_orphan f))
       else if kf_supervisor_status f = ''ours'' \<and> kf_command f
       then Inl ''its dev server runs metro.command, whose bundle and HMR requests Stim cannot see''
       else if kf_supervisor_status f = ''ours'' \<and> \<not> kf_hmrUpdates f
       then Inl ''its dev server does not report its requests to Stim: an Expo SDK before 54, or a server an older Stim started, which stim stop and stim start restart''
       else if kf_unreadable f \<noteq> [] then Inl (join ''; '' (kf_unreadable f))
       else case kf_placements f of
         (label, machine) # _ \<Rightarrow> Inl (''its '' @ label @ '' runs on '' @ machine)
       | [] \<Rightarrow> (let idleMs = (if kf_pressured f then min (is_minutes s * MINUTE_MS) PRESSURE_IDLE_MS else is_minutes s * MINUTE_MS)
                in Inr (idleMs, - ((- idleMs) div MINUTE_MS)))))"

section \<open>Properties\<close>

definition is_newest :: "idle_activity list \<Rightarrow> idle_activity \<Rightarrow> bool" where
  "is_newest as l \<longleftrightarrow> l \<in> set as \<and> (\<exists>t. ia_at l = Some t \<and> (\<forall>a \<in> set as. \<forall>u. ia_at a = Some u \<longrightarrow> u \<le> t))"

lemma newest_fold:
  "\<forall>a \<in> set as. ia_at a \<noteq> None \<Longrightarrow> (case best of None \<Rightarrow> True | Some b \<Rightarrow> ia_at b \<noteq> None) \<Longrightarrow>
   (case fold (\<lambda>e best. case best of None \<Rightarrow> Some e | Some b \<Rightarrow> if the (ia_at e) > the (ia_at b) then Some e else Some b) as best of
      None \<Rightarrow> as = [] \<and> best = None
    | Some l \<Rightarrow> (l \<in> set as \<or> best = Some l) \<and> ia_at l \<noteq> None \<and>
        (\<forall>a \<in> set as. the (ia_at a) \<le> the (ia_at l)) \<and> (\<forall>b. best = Some b \<longrightarrow> the (ia_at b) \<le> the (ia_at l)))"
proof (induction as arbitrary: best)
  case (Cons e as)
  let ?b = "case best of None \<Rightarrow> Some e | Some b \<Rightarrow> if the (ia_at e) > the (ia_at b) then Some e else Some b"
  from Cons.IH [of ?b] Cons.prems show ?case by (auto split: option.splits if_splits)
qed (auto split: option.split)

lemma newest_activity_Some: "newest_activity as = Some l \<Longrightarrow> is_newest as l"
  using newest_fold [of "filter (\<lambda>a. ia_at a \<noteq> None) as" None]
  by (fastforce simp: newest_activity_def is_newest_def)

lemma newest_activity_None: "newest_activity as = None \<longleftrightarrow> (\<forall>a \<in> set as. ia_at a = None)"
proof -
  have "newest_activity as = None \<longleftrightarrow> filter (\<lambda>a. ia_at a \<noteq> None) as = []"
    using newest_fold [of "filter (\<lambda>a. ia_at a \<noteq> None) as" None]
    by (auto simp: newest_activity_def split: option.splits)
  then show ?thesis by (auto simp: filter_empty_conv)
qed

text \<open>
  A workspace is stopped exactly when the threshold is on, nothing keeps it, some activity is
  known, and the newest activity is at least the threshold old; unknown activity never stops it.
\<close>

theorem decideIdleStop_iff:
  "(\<exists>idle l. decideIdleStop ev idleMs now setting = StopIdle idle l) \<longleftrightarrow>
     idleMs > 0 \<and> ev_keep ev = [] \<and> (\<exists>a \<in> set (ev_activity ev). ia_at a \<noteq> None) \<and>
     (\<forall>a \<in> set (ev_activity ev). \<forall>t. ia_at a = Some t \<longrightarrow> idleMs \<le> now - t)"
proof (cases "newest_activity (ev_activity ev)")
  case None
  then have "\<forall>a \<in> set (ev_activity ev). ia_at a = None" by (simp only: newest_activity_None)
  with None show ?thesis by (simp add: decideIdleStop_def)
next
  case (Some l)
  then obtain t where l: "l \<in> set (ev_activity ev)" "ia_at l = Some t" "\<forall>a \<in> set (ev_activity ev). \<forall>u. ia_at a = Some u \<longrightarrow> u \<le> t"
    using newest_activity_Some by (fastforce simp: is_newest_def)
  have "(\<forall>a \<in> set (ev_activity ev). \<forall>u. ia_at a = Some u \<longrightarrow> idleMs \<le> now - u) \<longleftrightarrow> idleMs \<le> now - t"
    using l by force
  moreover have "\<exists>a \<in> set (ev_activity ev). ia_at a \<noteq> None" using l by force
  ultimately show ?thesis using Some l(2) by (auto simp: decideIdleStop_def Let_def)
qed

definition idle_sample :: idle_evidence where
  "idle_sample = \<lparr>ev_activity = [\<lparr>ia_basis = StimCommand, ia_at = Some 1000\<rparr>, \<lparr>ia_basis = MetroRequest, ia_at = None\<rparr>], ev_keep = []\<rparr>"

theorem decideIdleStop_iff_witness: "\<exists>idle l. decideIdleStop idle_sample 60000 70000 ''idle.minutes'' = StopIdle idle l"
  using decideIdleStop_iff [of idle_sample 60000 70000 "''idle.minutes''"] by (simp add: idle_sample_def)

text \<open>
  The threshold the idle stage uses is never longer than the setting, never longer than two
  minutes under pressure, positive, and its whole minutes are the milliseconds rounded up; no
  workspace that is pinned, switched off or whose supervisor cannot be verified gets one.
\<close>

theorem idleKeep_threshold:
  assumes "idleKeep f = Inr (idleMs, minutes)" and "kf_settings f = Inr s" and "0 \<le> is_minutes s"
  shows "0 < idleMs \<and> idleMs \<le> is_minutes s * MINUTE_MS \<and> (kf_pressured f \<longrightarrow> idleMs \<le> PRESSURE_IDLE_MS) \<and>
    idleMs \<le> minutes * MINUTE_MS \<and> minutes * MINUTE_MS < idleMs + MINUTE_MS \<and>
    \<not> is_keep s \<and> kf_supervisor_status f \<noteq> ''unverified'' \<and> kf_unreadable f = [] \<and> kf_placements f = []"
proof -
  have kept: "\<not> is_keep s" "is_minutes s \<noteq> 0" "kf_supervisor_status f \<noteq> ''unverified''" "kf_unreadable f = []" "kf_placements f = []"
    and eq: "idleMs = (if kf_pressured f then min (is_minutes s * MINUTE_MS) PRESSURE_IDLE_MS else is_minutes s * MINUTE_MS)"
      "minutes = - ((- idleMs) div MINUTE_MS)"
    using assms(1,2) by (auto simp: idleKeep_def Let_def split: if_splits list.splits)
  have "0 < idleMs" using kept(2) assms(3) by (auto simp: eq(1) MINUTE_MS_def PRESSURE_IDLE_MS_def)
  moreover have "idleMs \<le> minutes * MINUTE_MS" "minutes * MINUTE_MS < idleMs + MINUTE_MS"
    unfolding eq(2) MINUTE_MS_def by simp_all
  ultimately show ?thesis using kept eq(1) by auto
qed

definition keep_sample :: idle_keep_facts where
  "keep_sample = \<lparr>kf_settings = Inr \<lparr>is_keep = False, is_minutes = 15\<rparr>, kf_supervisor_status = ''none'', kf_supervisor_reason = None,
     kf_command = False, kf_hmrUpdates = False, kf_orphan = None, kf_placements = [], kf_unreadable = [], kf_pressured = True\<rparr>"

theorem idleKeep_threshold_witness: "(120000::int) \<le> PRESSURE_IDLE_MS \<and> idleKeep keep_sample = Inr (120000, 2)"
proof -
  have k: "idleKeep keep_sample = Inr (120000, 2)" by code_simp
  from idleKeep_threshold [OF k, of "\<lparr>is_keep = False, is_minutes = 15\<rparr>"] k show ?thesis by (simp add: keep_sample_def)
qed

end
