(* ===== verification/Maintenance.thy ===== *)
theory Maintenance
  imports Js_Number
begin

text \<open>
  The maintenance passes' planning (\<open>packages/stim-cli/src/stimd/passes/due.ts\<close> and
  \<open>plan.ts\<close>): which checks are due, and which outputs and caches to trim once a category is
  over its cap. Byte counts and times are integers and caps whole gigabytes; the trim target,
  eight tenths of a cap, is the double the code computes.
\<close>

section \<open>Which checks are due\<close>

datatype check = CPressure | CSize | CWorktree | CSweep | CIdle

record maintenance_state =
  lastAt :: "check \<Rightarrow> int option"
  deferredAt :: "check \<Rightarrow> int option"

record due_settings =
  ds_worktreeCheckMinutes :: int
  ds_sweepHours :: int
  ds_removeFinishedWorktrees :: bool

definition DEFERRED_RETRY_MS :: int where "DEFERRED_RETRY_MS = 5 * 60000"
definition PRESSURE_CHECK_MS :: int where "PRESSURE_CHECK_MS = 60000"
definition SIZE_CHECK_MS :: int where "SIZE_CHECK_MS = 60 * 60000"
definition IDLE_CHECK_MS :: int where "IDLE_CHECK_MS = 5 * 60000"

text \<open>\<open>None\<close> is \<open>Infinity\<close>, both for an elapsed time and for an interval.\<close>

definition elapsed :: "int \<Rightarrow> int option \<Rightarrow> int option" where
  "elapsed now stamp = (case stamp of None \<Rightarrow> None | Some s \<Rightarrow> if s > now then None else Some (now - s))"

fun intervalMs :: "due_settings \<Rightarrow> check \<Rightarrow> int option" where
  "intervalMs s CPressure = Some PRESSURE_CHECK_MS"
| "intervalMs s CSize = Some SIZE_CHECK_MS"
| "intervalMs s CWorktree = (if ds_removeFinishedWorktrees s then Some (ds_worktreeCheckMinutes s * 60000) else None)"
| "intervalMs s CSweep = (if ds_sweepHours s > 0 then Some (ds_sweepHours s * 3600000) else None)"
| "intervalMs s CIdle = Some IDLE_CHECK_MS"

definition due :: "maintenance_state option \<Rightarrow> due_settings \<Rightarrow> int \<Rightarrow> check list" where
  "due state settings now = filter (\<lambda>c.
     case intervalMs settings c of None \<Rightarrow> False | Some interval \<Rightarrow>
       \<not> (case elapsed now (Option.bind state (\<lambda>s. deferredAt s c)) of None \<Rightarrow> False | Some e \<Rightarrow> e < DEFERRED_RETRY_MS) \<and>
       (case elapsed now (Option.bind state (\<lambda>s. lastAt s c)) of None \<Rightarrow> True | Some e \<Rightarrow> interval \<le> e))
     [CPressure, CSize, CWorktree, CSweep, CIdle]"

section \<open>The cap trims\<close>

datatype action_kind = ClearOutputs | TrimCache | EmptyCache

record maintenance_action =
  a_kind :: action_kind
  a_target :: string
  a_bytes :: int
  a_reason :: string
  a_workspace :: "string option"
  a_dir :: "string option"

record maintenance_size =
  s_dir :: string
  s_bytes :: int
  s_category :: string
  s_workspace :: "string option"
  s_idleDays :: "int option"
  s_blocked :: "string option"

record maintenance_skip =
  k_target :: string
  k_reason :: string
  k_workspace :: "string option"
  k_code :: "string option"

definition present :: "string option \<Rightarrow> bool" where
  "present s = (case s of None \<Rightarrow> False | Some t \<Rightarrow> t \<noteq> [])"

definition skipKey :: "maintenance_skip \<Rightarrow> string" where
  "skipKey k = (if present (k_code k) then k_target k @ '' ('' @ the (k_code k) @ '')'' else k_target k)"

record maintenance_plan =
  p_actions :: "maintenance_action list"
  p_blocked :: "string list"
  p_skips :: "maintenance_skip list"

record cap_settings =
  workspaceOutputsMaxGb :: int
  buildCacheMaxGb :: int
  metroCacheMaxGb :: int
  swiftCompilationCacheMaxGb :: int

definition caps :: "cap_settings \<Rightarrow> (string \<times> int \<times> action_kind) list" where
  "caps s = [(''workspace-outputs'', workspaceOutputsMaxGb s, ClearOutputs), (''build-cache'', buildCacheMaxGb s, TrimCache),
     (''metro-cache'', metroCacheMaxGb s, TrimCache), (''compilation-cache'', swiftCompilationCacheMaxGb s, EmptyCache)]"

text \<open>The double nearest to \<open>0.8\<close>.\<close>

definition CAP_TARGET :: double where "CAP_TARGET = (7205759403792794, 53)"
definition GIB_BYTES :: int where "GIB_BYTES = 1073741824"

definition cap_action :: "(string \<Rightarrow> bool) \<Rightarrow> (string \<Rightarrow> string option) \<Rightarrow> maintenance_action \<Rightarrow> maintenance_plan \<Rightarrow> bool \<times> maintenance_plan" where
  "cap_action pinned recentlyUsed a p =
     (let workspaced = (a_kind a = ClearOutputs \<and> present (a_workspace a)); w = the (a_workspace a) in
      if workspaced \<and> pinned w
      then (False, p\<lparr>p_skips := p_skips p @ [\<lparr>k_target = w, k_reason = ''pinned by maintenance.keep'', k_workspace = Some w, k_code = None\<rparr>]\<rparr>)
      else if workspaced \<and> present (recentlyUsed w)
      then (False, p\<lparr>p_skips := p_skips p @ [\<lparr>k_target = w, k_reason = the (recentlyUsed w), k_workspace = Some w, k_code = None\<rparr>]\<rparr>)
      else if \<exists>e \<in> set (p_actions p). a_kind e = a_kind a \<and> a_target e = a_target a then (False, p)
      else (True, p\<lparr>p_actions := p_actions p @ [a]\<rparr>))"

definition kept_reason :: "string \<Rightarrow> maintenance_size \<Rightarrow> string option" where
  "kept_reason protectedRoot s = (if s_workspace s = Some protectedRoot then Some ''the triggering workspace is protected'' else s_blocked s)"

definition size_action :: "action_kind \<Rightarrow> string \<Rightarrow> int \<Rightarrow> maintenance_size \<Rightarrow> maintenance_action" where
  "size_action kind why bytes s =
     \<lparr>a_kind = kind, a_target = (case s_workspace s of Some w \<Rightarrow> w | None \<Rightarrow> s_dir s), a_bytes = bytes,
      a_reason = (if \<not> present (s_workspace s) \<or> s_idleDays s = None then [] else ''idle '' @ string_of_int (the (s_idleDays s)) @ '' days, '') @ why,
      a_workspace = (if present (s_workspace s) then s_workspace s else None),
      a_dir = (if kind = ClearOutputs then None else Some (s_dir s))\<rparr>"

definition trim_bytes :: "action_kind \<Rightarrow> double \<Rightarrow> int \<Rightarrow> maintenance_size \<Rightarrow> int" where
  "trim_bytes kind target remaining s =
     (if kind = TrimCache
      then (let over = double_div (remaining * 2 ^ snd target - fst target) (2 ^ snd target) in
            if int_le_double (s_bytes s) over then s_bytes s else math_round over)
      else s_bytes s)"

fun trim_loop :: "string \<Rightarrow> (string \<Rightarrow> bool) \<Rightarrow> (string \<Rightarrow> string option) \<Rightarrow> action_kind \<Rightarrow> string \<Rightarrow> double \<Rightarrow> maintenance_size list \<Rightarrow>
    int \<Rightarrow> maintenance_plan \<Rightarrow> int \<times> maintenance_plan" where
  "trim_loop protectedRoot pinned recentlyUsed kind why target [] remaining p = (remaining, p)"
| "trim_loop protectedRoot pinned recentlyUsed kind why target (s # ss) remaining p =
     (if int_le_double remaining target then (remaining, p)
      else if present (kept_reason protectedRoot s)
      then trim_loop protectedRoot pinned recentlyUsed kind why target ss remaining
        (p\<lparr>p_skips := p_skips p @ [\<lparr>k_target = s_dir s, k_reason = the (kept_reason protectedRoot s),
            k_workspace = (if present (s_workspace s) then s_workspace s else None), k_code = None\<rparr>]\<rparr>)
      else (let bytes = trim_bytes kind target remaining s;
                (added, p') = cap_action pinned recentlyUsed (size_action kind why bytes s) p
            in trim_loop protectedRoot pinned recentlyUsed kind why target ss (if added then remaining - bytes else remaining) p'))"

definition cap_why :: "string \<Rightarrow> int \<Rightarrow> int \<Rightarrow> double \<Rightarrow> string" where
  "cap_why category used capGb target =
     category @ '' '' @ to_fixed1 (double_div used GIB_BYTES) @ ''G over the '' @ string_of_int capGb @ ''G cap; '' @
     (if category = ''compilation-cache'' then ''emptied whole'' else ''target '' @ to_fixed1 (fst target, snd target + 30) @ ''G'')"

definition plan_cap :: "maintenance_size list \<Rightarrow> string \<Rightarrow> (string \<Rightarrow> bool) \<Rightarrow> (string \<Rightarrow> string option) \<Rightarrow> string \<times> int \<times> action_kind \<Rightarrow>
    maintenance_plan \<Rightarrow> maintenance_plan" where
  "plan_cap sizes protectedRoot pinned recentlyUsed c p = (case c of (category, capGb, kind) \<Rightarrow>
     let entries = filter (\<lambda>s. s_category s = category) sizes;
         used = sum_list (map s_bytes entries);
         cap = capGb * GIB_BYTES in
     if cap = 0 \<or> used \<le> cap then p
     else let target = double_mul CAP_TARGET cap; why = cap_why category used capGb target;
              (remaining, p') = trim_loop protectedRoot pinned recentlyUsed kind why target
                (sort_key (\<lambda>s. - (case s_idleDays s of None \<Rightarrow> 0 | Some d \<Rightarrow> d)) entries) used p
          in if int_le_double remaining target then p' else p'\<lparr>p_blocked := p_blocked p' @ [why @ ''; eligible targets cannot reach the target'']\<rparr>)"

definition plan :: "maintenance_size list \<Rightarrow> cap_settings \<Rightarrow> string \<Rightarrow> (string \<Rightarrow> bool) \<Rightarrow> (string \<Rightarrow> string option) \<Rightarrow> maintenance_plan" where
  "plan sizes settings protectedRoot pinned recentlyUsed =
     fold (plan_cap sizes protectedRoot pinned recentlyUsed) (caps settings) \<lparr>p_actions = [], p_blocked = [], p_skips = []\<rparr>"


section \<open>Properties\<close>

text \<open>A category is over its cap: the cap is set and the category's entries sum to more.\<close>

definition over_cap :: "maintenance_size list \<Rightarrow> string \<Rightarrow> int \<Rightarrow> bool" where
  "over_cap sizes category capGb \<longleftrightarrow> capGb \<noteq> 0 \<and> capGb * GIB_BYTES < sum_list (map s_bytes (filter (\<lambda>s. s_category s = category) sizes))"

text \<open>
  An action the plan may hold: of the kind its category asks for, from an entry of a category over its cap
  that nothing keeps, and, if it clears outputs, of a workspace not pinned and not recently used.
\<close>

definition eligible :: "maintenance_size list \<Rightarrow> cap_settings \<Rightarrow> string \<Rightarrow> (string \<Rightarrow> bool) \<Rightarrow> (string \<Rightarrow> string option) \<Rightarrow> maintenance_action \<Rightarrow> bool" where
  "eligible sizes settings protectedRoot pinned recentlyUsed a \<longleftrightarrow>
     (\<exists>s \<in> set sizes. \<exists>capGb. (s_category s, capGb, a_kind a) \<in> set (caps settings) \<and> over_cap sizes (s_category s) capGb \<and>
        a_target a = (case s_workspace s of Some w \<Rightarrow> w | None \<Rightarrow> s_dir s) \<and> \<not> present (kept_reason protectedRoot s)) \<and>
     (\<forall>w. a_kind a = ClearOutputs \<longrightarrow> a_workspace a = Some w \<longrightarrow> w \<noteq> [] \<longrightarrow> \<not> pinned w \<and> \<not> present (recentlyUsed w))"

definition plan_ok :: "maintenance_size list \<Rightarrow> cap_settings \<Rightarrow> string \<Rightarrow> (string \<Rightarrow> bool) \<Rightarrow> (string \<Rightarrow> string option) \<Rightarrow> maintenance_plan \<Rightarrow> bool" where
  "plan_ok sizes settings protectedRoot pinned recentlyUsed p \<longleftrightarrow>
     (\<forall>a \<in> set (p_actions p). eligible sizes settings protectedRoot pinned recentlyUsed a) \<and> distinct (map (\<lambda>a. (a_kind a, a_target a)) (p_actions p))"

definition trimmable :: "maintenance_size list \<Rightarrow> cap_settings \<Rightarrow> action_kind \<Rightarrow> maintenance_size \<Rightarrow> bool" where
  "trimmable sizes settings kind s \<longleftrightarrow> s \<in> set sizes \<and> (\<exists>capGb. (s_category s, capGb, kind) \<in> set (caps settings) \<and> over_cap sizes (s_category s) capGb)"

lemma cap_action_ok:
  assumes "plan_ok sizes settings root pinned used p" and "trimmable sizes settings kind s" "\<not> present (kept_reason root s)"
    and "cap_action pinned used (size_action kind why bytes s) p = (added, p')"
  shows "plan_ok sizes settings root pinned used p'"
proof -
  let ?a = "size_action kind why bytes s"
  consider "p_actions p' = p_actions p"
    | "p_actions p' = p_actions p @ [?a]" "\<not> (\<exists>e \<in> set (p_actions p). a_kind e = a_kind ?a \<and> a_target e = a_target ?a)"
      "\<not> (a_kind ?a = ClearOutputs \<and> present (a_workspace ?a) \<and> (pinned (the (a_workspace ?a)) \<or> present (used (the (a_workspace ?a)))))"
    using assms(4) by (auto simp: cap_action_def Let_def split: if_splits)
  then show ?thesis
  proof cases
    case 1
    with assms(1) show ?thesis by (simp add: plan_ok_def)
  next
    case 2
    have "a_target ?a = (case s_workspace s of Some w \<Rightarrow> w | None \<Rightarrow> s_dir s)" "a_kind ?a = kind" by (simp_all add: size_action_def)
    with 2(3) assms(2,3) have "eligible sizes settings root pinned used ?a" by (auto simp: eligible_def trimmable_def present_def)
    with assms(1) 2(1,2) show ?thesis by (auto simp: plan_ok_def)
  qed
qed

lemma trim_loop_ok:
  assumes "plan_ok sizes settings root pinned used p" "list_all (trimmable sizes settings kind) ss"
  shows "plan_ok sizes settings root pinned used (snd (trim_loop root pinned used kind why target ss remaining p))"
  using assms
proof (induction ss arbitrary: remaining p)
  case (Cons s ss)
  obtain added p' where a: "cap_action pinned used (size_action kind why (trim_bytes kind target remaining s) s) p = (added, p')" by fastforce
  have p': "plan_ok sizes settings root pinned used p'" if "\<not> present (kept_reason root s)"
    using cap_action_ok [OF Cons.prems(1) _ that a] Cons.prems(2) by simp
  have skip: "plan_ok sizes settings root pinned used (p\<lparr>p_skips := x\<rparr>)" for x using Cons.prems(1) by (simp add: plan_ok_def)
  show ?case
    using Cons.IH [OF p'] Cons.IH [OF skip] Cons.prems by (auto simp: a Let_def)
qed simp

lemma plan_cap_ok:
  assumes p: "plan_ok sizes settings root pinned used p" and c: "c \<in> set (caps settings)"
  shows "plan_ok sizes settings root pinned used (plan_cap sizes root pinned used c p)"
proof -
  obtain category capGb kind where ck: "c = (category, capGb, kind)" by (cases c)
  let ?ss = "sort_key (\<lambda>s. - (case s_idleDays s of None \<Rightarrow> 0 | Some d \<Rightarrow> d)) (filter (\<lambda>s. s_category s = category) sizes)"
  have "plan_ok sizes settings root pinned used (snd (trim_loop root pinned used kind why target ?ss remaining p))" if "over_cap sizes category capGb" for why target remaining
    using that c by (intro trim_loop_ok [OF p]) (auto simp: list_all_iff trimmable_def ck)
  moreover have "plan_ok sizes settings root pinned used (q\<lparr>p_blocked := x\<rparr>) = plan_ok sizes settings root pinned used q" for q x by (simp add: plan_ok_def)
  ultimately show ?thesis using p by (auto simp: plan_cap_def ck Let_def case_prod_beta over_cap_def GIB_BYTES_def)
qed

text \<open>
  C38. The cap trims touch only what they may: every planned action comes from an entry of a category whose
  cap is set and exceeded by the sum of its entries, is of the kind that category is trimmed by, and the
  entry is not the protected workspace's and nothing blocks it; the outputs of a pinned or recently used
  workspace are not cleared (caches have no such exception); and no action of the same kind is planned twice
  for a target.
\<close>

theorem plan_safe:
  "(\<forall>a \<in> set (p_actions (plan sizes settings root pinned used)). eligible sizes settings root pinned used a) \<and>
   distinct (map (\<lambda>a. (a_kind a, a_target a)) (p_actions (plan sizes settings root pinned used)))"
proof -
  have step: "plan_ok sizes settings root pinned used (fold (plan_cap sizes root pinned used) cs p)"
    if "plan_ok sizes settings root pinned used p" "set cs \<subseteq> set (caps settings)" for cs p
    using that by (induction cs arbitrary: p) (simp_all add: plan_cap_ok)
  have "plan_ok sizes settings root pinned used (plan sizes settings root pinned used)"
    unfolding plan_def by (rule step) (simp_all add: plan_ok_def)
  then show ?thesis by (simp add: plan_ok_def)
qed

definition two_caches :: "maintenance_size list" where
  "two_caches = [\<lparr>s_dir = ''/c/a'', s_bytes = 4000000000, s_category = ''metro-cache'', s_workspace = None, s_idleDays = Some 9, s_blocked = None\<rparr>,
     \<lparr>s_dir = ''/c/b'', s_bytes = 1000000000, s_category = ''metro-cache'', s_workspace = None, s_idleDays = Some 1, s_blocked = None\<rparr>]"

definition metro_cap :: "int \<Rightarrow> cap_settings" where
  "metro_cap g = \<lparr>workspaceOutputsMaxGb = 0, buildCacheMaxGb = 0, metroCacheMaxGb = g, swiftCompilationCacheMaxGb = 0\<rparr>"

theorem plan_safe_witness:
  "length (p_actions (plan two_caches (metro_cap 2) ''/w'' (\<lambda>_. False) (\<lambda>_. None))) = 1 \<and>
   list_all (eligible two_caches (metro_cap 2) ''/w'' (\<lambda>_. False) (\<lambda>_. None)) (p_actions (plan two_caches (metro_cap 2) ''/w'' (\<lambda>_. False) (\<lambda>_. None)))"
proof
  show "length (p_actions (plan two_caches (metro_cap 2) ''/w'' (\<lambda>_. False) (\<lambda>_. None))) = 1" by code_simp
  show "list_all (eligible two_caches (metro_cap 2) ''/w'' (\<lambda>_. False) (\<lambda>_. None)) (p_actions (plan two_caches (metro_cap 2) ''/w'' (\<lambda>_. False) (\<lambda>_. None)))"
    unfolding list_all_iff using plan_safe by blast
qed

text \<open>
  With a cap of three gigabytes the target is \<open>2576980377.6\<close> bytes. Trimming the first cache to
  it asks for a whole number of bytes, rounded down, and leaves \<open>0.4\<close> of a byte over: the plan
  then adds an action that frees nothing and reports that the target cannot be reached.
\<close>

theorem plan_rounding_blocks:
  "map a_bytes (p_actions (plan two_caches (metro_cap 3) ''/w'' (\<lambda>_. False) (\<lambda>_. None))) = [2423019622, 0] \<and>
   length (p_blocked (plan two_caches (metro_cap 3) ''/w'' (\<lambda>_. False) (\<lambda>_. None))) = 1"
  by code_simp

text \<open>
  Checks keep their distance: a check that is due is switched on, was last run at least its
  interval ago (or never, or at a time the clock has not reached), and was not put off within the
  last five minutes; with no recorded state every switched-on check is due.
\<close>

theorem due_spacing:
  "(\<forall>c \<in> set (due state settings now). \<exists>interval. intervalMs settings c = Some interval \<and>
      (\<forall>s t. state = Some s \<longrightarrow> lastAt s c = Some t \<longrightarrow> now < t \<or> interval \<le> now - t) \<and>
      (\<forall>s t. state = Some s \<longrightarrow> deferredAt s c = Some t \<longrightarrow> now < t \<or> DEFERRED_RETRY_MS \<le> now - t)) \<and>
   (state = None \<longrightarrow> set (due state settings now) = {c. intervalMs settings c \<noteq> None})"
proof -
  have all: "c \<in> set [CPressure, CSize, CWorktree, CSweep, CIdle]" for c by (cases c) auto
  show ?thesis
  proof
    show "\<forall>c \<in> set (due state settings now). \<exists>interval. intervalMs settings c = Some interval \<and>
      (\<forall>s t. state = Some s \<longrightarrow> lastAt s c = Some t \<longrightarrow> now < t \<or> interval \<le> now - t) \<and>
      (\<forall>s t. state = Some s \<longrightarrow> deferredAt s c = Some t \<longrightarrow> now < t \<or> DEFERRED_RETRY_MS \<le> now - t)"
      unfolding due_def set_filter elapsed_def by (auto split: option.splits if_splits)
    show "state = None \<longrightarrow> set (due state settings now) = {c. intervalMs settings c \<noteq> None}"
      unfolding due_def set_filter elapsed_def using all by (auto split: option.splits)
  qed
qed

theorem due_spacing_witness:
  "set (due None \<lparr>ds_worktreeCheckMinutes = 30, ds_sweepHours = 0, ds_removeFinishedWorktrees = False\<rparr> 0) =
     {c. intervalMs \<lparr>ds_worktreeCheckMinutes = 30, ds_sweepHours = 0, ds_removeFinishedWorktrees = False\<rparr> c \<noteq> None}"
  using due_spacing [of None] by blast

end
