(* ===== verification/Ownership_Claim.thy ===== *)
theory Ownership_Claim
  imports Json_Value "HOL-Library.Sublist" "HOL-Library.List_Lexorder" "HOL-Library.Char_ord"
begin

text \<open>
  Ownership claims (\<open>packages/core/ownership-claim.ts\<close>), the cross-process locks of the program,
  on a POSIX file system. A claim set is a directory with two subdirectories, \<open>exclusive\<close> and
  \<open>shared\<close>; a claim is a file there, with an optional child record beside it. The model keeps
  the contents of both directories, what stands in their place when they are missing or
  unreadable, and the names left over in the root; a file that cannot be read or removed carries
  the error code. Whether a process is alive is an argument, \<open>os\<close>, as the native module and the
  kernel answer it. These are the operations of one process, run without interference; the
  interleaving of several is the subject of \<open>Claim_Protocol\<close>. Not modelled: the Windows retries
  (\<open>settledAnswer\<close>, \<open>yieldToRemoval\<close>) and the wording of the errors.
\<close>

section \<open>Processes\<close>

datatype claim_mode = Exclusive | Shared

record claim_owner =
  pid :: int
  processToken :: string

datatype identity = Same | Gone | UnknownIdentity

record os =
  inspectProcessIdentity :: "claim_owner \<Rightarrow> identity"
  group_answers :: "int \<Rightarrow> bool"

definition safe_integer :: "int \<Rightarrow> bool" where
  "safe_integer n = (\<bar>n\<bar> \<le> 9007199254740991)"

definition processGroupAlive :: "os \<Rightarrow> int \<Rightarrow> bool" where
  "processGroupAlive w p = (if \<not> safe_integer p \<or> p \<le> 1 then False else group_answers w p)"

definition asOwner :: "json option \<Rightarrow> claim_owner option" where
  "asOwner record = (case record of None \<Rightarrow> None | Some j \<Rightarrow>
     (case (jfield ''pid'' j, jfield ''processToken'' j) of
        (Some (JNum p), Some (JStr t)) \<Rightarrow> if \<not> safe_integer p \<or> p \<le> 0 \<or> t = [] then None else Some \<lparr>pid = p, processToken = t\<rparr>
      | _ \<Rightarrow> None))"

section \<open>The store\<close>

datatype claim_file = FileText file_text | FileDenied string

datatype dir = NoDir | BadDir | Dir "(string \<times> claim_file) list"

datatype root_dir = RootAbsent | RootFile | RootLink | RootDenied | RootDir

datatype claim_path = InDir claim_mode string | DirPath claim_mode | RootPath

record claim_set =
  set_root :: root_dir
  excl_dir :: dir
  shared_dir :: dir
  leftovers :: "string list"
  undeletable :: "((claim_mode \<times> string) \<times> string) list"

text \<open>A claim set that does not exist.\<close>

definition empty_set :: claim_set where
  "empty_set = \<lparr>set_root = RootAbsent, excl_dir = NoDir, shared_dir = NoDir, leftovers = [], undeletable = []\<rparr>"

fun dir_of :: "claim_mode \<Rightarrow> claim_set \<Rightarrow> dir" where
  "dir_of Exclusive s = excl_dir s"
| "dir_of Shared s = shared_dir s"

fun set_dir :: "claim_mode \<Rightarrow> dir \<Rightarrow> claim_set \<Rightarrow> claim_set" where
  "set_dir Exclusive d s = s\<lparr>excl_dir := d\<rparr>"
| "set_dir Shared d s = s\<lparr>shared_dir := d\<rparr>"

fun files_of :: "dir \<Rightarrow> (string \<times> claim_file) list" where
  "files_of (Dir fs) = fs"
| "files_of _ = []"

definition file_at :: "claim_set \<Rightarrow> claim_mode \<Rightarrow> string \<Rightarrow> claim_file option" where
  "file_at s m n = map_of (files_of (dir_of m s)) n"

definition CLAIM_SUFFIX :: string where "CLAIM_SUFFIX = ''.claim''"
definition CHILD_SUFFIX :: string where "CHILD_SUFFIX = ''.child''"
definition STAGING_PREFIX :: string where "STAGING_PREFIX = ''.staging-''"
definition PUBLISH_ATTEMPTS :: nat where "PUBLISH_ATTEMPTS = 64"

definition childPath :: "string \<Rightarrow> string" where
  "childPath name = take (length name - 6) name @ CHILD_SUFFIX"

section \<open>Reading claims\<close>

record claim_holder =
  h_mode :: claim_mode
  h_name :: string
  claimId :: string
  owner :: claim_owner
  startedAt :: string
  details :: json
  child :: "claim_owner option"
  childDeclared :: bool

definition NOT_JSON :: string where
  "NOT_JSON = ''its record is missing, truncated or not valid JSON''"

datatype 'a reading = Absent | Unreadable string | Read 'a

definition readRecord :: "claim_set \<Rightarrow> claim_mode \<Rightarrow> string \<Rightarrow> string \<Rightarrow> file_text reading" where
  "readRecord s m name what = (case file_at s m name of
     None \<Rightarrow> Absent
   | Some (FileText t) \<Rightarrow> Read t
   | Some (FileDenied code) \<Rightarrow> Unreadable (''its '' @ what @ '' could not be read ('' @ code @ '')''))"

definition readChild :: "claim_set \<Rightarrow> claim_mode \<Rightarrow> string \<Rightarrow> claim_owner option reading" where
  "readChild s m name = (case readRecord s m (childPath name) ''child record'' of
     Absent \<Rightarrow> Absent
   | Unreadable r \<Rightarrow> Unreadable r
   | Read None \<Rightarrow> Unreadable NOT_JSON
   | Read (Some j) \<Rightarrow> Read (asOwner (jfield ''record'' j)))"

definition readClaim :: "claim_set \<Rightarrow> claim_mode \<Rightarrow> string \<Rightarrow> claim_holder reading" where
  "readClaim s m name = (case readRecord s m name ''record'' of
     Absent \<Rightarrow> Absent
   | Unreadable r \<Rightarrow> Unreadable r
   | Read None \<Rightarrow> Unreadable NOT_JSON
   | Read (Some j) \<Rightarrow>
      (case (asOwner (jfield ''owner'' j), jstr_field ''claimId'' j) of
         (Some ow, Some i) \<Rightarrow>
           (if i = [] then Unreadable NOT_JSON
            else case readChild s m name of
              Unreadable r \<Rightarrow> Unreadable r
            | c \<Rightarrow> Read \<lparr>h_mode = m, h_name = name, claimId = i, owner = ow,
                startedAt = (case jstr_field ''startedAt'' j of Some t \<Rightarrow> t | None \<Rightarrow> []),
                details = (case jfield ''details'' j of Some (JObj fs) \<Rightarrow> JObj fs | Some (JArr vs) \<Rightarrow> JArr vs | _ \<Rightarrow> JObj []),
                child = (case c of Read r \<Rightarrow> r | _ \<Rightarrow> None), childDeclared = (c \<noteq> Absent)\<rparr>)
       | _ \<Rightarrow> Unreadable NOT_JSON))"

datatype liveness = Live | Dead | Unknown

definition childLiveness :: "os \<Rightarrow> claim_set \<Rightarrow> claim_mode \<Rightarrow> string \<Rightarrow> liveness option" where
  "childLiveness w s m name = (case readChild s m name of
     Absent \<Rightarrow> None
   | Unreadable _ \<Rightarrow> Some Unknown
   | Read None \<Rightarrow> Some Unknown
   | Read (Some c) \<Rightarrow> (case inspectProcessIdentity w c of
       Same \<Rightarrow> Some Live
     | Gone \<Rightarrow> Some (if processGroupAlive w (pid c) then Live else Dead)
     | UnknownIdentity \<Rightarrow> Some Unknown))"

definition claimLiveness :: "os \<Rightarrow> claim_set \<Rightarrow> claim_holder \<Rightarrow> liveness" where
  "claimLiveness w s h = (case inspectProcessIdentity w (owner h) of
     Same \<Rightarrow> Live
   | UnknownIdentity \<Rightarrow> Unknown
   | Gone \<Rightarrow> (case childLiveness w s (h_mode h) (h_name h) of None \<Rightarrow> Dead | Some c \<Rightarrow> c))"

record claim_survey =
  sv_live :: "claim_holder list"
  sv_dead :: "claim_holder list"
  sv_unresolved :: "(claim_path \<times> string) list"
  sv_orphans :: "(claim_mode \<times> string) list"

definition names :: "dir \<Rightarrow> string list option" where
  "names d = (case d of NoDir \<Rightarrow> Some [] | BadDir \<Rightarrow> None | Dir fs \<Rightarrow> Some (sort (remdups (map fst fs))))"

definition orphan_names :: "string list \<Rightarrow> string list" where
  "orphan_names listed = filter (\<lambda>n. suffix CHILD_SUFFIX n \<and> take (length n - 6) n @ CLAIM_SUFFIX \<notin> set listed) listed"

definition survey_one :: "os \<Rightarrow> claim_set \<Rightarrow> claim_mode \<Rightarrow> string \<Rightarrow> claim_survey \<Rightarrow> claim_survey" where
  "survey_one w s m name v =
     (if \<not> suffix CLAIM_SUFFIX name then v
      else case readClaim s m name of
        Absent \<Rightarrow> v
      | Unreadable r \<Rightarrow> v\<lparr>sv_unresolved := sv_unresolved v @ [(InDir m name, r)]\<rparr>
      | Read h \<Rightarrow> (case claimLiveness w s h of
          Live \<Rightarrow> v\<lparr>sv_live := sv_live v @ [h]\<rparr>
        | Dead \<Rightarrow> v\<lparr>sv_dead := sv_dead v @ [h]\<rparr>
        | Unknown \<Rightarrow> v\<lparr>sv_unresolved := sv_unresolved v @ [(InDir m name,
            if childDeclared h \<and> child h = None then ''it spawned the process that holds it and was killed before recording which one''
            else ''its process identity token does not decode, so the holder cannot be identified'')]\<rparr>))"

definition survey :: "os \<Rightarrow> claim_set \<Rightarrow> claim_mode \<Rightarrow> claim_survey \<Rightarrow> claim_survey" where
  "survey w s m v = (case names (dir_of m s) of
     None \<Rightarrow> v\<lparr>sv_unresolved := sv_unresolved v @ [(DirPath m, ''its directory could not be read'')]\<rparr>
   | Some listed \<Rightarrow>
      (let orphans = orphan_names listed;
           v1 = v\<lparr>sv_orphans := sv_orphans v @ map (Pair m) orphans\<rparr>;
           v2 = fold (survey_one w s m) listed v1;
           foreign = filter (\<lambda>n. n \<notin> set orphans) listed
       in if foreign \<noteq> [] \<and> filter (suffix CLAIM_SUFFIX) listed = []
          then v2\<lparr>sv_unresolved := sv_unresolved v2 @ [(DirPath m, ''it holds files Stim did not write'')]\<rparr> else v2))"

definition no_survey :: claim_survey where
  "no_survey = \<lparr>sv_live = [], sv_dead = [], sv_unresolved = [], sv_orphans = []\<rparr>"

definition readClaimSet :: "os \<Rightarrow> claim_set \<Rightarrow> claim_survey" where
  "readClaimSet w s = (case set_root s of
     RootAbsent \<Rightarrow> no_survey
   | RootFile \<Rightarrow> no_survey\<lparr>sv_unresolved := [(RootPath, ''it is not a real directory'')]\<rparr>
   | RootLink \<Rightarrow> no_survey\<lparr>sv_unresolved := [(RootPath, ''it is not a real directory'')]\<rparr>
   | RootDenied \<Rightarrow> no_survey\<lparr>sv_unresolved := [(RootPath, ''its directory could not be read'')]\<rparr>
   | RootDir \<Rightarrow> survey w s Shared (survey w s Exclusive no_survey))"

section \<open>Removing what is dead\<close>

datatype claim_error = ClaimRefused claim_path string | ClaimUnavailable string | ClaimIo string

definition delete_file :: "claim_mode \<Rightarrow> string \<Rightarrow> claim_set \<Rightarrow> claim_set" where
  "delete_file m n s = set_dir m (case dir_of m s of Dir fs \<Rightarrow> Dir (AList.delete n fs) | d \<Rightarrow> d) s"

definition removeOrRefuse :: "claim_mode \<Rightarrow> string \<Rightarrow> string \<Rightarrow> claim_set \<Rightarrow> claim_error option \<times> claim_set" where
  "removeOrRefuse m n claim s =
     (if file_at s m n = None then (None, s)
      else case map_of (undeletable s) (m, n) of
        Some code \<Rightarrow> (Some (ClaimRefused (InDir m claim) (''the claim left behind could not be removed ('' @ code @ '')'')), s)
      | None \<Rightarrow> (None, delete_file m n s))"

definition reap :: "claim_holder \<Rightarrow> claim_set \<Rightarrow> (claim_error + bool) \<times> claim_set" where
  "reap h s = (case readClaim s (h_mode h) (h_name h) of
     Absent \<Rightarrow> (Inr True, s)
   | Unreadable _ \<Rightarrow> (Inr False, s)
   | Read again \<Rightarrow>
      (if claimId again \<noteq> claimId h then (Inr False, s)
       else case removeOrRefuse (h_mode h) (childPath (h_name h)) (h_name h) s of
         (Some e, s1) \<Rightarrow> (Inl e, s1)
       | (None, s1) \<Rightarrow> (case removeOrRefuse (h_mode h) (h_name h) (h_name h) s1 of
           (Some e, s2) \<Rightarrow> (Inl e, s2)
         | (None, s2) \<Rightarrow> (Inr True, s2))))"

definition tidy :: "claim_mode \<Rightarrow> claim_set \<Rightarrow> claim_set" where
  "tidy m s = (if dir_of m s = Dir [] then set_dir m NoDir s else s)"

definition tidy_root :: "claim_set \<Rightarrow> claim_set" where
  "tidy_root s = (if set_root s = RootDir \<and> excl_dir s = NoDir \<and> shared_dir s = NoDir \<and> leftovers s = [] then s\<lparr>set_root := RootAbsent\<rparr> else s)"

record claim_set_state =
  st_exclusive :: "claim_holder option"
  st_shared :: "claim_holder list"
  st_reaped :: "claim_holder list"

fun remove_orphans :: "(claim_mode \<times> string) list \<Rightarrow> claim_set \<Rightarrow> claim_error option \<times> claim_set" where
  "remove_orphans [] s = (None, s)"
| "remove_orphans ((m, n) # os) s = (case removeOrRefuse m n n s of (Some e, s1) \<Rightarrow> (Some e, s1) | (None, s1) \<Rightarrow> remove_orphans os s1)"

fun reap_all :: "claim_holder list \<Rightarrow> claim_set \<Rightarrow> (claim_error + claim_holder list) \<times> claim_set" where
  "reap_all [] s = (Inr [], s)"
| "reap_all (h # hs) s = (case reap h s of
     (Inl e, s1) \<Rightarrow> (Inl e, s1)
   | (Inr r, s1) \<Rightarrow> (case reap_all hs s1 of (Inl e, s2) \<Rightarrow> (Inl e, s2) | (Inr rs, s2) \<Rightarrow> (Inr (if r then h # rs else rs), s2)))"

definition inspectClaimSet :: "os \<Rightarrow> claim_set \<Rightarrow> (claim_error + claim_set_state) \<times> claim_set" where
  "inspectClaimSet w s =
     (let v = readClaimSet w s in
      case sv_unresolved v of (p, r) # _ \<Rightarrow> (Inl (ClaimRefused p r), s)
      | [] \<Rightarrow> (case remove_orphans (sv_orphans v) s of
          (Some e, s1) \<Rightarrow> (Inl e, s1)
        | (None, s1) \<Rightarrow> (case reap_all (sv_dead v) s1 of
            (Inl e, s2) \<Rightarrow> (Inl e, s2)
          | (Inr reaped, s2) \<Rightarrow>
              (let s3 = (if \<not> (\<exists>h \<in> set (sv_live v). h_mode h = Exclusive) then tidy Exclusive s2 else s2);
                   s4 = (if \<not> (\<exists>h \<in> set (sv_live v). h_mode h = Shared) then tidy Shared s3 else s3)
               in (Inr \<lparr>st_exclusive = List.find (\<lambda>h. h_mode h = Exclusive) (sv_live v),
                        st_shared = filter (\<lambda>h. h_mode h = Shared) (sv_live v), st_reaped = reaped\<rparr>, s4)))))"

section \<open>Taking, settling and releasing a claim\<close>

record claim_handle =
  hd_path :: string
  hd_claimId :: string
  hd_mode :: claim_mode
  hd_owner :: claim_owner
  hd_startedAt :: string
  hd_details :: json

datatype claim_attempt =
    Acquired claim_handle "claim_holder list"
  | HeldBy claim_holder "claim_holder list"
  | WaitingFor "claim_holder list" claim_handle "claim_holder list"

fun mode_text :: "claim_mode \<Rightarrow> string" where
  "mode_text Exclusive = ''exclusive''"
| "mode_text Shared = ''shared''"

definition owner_json :: "claim_owner \<Rightarrow> json" where
  "owner_json ow = JObj [(''pid'', JNum (pid ow)), (''processToken'', JStr (processToken ow))]"

definition claim_payload :: "string \<Rightarrow> claim_mode \<Rightarrow> claim_owner \<Rightarrow> string \<Rightarrow> json \<Rightarrow> json" where
  "claim_payload i m ow t ds = JObj [(''claimId'', JStr i), (''mode'', JStr (mode_text m)), (''owner'', owner_json ow), (''startedAt'', JStr t), (''details'', ds)]"

definition put_file :: "claim_mode \<Rightarrow> string \<Rightarrow> claim_file \<Rightarrow> claim_set \<Rightarrow> claim_set" where
  "put_file m n f s = set_dir m (case dir_of m s of Dir fs \<Rightarrow> Dir (AList.update n f fs) | _ \<Rightarrow> Dir [(n, f)]) s"

text \<open>
  Publishing: the rename onto \<open>exclusive\<close> succeeds only when there is no such directory or an empty
  one; \<open>Inr None\<close> is contention.
\<close>

definition publishExclusive :: "string \<Rightarrow> json \<Rightarrow> claim_set \<Rightarrow> (claim_error + string option) \<times> claim_set" where
  "publishExclusive i payload s = (case excl_dir s of
     BadDir \<Rightarrow> (Inl (ClaimRefused (DirPath Exclusive) ''the claim path is a file, not a claim directory''), s)
   | Dir (_ # _) \<Rightarrow> (Inr None, s)
   | _ \<Rightarrow> (Inr (Some (i @ CLAIM_SUFFIX)), s\<lparr>excl_dir := Dir [(i @ CLAIM_SUFFIX, FileText (Some payload))]\<rparr>))"

definition publishShared :: "string \<Rightarrow> json \<Rightarrow> claim_set \<Rightarrow> (claim_error + string option) \<times> claim_set" where
  "publishShared i payload s = (case shared_dir s of
     BadDir \<Rightarrow> (Inr None, s)
   | _ \<Rightarrow> (Inr (Some (i @ CLAIM_SUFFIX)), put_file Shared (i @ CLAIM_SUFFIX) (FileText (Some payload)) s))"

definition publish :: "claim_mode \<Rightarrow> string \<Rightarrow> json \<Rightarrow> claim_set \<Rightarrow> (claim_error + string option) \<times> claim_set" where
  "publish m i payload s = (case m of Exclusive \<Rightarrow> publishExclusive i payload s | Shared \<Rightarrow> publishShared i payload s)"

definition releaseClaim :: "claim_handle \<Rightarrow> claim_set \<Rightarrow> bool \<times> claim_set" where
  "releaseClaim ch s = (case readClaim s (hd_mode ch) (hd_path ch) of
     Absent \<Rightarrow> (True, s)
   | Unreadable _ \<Rightarrow> (False, s)
   | Read current \<Rightarrow>
      (if claimId current \<noteq> hd_claimId ch then (False, s)
       else case removeOrRefuse (hd_mode ch) (childPath (hd_path ch)) (hd_path ch) s of
         (Some _, s1) \<Rightarrow> (False, s1)
       | (None, s1) \<Rightarrow> (case removeOrRefuse (hd_mode ch) (hd_path ch) (hd_path ch) s1 of
           (Some _, s2) \<Rightarrow> (False, s2)
         | (None, s2) \<Rightarrow> (True, tidy_root (tidy (hd_mode ch) s2)))))"

definition settleOrRelease :: "os \<Rightarrow> claim_handle \<Rightarrow> claim_set \<Rightarrow> (claim_error + claim_set_state) \<times> claim_set" where
  "settleOrRelease w ch s = (case inspectClaimSet w s of
     (Inl e, s1) \<Rightarrow> (Inl e, snd (releaseClaim ch s1))
   | (Inr st, s1) \<Rightarrow> (Inr st, s1))"

definition make_root :: "claim_set \<Rightarrow> claim_set" where
  "make_root s = (if set_root s = RootAbsent then s\<lparr>set_root := RootDir\<rparr> else s)"

text \<open>After publishing: keep the claim, wait for the shared holders, or give it up to the exclusive one.\<close>

definition settle_published :: "os \<Rightarrow> claim_handle \<Rightarrow> claim_holder list \<Rightarrow> claim_set \<Rightarrow> (claim_error + claim_attempt) \<times> claim_set" where
  "settle_published w claim reaped s = (case settleOrRelease w claim s of
     (Inl e, s1) \<Rightarrow> (Inl e, s1)
   | (Inr settled, s1) \<Rightarrow>
      (let reaped' = reaped @ st_reaped settled in
       case hd_mode claim of
         Shared \<Rightarrow> (case st_exclusive settled of
             None \<Rightarrow> (Inr (Acquired claim reaped'), s1)
           | Some h \<Rightarrow> (Inr (HeldBy h reaped'), snd (releaseClaim claim s1)))
       | Exclusive \<Rightarrow> (if st_shared settled = [] then (Inr (Acquired claim reaped'), s1)
           else (Inr (WaitingFor (st_shared settled) claim reaped'), s1))))"

fun acquire_loop :: "nat \<Rightarrow> os \<Rightarrow> claim_mode \<Rightarrow> claim_owner \<Rightarrow> json \<Rightarrow> (nat \<Rightarrow> string) \<Rightarrow> (nat \<Rightarrow> string) \<Rightarrow> claim_holder list \<Rightarrow> claim_set \<Rightarrow>
    (claim_error + claim_attempt) \<times> claim_set" where
  "acquire_loop 0 w m ow ds ids stamps reaped s = (case inspectClaimSet w s of
     (Inl e, s1) \<Rightarrow> (Inl e, s1)
   | (Inr st, s1) \<Rightarrow>
      (let reaped' = reaped @ st_reaped st in
       case (st_exclusive st, m, st_shared st) of
         (Some h, _, _) \<Rightarrow> (Inr (HeldBy h reaped'), s1)
       | (None, Exclusive, h # _) \<Rightarrow> (Inr (HeldBy h reaped'), s1)
       | _ \<Rightarrow> (Inl (ClaimRefused RootPath ''another process took and gave up the claim on every one of 64 attempts to take it''), s1)))"
| "acquire_loop (Suc k) w m ow ds ids stamps reaped s =
     (if set_root s = RootFile then (Inl (ClaimRefused RootPath ''the claim path is a file, not a claim directory''), s)
      else if set_root s = RootDenied then (Inl (ClaimIo ''EACCES''), s)
      else case inspectClaimSet w (make_root s) of
        (Inl e, s1) \<Rightarrow> (Inl e, s1)
      | (Inr st, s1) \<Rightarrow>
         (let reaped' = reaped @ st_reaped st in
          case st_exclusive st of Some h \<Rightarrow> (Inr (HeldBy h reaped'), s1)
          | None \<Rightarrow>
             (let i = ids k; t = stamps k in
              case publish m i (claim_payload i m ow t ds) s1 of
                (Inl e, s2) \<Rightarrow> (Inl e, s2)
              | (Inr None, s2) \<Rightarrow> acquire_loop k w m ow ds ids stamps reaped' s2
              | (Inr (Some path), s2) \<Rightarrow>
                  settle_published w \<lparr>hd_path = path, hd_claimId = i, hd_mode = m, hd_owner = ow, hd_startedAt = t, hd_details = ds\<rparr> reaped' s2)))"

definition tryAcquireClaim :: "os \<Rightarrow> string + claim_owner \<Rightarrow> claim_mode \<Rightarrow> json \<Rightarrow> (nat \<Rightarrow> string) \<Rightarrow> (nat \<Rightarrow> string) \<Rightarrow> claim_set \<Rightarrow>
    (claim_error + claim_attempt) \<times> claim_set" where
  "tryAcquireClaim w self m ds ids stamps s = (case self of
     Inl reason \<Rightarrow> (Inl (ClaimUnavailable reason), s)
   | Inr ow \<Rightarrow> acquire_loop PUBLISH_ATTEMPTS w m ow ds ids stamps [] s)"

definition settleClaim :: "os \<Rightarrow> claim_handle \<Rightarrow> claim_set \<Rightarrow> (claim_error + claim_attempt) \<times> claim_set" where
  "settleClaim w pending s = (case inspectClaimSet w s of
     (Inl e, s1) \<Rightarrow> (Inl e, s1)
   | (Inr st, s1) \<Rightarrow> (Inr (if st_shared st = [] then Acquired pending (st_reaped st) else WaitingFor (st_shared st) pending (st_reaped st)), s1))"

definition writeChild :: "claim_handle \<Rightarrow> claim_owner option \<Rightarrow> claim_set \<Rightarrow> (claim_error + unit) \<times> claim_set" where
  "writeChild ch c s = (case dir_of (hd_mode ch) s of
     Dir _ \<Rightarrow> (case map_of (undeletable s) (hd_mode ch, childPath (hd_path ch)) of
         Some code \<Rightarrow> (Inl (ClaimIo code), s)
       | None \<Rightarrow> (Inr (), put_file (hd_mode ch) (childPath (hd_path ch))
          (FileText (Some (JObj [(''record'', case c of None \<Rightarrow> JNull | Some ow \<Rightarrow> owner_json ow)]))) s))
   | _ \<Rightarrow> (Inl (ClaimIo ''ENOENT''), s))"

definition markClaimChildPending :: "claim_handle \<Rightarrow> claim_set \<Rightarrow> (claim_error + unit) \<times> claim_set" where
  "markClaimChildPending ch s = writeChild ch None s"

definition setClaimChild :: "claim_handle \<Rightarrow> json \<Rightarrow> claim_set \<Rightarrow> (claim_error + unit) \<times> claim_set" where
  "setClaimChild ch record s = (case asOwner (Some record) of
     None \<Rightarrow> (Inl (ClaimUnavailable ''the child process identity was not a pid and token pair''), s)
   | Some c \<Rightarrow> writeChild ch (Some c) s)"

definition clearClaimChild :: "claim_handle \<Rightarrow> claim_set \<Rightarrow> (claim_error + unit) \<times> claim_set" where
  "clearClaimChild ch s =
     (if file_at s (hd_mode ch) (childPath (hd_path ch)) = None then (Inr (), s)
      else case map_of (undeletable s) (hd_mode ch, childPath (hd_path ch)) of
        Some code \<Rightarrow> (Inl (ClaimIo code), s)
      | None \<Rightarrow> (Inr (), delete_file (hd_mode ch) (childPath (hd_path ch)) s))"

definition updateClaimDetails :: "claim_handle \<Rightarrow> json \<Rightarrow> claim_set \<Rightarrow> claim_handle option \<times> claim_set" where
  "updateClaimDetails ch ds s = (case readClaim s (hd_mode ch) (hd_path ch) of
     Read current \<Rightarrow>
      (if claimId current \<noteq> hd_claimId ch then (None, s)
       else (Some (ch\<lparr>hd_details := ds\<rparr>),
             put_file (hd_mode ch) (hd_path ch) (FileText (Some (claim_payload (hd_claimId ch) (hd_mode ch) (hd_owner ch) (hd_startedAt ch) ds))) s))
   | _ \<Rightarrow> (None, s))"

datatype clearance = Cleared | ClearHeld "claim_holder option" | ClearRefused string | ClearFailed string

definition remaining_names :: "claim_set \<Rightarrow> string list" where
  "remaining_names s = (if set_root s = RootDir
     then leftovers s @ (if excl_dir s \<noteq> NoDir then [''exclusive''] else []) @ (if shared_dir s \<noteq> NoDir then [''shared''] else []) else [])"

definition tidySet :: "claim_set \<Rightarrow> claim_set" where
  "tidySet s = tidy_root (tidy Shared (tidy Exclusive s))"

definition error_reason :: "claim_error \<Rightarrow> string" where
  "error_reason e = (case e of ClaimRefused _ r \<Rightarrow> r | ClaimUnavailable r \<Rightarrow> r | ClaimIo r \<Rightarrow> r)"

definition clear_after :: "os \<Rightarrow> claim_set \<Rightarrow> clearance" where
  "clear_after w s =
     (if set_root s \<noteq> RootAbsent \<and> set_root s \<noteq> RootDir then ClearFailed ''its directory could not be read''
      else let v = readClaimSet w s in
        case sv_live v of h # _ \<Rightarrow> ClearHeld (Some h)
        | [] \<Rightarrow> (case sv_unresolved v of (_, r) # _ \<Rightarrow> ClearRefused r
          | [] \<Rightarrow> if remaining_names s \<noteq> [] then ClearFailed (''it still holds '' @ join '', '' (sort (remaining_names s))) else Cleared))"

definition clearFreeClaimSet :: "os \<Rightarrow> string + claim_owner \<Rightarrow> (nat \<Rightarrow> string) \<Rightarrow> (nat \<Rightarrow> string) \<Rightarrow> claim_set \<Rightarrow> clearance \<times> claim_set" where
  "clearFreeClaimSet w self ids stamps s = (case tryAcquireClaim w self Exclusive (JObj []) ids stamps s of
     (Inl (ClaimIo r), s1) \<Rightarrow> (ClearFailed r, s1)
   | (Inl e, s1) \<Rightarrow> (ClearRefused (error_reason e), s1)
   | (Inr (HeldBy h _), s1) \<Rightarrow> (ClearHeld (Some h), s1)
   | (Inr (WaitingFor hs pending _), s1) \<Rightarrow> (ClearHeld (case hs of [] \<Rightarrow> None | h # _ \<Rightarrow> Some h), snd (releaseClaim pending s1))
   | (Inr (Acquired claim _), s1) \<Rightarrow>
      (let s2 = s1\<lparr>leftovers := filter (\<lambda>n. \<not> prefix STAGING_PREFIX n) (leftovers s1)\<rparr>;
           s3 = tidySet (snd (releaseClaim claim s2))
       in (clear_after w s3, s3)))"

end
