(* ===== verification/Claim_Laws.thy ===== *)
theory Claim_Laws
  imports Ownership_Claim
begin

text \<open>
  Laws of the claim operations of \<open>Ownership_Claim\<close> in one process: what each removal leaves in
  place, what a survey finds, and what follows for taking, inspecting and releasing a claim.
\<close>

section \<open>The store\<close>

lemma dir_of_set_dir [simp]: "dir_of m (set_dir m' d s) = (if m = m' then d else dir_of m s)"
  by (cases m; cases m') auto

lemma set_dir_frame [simp]: "set_root (set_dir m d s) = set_root s" "undeletable (set_dir m d s) = undeletable s"
  "leftovers (set_dir m d s) = leftovers s"
  by (cases m; simp)+

lemma file_at_set_dir: "file_at (set_dir m d s) m' n = (if m' = m then map_of (files_of d) n else file_at s m' n)"
  by (simp add: file_at_def)

lemma file_at_delete [simp]: "file_at (delete_file m n s) m' n' = (if m' = m \<and> n' = n then None else file_at s m' n')"
  by (cases "dir_of m s") (auto simp: delete_file_def file_at_set_dir file_at_def delete_conv')

lemma delete_file_frame [simp]: "set_root (delete_file m n s) = set_root s" "undeletable (delete_file m n s) = undeletable s"
  "leftovers (delete_file m n s) = leftovers s"
  by (simp_all add: delete_file_def)

lemma delete_file_BadDir [simp]: "dir_of m' (delete_file m n s) = BadDir \<longleftrightarrow> dir_of m' s = BadDir"
  by (auto simp: delete_file_def split: dir.splits)

lemma file_at_tidy [simp]: "file_at (tidy m s) m' n = file_at s m' n"
  by (auto simp: tidy_def file_at_set_dir) (simp add: file_at_def)

lemma tidy_frame [simp]: "set_root (tidy m s) = set_root s" "undeletable (tidy m s) = undeletable s" "leftovers (tidy m s) = leftovers s"
  by (simp_all add: tidy_def)

lemma file_at_put [simp]: "file_at (put_file m n f s) m' n' = (if m' = m \<and> n' = n then Some f else file_at s m' n')"
  by (cases "dir_of m s") (auto simp: put_file_def file_at_set_dir file_at_def update_conv')

lemma file_at_root [simp]: "file_at (s\<lparr>set_root := r\<rparr>) m n = file_at s m n"
  by (cases m) (simp_all add: file_at_def)

lemma file_at_listed: "file_at s m n \<noteq> None \<longleftrightarrow> (\<exists>fs. dir_of m s = Dir fs \<and> n \<in> fst ` set fs)"
  by (cases "dir_of m s") (auto simp: file_at_def map_of_eq_None_iff)

section \<open>Names\<close>

lemma suffix_lengths [simp]: "length CLAIM_SUFFIX = 6" "length CHILD_SUFFIX = 6"
  by (simp_all add: CLAIM_SUFFIX_def CHILD_SUFFIX_def)

lemma suffix_take: "suffix t n \<Longrightarrow> take (length n - length t) n @ t = n"
  by (auto simp: suffix_def)

lemma not_claim_and_child: "suffix CLAIM_SUFFIX n \<Longrightarrow> \<not> suffix CHILD_SUFFIX n"
  by (auto simp: suffix_def CLAIM_SUFFIX_def CHILD_SUFFIX_def)

lemma child_name [simp]: "suffix CHILD_SUFFIX (childPath n)"
  by (simp add: childPath_def suffix_def)

lemma childPath_of: "childPath (i @ CLAIM_SUFFIX) = i @ CHILD_SUFFIX"
  by (simp add: childPath_def)

lemma childPath_inj: "suffix CLAIM_SUFFIX n \<Longrightarrow> suffix CLAIM_SUFFIX n' \<Longrightarrow> childPath n = childPath n' \<longleftrightarrow> n = n'"
  by (auto simp: suffix_def childPath_of)

lemma childPath_not_claim: "suffix CLAIM_SUFFIX n' \<Longrightarrow> childPath n \<noteq> n'"
  using not_claim_and_child child_name by metis

section \<open>Reading depends on two files\<close>

definition same_claim :: "claim_set \<Rightarrow> claim_set \<Rightarrow> claim_mode \<Rightarrow> string \<Rightarrow> bool" where
  "same_claim s t m n \<longleftrightarrow> file_at t m n = file_at s m n \<and> file_at t m (childPath n) = file_at s m (childPath n)"

lemma same_claim_refl [simp]: "same_claim s s m n"
  by (simp add: same_claim_def)

lemma same_claim_trans: "same_claim s t m n \<Longrightarrow> same_claim t u m n \<Longrightarrow> same_claim s u m n"
  by (simp add: same_claim_def)

lemma same_claim_reads:
  assumes "same_claim s t m n"
  shows "readChild t m n = readChild s m n" and "readClaim t m n = readClaim s m n" and "childLiveness w t m n = childLiveness w s m n"
proof -
  show c: "readChild t m n = readChild s m n"
    using assms by (simp add: same_claim_def readChild_def readRecord_def)
  then show "childLiveness w t m n = childLiveness w s m n" by (simp add: childLiveness_def)
  show "readClaim t m n = readClaim s m n"
    using assms unfolding readClaim_def readRecord_def c same_claim_def by simp
qed

lemma same_claim_liveness: "same_claim s t (h_mode h) (h_name h) \<Longrightarrow> claimLiveness w t h = claimLiveness w s h"
  unfolding claimLiveness_def by (simp only: same_claim_reads(3))

lemma readClaim_Read:
  assumes "readClaim s m n = Read h"
  shows "h_mode h = m" and "h_name h = n" and "file_at s m n \<noteq> None"
  using assms by (auto simp: readClaim_def readRecord_def split: option.splits reading.splits if_splits claim_file.splits)

lemma readClaim_present: "readClaim s m n \<noteq> Absent \<longleftrightarrow> file_at s m n \<noteq> None"
  by (auto simp: readClaim_def readRecord_def split: option.splits reading.splits if_splits claim_file.splits)

lemma live_owner: "inspectProcessIdentity w (owner h) = Same \<Longrightarrow> claimLiveness w s h = Live"
  by (simp add: claimLiveness_def)

section \<open>What a survey finds\<close>

definition found :: "os \<Rightarrow> claim_set \<Rightarrow> claim_mode \<Rightarrow> liveness \<Rightarrow> string set \<Rightarrow> claim_holder set" where
  "found w s m l ns = {h. \<exists>n \<in> ns. suffix CLAIM_SUFFIX n \<and> readClaim s m n = Read h \<and> claimLiveness w s h = l}"

lemma survey_fold:
  "set (sv_live (fold (survey_one w s m) ns v)) = set (sv_live v) \<union> found w s m Live (set ns) \<and>
   set (sv_dead (fold (survey_one w s m) ns v)) = set (sv_dead v) \<union> found w s m Dead (set ns) \<and>
   sv_orphans (fold (survey_one w s m) ns v) = sv_orphans v \<and>
   (\<exists>us. sv_unresolved (fold (survey_one w s m) ns v) = sv_unresolved v @ us \<and>
     (us = [] \<longleftrightarrow> (\<forall>n \<in> set ns. suffix CLAIM_SUFFIX n \<longrightarrow>
        readClaim s m n = Absent \<or> (\<exists>h. readClaim s m n = Read h \<and> claimLiveness w s h \<noteq> Unknown))))"
proof (induction ns arbitrary: v)
  case Nil
  show ?case by (simp add: found_def)
next
  case (Cons n ns)
  have one: "set (sv_live (survey_one w s m n v)) = set (sv_live v) \<union> found w s m Live {n} \<and>
     set (sv_dead (survey_one w s m n v)) = set (sv_dead v) \<union> found w s m Dead {n} \<and> sv_orphans (survey_one w s m n v) = sv_orphans v \<and>
     (\<exists>us. sv_unresolved (survey_one w s m n v) = sv_unresolved v @ us \<and>
       (us = [] \<longleftrightarrow> (suffix CLAIM_SUFFIX n \<longrightarrow> readClaim s m n = Absent \<or> (\<exists>h. readClaim s m n = Read h \<and> claimLiveness w s h \<noteq> Unknown))))"
    by (auto simp: survey_one_def found_def split: reading.splits liveness.splits)
  have "found w s m l (set (n # ns)) = found w s m l {n} \<union> found w s m l (set ns)" for l
    by (auto simp: found_def)
  with one Cons.IH [of "survey_one w s m n v"] show ?case by (auto simp del: survey_one_def)
qed

definition claims_in :: "os \<Rightarrow> claim_set \<Rightarrow> claim_mode \<Rightarrow> liveness \<Rightarrow> claim_holder set" where
  "claims_in w s m l = {h. \<exists>n. suffix CLAIM_SUFFIX n \<and> readClaim s m n = Read h \<and> claimLiveness w s h = l}"

definition resolved :: "os \<Rightarrow> claim_set \<Rightarrow> claim_mode \<Rightarrow> bool" where
  "resolved w s m \<longleftrightarrow> (\<forall>n. suffix CLAIM_SUFFIX n \<longrightarrow>
     readClaim s m n = Absent \<or> (\<exists>h. readClaim s m n = Read h \<and> claimLiveness w s h \<noteq> Unknown))"

definition orphans_in :: "claim_set \<Rightarrow> claim_mode \<Rightarrow> (claim_mode \<times> string) set" where
  "orphans_in s m = {(m', n). m' = m \<and> suffix CHILD_SUFFIX n \<and> file_at s m n \<noteq> None \<and> file_at s m (take (length n - 6) n @ CLAIM_SUFFIX) = None}"

definition own_names :: "claim_set \<Rightarrow> claim_mode \<Rightarrow> bool" where
  "own_names s m \<longleftrightarrow> (\<forall>n. file_at s m n \<noteq> None \<longrightarrow> suffix CLAIM_SUFFIX n \<or> suffix CHILD_SUFFIX n)"

lemma names_listed: "names (dir_of m s) = Some ns \<Longrightarrow> set ns = {n. file_at s m n \<noteq> None}"
  unfolding file_at_listed set_eq_iff mem_Collect_eq by (force simp: names_def split: dir.splits)

lemma names_BadDir [simp]: "names BadDir = None"
  by (simp add: names_def)

lemma names_None: "names (dir_of m s) = None \<longleftrightarrow> dir_of m s = BadDir"
  by (simp add: names_def split: dir.splits)

lemma found_all: "names (dir_of m s) = Some ns \<Longrightarrow> found w s m l (set ns) = claims_in w s m l"
  using readClaim_Read(3) by (fastforce simp: found_def claims_in_def names_listed)

lemma claims_in_BadDir: "dir_of m s = BadDir \<Longrightarrow> claims_in w s m l = {} \<and> orphans_in s m = {}"
proof -
  assume "dir_of m s = BadDir"
  then have "file_at s m n = None" for n by (simp add: file_at_def)
  then show "claims_in w s m l = {} \<and> orphans_in s m = {}" by (auto simp: claims_in_def orphans_in_def dest!: readClaim_Read(3))
qed

lemma survey_finds:
  "set (sv_live (survey w s m v)) = set (sv_live v) \<union> claims_in w s m Live \<and>
   set (sv_dead (survey w s m v)) = set (sv_dead v) \<union> claims_in w s m Dead \<and>
   set (sv_orphans (survey w s m v)) = set (sv_orphans v) \<union> orphans_in s m"
proof (cases "names (dir_of m s)")
  case None
  then show ?thesis by (simp add: survey_def names_None claims_in_BadDir)
next
  case (Some ns)
  let ?v = "v\<lparr>sv_orphans := sv_orphans v @ map (Pair m) (orphan_names ns)\<rparr>"
  have "Pair m ` set (orphan_names ns) = orphans_in s m"
    by (auto simp: orphan_names_def orphans_in_def names_listed [OF Some])
  with survey_fold [of w s m ns ?v] Some show ?thesis by (simp add: survey_def Let_def found_all)
qed

lemma survey_unresolved:
  "\<exists>us. sv_unresolved (survey w s m v) = sv_unresolved v @ us \<and>
     (us = [] \<longrightarrow> dir_of m s \<noteq> BadDir \<and> resolved w s m) \<and>
     (dir_of m s \<noteq> BadDir \<and> resolved w s m \<and> own_names s m \<longrightarrow> us = [])"
proof (cases "names (dir_of m s)")
  case None
  then show ?thesis by (simp add: survey_def names_None)
next
  case (Some ns)
  let ?v = "v\<lparr>sv_orphans := sv_orphans v @ map (Pair m) (orphan_names ns)\<rparr>"
  let ?bad = "filter (\<lambda>n. n \<notin> set (orphan_names ns)) ns \<noteq> [] \<and> filter (suffix CLAIM_SUFFIX) ns = []"
  have set_ns: "set ns = {n. file_at s m n \<noteq> None}" by (rule names_listed [OF Some])
  have res: "resolved w s m \<longleftrightarrow> (\<forall>n \<in> set ns. suffix CLAIM_SUFFIX n \<longrightarrow>
      readClaim s m n = Absent \<or> (\<exists>h. readClaim s m n = Read h \<and> claimLiveness w s h \<noteq> Unknown))"
    unfolding resolved_def set_ns using readClaim_present by blast
  have good: "\<not> ?bad" if "own_names s m"
    using that by (auto simp: own_names_def filter_empty_conv orphan_names_def set_ns) (metis suffix_def)
  from survey_fold [of w s m ns ?v] obtain us where us: "sv_unresolved (fold (survey_one w s m) ns ?v) = sv_unresolved v @ us"
    "us = [] \<longleftrightarrow> resolved w s m" unfolding res by auto
  have ok: "dir_of m s \<noteq> BadDir" using Some names_None by (metis option.distinct(1))
  show ?thesis
  proof (cases ?bad)
    case True
    with Some us good show ?thesis by (auto simp: survey_def Let_def)
  next
    case False
    then have "survey w s m v = fold (survey_one w s m) ns ?v" using Some by (simp add: survey_def Let_def)
    with us ok show ?thesis by auto
  qed
qed

lemma no_survey_unresolved: "sv_unresolved no_survey = []"
  by (simp add: no_survey_def)

lemma readClaimSet_finds:
  assumes "set_root s = RootDir"
  shows "set (sv_live (readClaimSet w s)) = claims_in w s Exclusive Live \<union> claims_in w s Shared Live"
    and "set (sv_dead (readClaimSet w s)) = claims_in w s Exclusive Dead \<union> claims_in w s Shared Dead"
    and "set (sv_orphans (readClaimSet w s)) = orphans_in s Exclusive \<union> orphans_in s Shared"
  using assms by (auto simp: readClaimSet_def survey_finds no_survey_def)

lemma readClaimSet_resolved:
  assumes "set_root s = RootDir"
  shows "sv_unresolved (readClaimSet w s) = [] \<Longrightarrow> dir_of m s \<noteq> BadDir \<and> resolved w s m"
    and "\<lbrakk>\<And>m. dir_of m s \<noteq> BadDir; \<And>m. resolved w s m; \<And>m. own_names s m\<rbrakk> \<Longrightarrow> sv_unresolved (readClaimSet w s) = []"
proof -
  let ?v = "survey w s Exclusive no_survey"
  obtain us where u: "sv_unresolved ?v = us" "us = [] \<longrightarrow> dir_of Exclusive s \<noteq> BadDir \<and> resolved w s Exclusive"
      "dir_of Exclusive s \<noteq> BadDir \<and> resolved w s Exclusive \<and> own_names s Exclusive \<longrightarrow> us = []"
    using survey_unresolved [of w s Exclusive no_survey] no_survey_unresolved by (metis append_Nil)
  obtain vs where v: "sv_unresolved (survey w s Shared ?v) = us @ vs" "vs = [] \<longrightarrow> dir_of Shared s \<noteq> BadDir \<and> resolved w s Shared"
      "dir_of Shared s \<noteq> BadDir \<and> resolved w s Shared \<and> own_names s Shared \<longrightarrow> vs = []"
    using survey_unresolved [of w s Shared ?v] unfolding u(1) by blast
  have r: "sv_unresolved (readClaimSet w s) = us @ vs" using assms v(1) by (simp add: readClaimSet_def)
  show "sv_unresolved (readClaimSet w s) = [] \<Longrightarrow> dir_of m s \<noteq> BadDir \<and> resolved w s m"
    using r u(2) v(2) by (cases m) auto
  show "\<lbrakk>\<And>m. dir_of m s \<noteq> BadDir; \<And>m. resolved w s m; \<And>m. own_names s m\<rbrakk> \<Longrightarrow> sv_unresolved (readClaimSet w s) = []"
    using r u(3) v(3) by (simp del: dir_of.simps)
qed

text \<open>No claim is surveyed twice.\<close>

lemma survey_fold_distinct:
  "distinct ns \<Longrightarrow> distinct (sv_live v) \<Longrightarrow> \<forall>h \<in> set (sv_live v). h_mode h = m \<longrightarrow> h_name h \<notin> set ns \<Longrightarrow>
     distinct (sv_live (fold (survey_one w s m) ns v))"
proof (induction ns arbitrary: v)
  case (Cons n ns)
  have "sv_live (survey_one w s m n v) = sv_live v \<or> (\<exists>h. sv_live (survey_one w s m n v) = sv_live v @ [h] \<and> h_mode h = m \<and> h_name h = n)"
    using readClaim_Read(1,2) by (fastforce simp: survey_one_def split: reading.splits liveness.splits)
  with Cons.prems have "distinct (sv_live (survey_one w s m n v))" "\<forall>h \<in> set (sv_live (survey_one w s m n v)). h_mode h = m \<longrightarrow> h_name h \<notin> set ns"
    by auto
  with Cons show ?case by simp
qed simp

lemma survey_distinct:
  assumes "distinct (sv_live v)" "\<forall>h \<in> set (sv_live v). h_mode h \<noteq> m"
  shows "distinct (sv_live (survey w s m v))"
proof (cases "names (dir_of m s)")
  case (Some ns)
  then have "distinct ns" by (auto simp: names_def split: dir.splits)
  from survey_fold_distinct [OF this, of "v\<lparr>sv_orphans := sv_orphans v @ map (Pair m) (orphan_names ns)\<rparr>" m w s] assms Some
  show ?thesis by (simp add: survey_def Let_def)
qed (use assms in \<open>simp add: survey_def\<close>)

lemma readClaimSet_distinct: "distinct (sv_live (readClaimSet w s))"
proof -
  have "distinct (sv_live (survey w s Exclusive no_survey))" by (rule survey_distinct) (simp_all add: no_survey_def)
  moreover have "\<forall>h \<in> set (sv_live (survey w s Exclusive no_survey)). h_mode h \<noteq> Shared"
    using survey_finds [of w s Exclusive no_survey] readClaim_Read(1) by (fastforce simp: no_survey_def claims_in_def)
  ultimately show ?thesis using survey_distinct by (auto simp: readClaimSet_def no_survey_def split: root_dir.splits)
qed

lemma readClaimSet_root: "sv_unresolved (readClaimSet w s) = [] \<Longrightarrow> set_root s = RootDir \<or> set_root s = RootAbsent"
  by (auto simp: readClaimSet_def split: root_dir.splits)

section \<open>What removals leave in place\<close>

lemma removeOrRefuse_laws:
  assumes "removeOrRefuse m n c s = (r, t)"
  shows "(m', n') \<noteq> (m, n) \<Longrightarrow> file_at t m' n' = file_at s m' n'"
    and "r = None \<Longrightarrow> file_at t m n = None"
    and "set_root t = set_root s" and "undeletable t = undeletable s" and "leftovers t = leftovers s"
    and "undeletable s = [] \<Longrightarrow> r = None"
    and "dir_of m' s \<noteq> BadDir \<Longrightarrow> dir_of m' t \<noteq> BadDir"
  using assms by (auto simp: removeOrRefuse_def split: if_splits option.splits)

lemma removeOrRefuse_other:
  "removeOrRefuse m n c s = (r, t) \<Longrightarrow> (m', n') \<noteq> (m, n) \<Longrightarrow> (m', childPath n') \<noteq> (m, n) \<Longrightarrow> same_claim s t m' n'"
  using removeOrRefuse_laws(1) by (auto simp: same_claim_def)

lemma remove_orphans_laws:
  assumes "remove_orphans os s = (r, t)"
  shows "(m, n) \<notin> set os \<Longrightarrow> file_at t m n = file_at s m n"
    and "r = None \<Longrightarrow> (m, n) \<in> set os \<Longrightarrow> file_at t m n = None"
    and "set_root t = set_root s \<and> undeletable t = undeletable s \<and> leftovers t = leftovers s"
    and "undeletable s = [] \<Longrightarrow> r = None"
    and "dir_of m s \<noteq> BadDir \<Longrightarrow> dir_of m t \<noteq> BadDir"
proof -
  have "((m, n) \<notin> set os \<longrightarrow> file_at t m n = file_at s m n) \<and> (r = None \<longrightarrow> (m, n) \<in> set os \<longrightarrow> file_at t m n = None) \<and>
     set_root t = set_root s \<and> undeletable t = undeletable s \<and> leftovers t = leftovers s \<and> (undeletable s = [] \<longrightarrow> r = None) \<and>
     (dir_of m s \<noteq> BadDir \<longrightarrow> dir_of m t \<noteq> BadDir)"
    using assms
  proof (induction os arbitrary: s)
    case Nil
    then show ?case by simp
  next
    case (Cons a os)
    obtain m' n' where a: "a = (m', n')" by (cases a)
    obtain r' s' where one: "removeOrRefuse m' n' n' s = (r', s')" by (cases "removeOrRefuse m' n' n' s")
    note laws = removeOrRefuse_laws [OF one]
    show ?case
    proof (cases r')
      case (Some e)
      with Cons.prems one a have "t = s'" "r = Some e" by auto
      with Some laws a show ?thesis by auto
    next
      case None
      with Cons.prems one a have "remove_orphans os s' = (r, t)" by simp
      from Cons.IH [OF this] laws a None show ?thesis by (cases "(m, n) \<in> set os"; cases "(m, n) = (m', n')"; auto)
    qed
  qed
  then show "(m, n) \<notin> set os \<Longrightarrow> file_at t m n = file_at s m n"
    and "r = None \<Longrightarrow> (m, n) \<in> set os \<Longrightarrow> file_at t m n = None"
    and "set_root t = set_root s \<and> undeletable t = undeletable s \<and> leftovers t = leftovers s"
    and "undeletable s = [] \<Longrightarrow> r = None" and "dir_of m s \<noteq> BadDir \<Longrightarrow> dir_of m t \<noteq> BadDir" by blast+
qed

lemma reap_cases:
  assumes "reap h s = (r, t)"
  obtains "t = s" "r = Inr (readClaim s (h_mode h) (h_name h) = Absent)"
  | again r1 s1 r2 where "readClaim s (h_mode h) (h_name h) = Read again" "claimId again = claimId h"
      "removeOrRefuse (h_mode h) (childPath (h_name h)) (h_name h) s = (r1, s1)"
      "r1 = None \<Longrightarrow> removeOrRefuse (h_mode h) (h_name h) (h_name h) s1 = (r2, t)" "r1 \<noteq> None \<Longrightarrow> t = s1 \<and> r = Inl (the r1)"
      "r1 = None \<Longrightarrow> r = (case r2 of Some e \<Rightarrow> Inl e | None \<Rightarrow> Inr True)"
proof (cases "readClaim s (h_mode h) (h_name h)")
  case (Read again)
  show ?thesis
  proof (cases "claimId again = claimId h")
    case True
    obtain r1 s1 where 1: "removeOrRefuse (h_mode h) (childPath (h_name h)) (h_name h) s = (r1, s1)" by fastforce
    obtain r2 s2 where 2: "removeOrRefuse (h_mode h) (h_name h) (h_name h) s1 = (r2, s2)" by fastforce
    from assms Read True 1 2 have "r1 = None \<Longrightarrow> s2 = t" "r1 \<noteq> None \<Longrightarrow> t = s1 \<and> r = Inl (the r1)"
      "r1 = None \<Longrightarrow> r = (case r2 of Some e \<Rightarrow> Inl e | None \<Rightarrow> Inr True)"
      by (auto simp: reap_def split: option.splits)
    with that(2) [OF Read True 1] 2 show ?thesis by blast
  qed (use assms Read that in \<open>auto simp: reap_def\<close>)
qed (use assms that in \<open>auto simp: reap_def\<close>)

lemma reap_laws:
  assumes "reap h s = (r, t)"
  shows "(m, n) \<noteq> (h_mode h, h_name h) \<Longrightarrow> (m, n) \<noteq> (h_mode h, childPath (h_name h)) \<Longrightarrow> file_at t m n = file_at s m n"
    and "set_root t = set_root s \<and> undeletable t = undeletable s \<and> leftovers t = leftovers s"
    and "undeletable s = [] \<Longrightarrow> \<exists>b. r = Inr b"
    and "dir_of m s \<noteq> BadDir \<Longrightarrow> dir_of m t \<noteq> BadDir"
    and "readClaim s (h_mode h) (h_name h) = Read h \<Longrightarrow> r = Inr b \<Longrightarrow> suffix CLAIM_SUFFIX (h_name h) \<Longrightarrow>
      b \<and> file_at t (h_mode h) (h_name h) = None \<and> file_at t (h_mode h) (childPath (h_name h)) = None"
proof -
  from assms have "((m, n) \<noteq> (h_mode h, h_name h) \<longrightarrow> (m, n) \<noteq> (h_mode h, childPath (h_name h)) \<longrightarrow> file_at t m n = file_at s m n) \<and>
     (set_root t = set_root s \<and> undeletable t = undeletable s \<and> leftovers t = leftovers s) \<and>
     (undeletable s = [] \<longrightarrow> (\<exists>b. r = Inr b)) \<and> (dir_of m s \<noteq> BadDir \<longrightarrow> dir_of m t \<noteq> BadDir) \<and>
     (readClaim s (h_mode h) (h_name h) = Read h \<longrightarrow> r = Inr b \<longrightarrow> suffix CLAIM_SUFFIX (h_name h) \<longrightarrow>
      b \<and> file_at t (h_mode h) (h_name h) = None \<and> file_at t (h_mode h) (childPath (h_name h)) = None)"
  proof (cases rule: reap_cases)
    case 1
    then show ?thesis using assms by (auto simp: reap_def split: option.splits prod.splits dest: removeOrRefuse_laws(2))
  next
    case (2 again r1 s1 r2)
    note l1 = removeOrRefuse_laws [OF 2(3)]
    show ?thesis
    proof (cases r1)
      case (Some e)
      with 2(5) l1 show ?thesis by auto
    next
      case None
      note l2 = removeOrRefuse_laws [OF 2(4) [OF None]]
      show ?thesis using None l1 l2 2(6) childPath_not_claim by (auto split: option.splits)
    qed
  qed
  then show "(m, n) \<noteq> (h_mode h, h_name h) \<Longrightarrow> (m, n) \<noteq> (h_mode h, childPath (h_name h)) \<Longrightarrow> file_at t m n = file_at s m n"
    and "set_root t = set_root s \<and> undeletable t = undeletable s \<and> leftovers t = leftovers s"
    and "undeletable s = [] \<Longrightarrow> \<exists>b. r = Inr b"
    and "dir_of m s \<noteq> BadDir \<Longrightarrow> dir_of m t \<noteq> BadDir"
    and "readClaim s (h_mode h) (h_name h) = Read h \<Longrightarrow> r = Inr b \<Longrightarrow> suffix CLAIM_SUFFIX (h_name h) \<Longrightarrow>
      b \<and> file_at t (h_mode h) (h_name h) = None \<and> file_at t (h_mode h) (childPath (h_name h)) = None" by blast+
qed

lemma reap_other:
  assumes "reap h s = (r, t)" "suffix CLAIM_SUFFIX (h_name h)" "suffix CLAIM_SUFFIX n" "(m, n) \<noteq> (h_mode h, h_name h)"
  shows "same_claim s t m n"
  unfolding same_claim_def using assms reap_laws(1) [OF assms(1)] childPath_not_claim childPath_inj by (metis prod.inject)

lemma reap_all_keeps:
  assumes "reap_all hs s = (r, t)" "\<forall>h \<in> set hs. suffix CLAIM_SUFFIX (h_name h)"
  shows "(suffix CLAIM_SUFFIX n \<longrightarrow> (\<forall>h \<in> set hs. (m, n) \<noteq> (h_mode h, h_name h)) \<longrightarrow> same_claim s t m n) \<and>
    (set_root t = set_root s \<and> undeletable t = undeletable s \<and> leftovers t = leftovers s) \<and>
    (undeletable s = [] \<longrightarrow> (\<exists>rs. r = Inr rs)) \<and> (dir_of m s \<noteq> BadDir \<longrightarrow> dir_of m t \<noteq> BadDir)"
  using assms
proof (induction hs arbitrary: s r)
  case Nil
  then show ?case by auto
next
  case (Cons a hs)
  obtain r' s' where one: "reap a s = (r', s')" by fastforce
  note laws = reap_laws(2-4) [OF one] and other = reap_other [OF one]
  show ?case
  proof (cases r')
    case (Inl e)
    with Cons.prems one have "t = s'" "r = Inl e" by auto
    with Inl laws other Cons.prems(2) show ?thesis by auto
  next
    case (Inr b)
    with Cons.prems one obtain r2 where rest: "reap_all hs s' = (r2, t)" and r: "\<And>rs. r2 = Inr rs \<Longrightarrow> \<exists>rs. r = Inr rs"
      by (fastforce split: prod.splits sum.splits)
    from Cons.prems(2) have "\<forall>h \<in> set hs. suffix CLAIM_SUFFIX (h_name h)" by simp
    from Cons.IH [OF rest this] laws other [of n m] r Cons.prems(2) same_claim_trans [of s s' m n t] show ?thesis by auto
  qed
qed

lemma reap_shrinks:
  assumes "reap h s = (r, t)"
  shows "file_at t m n = None \<or> file_at t m n = file_at s m n"
  using assms
proof (cases rule: reap_cases)
  case (2 again r1 s1 r2)
  have "file_at s1 m n = None \<or> file_at s1 m n = file_at s m n"
    using 2(3) by (auto simp: removeOrRefuse_def split: if_splits option.splits)
  moreover have "file_at t m n = None \<or> file_at t m n = file_at s1 m n"
    using 2(4,5) by (cases r1) (auto simp: removeOrRefuse_def split: if_splits option.splits)
  ultimately show ?thesis by auto
qed auto

lemma reap_all_shrinks: "reap_all hs s = (r, t) \<Longrightarrow> file_at s m n = None \<Longrightarrow> file_at t m n = None"
proof (induction hs arbitrary: s r)
  case (Cons a hs)
  obtain r' s' where one: "reap a s = (r', s')" by fastforce
  with reap_shrinks [OF one, of m n] Cons.prems have "file_at s' m n = None" by auto
  with Cons one show ?case by (cases r') (fastforce split: prod.splits sum.splits)+
qed simp

definition reapable :: "claim_set \<Rightarrow> claim_holder \<Rightarrow> bool" where
  "reapable s h \<longleftrightarrow> suffix CLAIM_SUFFIX (h_name h) \<and> (readClaim s (h_mode h) (h_name h) = Read h \<or>
     file_at s (h_mode h) (h_name h) = None \<and> file_at s (h_mode h) (childPath (h_name h)) = None)"

lemma reap_removes:
  assumes "reap h s = (Inr b, t)" "reapable s h"
  shows "b \<and> file_at t (h_mode h) (h_name h) = None \<and> file_at t (h_mode h) (childPath (h_name h)) = None"
proof (cases "readClaim s (h_mode h) (h_name h) = Read h")
  case True
  with assms reap_laws(5) [OF assms(1)] show ?thesis by (auto simp: reapable_def)
next
  case False
  with assms(2) have "readClaim s (h_mode h) (h_name h) = Absent" using readClaim_present [of s "h_mode h" "h_name h"] by (auto simp: reapable_def)
  with assms False show ?thesis by (auto simp: reap_def reapable_def)
qed

lemma reap_all_removes:
  assumes "reap_all hs s = (Inr rs, t)" "\<And>h. h \<in> set hs \<Longrightarrow> reapable s h"
  shows "rs = hs \<and> (\<forall>h \<in> set hs. file_at t (h_mode h) (h_name h) = None \<and> file_at t (h_mode h) (childPath (h_name h)) = None)"
  using assms
proof (induction hs arbitrary: s rs)
  case Nil
  then show ?case by simp
next
  case (Cons a hs)
  obtain b s' rs' where one: "reap a s = (Inr b, s')" and rest: "reap_all hs s' = (Inr rs', t)" and rs: "rs = (if b then a # rs' else rs')"
    using Cons.prems(1) by (auto split: prod.splits sum.splits)
  note a = reap_removes [OF one Cons.prems(2) [of a, simplified]]
  have still: "reapable s' h" if "h \<in> set hs" for h
  proof (cases "(h_mode h, h_name h) = (h_mode a, h_name a)")
    case True
    with a Cons.prems(2) [of h] that show ?thesis by (simp add: reapable_def)
  next
    case False
    with reap_other [OF one, of "h_name h" "h_mode h"] Cons.prems(2) [of h] Cons.prems(2) [of a] that
    have same: "same_claim s s' (h_mode h) (h_name h)" by (auto simp: reapable_def)
    then show ?thesis using Cons.prems(2) [of h] that same_claim_reads(2) [OF same]
      by (simp only: reapable_def same_claim_def list.set_intros)
  qed
  from Cons.IH [OF rest still] reap_all_shrinks [OF rest] a rs show ?case by auto
qed

section \<open>Inspection\<close>

lemma claims_in_dead: "h \<in> claims_in w s m l \<Longrightarrow> h_mode h = m \<and> suffix CLAIM_SUFFIX (h_name h) \<and> readClaim s m (h_name h) = Read h \<and> claimLiveness w s h = l"
  using readClaim_Read(1,2) by (fastforce simp: claims_in_def)

lemma survey_dead:
  assumes "h \<in> set (sv_dead (readClaimSet w s))"
  shows "suffix CLAIM_SUFFIX (h_name h) \<and> readClaim s (h_mode h) (h_name h) = Read h \<and> claimLiveness w s h = Dead \<and> set_root s = RootDir"
proof -
  have "set_root s = RootDir" using assms by (auto simp: readClaimSet_def no_survey_def split: root_dir.splits)
  with assms readClaimSet_finds(2) [OF this, of w] show ?thesis
    using claims_in_dead [of h w s Exclusive Dead] claims_in_dead [of h w s Shared Dead] by auto
qed

lemma survey_orphan:
  assumes "(m, n) \<in> set (sv_orphans (readClaimSet w s))"
  shows "suffix CHILD_SUFFIX n \<and> file_at s m (take (length n - 6) n @ CLAIM_SUFFIX) = None"
proof -
  have "set_root s = RootDir" using assms by (auto simp: readClaimSet_def no_survey_def split: root_dir.splits)
  with assms readClaimSet_finds(3) [OF this, of w] show ?thesis by (auto simp: orphans_in_def)
qed

lemma inspect_cases:
  assumes "inspectClaimSet w s = (r, t)"
  obtains e where "r = Inl e" "t = s" "sv_unresolved (readClaimSet w s) \<noteq> []"
  | e where "r = Inl e" "remove_orphans (sv_orphans (readClaimSet w s)) s = (Some e, t)" "sv_unresolved (readClaimSet w s) = []"
  | e s1 where "r = Inl e" "remove_orphans (sv_orphans (readClaimSet w s)) s = (None, s1)" "reap_all (sv_dead (readClaimSet w s)) s1 = (Inl e, t)"
      "sv_unresolved (readClaimSet w s) = []"
  | s1 s2 reaped where "remove_orphans (sv_orphans (readClaimSet w s)) s = (None, s1)" "reap_all (sv_dead (readClaimSet w s)) s1 = (Inr reaped, s2)"
      "r = Inr \<lparr>st_exclusive = List.find (\<lambda>h. h_mode h = Exclusive) (sv_live (readClaimSet w s)),
         st_shared = filter (\<lambda>h. h_mode h = Shared) (sv_live (readClaimSet w s)), st_reaped = reaped\<rparr>"
      "t = (let s3 = (if \<not> (\<exists>h \<in> set (sv_live (readClaimSet w s)). h_mode h = Exclusive) then tidy Exclusive s2 else s2)
            in if \<not> (\<exists>h \<in> set (sv_live (readClaimSet w s)). h_mode h = Shared) then tidy Shared s3 else s3)"
      "sv_unresolved (readClaimSet w s) = []"
proof (cases "sv_unresolved (readClaimSet w s)")
  case (Cons a us)
  with assms that(1) show ?thesis by (cases a) (auto simp: inspectClaimSet_def Let_def)
next
  case Nil
  obtain r1 s1 where 1: "remove_orphans (sv_orphans (readClaimSet w s)) s = (r1, s1)" by fastforce
  obtain r2 s2 where 2: "reap_all (sv_dead (readClaimSet w s)) s1 = (r2, s2)" by fastforce
  show ?thesis
  proof (cases r1)
    case (Some e)
    with assms Nil 1 that(2) show ?thesis by (auto simp: inspectClaimSet_def Let_def)
  next
    case None
    show ?thesis
    proof (cases r2)
      case (Inl e)
      with assms Nil None 1 2 that(3) show ?thesis by (auto simp: inspectClaimSet_def Let_def)
    next
      case (Inr reaped)
      with assms Nil None 1 2 show ?thesis by (intro that(4) [of s1 reaped s2]) (simp_all add: inspectClaimSet_def Let_def)
    qed
  qed
qed

lemma inspect_frame:
  assumes "inspectClaimSet w s = (r, t)"
  shows "set_root t = set_root s \<and> undeletable t = undeletable s \<and> leftovers t = leftovers s"
  using assms
proof (cases rule: inspect_cases)
  case (2 e)
  then show ?thesis using remove_orphans_laws(3) by blast
next
  case (3 e s1)
  then show ?thesis using remove_orphans_laws(3) [OF 3(2)] reap_all_keeps [OF 3(3)] survey_dead by simp
next
  case (4 s1 s2 reaped)
  then show ?thesis using remove_orphans_laws(3) [OF 4(1)] reap_all_keeps [OF 4(2)] survey_dead by (simp add: Let_def)
qed simp

lemma claim_of_child: "suffix CLAIM_SUFFIX n \<Longrightarrow> take (length (childPath n) - 6) (childPath n) @ CLAIM_SUFFIX = n"
  by (auto simp: suffix_def childPath_of)

lemma inspect_keeps:
  assumes run: "inspectClaimSet w s = (r, t)" and n: "suffix CLAIM_SUFFIX n" "file_at s m n \<noteq> None"
    and held: "\<And>h. readClaim s m n = Read h \<Longrightarrow> claimLiveness w s h \<noteq> Dead"
  shows "same_claim s t m n"
proof -
  let ?v = "readClaimSet w s"
  have orphans: "(m, n) \<notin> set (sv_orphans ?v) \<and> (m, childPath n) \<notin> set (sv_orphans ?v)"
    using survey_orphan [of m n w s] survey_orphan [of m "childPath n" w s] not_claim_and_child [OF n(1)] claim_of_child [OF n(1)] n(2) by metis
  have kept1: "same_claim s s1 m n" if "remove_orphans (sv_orphans ?v) s = (r1, s1)" for r1 s1
    using remove_orphans_laws(1) [OF that] orphans by (simp add: same_claim_def)
  have dead: "\<forall>h \<in> set (sv_dead ?v). suffix CLAIM_SUFFIX (h_name h)" "\<forall>h \<in> set (sv_dead ?v). (m, n) \<noteq> (h_mode h, h_name h)"
    using survey_dead [of _ w s] held by auto
  have kept2: "same_claim s1 s2 m n" if "reap_all (sv_dead ?v) s1 = (r2, s2)" for r2 s1 s2
    using reap_all_keeps [OF that dead(1), of n m] n dead(2) by blast
  from run show ?thesis
  proof (cases rule: inspect_cases)
    case (2 e)
    then show ?thesis using kept1 by blast
  next
    case (3 e s1)
    then show ?thesis using kept1 kept2 same_claim_trans by blast
  next
    case (4 s1 s2 reaped)
    then have "same_claim s s2 m n" using kept1 kept2 same_claim_trans by blast
    moreover have "same_claim s2 t m n" using 4(4) by (simp add: same_claim_def Let_def)
    ultimately show ?thesis by (rule same_claim_trans)
  qed simp
qed

lemma inspect_result:
  assumes run: "inspectClaimSet w s = (Inr st, t)" and root: "set_root s = RootDir"
  shows "set (st_shared st) = claims_in w s Shared Live"
    and "st_exclusive st = None \<longleftrightarrow> claims_in w s Exclusive Live = {}"
    and "st_exclusive st = Some h \<Longrightarrow> h \<in> claims_in w s Exclusive Live"
    and "dir_of m s \<noteq> BadDir \<and> resolved w s m"
proof -
  have live: "set (sv_live (readClaimSet w s)) = claims_in w s Exclusive Live \<union> claims_in w s Shared Live"
    by (rule readClaimSet_finds(1) [OF root])
  have mode: "h_mode h = m'" if "h \<in> claims_in w s m' Live" for h m' using claims_in_dead [OF that] by simp
  have "sv_unresolved (readClaimSet w s) = []" and st: "st_exclusive st = List.find (\<lambda>h. h_mode h = Exclusive) (sv_live (readClaimSet w s))"
    "st_shared st = filter (\<lambda>h. h_mode h = Shared) (sv_live (readClaimSet w s))"
    using run by (auto elim: inspect_cases)
  then show "dir_of m s \<noteq> BadDir \<and> resolved w s m" using readClaimSet_resolved(1) [OF root] by blast
  show "set (st_shared st) = claims_in w s Shared Live" unfolding st set_filter live using mode by force
  show "st_exclusive st = None \<longleftrightarrow> claims_in w s Exclusive Live = {}" unfolding st find_None_iff live using mode by force
  show "st_exclusive st = Some h \<Longrightarrow> h \<in> claims_in w s Exclusive Live" unfolding st find_Some_iff using live mode nth_mem by fastforce
qed

end
