(* ===== verification/Claim_Protocol.thy ===== *)
theory Claim_Protocol
  imports Claim_Laws
begin

text \<open>
  Ownership claims under contention (\<open>packages/core/ownership-claim.ts\<close>). Here the steps of
  \<open>tryAcquireClaim\<close>, \<open>settleClaim\<close>, \<open>releaseClaim\<close> and of the child records interleave, almost one file
  system operation at a time, with those of every other process, with crashes at any point and with
  the exit of children. An attempt is known by its claim id (a UUID, so never used twice): it
  publishes its file by a rename, lists the directory of the other mode, looks at each listed claim
  and keeps, gives up or waits. A rename onto \<open>exclusive\<close> succeeds only while that directory is
  missing or empty. Whoever finds a claim dead may remove it, now or later: a claim that is dead
  stays dead, so the removal may come at any time after the look. Taken together as one step are the two
  unlinks of a release (the child's record, then the claim) and the look at one claim (its owner, then its
  child); the removal of child records that belong to no claim is no step.
\<close>

section \<open>State\<close>

datatype child_record = NoChild | PendingChild | ChildGroup nat

datatype phase =
    Unborn
  | Published
  | Checking "nat set"
  | Waiting
  | Held
  | Ended

record world =
  excl :: "nat set"
  shared :: "nat set"
  mode_of :: "nat \<Rightarrow> claim_mode"
  owner_of :: "nat \<Rightarrow> nat"
  phase_of :: "nat \<Rightarrow> phase"
  child_of :: "nat \<Rightarrow> child_record"
  running :: "nat set"
  groups :: "nat set"

definition start_world :: world where
  "start_world = \<lparr>excl = {}, shared = {}, mode_of = (\<lambda>_. Shared), owner_of = (\<lambda>_. 0), phase_of = (\<lambda>_. Unborn),
     child_of = (\<lambda>_. NoChild), running = UNIV, groups = UNIV\<rparr>"

fun claims :: "claim_mode \<Rightarrow> world \<Rightarrow> nat set" where
  "claims Exclusive s = excl s"
| "claims Shared s = shared s"

fun opposite :: "claim_mode \<Rightarrow> claim_mode" where
  "opposite Exclusive = Shared"
| "opposite Shared = Exclusive"

text \<open>What \<open>claimLiveness\<close> answers for a claim: its owner first, then its child record.\<close>

definition live_of :: "world \<Rightarrow> nat \<Rightarrow> liveness" where
  "live_of s i = (if owner_of s i \<in> running s then Live
     else case child_of s i of NoChild \<Rightarrow> Dead | PendingChild \<Rightarrow> Unknown | ChildGroup g \<Rightarrow> if g \<in> groups s then Live else Dead)"

definition remove_claim :: "nat \<Rightarrow> world \<Rightarrow> world" where
  "remove_claim i s = s\<lparr>excl := excl s - {i}, shared := shared s - {i}\<rparr>"

definition enter :: "nat \<Rightarrow> phase \<Rightarrow> world \<Rightarrow> world" where
  "enter i p s = s\<lparr>phase_of := (phase_of s)(i := p)\<rparr>"

definition set_child :: "nat \<Rightarrow> child_record \<Rightarrow> world \<Rightarrow> world" where
  "set_child i c s = s\<lparr>child_of := (child_of s)(i := c)\<rparr>"

definition give_up :: "nat \<Rightarrow> world \<Rightarrow> world" where
  "give_up i s = enter i Ended (set_child i NoChild (remove_claim i s))"

abbreviation acts :: "world \<Rightarrow> nat \<Rightarrow> bool" where
  "acts s i \<equiv> owner_of s i \<in> running s"

section \<open>Steps\<close>

inductive claim_step :: "world \<Rightarrow> world \<Rightarrow> bool" where
  publish_shared: "\<lbrakk>phase_of s i = Unborn; p \<in> running s\<rbrakk> \<Longrightarrow>
     claim_step s (s\<lparr>shared := insert i (shared s), mode_of := (mode_of s)(i := Shared), owner_of := (owner_of s)(i := p),
       phase_of := (phase_of s)(i := Published)\<rparr>)"
| publish_exclusive: "\<lbrakk>phase_of s i = Unborn; p \<in> running s; excl s = {}\<rbrakk> \<Longrightarrow>
     claim_step s (s\<lparr>excl := {i}, mode_of := (mode_of s)(i := Exclusive), owner_of := (owner_of s)(i := p),
       phase_of := (phase_of s)(i := Published)\<rparr>)"
| list_claims: "\<lbrakk>phase_of s i = Published; acts s i\<rbrakk> \<Longrightarrow>
     claim_step s (enter i (Checking (claims (opposite (mode_of s i)) s)) s)"
| pass_over: "\<lbrakk>phase_of s i = Checking S; acts s i; j \<in> S; j \<notin> claims (opposite (mode_of s i)) s \<or> live_of s j = Dead\<rbrakk> \<Longrightarrow>
     claim_step s (enter i (Checking (S - {j})) s)"
| wait_for: "\<lbrakk>phase_of s i = Checking S; acts s i; mode_of s i = Exclusive; j \<in> S; live_of s j = Live\<rbrakk> \<Longrightarrow>
     claim_step s (enter i Waiting s)"
| settle_again: "\<lbrakk>phase_of s i = Waiting; acts s i\<rbrakk> \<Longrightarrow> claim_step s (enter i Published s)"
| acquire: "\<lbrakk>phase_of s i = Checking {}; acts s i\<rbrakk> \<Longrightarrow> claim_step s (enter i Held s)"
| release: "\<lbrakk>phase_of s i \<noteq> Unborn; phase_of s i \<noteq> Ended; acts s i\<rbrakk> \<Longrightarrow> claim_step s (give_up i s)"
| reap_dead: "live_of s i = Dead \<Longrightarrow> phase_of s i \<noteq> Unborn \<Longrightarrow> claim_step s (remove_claim i s)"
| child_pending: "\<lbrakk>phase_of s i = Held; acts s i\<rbrakk> \<Longrightarrow> claim_step s (set_child i PendingChild s)"
| child_recorded: "\<lbrakk>phase_of s i = Held; acts s i\<rbrakk> \<Longrightarrow> claim_step s (set_child i (ChildGroup g) s)"
| child_cleared: "\<lbrakk>phase_of s i = Held; acts s i\<rbrakk> \<Longrightarrow> claim_step s (set_child i NoChild s)"
| crash: "claim_step s (s\<lparr>running := running s - {p}\<rparr>)"
| child_exits: "claim_step s (s\<lparr>groups := groups s - {g}\<rparr>)"

inductive reachable_world :: "world \<Rightarrow> bool" where
  start: "reachable_world start_world"
| step: "reachable_world s \<Longrightarrow> claim_step s t \<Longrightarrow> reachable_world t"

text \<open>A claim in force: settled by its owner, and its owner or the child it recorded may still be at work.\<close>

definition in_force :: "world \<Rightarrow> nat \<Rightarrow> bool" where
  "in_force s i \<longleftrightarrow> phase_of s i = Held \<and> live_of s i \<noteq> Dead"

section \<open>Invariant\<close>

definition under_way :: "world \<Rightarrow> nat \<Rightarrow> bool" where
  "under_way s i \<longleftrightarrow> phase_of s i \<noteq> Unborn \<and> phase_of s i \<noteq> Ended \<and> live_of s i \<noteq> Dead"

text \<open>Attempt \<open>i\<close> has listed the other directory and has nothing against \<open>j\<close>.\<close>

definition missed :: "world \<Rightarrow> nat \<Rightarrow> nat \<Rightarrow> bool" where
  "missed s i j \<longleftrightarrow> phase_of s i = Held \<or> (\<exists>S. phase_of s i = Checking S \<and> j \<notin> S)"

definition world_inv :: "world \<Rightarrow> bool" where
  "world_inv s \<longleftrightarrow>
     (\<forall>i j. i \<in> excl s \<longrightarrow> j \<in> excl s \<longrightarrow> i = j) \<and>
     (\<forall>i. phase_of s i = Unborn \<longrightarrow> i \<notin> excl s \<and> i \<notin> shared s \<and> child_of s i = NoChild) \<and>
     (\<forall>i. under_way s i \<longrightarrow> i \<in> claims (mode_of s i) s) \<and>
     (\<forall>i j. under_way s i \<longrightarrow> under_way s j \<longrightarrow> mode_of s i = Exclusive \<longrightarrow> mode_of s j = Shared \<longrightarrow> \<not> (missed s i j \<and> missed s j i))"

lemma world_inv_start: "world_inv start_world"
  by (simp add: world_inv_def start_world_def under_way_def)

declare child_record.case_cong [cong]

lemma claims_alt: "claims m s = (if m = Exclusive then excl s else shared s)"
  by (cases m) simp_all

lemma live_of_enter [simp]: "live_of (enter i p s) j = live_of s j"
  by (simp add: live_of_def enter_def)

lemma enter_sel [simp]:
  "excl (enter i p s) = excl s" "shared (enter i p s) = shared s" "mode_of (enter i p s) = mode_of s" "owner_of (enter i p s) = owner_of s"
  "child_of (enter i p s) = child_of s" "running (enter i p s) = running s" "groups (enter i p s) = groups s"
  "phase_of (enter i p s) = (phase_of s)(i := p)" "claims m (enter i p s) = claims m s"
  by (cases m; simp add: enter_def)+

lemma world_invD:
  assumes "world_inv s"
  shows "i \<in> excl s \<Longrightarrow> j \<in> excl s \<Longrightarrow> i = j"
    and "phase_of s i = Unborn \<Longrightarrow> i \<notin> excl s \<and> i \<notin> shared s \<and> child_of s i = NoChild"
    and "under_way s i \<Longrightarrow> i \<in> claims (mode_of s i) s"
    and "under_way s i \<Longrightarrow> under_way s j \<Longrightarrow> mode_of s i = Exclusive \<Longrightarrow> mode_of s j = Shared \<Longrightarrow> \<not> (missed s i j \<and> missed s j i)"
  using assms unfolding world_inv_def by blast+

text \<open>
  A step that only moves one attempt between phases keeps the invariant when the attempt does not
  come to miss a claim of the other mode that is under way.
\<close>

lemma world_inv_enter:
  assumes inv: "world_inv s" and before: "phase_of s i \<noteq> Unborn" "phase_of s i \<noteq> Ended" and p: "p \<noteq> Unborn"
    and news: "\<And>j. under_way s i \<Longrightarrow> under_way s j \<Longrightarrow> mode_of s j = opposite (mode_of s i) \<Longrightarrow> i \<noteq> j \<Longrightarrow>
       missed (enter i p s) i j \<Longrightarrow> missed s i j"
  shows "world_inv (enter i p s)"
proof -
  have way: "under_way s j" if "under_way (enter i p s) j" for j using that before by (auto simp: under_way_def split: if_splits)
  have other: "missed (enter i p s) j k = missed s j k" if "j \<noteq> i" for j k using that by (simp add: missed_def)
  have "\<not> (missed (enter i p s) j k \<and> missed (enter i p s) k j)"
    if "under_way (enter i p s) j" "under_way (enter i p s) k" "mode_of s j = Exclusive" "mode_of s k = Shared" for j k
    using world_invD(4) [OF inv way way, OF that] news other way [OF that(1)] way [OF that(2)] that(3,4)
    by (cases "j = i"; cases "k = i") auto
  then show ?thesis using inv way p unfolding world_inv_def by auto
qed

text \<open>
  Everything else shrinks what is under way: a removal, an exit or a child record keeps the
  invariant as long as attempts still under way keep their file and their view.
\<close>

lemma world_inv_shrink:
  assumes inv: "world_inv s" and excl: "excl t \<subseteq> excl s" and shared: "shared t \<subseteq> shared s" and mode: "mode_of t = mode_of s"
    and unborn: "\<And>i. phase_of t i = Unborn \<Longrightarrow> phase_of s i = Unborn \<and> child_of t i = child_of s i"
    and way: "\<And>i. under_way t i \<Longrightarrow> under_way s i \<and> phase_of t i = phase_of s i \<and> (i \<in> claims (mode_of s i) s \<longrightarrow> i \<in> claims (mode_of s i) t)"
  shows "world_inv t"
proof -
  have missed: "missed t i j = missed s i j" if "under_way t i" for i j using way [OF that] by (simp add: missed_def)
  have 1: "i = j" if "i \<in> excl t" "j \<in> excl t" for i j using that excl world_invD(1) [OF inv] by blast
  have 2: "i \<notin> excl t \<and> i \<notin> shared t \<and> child_of t i = NoChild" if "phase_of t i = Unborn" for i
    using unborn [OF that] world_invD(2) [OF inv, of i] excl shared by auto
  have 3: "i \<in> claims (mode_of t i) t" if "under_way t i" for i using way [OF that] world_invD(3) [OF inv, of i] mode by simp
  have 4: "\<not> (missed t i j \<and> missed t j i)"
    if "under_way t i" "under_way t j" "mode_of t i = Exclusive" "mode_of t j = Shared" for i j
    using world_invD(4) [OF inv, of i j] way [OF that(1)] way [OF that(2)] that(3,4) mode missed that(1,2) by simp
  show ?thesis unfolding world_inv_def using 1 2 3 4 by blast
qed

text \<open>A new attempt has a file and has missed nothing.\<close>

lemma world_inv_publish:
  assumes inv: "world_inv s" and new: "phase_of s i = Unborn"
    and t: "phase_of t = (phase_of s)(i := Published)" "mode_of t = (mode_of s)(i := m)" "child_of t = child_of s"
      "i \<in> claims m t" "\<And>k. claims k s \<subseteq> claims k t \<and> claims k t \<subseteq> insert i (claims k s)" "m = Exclusive \<and> excl s = {} \<or> excl t = excl s"
    and live: "\<And>j. j \<noteq> i \<Longrightarrow> live_of t j = live_of s j"
  shows "world_inv t"
proof -
  have way: "under_way s j" if "under_way t j" "j \<noteq> i" for j using that live t(1) by (simp add: under_way_def)
  have missed: "\<not> missed t i j" "j \<noteq> i \<Longrightarrow> missed t j k = missed s j k" for j k using t(1) by (simp_all add: missed_def)
  have e: "excl t \<subseteq> insert i (excl s)" "shared t \<subseteq> insert i (shared s)" using t(5) [of Exclusive] t(5) [of Shared] by auto
  have 1: "j = k" if "j \<in> excl t" "k \<in> excl t" for j k using that t(6) e(1) world_invD(1) [OF inv] by blast
  have 2: "j \<notin> excl t \<and> j \<notin> shared t \<and> child_of t j = NoChild" if "phase_of t j = Unborn" for j
    using that t(1,3) e world_invD(2) [OF inv, of j] by (auto split: if_splits)
  have 3: "j \<in> claims (mode_of t j) t" if "under_way t j" for j
    using way [OF that] world_invD(3) [OF inv, of j] t(2,4,5) by (cases "j = i") auto
  have 4: "\<not> (missed t j k \<and> missed t k j)" if "under_way t j" "under_way t k" "mode_of t j = Exclusive" "mode_of t k = Shared" for j k
    using world_invD(4) [OF inv, of j k] way [OF that(1)] way [OF that(2)] missed that(3,4) t(2) by (cases "j = i"; cases "k = i") auto
  show ?thesis unfolding world_inv_def using 1 2 3 4 by blast
qed

lemma acts_live: "acts s i \<Longrightarrow> live_of s i = Live"
  by (simp add: live_of_def)

lemma claim_step_inv: "claim_step s t \<Longrightarrow> world_inv s \<Longrightarrow> world_inv t"
proof (induction rule: claim_step.induct)
  case (publish_shared s i p)
  let ?t = "s\<lparr>shared := insert i (shared s), mode_of := (mode_of s)(i := Shared), owner_of := (owner_of s)(i := p), phase_of := (phase_of s)(i := Published)\<rparr>"
  have "claims k s \<subseteq> claims k ?t \<and> claims k ?t \<subseteq> insert i (claims k s)" for k by (cases k) auto
  then show ?case using publish_shared by (intro world_inv_publish [of s i ?t Shared]) (simp_all add: live_of_def)
next
  case (publish_exclusive s i p)
  let ?t = "s\<lparr>excl := {i}, mode_of := (mode_of s)(i := Exclusive), owner_of := (owner_of s)(i := p), phase_of := (phase_of s)(i := Published)\<rparr>"
  have "claims k s \<subseteq> claims k ?t \<and> claims k ?t \<subseteq> insert i (claims k s)" for k using publish_exclusive by (cases k) auto
  then show ?case using publish_exclusive by (intro world_inv_publish [of s i ?t Exclusive]) (simp_all add: live_of_def)
next
  case (list_claims s i)
  have "j \<in> claims (opposite (mode_of s i)) s" if "under_way s j" "mode_of s j = opposite (mode_of s i)" for j
    using world_invD(3) [OF list_claims(3) that(1)] that(2) by simp
  then show ?case using list_claims by (intro world_inv_enter) (auto simp: missed_def)
next
  case (pass_over s i S j)
  have "k \<noteq> j" if "under_way s k" "mode_of s k = opposite (mode_of s i)" for k
    using that world_invD(3) [OF pass_over(5) that(1)] pass_over(4) by (auto simp: under_way_def)
  then show ?case using pass_over by (intro world_inv_enter) (auto simp: missed_def)
next
  case (wait_for s i S j)
  then show ?case by (intro world_inv_enter) (auto simp: missed_def)
next
  case (settle_again s i)
  then show ?case by (intro world_inv_enter) (auto simp: missed_def)
next
  case (acquire s i)
  then show ?case by (intro world_inv_enter) (auto simp: missed_def)
next
  case (release s i)
  then show ?case
    by (intro world_inv_shrink [of s "give_up i s"])
      (auto simp: claims_alt give_up_def set_child_def remove_claim_def under_way_def live_of_def enter_def split: if_splits)
next
  case (reap_dead s i)
  then show ?case
    by (intro world_inv_shrink [of s "remove_claim i s"])
      (auto simp: claims_alt remove_claim_def under_way_def live_of_def split: if_splits)
next
  case (child_pending s i)
  then show ?case
    by (intro world_inv_shrink [of s "set_child i PendingChild s"])
      (auto simp: claims_alt set_child_def under_way_def live_of_def split: if_splits)
next
  case (child_recorded s i g)
  then show ?case
    by (intro world_inv_shrink [of s "set_child i (ChildGroup g) s"])
      (auto simp: claims_alt set_child_def under_way_def live_of_def split: if_splits)
next
  case (child_cleared s i)
  then show ?case
    by (intro world_inv_shrink [of s "set_child i NoChild s"])
      (auto simp: claims_alt set_child_def under_way_def live_of_def split: if_splits)
next
  case (crash s p)
  then show ?case
    by (intro world_inv_shrink [of s "s\<lparr>running := running s - {p}\<rparr>"])
      (auto simp: claims_alt under_way_def live_of_def split: if_splits child_record.splits)
next
  case (child_exits s g)
  then show ?case
    by (intro world_inv_shrink [of s "s\<lparr>groups := groups s - {g}\<rparr>"])
      (auto simp: claims_alt under_way_def live_of_def split: if_splits child_record.splits)
qed

lemma reachable_world_inv: "reachable_world s \<Longrightarrow> world_inv s"
  by (induction rule: reachable_world.induct) (auto intro: world_inv_start claim_step_inv)

section \<open>Properties\<close>

text \<open>
  C1. Claims exclude each other under any interleaving, crash or child exit: in every state the
  protocol can reach, an exclusive claim in force is the only claim in force of its set. A claim is
  in force while its owner runs and also after the owner died, for as long as the child it recorded
  runs or it may have spawned one it did not record.
\<close>

theorem claims_mutually_exclusive:
  assumes "reachable_world s" "in_force s i" "in_force s j" "mode_of s i = Exclusive"
  shows "i = j"
proof (rule ccontr)
  assume "i \<noteq> j"
  have inv: "world_inv s" by (rule reachable_world_inv [OF assms(1)])
  have way: "under_way s i" "under_way s j" using assms(2,3) by (auto simp: in_force_def under_way_def)
  show False
  proof (cases "mode_of s j")
    case Exclusive
    with way assms(4) have "i \<in> excl s" "j \<in> excl s" using world_invD(3) [OF inv] by (metis claims.simps(1))+
    with \<open>i \<noteq> j\<close> world_invD(1) [OF inv] show False by blast
  next
    case Shared
    with world_invD(4) [OF inv way assms(4)] assms(2,3) show False by (simp add: in_force_def missed_def)
  qed
qed

definition run_to_held :: world where
  "run_to_held = enter 0 Held (enter 0 (Checking {}) (start_world\<lparr>excl := {0}, mode_of := (\<lambda>_. Shared)(0 := Exclusive),
     owner_of := (\<lambda>_. 0)(0 := 5), phase_of := (\<lambda>_. Unborn)(0 := Published)\<rparr>))"

lemma run_to_held_reachable: "reachable_world run_to_held"
proof -
  let ?s = "start_world\<lparr>excl := {0}, mode_of := (\<lambda>_. Shared)(0 := Exclusive), owner_of := (\<lambda>_. 0)(0 := 5), phase_of := (\<lambda>_. Unborn)(0 := Published)\<rparr>"
  have 1: "reachable_world ?s"
    using reachable_world.step [OF reachable_world.start publish_exclusive [of start_world 0 5]] by (simp add: start_world_def)
  have 2: "reachable_world (enter 0 (Checking {}) ?s)"
    using reachable_world.step [OF 1 list_claims [of ?s 0]] by (simp add: start_world_def)
  show ?thesis
    using reachable_world.step [OF 2 acquire [of "enter 0 (Checking {}) ?s" 0]] by (simp add: start_world_def run_to_held_def)
qed

theorem claims_mutually_exclusive_witness: "in_force run_to_held 0 \<and> \<not> in_force run_to_held 1"
proof -
  have 0: "in_force run_to_held 0" "mode_of run_to_held 0 = Exclusive"
    by (simp_all add: in_force_def run_to_held_def live_of_def start_world_def)
  with claims_mutually_exclusive [OF run_to_held_reachable 0(1) _ 0(2), of 1] show ?thesis by auto
qed

text \<open>
  C5. No claim in force loses its file: whatever steps follow, a claim keeps its file in the
  directory of its mode until its owner releases it or it is dead, so that every later attempt
  finds it.
\<close>

theorem claim_file_stays:
  assumes "reachable_world s" "in_force s i"
  shows "i \<in> claims (mode_of s i) s \<and> (\<forall>t. claim_step s t \<longrightarrow> i \<in> claims (mode_of t i) t \<or> phase_of t i = Ended \<or> live_of t i = Dead)"
proof -
  have inv: "world_inv s" by (rule reachable_world_inv [OF assms(1)])
  have way: "under_way s i" using assms(2) by (auto simp: in_force_def under_way_def)
  have born: "phase_of t i \<noteq> Unborn" if "claim_step s t" for t
    using that way by (cases rule: claim_step.cases) (auto simp: under_way_def give_up_def remove_claim_def set_child_def)
  have "i \<in> claims (mode_of t i) t \<or> phase_of t i = Ended \<or> live_of t i = Dead" if step: "claim_step s t" for t
    using world_invD(3) [OF claim_step_inv [OF step inv], of i] born [OF step] by (auto simp: under_way_def)
  with world_invD(3) [OF inv way] show ?thesis by blast
qed

theorem claim_file_stays_witness: "0 \<in> excl run_to_held"
  using claim_file_stays [OF run_to_held_reachable, of 0] by (simp add: in_force_def run_to_held_def live_of_def start_world_def)

end
