(* ===== verification/Claim_Properties.thy ===== *)
theory Claim_Properties
  imports Claim_Laws
begin

text \<open>
  What the ownership claims of \<open>packages/core/ownership-claim.ts\<close> promise a single caller:
  inspection never removes a claim that may be held, a held claim keeps every conflicting attempt
  out, a claim whose owner died can be taken over, and releasing gives the set back as it was.
\<close>

section \<open>Reading back a published claim\<close>

definition valid_owner :: "claim_owner \<Rightarrow> bool" where
  "valid_owner ow = (safe_integer (pid ow) \<and> 0 < pid ow \<and> processToken ow \<noteq> [])"

lemma asOwner_json [simp]: "valid_owner ow \<Longrightarrow> asOwner (Some (owner_json ow)) = Some ow"
  by (cases ow) (simp add: asOwner_def owner_json_def valid_owner_def jfield_def)

lemma readClaim_published:
  assumes "file_at s m n = Some (FileText (Some (claim_payload i m ow t ds)))" "valid_owner ow" "i \<noteq> []"
  shows "(\<exists>r. readClaim s m n = Unreadable r) \<or>
    (\<exists>h. readClaim s m n = Read h \<and> claimId h = i \<and> owner h = ow \<and> startedAt h = t \<and> (is_obj ds \<longrightarrow> details h = ds))"
  using assms by (cases "readChild s m n"; cases ds) (auto simp: readClaim_def readRecord_def claim_payload_def jfield_def jstr_field_def)

definition holds :: "claim_set \<Rightarrow> claim_handle \<Rightarrow> bool" where
  "holds s c \<longleftrightarrow> set_root s = RootDir \<and> suffix CLAIM_SUFFIX (hd_path c) \<and>
     (\<exists>h. readClaim s (hd_mode c) (hd_path c) = Read h \<and> claimId h = hd_claimId c \<and> owner h = hd_owner c)"

lemma holds_same: "holds s c \<Longrightarrow> same_claim s t (hd_mode c) (hd_path c) \<Longrightarrow> set_root t = RootDir \<Longrightarrow> holds t c"
  by (simp add: holds_def same_claim_reads(2))

lemma holds_root: "holds s c \<Longrightarrow> set_root s = RootDir"
  by (simp add: holds_def)

lemma holds_live:
  assumes "holds s c" "inspectProcessIdentity w (hd_owner c) = Same"
  shows "\<exists>h \<in> claims_in w s (hd_mode c) Live. h_name h = hd_path c \<and> claimId h = hd_claimId c"
  using assms readClaim_Read(2) live_owner by (fastforce simp: holds_def claims_in_def)

lemma inspect_holds:
  assumes "inspectClaimSet w s = (r, t)" "holds s c" "inspectProcessIdentity w (hd_owner c) = Same"
  shows "holds t c"
proof -
  have same: "same_claim s t (hd_mode c) (hd_path c)"
    using assms(2) by (intro inspect_keeps [OF assms(1)]) (auto simp: holds_def live_owner assms(3) dest: readClaim_Read(3))
  from holds_same [OF assms(2) this] show ?thesis using inspect_frame [OF assms(1)] holds_root [OF assms(2)] by simp
qed

lemma make_root_frame [simp]: "file_at (make_root s) m n = file_at s m n" "undeletable (make_root s) = undeletable s" "leftovers (make_root s) = leftovers s"
  "dir_of m (make_root s) = dir_of m s" "set_root s = RootDir \<Longrightarrow> make_root s = s"
  by (cases m; simp add: make_root_def)+

lemma publish_keeps:
  assumes "publish m i p s = (r, t)" "file_at s m' n \<noteq> None" "suffix CLAIM_SUFFIX n" "(m', n) \<noteq> (m, i @ CLAIM_SUFFIX)"
  shows "same_claim s t m' n" and "set_root t = set_root s"
proof -
  show "set_root t = set_root s"
    using assms(1) by (auto simp: publish_def publishExclusive_def publishShared_def put_file_def split: claim_mode.splits dir.splits list.splits)
  show "same_claim s t m' n"
  proof (cases m)
    case Exclusive
    show ?thesis
    proof (cases m')
      case Shared
      with assms(1) Exclusive show ?thesis
        by (auto simp: publish_def publishExclusive_def same_claim_def file_at_def split: dir.splits list.splits)
    next
      case m': Exclusive
      with assms(2) obtain f fs where "excl_dir s = Dir (f # fs)"
        by (cases "excl_dir s"; cases "files_of (excl_dir s)") (auto simp: file_at_def)
      with assms(1) Exclusive show ?thesis by (auto simp: publish_def publishExclusive_def split: list.splits)
    qed
  next
    case Shared
    with assms(1) have "t = s \<or> t = put_file Shared (i @ CLAIM_SUFFIX) (FileText (Some p)) s"
      by (auto simp: publish_def publishShared_def split: dir.splits)
    then show ?thesis using assms(3,4) Shared childPath_not_claim [of "i @ CLAIM_SUFFIX" n] by (auto simp: same_claim_def suffix_def)
  qed
qed

lemma publish_old:
  assumes "publish m i p s = (Inr (Some path), t)" "file_at t m' n \<noteq> None" "(m', n) \<noteq> (m, i @ CLAIM_SUFFIX)"
  shows "file_at s m' n \<noteq> None"
proof (cases m)
  case Exclusive
  with assms have "t = s\<lparr>excl_dir := Dir [(i @ CLAIM_SUFFIX, FileText (Some p))]\<rparr>"
    by (auto simp: publish_def publishExclusive_def split: dir.splits list.splits)
  with assms(2,3) Exclusive show ?thesis by (cases m') (auto simp: file_at_def split: if_splits)
next
  case Shared
  with assms(1) have "t = put_file Shared (i @ CLAIM_SUFFIX) (FileText (Some p)) s"
    by (auto simp: publish_def publishShared_def split: dir.splits)
  with assms(2,3) Shared show ?thesis by (auto split: if_splits)
qed

lemma releaseClaim_keeps:
  assumes "releaseClaim d s = (b, t)" "suffix CLAIM_SUFFIX n" "suffix CLAIM_SUFFIX (hd_path d)" "(m, n) \<noteq> (hd_mode d, hd_path d)"
  shows "same_claim s t m n"
proof (cases "\<exists>h. readClaim s (hd_mode d) (hd_path d) = Read h \<and> claimId h = hd_claimId d")
  case True
  obtain r1 s1 where 1: "removeOrRefuse (hd_mode d) (childPath (hd_path d)) (hd_path d) s = (r1, s1)" by fastforce
  obtain r2 s2 where 2: "removeOrRefuse (hd_mode d) (hd_path d) (hd_path d) s1 = (r2, s2)" by fastforce
  have "(m, n) \<noteq> (hd_mode d, childPath (hd_path d))" "(m, childPath n) \<noteq> (hd_mode d, childPath (hd_path d))" "(m, childPath n) \<noteq> (hd_mode d, hd_path d)"
    using assms childPath_not_claim childPath_inj by auto
  then have "same_claim s s1 m n" "same_claim s s2 m n"
    using assms(4) removeOrRefuse_laws(1) [OF 1] removeOrRefuse_laws(1) [OF 2] by (simp_all add: same_claim_def)
  moreover have "t = s1 \<or> t = s2 \<or> t = tidy_root (tidy (hd_mode d) s2)"
    using assms(1) True 1 2 by (auto simp: releaseClaim_def split: option.splits)
  moreover have "same_claim s2 (tidy_root (tidy (hd_mode d) s2)) m n"
    by (auto simp: same_claim_def tidy_root_def)
  ultimately show ?thesis using same_claim_trans by blast
qed (use assms(1) in \<open>auto simp: releaseClaim_def split: reading.splits if_splits\<close>)

lemma releaseClaim_root:
  assumes "releaseClaim d s = (b, t)" "file_at t m n \<noteq> None" "set_root s = RootDir"
  shows "set_root t = RootDir"
proof -
  have "dir_of m t \<noteq> NoDir" using assms(2) by (auto simp: file_at_def)
  then have kept: "set_root (tidy_root u) = set_root u" if "dir_of m u \<noteq> NoDir" for u using that by (cases m) (auto simp: tidy_root_def)
  have same: "dir_of m (tidy_root u) = dir_of m u" for u by (cases m) (simp_all add: tidy_root_def)
  obtain r1 s1 where 1: "removeOrRefuse (hd_mode d) (childPath (hd_path d)) (hd_path d) s = (r1, s1)" by fastforce
  obtain r2 s2 where 2: "removeOrRefuse (hd_mode d) (hd_path d) (hd_path d) s1 = (r2, s2)" by fastforce
  have "t = s \<or> t = s1 \<or> t = s2 \<or> t = tidy_root (tidy (hd_mode d) s2)"
    using assms(1) 1 2 by (auto simp: releaseClaim_def split: option.splits reading.splits if_splits)
  then show ?thesis using removeOrRefuse_laws(3) [OF 1] removeOrRefuse_laws(3) [OF 2] assms(3) kept same \<open>dir_of m t \<noteq> NoDir\<close>
    by (auto simp del: dir_of.simps)
qed

lemma releaseClaim_holds:
  assumes "releaseClaim d s = (b, t)" "holds s c" "suffix CLAIM_SUFFIX (hd_path d)" "(hd_mode c, hd_path c) \<noteq> (hd_mode d, hd_path d)"
  shows "holds t c"
proof -
  have same: "same_claim s t (hd_mode c) (hd_path c)" using releaseClaim_keeps [OF assms(1)] assms(2-4) by (simp add: holds_def)
  then have "file_at t (hd_mode c) (hd_path c) \<noteq> None" using assms(2) readClaim_Read(3) by (fastforce simp: holds_def same_claim_def)
  with releaseClaim_root [OF assms(1)] holds_root [OF assms(2)] holds_same [OF assms(2) same] show ?thesis by blast
qed

section \<open>Taking a claim\<close>

lemma publish_own:
  assumes "publish m i p s = (Inr (Some path), t)"
  shows "path = i @ CLAIM_SUFFIX \<and> file_at t m path = Some (FileText (Some p)) \<and> set_root t = set_root s"
  using assms by (cases m) (auto simp: publish_def publishExclusive_def publishShared_def put_file_def file_at_def update_conv'
    split: dir.splits list.splits)

lemma settle_published_cases:
  assumes "settle_published w claim reaped s = (res, t)"
  obtains e s1 where "inspectClaimSet w s = (Inl e, s1)" "res = Inl e" "t = snd (releaseClaim claim s1)"
  | st s1 h where "inspectClaimSet w s = (Inr st, s1)" "hd_mode claim = Shared" "st_exclusive st = Some h"
      "res = Inr (HeldBy h (reaped @ st_reaped st))" "t = snd (releaseClaim claim s1)"
  | st where "inspectClaimSet w s = (Inr st, t)" "hd_mode claim = Shared" "st_exclusive st = None" "res = Inr (Acquired claim (reaped @ st_reaped st))"
  | st where "inspectClaimSet w s = (Inr st, t)" "hd_mode claim = Exclusive" "st_shared st = []" "res = Inr (Acquired claim (reaped @ st_reaped st))"
  | st where "inspectClaimSet w s = (Inr st, t)" "hd_mode claim = Exclusive" "st_shared st \<noteq> []"
      "res = Inr (WaitingFor (st_shared st) claim (reaped @ st_reaped st))"
proof -
  obtain r s1 where run: "inspectClaimSet w s = (r, s1)" by fastforce
  show ?thesis
    using assms that run
    by (cases r; cases "hd_mode claim") (auto simp: settle_published_def settleOrRelease_def Let_def split: option.splits if_splits)
qed

lemma settle_published_keeps:
  assumes "settle_published w d reaped s = (res, t)" "holds s c" "inspectProcessIdentity w (hd_owner c) = Same"
    and "suffix CLAIM_SUFFIX (hd_path d)" "(hd_mode c, hd_path c) \<noteq> (hd_mode d, hd_path d)"
  shows "holds t c"
proof -
  have release: "holds (snd (releaseClaim d s1)) c" if "holds s1 c" for s1
    by (rule releaseClaim_holds [OF prod.collapse [symmetric] that assms(4,5)])
  from assms(1) show ?thesis
    by (cases rule: settle_published_cases) (use inspect_holds [OF _ assms(2,3)] release in auto)
qed

lemma settle_published_conflict:
  assumes "settle_published w d reaped s = (res, t)" "holds s c" "inspectProcessIdentity w (hd_owner c) = Same"
    and "hd_mode c = Exclusive \<and> hd_mode d = Shared \<or> hd_mode c = Shared \<and> hd_mode d = Exclusive"
  shows "res \<noteq> Inr (Acquired c' r')"
  using assms(1)
proof (cases rule: settle_published_cases)
  case (3 st)
  then show ?thesis using inspect_result(2) [OF 3(1) holds_root [OF assms(2)]] holds_live [OF assms(2,3)] assms(4) by auto
next
  case (4 st)
  then show ?thesis using inspect_result(1) [OF 4(1) holds_root [OF assms(2)]] holds_live [OF assms(2,3)] assms(4) by auto
qed auto

text \<open>A process that finds itself alive keeps the claim it published: the inspection that settles it reads it back.\<close>

lemma settle_published_own:
  assumes run: "settle_published w d reaped s = (Inr a, t)" and "a = Acquired c r \<or> (\<exists>hs. a = WaitingFor hs c r)"
    and written: "file_at s (hd_mode d) (hd_path d) = Some (FileText (Some (claim_payload (hd_claimId d) (hd_mode d) (hd_owner d) (hd_startedAt d) (hd_details d))))"
    and d: "hd_path d = hd_claimId d @ CLAIM_SUFFIX" "hd_claimId d \<noteq> []" "valid_owner (hd_owner d)" "set_root s = RootDir"
    and self: "inspectProcessIdentity w (hd_owner d) = Same"
  shows "c = d \<and> holds t d \<and> (is_obj (hd_details d) \<longrightarrow>
    (\<exists>h. readClaim t (hd_mode d) (hd_path d) = Read h \<and> claimId h = hd_claimId d \<and> details h = hd_details d))"
proof -
  from run assms(2) obtain st where st: "inspectClaimSet w s = (Inr st, t)" and c: "c = d" by (cases rule: settle_published_cases) auto
  have suffix: "suffix CLAIM_SUFFIX (hd_path d)" using d(1) by (simp add: suffix_def)
  then have "\<not> (\<exists>r. readClaim s (hd_mode d) (hd_path d) = Unreadable r)"
    using inspect_result(4) [OF st d(4), of "hd_mode d"] by (fastforce simp: resolved_def)
  with readClaim_published [OF written d(3,2)] obtain h where h: "readClaim s (hd_mode d) (hd_path d) = Read h" "claimId h = hd_claimId d"
    "owner h = hd_owner d" "is_obj (hd_details d) \<longrightarrow> details h = hd_details d" by auto
  have "same_claim s t (hd_mode d) (hd_path d)"
    using h self readClaim_Read(3) [OF h(1)] live_owner by (intro inspect_keeps [OF st suffix]) auto
  then have "readClaim t (hd_mode d) (hd_path d) = Read h" using same_claim_reads(2) h(1) by simp
  moreover have "holds s d" using h suffix d(4) by (auto simp: holds_def)
  ultimately show ?thesis using inspect_holds [OF st] self c h by blast
qed

abbreviation claim_handle_for :: "claim_mode \<Rightarrow> claim_owner \<Rightarrow> json \<Rightarrow> string \<Rightarrow> string \<Rightarrow> claim_handle" where
  "claim_handle_for m ow ds i t \<equiv> \<lparr>hd_path = i @ CLAIM_SUFFIX, hd_claimId = i, hd_mode = m, hd_owner = ow, hd_startedAt = t, hd_details = ds\<rparr>"

lemma acquire_step:
  assumes "acquire_loop (Suc k) w m ow ds ids stamps reaped s = (res, t)"
  obtains e where "res = Inl e" "t = s" "set_root s = RootFile \<or> set_root s = RootDenied"
  | e where "inspectClaimSet w (make_root s) = (Inl e, t)" "res = Inl e"
  | st h where "inspectClaimSet w (make_root s) = (Inr st, t)" "st_exclusive st = Some h" "res = Inr (HeldBy h (reaped @ st_reaped st))"
  | st s1 r where "inspectClaimSet w (make_root s) = (Inr st, s1)" "st_exclusive st = None"
      "publish m (ids k) (claim_payload (ids k) m ow (stamps k) ds) s1 = (r, t)" "\<And>p. r \<noteq> Inr p" "\<exists>e. res = Inl e"
  | st s1 s2 where "inspectClaimSet w (make_root s) = (Inr st, s1)" "st_exclusive st = None"
      "publish m (ids k) (claim_payload (ids k) m ow (stamps k) ds) s1 = (Inr None, s2)"
      "acquire_loop k w m ow ds ids stamps (reaped @ st_reaped st) s2 = (res, t)"
  | st s1 s2 where "inspectClaimSet w (make_root s) = (Inr st, s1)" "st_exclusive st = None"
      "publish m (ids k) (claim_payload (ids k) m ow (stamps k) ds) s1 = (Inr (Some (ids k @ CLAIM_SUFFIX)), s2)"
      "settle_published w (claim_handle_for m ow ds (ids k) (stamps k)) (reaped @ st_reaped st) s2 = (res, t)"
proof (cases "set_root s = RootFile \<or> set_root s = RootDenied")
  case True
  with assms that(1) show ?thesis by (auto split: if_splits)
next
  case False
  obtain r s1 where run: "inspectClaimSet w (make_root s) = (r, s1)" by fastforce
  obtain p s2 where pub: "publish m (ids k) (claim_payload (ids k) m ow (stamps k) ds) s1 = (p, s2)" by fastforce
  show ?thesis
  proof (cases r)
    case (Inl e)
    with assms False run that(2) show ?thesis by auto
  next
    case (Inr st)
    show ?thesis
    proof (cases "st_exclusive st")
      case (Some h)
      with assms False run Inr that(3) show ?thesis by (auto simp: Let_def)
    next
      case None
      show ?thesis
      proof (cases p)
        case (Inl e)
        with assms False run Inr None pub that(4) show ?thesis by (auto simp: Let_def)
      next
        case p: (Inr q)
        show ?thesis
        proof (cases q)
          case None
          with assms False run Inr \<open>st_exclusive st = None\<close> pub p that(5) show ?thesis by (auto simp: Let_def)
        next
          case (Some path)
          with publish_own pub p have "path = ids k @ CLAIM_SUFFIX" by blast
          with assms False run Inr \<open>st_exclusive st = None\<close> pub p Some that(6) show ?thesis by (auto simp: Let_def)
        qed
      qed
    qed
  qed
qed

lemma make_root_inspected:
  assumes "inspectClaimSet w (make_root s) = (Inr st, s1)"
  shows "set_root (make_root s) = RootDir \<and> set_root s1 = RootDir"
proof -
  from assms have "sv_unresolved (readClaimSet w (make_root s)) = []" by (auto elim: inspect_cases)
  then have "set_root (make_root s) = RootDir" using readClaimSet_root [of w "make_root s"] by (auto simp: make_root_def split: if_splits)
  with inspect_frame [OF assms] show ?thesis by simp
qed

lemma acquire_loop_own:
  assumes "acquire_loop k w m ow ds ids stamps reaped s = (Inr a, t)" "a = Acquired c r \<or> (\<exists>hs. a = WaitingFor hs c r)"
    and "valid_owner ow" "\<And>k. ids k \<noteq> []" "inspectProcessIdentity w ow = Same"
  shows "holds t c \<and> hd_mode c = m \<and> hd_owner c = ow \<and> hd_path c = hd_claimId c @ CLAIM_SUFFIX \<and> hd_claimId c \<in> range ids \<and> hd_details c = ds \<and>
    (is_obj ds \<longrightarrow> (\<exists>h. readClaim t m (hd_path c) = Read h \<and> claimId h = hd_claimId c \<and> details h = ds))"
  using assms(1)
proof (induction k arbitrary: reaped s)
  case 0
  then show ?case using assms(2) by (auto simp: Let_def split: prod.splits sum.splits option.splits claim_mode.splits list.splits)
next
  case (Suc k)
  from Suc.prems show ?case
  proof (cases rule: acquire_step)
    case (5 st s1 s2)
    then show ?thesis using Suc.IH by blast
  next
    case (6 st s1 s2)
    note pub = publish_own [OF 6(3)]
    have "c = claim_handle_for m ow ds (ids k) (stamps k) \<and> holds t (claim_handle_for m ow ds (ids k) (stamps k)) \<and>
      (is_obj ds \<longrightarrow> (\<exists>h. readClaim t m (ids k @ CLAIM_SUFFIX) = Read h \<and> claimId h = ids k \<and> details h = ds))"
      using assms pub make_root_inspected [OF 6(1)] settle_published_own [OF 6(4) assms(2)] by simp
    then show ?thesis by auto
  qed (use assms(2) in auto)
qed

lemma publish_holds:
  assumes "publish m i p s = (r, t)" "holds s c" "hd_path c \<noteq> i @ CLAIM_SUFFIX"
  shows "holds t c"
proof -
  have f: "file_at s (hd_mode c) (hd_path c) \<noteq> None" "suffix CLAIM_SUFFIX (hd_path c)"
    using assms(2) readClaim_Read(3) by (fastforce simp: holds_def)+
  have "same_claim s t (hd_mode c) (hd_path c)" "set_root t = RootDir"
    using publish_keeps [OF assms(1) f] assms(3) holds_root [OF assms(2)] by auto
  then show ?thesis by (rule holds_same [OF assms(2)])
qed

lemma acquire_loop_conflict:
  assumes "acquire_loop k w m ow ds ids stamps reaped s = (res, t)" "holds s c" "inspectProcessIdentity w (hd_owner c) = Same"
    and fresh: "\<And>k. ids k @ CLAIM_SUFFIX \<noteq> hd_path c"
  shows "holds t c \<and> (hd_mode c = Exclusive \<longrightarrow> (\<exists>e. res = Inl e) \<or> (\<exists>h rs. res = Inr (HeldBy h rs))) \<and>
    (m = Exclusive \<longrightarrow> (\<forall>c' r'. res \<noteq> Inr (Acquired c' r')))"
  using assms(1,2)
proof (induction k arbitrary: reaped s)
  case 0
  obtain r s1 where run: "inspectClaimSet w s = (r, s1)" by fastforce
  with 0 have t: "t = s1" by (auto simp: Let_def split: prod.splits sum.splits option.splits claim_mode.splits list.splits)
  have "(\<exists>e. res = Inl e) \<or> (\<exists>h rs. res = Inr (HeldBy h rs))"
    using 0 run by (auto simp: Let_def split: prod.splits sum.splits option.splits claim_mode.splits list.splits)
  with inspect_holds [OF run 0(2) assms(3)] t show ?case by auto
next
  case (Suc k)
  have root: "make_root s = s" using holds_root [OF Suc.prems(2)] by simp
  have excl: "st_exclusive st \<noteq> None" if "inspectClaimSet w s = (Inr st, s1)" "hd_mode c = Exclusive" for st s1
    using inspect_result(2) [OF that(1) holds_root [OF Suc.prems(2)]] holds_live [OF Suc.prems(2) assms(3)] that(2) by auto
  have keep: "holds s1 c" if "inspectClaimSet w s = (r, s1)" for r s1 by (rule inspect_holds [OF that Suc.prems(2) assms(3)])
  have pub: "holds s2 c" if "publish m (ids k) p s1 = (r, s2)" "holds s1 c" for p r s1 s2
    by (rule publish_holds [OF that fresh [symmetric]])
  from Suc.prems(1) show ?case
  proof (cases rule: acquire_step)
    case (5 st s1 s2)
    then have "holds s2 c" using keep pub root by auto
    with Suc.IH 5(4) show ?thesis by blast
  next
    case (6 st s1 s2)
    let ?d = "claim_handle_for m ow ds (ids k) (stamps k)"
    have h: "holds s2 c" "(hd_mode c, hd_path c) \<noteq> (hd_mode ?d, hd_path ?d)" using 6 keep pub root fresh [of k] by auto
    have shared: "hd_mode c = Shared" using excl 6(1,2) root by (cases "hd_mode c") auto
    have "holds t c" using settle_published_keeps [OF 6(4) h(1) assms(3)] h(2) by (auto simp: suffix_def)
    moreover have "m = Exclusive \<longrightarrow> (\<forall>c' r'. res \<noteq> Inr (Acquired c' r'))"
      using settle_published_conflict [OF 6(4) h(1) assms(3)] shared by auto
    ultimately show ?thesis using shared by simp
  qed (use Suc.prems(2) root keep pub in auto)
qed

text \<open>The same of whole attempts.\<close>

lemma try_acquired:
  assumes "tryAcquireClaim w (Inr ow) m ds ids stamps s = (Inr (Acquired c r), t)" "valid_owner ow" "\<And>k. ids k \<noteq> []" "inspectProcessIdentity w ow = Same"
  shows "holds t c \<and> hd_mode c = m \<and> hd_owner c = ow"
  using acquire_loop_own [OF _ disjI1 [OF refl] assms(2-4)] assms(1) by (simp add: tryAcquireClaim_def)

lemma try_excluded:
  assumes "tryAcquireClaim w self m ds ids stamps s = (res, t)" "holds s c" "hd_mode c = Exclusive" "inspectProcessIdentity w (hd_owner c) = Same"
    and "\<And>k. ids k @ CLAIM_SUFFIX \<noteq> hd_path c"
  shows "holds t c \<and> ((\<exists>e. res = Inl e) \<or> (\<exists>h rs. res = Inr (HeldBy h rs)))"
proof (cases self)
  case (Inl e)
  with assms(1,2) show ?thesis by (auto simp: tryAcquireClaim_def)
next
  case (Inr ow)
  with assms(1) have "acquire_loop PUBLISH_ATTEMPTS w m ow ds ids stamps [] s = (res, t)" by (simp add: tryAcquireClaim_def)
  from acquire_loop_conflict [OF this assms(2,4,5)] assms(3) show ?thesis by blast
qed

lemma acquire_loop_waiting: "acquire_loop k w m ow ds ids stamps reaped s = (Inr (WaitingFor hs c r), t) \<Longrightarrow> hs \<noteq> [] \<and> m = Exclusive"
proof (induction k arbitrary: reaped s)
  case 0
  then show ?case by (auto simp: Let_def split: prod.splits sum.splits option.splits claim_mode.splits list.splits)
next
  case (Suc k)
  from Suc.prems show ?case
  proof (cases rule: acquire_step)
    case (5 st s1 s2)
    then show ?thesis using Suc.IH by blast
  next
    case (6 st s1 s2)
    from 6(4) show ?thesis by (cases rule: settle_published_cases) auto
  qed auto
qed

lemma waiting_holders: "tryAcquireClaim w self m ds ids stamps s = (Inr (WaitingFor hs c r), t) \<Longrightarrow> hs \<noteq> []"
  by (cases self) (auto simp: tryAcquireClaim_def dest: acquire_loop_waiting)

section \<open>A set that holds only dead claims\<close>

lemma inspect_succeeds:
  assumes "sv_unresolved (readClaimSet w s) = []" "undeletable s = []"
  shows "\<exists>st t. inspectClaimSet w s = (Inr st, t)"
proof -
  obtain r t where run: "inspectClaimSet w s = (r, t)" by fastforce
  then show ?thesis
  proof (cases rule: inspect_cases)
    case (2 e)
    with remove_orphans_laws(4) [OF 2(2)] assms show ?thesis by simp
  next
    case (3 e s1)
    with remove_orphans_laws(3) [OF 3(2)] reap_all_keeps [OF 3(3)] survey_dead assms show ?thesis by fastforce
  qed (use run assms in auto)
qed

definition no_files :: "claim_set \<Rightarrow> bool" where
  "no_files s \<longleftrightarrow> (\<forall>m n. file_at s m n = None)"

lemma map_of_empty: "(\<And>n. map_of fs n = None) \<Longrightarrow> fs = []"
  by (cases fs) (auto split: if_splits, metis option.distinct(1))

lemma no_files_dir:
  assumes "no_files s" "dir_of m s \<noteq> BadDir"
  shows "dir_of m s = NoDir \<or> dir_of m s = Dir []"
proof (cases "dir_of m s")
  case (Dir fs)
  then have "map_of fs n = None" for n using assms(1) by (metis file_at_def files_of.simps(1) no_files_def)
  with Dir map_of_empty show ?thesis by blast
qed (use assms in auto)

definition recoverable :: "os \<Rightarrow> claim_set \<Rightarrow> bool" where
  "recoverable w s \<longleftrightarrow> (set_root s = RootDir \<or> set_root s = RootAbsent) \<and> undeletable s = [] \<and>
     (\<forall>m. dir_of m s \<noteq> BadDir \<and> own_names s m \<and> resolved w s m \<and> claims_in w s m Live = {})"

lemma recoverable_make_root: "recoverable w s \<Longrightarrow> recoverable w (make_root s) \<and> set_root (make_root s) = RootDir"
proof -
  assume rec: "recoverable w s"
  have same: "same_claim s (make_root s) m n" for m n by (simp add: same_claim_def)
  then have "readClaim (make_root s) m n = readClaim s m n" "claimLiveness w (make_root s) h = claimLiveness w s h" for m n h
    using same_claim_reads(2) same_claim_liveness by blast+
  then have "own_names (make_root s) m = own_names s m" "resolved w (make_root s) m = resolved w s m"
    "claims_in w (make_root s) m l = claims_in w s m l" for m l
    by (simp_all add: own_names_def resolved_def claims_in_def)
  moreover have "set_root (make_root s) = RootDir" using rec by (auto simp: make_root_def recoverable_def)
  ultimately show ?thesis using rec unfolding recoverable_def by (simp del: dir_of.simps)
qed

lemma dead_reapable:
  assumes "remove_orphans (sv_orphans (readClaimSet w s)) s = (None, s1)" "h \<in> set (sv_dead (readClaimSet w s))"
  shows "reapable s1 h"
proof -
  note h = survey_dead [OF assms(2)]
  then have n: "suffix CLAIM_SUFFIX (h_name h)" "file_at s (h_mode h) (h_name h) \<noteq> None" using readClaim_Read(3) by auto
  have "same_claim s s1 (h_mode h) (h_name h)"
    using remove_orphans_laws(1) [OF assms(1)] survey_orphan [of "h_mode h" "h_name h" w s] survey_orphan [of "h_mode h" "childPath (h_name h)" w s]
      not_claim_and_child [OF n(1)] claim_of_child [OF n(1)] n(2) unfolding same_claim_def by metis
  with h same_claim_reads(2) show ?thesis by (simp add: reapable_def)
qed

lemma recoverable_inspect:
  assumes rec: "recoverable w s" and root: "set_root s = RootDir"
  obtains st t where "inspectClaimSet w s = (Inr st, t)" "st_exclusive st = None" "st_shared st = []"
    "set (st_reaped st) = claims_in w s Exclusive Dead \<union> claims_in w s Shared Dead" "no_files t" "\<And>m. dir_of m t = NoDir"
proof -
  let ?v = "readClaimSet w s"
  have un: "sv_unresolved ?v = []" using readClaimSet_resolved(2) [OF root] rec by (simp add: recoverable_def del: dir_of.simps)
  have "set (sv_live ?v) = {}" unfolding readClaimSet_finds(1) [OF root] using rec by (simp add: recoverable_def)
  then have live: "sv_live ?v = []" by simp
  obtain st t where run: "inspectClaimSet w s = (Inr st, t)" using inspect_succeeds [OF un] rec by (auto simp: recoverable_def)
  then show ?thesis
  proof (cases rule: inspect_cases)
    case (4 s1 s2 reaped)
    note orph = remove_orphans_laws [OF 4(1)]
    have dead: "\<forall>h \<in> set (sv_dead ?v). suffix CLAIM_SUFFIX (h_name h)" using survey_dead by blast
    have claim_gone: "h \<in> set (sv_dead ?v)" if "suffix CLAIM_SUFFIX n" "readClaim s m n = Read h" for m n h
proof -
      have "claimLiveness w s h \<noteq> Unknown" "claimLiveness w s h \<noteq> Live" using that rec by (fastforce simp: recoverable_def resolved_def claims_in_def)+
      then have "claimLiveness w s h = Dead" by (cases "claimLiveness w s h") auto
      with that have "h \<in> claims_in w s m Dead" by (auto simp: claims_in_def)
      then show ?thesis unfolding readClaimSet_finds(2) [OF root] by (cases m) auto
    qed
    note reaped = reap_all_removes [OF 4(2) dead_reapable [OF 4(1)]]
    have "no_files s2" unfolding no_files_def
    proof (intro allI)
      fix m n
      show "file_at s2 m n = None"
      proof (cases "file_at s1 m n")
        case None
        then show ?thesis using reap_all_shrinks [OF 4(2)] by simp
      next
        case (Some f)
        then have in_s: "file_at s m n \<noteq> None" and not_orphan: "(m, n) \<notin> set (sv_orphans ?v)" using orph(1,2) [of m n] by (metis option.distinct(1))+
        define c where "c = (if suffix CLAIM_SUFFIX n then n else take (length n - 6) n @ CLAIM_SUFFIX)"
        have c: "suffix CLAIM_SUFFIX c" by (simp add: c_def suffix_def)
        have own: "suffix CLAIM_SUFFIX n \<or> suffix CHILD_SUFFIX n" using in_s rec by (auto simp: recoverable_def own_names_def)
        then have child: "n = c \<or> n = childPath c" using suffix_take [of CHILD_SUFFIX n] by (auto simp: c_def childPath_of)
        have "(m, n) \<notin> orphans_in s m" using not_orphan readClaimSet_finds(3) [OF root, of w] by (cases m) auto
        then have "file_at s m c \<noteq> None" using in_s own by (auto simp: c_def orphans_in_def)
        then obtain h where "readClaim s m c = Read h" using rec c readClaim_present by (fastforce simp: recoverable_def resolved_def)
        with claim_gone [OF c this] reaped readClaim_Read [OF this] child show ?thesis by auto
      qed
    qed
    moreover have "dir_of m s2 \<noteq> BadDir" for m
      using rec orph(5) [of m] reap_all_keeps [OF 4(2) dead, of "[]" m] by (simp add: recoverable_def del: dir_of.simps)
    ultimately have d: "dir_of m s2 = NoDir \<or> dir_of m s2 = Dir []" for m using no_files_dir by blast
    have t: "t = tidy Shared (tidy Exclusive s2)" using 4(4) live by simp
    have "dir_of m t = NoDir" for m using d [of Exclusive] d [of Shared] unfolding t tidy_def by (cases m) auto
    moreover have "no_files t" using \<open>no_files s2\<close> by (simp add: t no_files_def)
    ultimately show ?thesis using run 4(3) live reaped readClaimSet_finds(2) [OF root, of w] by (intro that [OF run]) auto
  qed (use un in auto)
qed

section \<open>Publishing on a cleared set\<close>

definition published :: "claim_mode \<Rightarrow> string \<Rightarrow> json \<Rightarrow> claim_set \<Rightarrow> claim_set" where
  "published m i p s = set_dir m (Dir [(i @ CLAIM_SUFFIX, FileText (Some p))]) s"

lemma publish_cleared: "(\<And>m. dir_of m s = NoDir) \<Longrightarrow> publish m i p s = (Inr (Some (i @ CLAIM_SUFFIX)), published m i p s)"
proof -
  assume "\<And>m. dir_of m s = NoDir"
  from this [of Exclusive] this [of Shared] show ?thesis
    by (cases m) (simp_all add: publish_def publishExclusive_def publishShared_def published_def put_file_def)
qed

lemma published_file: "(\<And>m. dir_of m s = NoDir) \<Longrightarrow> file_at (published m i p s) m' n = (if m' = m \<and> n = i @ CLAIM_SUFFIX then Some (FileText (Some p)) else None)"
  by (auto simp: published_def file_at_set_dir) (simp add: file_at_def)

text \<open>The only claim of the set is the one just published, and it has no child: the settling inspection finds nothing else.\<close>

lemma published_inspect:
  assumes clear: "\<And>m. dir_of m s = NoDir" and root: "set_root s = RootDir" and und: "undeletable s = []"
    and ow: "valid_owner ow" "inspectProcessIdentity w ow = Same" "i \<noteq> []"
    and t: "t = published m i (claim_payload i m ow stamp ds) s"
  shows "\<exists>st. inspectClaimSet w t = (Inr st, t) \<and> st_reaped st = [] \<and> (m = Shared \<longrightarrow> st_exclusive st = None) \<and> (m = Exclusive \<longrightarrow> st_shared st = [])"
proof -
  let ?p = "i @ CLAIM_SUFFIX" and ?v = "readClaimSet w t"
  note written = published_file [OF clear, of m i "claim_payload i m ow stamp ds", folded t]
  have frame: "set_root t = RootDir" "undeletable t = []" using root und by (simp_all add: t published_def)
  have p: "suffix CLAIM_SUFFIX ?p" by (simp add: suffix_def)
  have "readChild t m ?p = Absent" using childPath_not_claim [OF p, of ?p] written by (simp add: readChild_def readRecord_def)
  with readClaim_published [of t m ?p i ow stamp ds] written ow obtain h where h: "readClaim t m ?p = Read h" "owner h = ow"
    by (auto simp: readClaim_def readRecord_def claim_payload_def jfield_def jstr_field_def)
  have other: "readClaim t m' n = Absent" if "(m', n) \<noteq> (m, ?p)" for m' n
    using that written readClaim_present [of t m' n] by auto
  have live: "claimLiveness w t h = Live" using h(2) ow(2) live_owner by simp
  have here: "claims_in w t m Live = {h}" using h live other [of m] p by (auto simp: claims_in_def) (metis reading.distinct(4) reading.inject(2) prod.inject)
  have away: "claims_in w t m' l = {}" if "m' \<noteq> m \<or> l = Dead" for m' l
    using that h live other [of m'] by (auto simp: claims_in_def) (metis liveness.distinct(1) reading.distinct(4) reading.inject(2) prod.inject)+
  have orph: "orphans_in t m' = {}" for m' using written not_claim_and_child [OF p] by (auto simp: orphans_in_def)
  have "sv_unresolved ?v = []"
  proof (rule readClaimSet_resolved(2) [OF frame(1)])
    show "dir_of m' t \<noteq> BadDir" for m' using clear by (simp add: t published_def del: dir_of.simps)
    show "resolved w t m'" for m' using h live other by (metis liveness.distinct(3) prod.inject resolved_def)
    show "own_names t m'" for m' using written p by (auto simp: own_names_def)
  qed
  from inspect_succeeds [OF this frame(2)] obtain st u where run: "inspectClaimSet w t = (Inr st, u)" by blast
  have sets: "sv_orphans ?v = []" "sv_dead ?v = []" "set (sv_live ?v) = {h}"
    using readClaimSet_finds [OF frame(1), of w] orph away here by (cases m; simp)+
  have mode: "h_mode h = m" by (rule readClaim_Read(1) [OF h(1)])
  have dirs: "dir_of m' t = NoDir" if "m' \<noteq> m" for m' using that clear by (simp add: t published_def del: dir_of.simps)
  have idle: "tidy m' t = t" if "m' \<noteq> m" for m' using dirs [OF that] by (simp add: tidy_def del: dir_of.simps)
  from run show ?thesis
  proof (cases rule: inspect_cases)
    case (4 s1 s2 reaped)
    from 4(1,2) sets have "s2 = t" "reaped = []" by auto
    with 4(4) sets(3) mode idle have "u = t" by (cases m) (auto simp: Let_def)
    moreover have "m = Shared \<Longrightarrow> st_exclusive st = None" using inspect_result(2) [OF run frame(1)] away [of Exclusive Live] by simp
    moreover have "m = Exclusive \<Longrightarrow> st_shared st = []" using inspect_result(1) [OF run frame(1)] away [of Shared Live] by simp
    ultimately show ?thesis using run 4(3) \<open>reaped = []\<close> by auto
  qed (use \<open>sv_unresolved ?v = []\<close> in auto)
qed

lemma recover_acquire:
  assumes "recoverable w s" "valid_owner ow" "inspectProcessIdentity w ow = Same" "\<And>k. ids k \<noteq> []"
  shows "\<exists>u r i stamp. tryAcquireClaim w (Inr ow) m ds ids stamps s =
      (Inr (Acquired (claim_handle_for m ow ds i stamp) r), published m i (claim_payload i m ow stamp ds) u) \<and>
     set r = claims_in w s Exclusive Dead \<union> claims_in w s Shared Dead \<and> (\<forall>m'. dir_of m' u = NoDir) \<and> set_root u = RootDir \<and>
     leftovers u = leftovers s \<and> undeletable u = [] \<and> i \<in> range ids"
proof -
  from recoverable_make_root [OF assms(1)] have rec: "recoverable w (make_root s)" "set_root (make_root s) = RootDir" by auto
  from recoverable_inspect [OF this] obtain st t where run: "inspectClaimSet w (make_root s) = (Inr st, t)" and st: "st_exclusive st = None"
    "set (st_reaped st) = claims_in w (make_root s) Exclusive Dead \<union> claims_in w (make_root s) Shared Dead" and clear: "\<And>m. dir_of m t = NoDir" by metis
  note frame = inspect_frame [OF run]
  have t: "set_root t = RootDir" "undeletable t = []" "leftovers t = leftovers s" using frame rec by (auto simp: recoverable_def)
  have same: "claims_in w (make_root s) m' l = claims_in w s m' l" for m' l
  proof -
    have "same_claim s (make_root s) m n" for m n by (simp add: same_claim_def)
    then have "readClaim (make_root s) m n = readClaim s m n" "claimLiveness w (make_root s) h = claimLiveness w s h" for m n h
      using same_claim_reads(2) same_claim_liveness by blast+
    then show ?thesis by (simp add: claims_in_def)
  qed
  have "PUBLISH_ATTEMPTS = Suc 63" by (simp add: PUBLISH_ATTEMPTS_def)
  then obtain k where k: "PUBLISH_ATTEMPTS = Suc k" by blast
  let ?i = "ids k" and ?t = "stamps k"
  let ?u = "published m ?i (claim_payload ?i m ow ?t ds) t"
  obtain st' where "inspectClaimSet w ?u = (Inr st', ?u)" "st_reaped st' = []" "m = Shared \<longrightarrow> st_exclusive st' = None" "m = Exclusive \<longrightarrow> st_shared st' = []"
    using published_inspect [OF clear t(1,2) assms(2,3,4) refl] by blast
  then have "settle_published w (claim_handle_for m ow ds ?i ?t) (st_reaped st) ?u = (Inr (Acquired (claim_handle_for m ow ds ?i ?t) (st_reaped st)), ?u)"
    by (cases m) (auto simp: settle_published_def settleOrRelease_def)
  moreover have "set_root s \<noteq> RootFile" "set_root s \<noteq> RootDenied" using assms(1) by (auto simp: recoverable_def)
  ultimately have "tryAcquireClaim w (Inr ow) m ds ids stamps s = (Inr (Acquired (claim_handle_for m ow ds ?i ?t) (st_reaped st)), ?u)"
    using run st(1) publish_cleared [OF clear, of m ?i] by (simp add: tryAcquireClaim_def k Let_def)
  then show ?thesis using st(2) same clear t by blast
qed

section \<open>What an attempt adds\<close>

lemma inspect_present:
  assumes run: "inspectClaimSet w s = (Inr st, t)" and root: "set_root s = RootDir" and n: "suffix CLAIM_SUFFIX n" "file_at t m n \<noteq> None"
  shows "same_claim s t m n"
proof -
  from run obtain s1 s2 reaped where 1: "remove_orphans (sv_orphans (readClaimSet w s)) s = (None, s1)"
    and 2: "reap_all (sv_dead (readClaimSet w s)) s1 = (Inr reaped, s2)" and t: "file_at t m n = file_at s2 m n"
    by (cases rule: inspect_cases) (auto simp: Let_def)
  have f1: "file_at s1 m n \<noteq> None" using reap_all_shrinks [OF 2, of m n] n(2) t by metis
  then have f: "file_at s m n \<noteq> None" using remove_orphans_laws(1,2) [OF 1] by metis
  have "claimLiveness w s h \<noteq> Dead" if h: "readClaim s m n = Read h" for h
  proof
    assume "claimLiveness w s h = Dead"
    with h n(1) have "h \<in> claims_in w s m Dead" by (auto simp: claims_in_def)
    then have "h \<in> set (sv_dead (readClaimSet w s))" unfolding readClaimSet_finds(2) [OF root] by (cases m) auto
    with reap_all_removes [OF 2 dead_reapable [OF 1]] readClaim_Read [OF h] n(2) t show False by auto
  qed
  with inspect_keeps [OF run n(1) f] show ?thesis by blast
qed

lemma acquire_loop_present:
  assumes "acquire_loop k w m ow ds ids stamps reaped s = (Inr (Acquired c r), t)"
    and "suffix CLAIM_SUFFIX n" "file_at t m' n \<noteq> None" "(m', n) \<noteq> (hd_mode c, hd_path c)"
  shows "same_claim s t m' n"
  using assms(1)
proof (induction k arbitrary: reaped s)
  case 0
  then show ?case by (auto simp: Let_def split: prod.splits sum.splits option.splits claim_mode.splits list.splits)
next
  case (Suc k)
  have root: "same_claim s u m' n" if "same_claim (make_root s) u m' n" for u using that by (simp add: same_claim_def)
  from Suc.prems show ?case
  proof (cases rule: acquire_step)
    case (5 st s1 s2)
    have s2: "s2 = s1" using 5(3) by (auto simp: publish_def publishExclusive_def publishShared_def split: claim_mode.splits dir.splits list.splits)
    have rest: "same_claim s1 t m' n" using Suc.IH [OF 5(4)] s2 by simp
    then have "file_at s1 m' n \<noteq> None" using assms(3) by (simp add: same_claim_def)
    from inspect_present [OF 5(1) _ assms(2) this] make_root_inspected [OF 5(1)] rest same_claim_trans root show ?thesis by blast
  next
    case (6 st s1 s2)
    let ?d = "claim_handle_for m ow ds (ids k) (stamps k)"
    from 6(4) obtain st' where settled: "inspectClaimSet w s2 = (Inr st', t)" and c: "c = ?d" by (cases rule: settle_published_cases) auto
    have roots: "set_root s1 = RootDir" "set_root s2 = RootDir" using make_root_inspected [OF 6(1)] publish_own [OF 6(3)] by auto
    have 2: "same_claim s2 t m' n" by (rule inspect_present [OF settled roots(2) assms(2,3)])
    then have f2: "file_at s2 m' n \<noteq> None" using assms(3) by (simp add: same_claim_def)
    have new: "(m', n) \<noteq> (m, ids k @ CLAIM_SUFFIX)" using assms(4) c by auto
    have f1: "file_at s1 m' n \<noteq> None" by (rule publish_old [OF 6(3) f2 new])
    have "same_claim s1 s2 m' n" by (rule publish_keeps(1) [OF 6(3) f1 assms(2) new])
    with inspect_present [OF 6(1) _ assms(2) f1] make_root_inspected [OF 6(1)] 2 same_claim_trans root show ?thesis by blast
  qed auto
qed

section \<open>Releasing\<close>

lemma releaseClaim_effect:
  assumes "holds s c" "undeletable s = []"
  obtains t where "releaseClaim c s = (True, t)" "file_at t (hd_mode c) (hd_path c) = None" "file_at t (hd_mode c) (childPath (hd_path c)) = None"
    "\<And>m n. (m, n) \<noteq> (hd_mode c, hd_path c) \<Longrightarrow> (m, n) \<noteq> (hd_mode c, childPath (hd_path c)) \<Longrightarrow> file_at t m n = file_at s m n"
proof -
  obtain r1 s1 where 1: "removeOrRefuse (hd_mode c) (childPath (hd_path c)) (hd_path c) s = (r1, s1)" by fastforce
  obtain r2 s2 where 2: "removeOrRefuse (hd_mode c) (hd_path c) (hd_path c) s1 = (r2, s2)" by fastforce
  note l1 = removeOrRefuse_laws [OF 1] and l2 = removeOrRefuse_laws [OF 2]
  have "r1 = None" "r2 = None" using l1(4,6) l2(6) assms(2) by auto
  then have run: "releaseClaim c s = (True, tidy_root (tidy (hd_mode c) s2))"
    using assms(1) 1 2 by (auto simp: holds_def releaseClaim_def)
  have files: "file_at (tidy_root (tidy m' u)) m n = file_at u m n" for m' u m n by (simp add: tidy_root_def)
  have "childPath (hd_path c) \<noteq> hd_path c" using assms(1) childPath_not_claim by (auto simp: holds_def)
  with l1(1,2) l2(1,2) \<open>r1 = None\<close> \<open>r2 = None\<close> show ?thesis by (intro that [OF run]) (auto simp: files)
qed

section \<open>Properties\<close>

text \<open>
  C8. Inspecting a claim set never removes a claim that may be held: a claim file whose record
  cannot be read, or whose owner or child is alive or cannot be identified, is still there with its
  child record when the inspection ends, whether it succeeds or fails.
\<close>

theorem inspect_keeps_held:
  assumes "inspectClaimSet w s = (r, t)" "suffix CLAIM_SUFFIX n" "file_at s m n \<noteq> None"
    and "\<And>h. readClaim s m n = Read h \<Longrightarrow> claimLiveness w s h \<noteq> Dead"
  shows "file_at t m n = file_at s m n \<and> file_at t m (childPath n) = file_at s m (childPath n)"
  using inspect_keeps [OF assms] by (simp add: same_claim_def)

definition self_only :: "claim_owner \<Rightarrow> os" where
  "self_only ow = \<lparr>inspectProcessIdentity = (\<lambda>o'. if o' = ow then Same else Gone), group_answers = (\<lambda>_. False)\<rparr>"

definition proc :: "int \<Rightarrow> claim_owner" where
  "proc p = \<lparr>pid = p, processToken = ''t''\<rparr>"

definition two_claims :: claim_set where
  "two_claims = empty_set\<lparr>set_root := RootDir, shared_dir := Dir
     [(''a.claim'', FileText (Some (claim_payload ''a'' Shared (proc 7) ''t0'' (JObj [])))),
      (''b.claim'', FileText (Some (claim_payload ''b'' Shared (proc 8) ''t1'' (JObj []))))]\<rparr>"

theorem inspect_keeps_held_witness:
  "file_at (snd (inspectClaimSet (self_only (proc 8)) two_claims)) Shared ''b.claim'' = file_at two_claims Shared ''b.claim'' \<and>
   file_at (snd (inspectClaimSet (self_only (proc 8)) two_claims)) Shared ''a.claim'' = None"
proof -
  let ?w = "self_only (proc 8)"
  have r: "readClaim two_claims Shared ''b.claim'' = Read \<lparr>h_mode = Shared, h_name = ''b.claim'', claimId = ''b'', owner = proc 8,
      startedAt = ''t1'', details = JObj [], child = None, childDeclared = False\<rparr>" by code_simp
  have "suffix CLAIM_SUFFIX ''b.claim''" "file_at two_claims Shared ''b.claim'' \<noteq> None" by code_simp+
  from inspect_keeps_held [OF prod.collapse [symmetric] this, of ?w]
  have "file_at (snd (inspectClaimSet ?w two_claims)) Shared ''b.claim'' = file_at two_claims Shared ''b.claim''"
    unfolding r by (simp add: claimLiveness_def self_only_def)
  moreover have "file_at (snd (inspectClaimSet ?w two_claims)) Shared ''a.claim'' = None" by code_simp
  ultimately show ?thesis by blast
qed

text \<open>
  C6. A claim keeps others out: once an attempt acquired a claim (or published an exclusive one it
  still waits to settle), and while its owner runs, no attempt by any process acquires a
  conflicting one. Against an exclusive claim every attempt is refused or told who holds it, against
  a shared claim an exclusive attempt does not succeed, and the claim stands when the attempt ends.
\<close>

theorem claim_keeps_others_out:
  assumes "tryAcquireClaim w (Inr ow) m ds ids stamps s = (Inr a, s1)" "a = Acquired c r \<or> (\<exists>hs. a = WaitingFor hs c r)"
    and "valid_owner ow" "\<And>k. ids k \<noteq> []" "inspectProcessIdentity w ow = Same"
    and "tryAcquireClaim w' self m' ds' ids' stamps' s1 = (res, s2)" "inspectProcessIdentity w' ow = Same" "range ids \<inter> range ids' = {}"
  shows "holds s1 c \<and> holds s2 c \<and>
    (m = Exclusive \<longrightarrow> (\<exists>e. res = Inl e) \<or> (\<exists>h rs. res = Inr (HeldBy h rs))) \<and>
    (m' = Exclusive \<longrightarrow> (\<forall>c' r'. res \<noteq> Inr (Acquired c' r')))"
proof -
  from assms(1) have "acquire_loop PUBLISH_ATTEMPTS w m ow ds ids stamps [] s = (Inr a, s1)" by (simp add: tryAcquireClaim_def)
  from acquire_loop_own [OF this assms(2-5)] have c: "holds s1 c" "hd_mode c = m" "hd_owner c = ow" "hd_path c = hd_claimId c @ CLAIM_SUFFIX"
    "hd_claimId c \<in> range ids" by auto
  show ?thesis
  proof (cases self)
    case (Inl reason)
    with assms(6) c(1) show ?thesis by (auto simp: tryAcquireClaim_def)
  next
    case (Inr ow')
    with assms(6) have run: "acquire_loop PUBLISH_ATTEMPTS w' m' ow' ds' ids' stamps' [] s1 = (res, s2)" by (simp add: tryAcquireClaim_def)
    have "ids' k @ CLAIM_SUFFIX \<noteq> hd_path c" for k using c(4,5) assms(8) by (metis append_same_eq disjoint_iff rangeI)
    from acquire_loop_conflict [OF run c(1) _ this] assms(7) c show ?thesis by simp
  qed
qed

theorem claim_keeps_others_out_witness:
  "(\<forall>c' r'. fst (tryAcquireClaim (self_only (proc 7)) (Inr (proc 9)) Exclusive (JObj []) (\<lambda>_. ''y'') (\<lambda>_. ''t1'')
      (snd (tryAcquireClaim (self_only (proc 7)) (Inr (proc 7)) Shared (JObj []) (\<lambda>_. ''x'') (\<lambda>_. ''t0'') empty_set))) \<noteq> Inr (Acquired c' r'))"
proof -
  let ?w = "self_only (proc 7)"
  let ?a = "tryAcquireClaim ?w (Inr (proc 7)) Shared (JObj []) (\<lambda>_. ''x'') (\<lambda>_. ''t0'') empty_set"
  have a: "?a = (Inr (Acquired (claim_handle_for Shared (proc 7) (JObj []) ''x'' ''t0'') []), snd ?a)"
    by (rule prod_eqI; code_simp)
  have v: "valid_owner (proc 7)" "inspectProcessIdentity ?w (proc 7) = Same" by code_simp+
  show ?thesis
    using claim_keeps_others_out [OF a disjI1 [OF refl] v(1) _ v(2) prod.collapse [symmetric] v(2)] by simp
qed

text \<open>
  C9. Claims left by dead processes never wedge a set: when every claim in it is dead, every file is
  one of Stim's own and nothing refuses removal, the first attempt in either mode acquires the
  claim, reports exactly the dead claims as reaped, and holds it.
\<close>

theorem dead_claims_recovered:
  assumes "recoverable w s" "valid_owner ow" "inspectProcessIdentity w ow = Same" "\<And>k. ids k \<noteq> []"
  shows "\<exists>c r t. tryAcquireClaim w (Inr ow) m ds ids stamps s = (Inr (Acquired c r), t) \<and>
    set r = claims_in w s Exclusive Dead \<union> claims_in w s Shared Dead \<and> holds t c \<and> hd_mode c = m"
proof -
  obtain c r t where run: "tryAcquireClaim w (Inr ow) m ds ids stamps s = (Inr (Acquired c r), t)"
    and r: "set r = claims_in w s Exclusive Dead \<union> claims_in w s Shared Dead" using recover_acquire [of w s ow ids m ds stamps, OF assms] by blast
  from run have "acquire_loop PUBLISH_ATTEMPTS w m ow ds ids stamps [] s = (Inr (Acquired c r), t)" by (simp add: tryAcquireClaim_def)
  from acquire_loop_own [OF this _ assms(2,4,3)] run r show ?thesis by blast
qed

lemma two_claims_dead: "recoverable (self_only (proc 9)) two_claims"
proof -
  let ?w = "self_only (proc 9)"
  have at: "file_at two_claims m n = (if m = Shared \<and> n = ''a.claim'' then Some (FileText (Some (claim_payload ''a'' Shared (proc 7) ''t0'' (JObj []))))
      else if m = Shared \<and> n = ''b.claim'' then Some (FileText (Some (claim_payload ''b'' Shared (proc 8) ''t1'' (JObj [])))) else None)" for m n
    by (cases m) (simp_all add: file_at_def two_claims_def empty_set_def)
  have a: "readClaim two_claims Shared ''a.claim'' = Read \<lparr>h_mode = Shared, h_name = ''a.claim'', claimId = ''a'', owner = proc 7,
      startedAt = ''t0'', details = JObj [], child = None, childDeclared = False\<rparr>"
    and b: "readClaim two_claims Shared ''b.claim'' = Read \<lparr>h_mode = Shared, h_name = ''b.claim'', claimId = ''b'', owner = proc 8,
      startedAt = ''t1'', details = JObj [], child = None, childDeclared = False\<rparr>" by code_simp+
  have dead: "claimLiveness ?w two_claims h = Dead" if "readClaim two_claims m n = Read h" for m n h
  proof -
    have "file_at two_claims m n \<noteq> None" using that by (rule readClaim_Read(3))
    then have "m = Shared \<and> (n = ''a.claim'' \<or> n = ''b.claim'')" using at [of m n] by (auto split: if_splits)
    then have "childLiveness ?w two_claims (h_mode h) (h_name h) = None \<and> (owner h = proc 7 \<or> owner h = proc 8)"
      using that a b by (auto, code_simp+)
    then show ?thesis by (auto simp: claimLiveness_def self_only_def proc_def)
  qed
  have "suffix CLAIM_SUFFIX ''a.claim''" "suffix CLAIM_SUFFIX ''b.claim''" by code_simp+
  then have "own_names two_claims m" for m unfolding own_names_def at by auto
  moreover have "resolved ?w two_claims m" for m
  proof -
    have "readClaim two_claims m n = Absent \<or> (\<exists>h. readClaim two_claims m n = Read h)" for n
      using at [of m n] a b readClaim_present [of two_claims m n] by (auto split: if_splits)
    with dead show ?thesis by (fastforce simp: resolved_def)
  qed
  moreover have "claims_in ?w two_claims m Live = {}" for m using dead by (fastforce simp: claims_in_def)
  moreover have "dir_of m two_claims \<noteq> BadDir" for m by (cases m) (simp_all add: two_claims_def empty_set_def)
  moreover have "set_root two_claims = RootDir" "undeletable two_claims = []" by (simp_all add: two_claims_def empty_set_def)
  ultimately show ?thesis by (simp add: recoverable_def del: dir_of.simps)
qed

theorem dead_claims_recovered_witness:
  "\<exists>c r t. tryAcquireClaim (self_only (proc 9)) (Inr (proc 9)) Exclusive (JObj []) (\<lambda>_. ''x'') (\<lambda>_. ''t2'') two_claims = (Inr (Acquired c r), t) \<and> holds t c"
proof -
  have "valid_owner (proc 9)" "inspectProcessIdentity (self_only (proc 9)) (proc 9) = Same" by code_simp+
  from dead_claims_recovered [OF two_claims_dead this, of "\<lambda>_. ''x''" Exclusive "JObj []" "\<lambda>_. ''t2''"] show ?thesis by auto
qed

text \<open>
  Taking and releasing a free set leaves no trace: from a claim set that does not exist the
  attempt succeeds in either mode, its release succeeds, and the set is gone again, directories and
  root included.
\<close>

theorem claim_release_round_trip:
  assumes "valid_owner ow" "inspectProcessIdentity w ow = Same" "\<And>k. ids k \<noteq> []"
  shows "\<exists>c t. tryAcquireClaim w (Inr ow) m ds ids stamps empty_set = (Inr (Acquired c []), t) \<and> releaseClaim c t = (True, empty_set)"
proof -
  have none: "file_at empty_set m n = None" for m n by (cases m) (simp_all add: file_at_def empty_set_def)
  then have "readClaim empty_set m n = Absent" for m n using readClaim_present by metis
  then have dead: "claims_in w empty_set m l = {}" "resolved w empty_set m" for m l by (simp_all add: claims_in_def resolved_def)
  have "dir_of m empty_set = NoDir" for m by (cases m) (simp_all add: empty_set_def)
  then have rec: "recoverable w empty_set" using dead none by (simp add: recoverable_def own_names_def empty_set_def del: dir_of.simps)
  obtain u i stamp r where run: "tryAcquireClaim w (Inr ow) m ds ids stamps empty_set =
      (Inr (Acquired (claim_handle_for m ow ds i stamp) r), published m i (claim_payload i m ow stamp ds) u)"
    and r: "set r = {}" and u: "\<And>m'. dir_of m' u = NoDir" "set_root u = RootDir" "leftovers u = []" "undeletable u = []"
    using recover_acquire [of w empty_set ow ids m ds stamps, OF rec assms] dead(1) by (auto simp: empty_set_def)
  let ?c = "claim_handle_for m ow ds i stamp" and ?p = "i @ CLAIM_SUFFIX"
  let ?t = "published m i (claim_payload i m ow stamp ds) u"
  from run have "acquire_loop PUBLISH_ATTEMPTS w m ow ds ids stamps [] empty_set = (Inr (Acquired ?c r), ?t)" by (simp add: tryAcquireClaim_def)
  from acquire_loop_own [OF this _ assms(1,3,2)] obtain h where h: "readClaim ?t m ?p = Read h" "claimId h = i" by (auto simp: holds_def)
  have p: "childPath ?p \<noteq> ?p" by (rule childPath_not_claim) (simp add: suffix_def)
  have und: "undeletable ?t = []" using u(4) by (simp add: published_def)
  have files: "file_at ?t m (childPath ?p) = None" "file_at ?t m ?p \<noteq> None" using published_file [OF u(1)] p by auto
  have del: "delete_file m ?p ?t = set_dir m (Dir []) u" by (cases m) (simp_all add: delete_file_def published_def)
  have "releaseClaim ?c ?t = (True, tidy_root (tidy m (set_dir m (Dir []) u)))"
    using h files und del by (auto simp: releaseClaim_def removeOrRefuse_def)
  also have "tidy_root (tidy m (set_dir m (Dir []) u)) = empty_set"
    using u(1) [of Exclusive] u(1) [of Shared] u(2-4) by (cases m; cases u) (simp_all add: tidy_def tidy_root_def empty_set_def)
  finally show ?thesis using run r by auto
qed

theorem claim_release_round_trip_witness:
  "\<exists>c t. tryAcquireClaim (self_only (proc 7)) (Inr (proc 7)) Exclusive (JObj []) (\<lambda>_. ''x'') (\<lambda>_. ''t0'') empty_set = (Inr (Acquired c []), t) \<and>
     releaseClaim c t = (True, empty_set)"
proof -
  have "valid_owner (proc 7)" "inspectProcessIdentity (self_only (proc 7)) (proc 7) = Same" by code_simp+
  from claim_release_round_trip [OF this, of "\<lambda>_. ''x''" Exclusive "JObj []" "\<lambda>_. ''t0''"] show ?thesis by auto
qed

text \<open>
  C39. A claim whose owner died between announcing a child and recording it is never taken for free:
  every attempt, in either mode, is refused with an error and leaves the claim and its child record
  in place.
\<close>

theorem pending_child_refused:
  assumes "holds s c" "markClaimChildPending c s = (Inr (), s1)" "inspectProcessIdentity w (hd_owner c) = Gone"
    and "tryAcquireClaim w self m ds ids stamps s1 = (res, s2)"
  shows "(\<exists>e. res = Inl e) \<and> file_at s2 (hd_mode c) (hd_path c) = file_at s (hd_mode c) (hd_path c) \<and>
    file_at s2 (hd_mode c) (childPath (hd_path c)) = Some (FileText (Some (JObj [(''record'', JNull)])))"
proof -
  let ?m = "hd_mode c" and ?p = "hd_path c"
  obtain h where h: "readClaim s ?m ?p = Read h" "owner h = hd_owner c" and p: "suffix CLAIM_SUFFIX ?p" and root: "set_root s = RootDir"
    using assms(1) by (auto simp: holds_def)
  have s1: "s1 = put_file ?m (childPath ?p) (FileText (Some (JObj [(''record'', JNull)]))) s"
    using assms(2) by (auto simp: markClaimChildPending_def writeChild_def split: dir.splits option.splits)
  have f: "file_at s1 ?m ?p = file_at s ?m ?p" "file_at s1 ?m (childPath ?p) = Some (FileText (Some (JObj [(''record'', JNull)])))"
    using childPath_not_claim [OF p, of ?p] by (auto simp: s1)
  have root1: "set_root s1 = RootDir" using root by (simp add: s1 put_file_def)
  have child: "readChild s1 ?m ?p = Read None" using f(2) by (simp add: readChild_def readRecord_def jfield_def asOwner_def)
  have "\<not> resolved w s1 ?m"
  proof
    assume "resolved w s1 ?m"
    moreover have "readClaim s1 ?m ?p \<noteq> Absent" using readClaim_present [of s1 ?m ?p] f(1) readClaim_Read(3) [OF h(1)] by simp
    ultimately obtain h' where h': "readClaim s1 ?m ?p = Read h'" "claimLiveness w s1 h' \<noteq> Unknown" using p by (auto simp: resolved_def)
    have "owner h' = owner h" using h(1) h'(1) f(1)
      by (auto simp: readClaim_def readRecord_def split: option.splits reading.splits if_splits claim_file.splits)
    with h' child readClaim_Read [OF h'(1)] assms(3) h(2) show False by (simp add: claimLiveness_def childLiveness_def)
  qed
  then have "sv_unresolved (readClaimSet w s1) \<noteq> []" using readClaimSet_resolved(1) [OF root1] by blast
  then obtain e where run: "inspectClaimSet w s1 = (Inl e, s1)"
    by (cases "sv_unresolved (readClaimSet w s1)") (auto simp: inspectClaimSet_def Let_def split: prod.splits)
  have "acquire_loop (Suc k) w m ow ds ids stamps [] s1 = (Inl e, s1)" for k ow using run root1 by simp
  moreover have "PUBLISH_ATTEMPTS = Suc 63" by (simp add: PUBLISH_ATTEMPTS_def)
  ultimately have "acquire_loop PUBLISH_ATTEMPTS w m ow ds ids stamps [] s1 = (Inl e, s1)" for ow by metis
  then have "(\<exists>e. res = Inl e) \<and> s2 = s1" using assms(4) by (auto simp: tryAcquireClaim_def split: sum.splits)
  with f show ?thesis by simp
qed

definition held_x :: "claim_handle \<times> claim_set" where
  "held_x = (case tryAcquireClaim (self_only (proc 7)) (Inr (proc 7)) Exclusive (JObj []) (\<lambda>_. ''x'') (\<lambda>_. ''t0'') empty_set of
     (Inr (Acquired c _), s) \<Rightarrow> (c, s) | (_, s) \<Rightarrow> (claim_handle_for Exclusive (proc 7) (JObj []) [] [], s))"

theorem pending_child_refused_witness:
  "\<exists>e. fst (tryAcquireClaim (self_only (proc 9)) (Inr (proc 9)) Shared (JObj []) (\<lambda>_. ''y'') (\<lambda>_. ''t1'')
      (snd (markClaimChildPending (fst held_x) (snd held_x)))) = Inl e"
proof -
  have r: "readClaim (snd held_x) Exclusive ''x.claim'' = Read \<lparr>h_mode = Exclusive, h_name = ''x.claim'', claimId = ''x'', owner = proc 7,
      startedAt = ''t0'', details = JObj [], child = None, childDeclared = False\<rparr>" by code_simp
  have c: "fst held_x = \<lparr>hd_path = ''x.claim'', hd_claimId = ''x'', hd_mode = Exclusive, hd_owner = proc 7, hd_startedAt = ''t0'', hd_details = JObj []\<rparr>"
    by code_simp
  have "set_root (snd held_x) = RootDir" "suffix CLAIM_SUFFIX ''x.claim''" by code_simp+
  with r c have held: "holds (snd held_x) (fst held_x)" by (simp add: holds_def)
  have mark: "markClaimChildPending (fst held_x) (snd held_x) = (Inr (), snd (markClaimChildPending (fst held_x) (snd held_x)))"
    by (rule prod_eqI; code_simp)
  have "inspectProcessIdentity (self_only (proc 9)) (hd_owner (fst held_x)) = Gone" by code_simp
  from pending_child_refused [OF held mark this prod.collapse [symmetric]] show ?thesis by blast
qed

end
