(* ===== verification/Pressure_Policy.thy ===== *)
theory Pressure_Policy
  imports Iso_Date Js_Number "HOL-Library.Multiset"
begin

text \<open>
  Memory and disk pressure: how a measurement is classified
  (\<open>packages/stim-cli/src/daemon/pressure.ts\<close>) and what the pressure ladder's rungs do on it
  (\<open>packages/stim-cli/src/policy/pressure.ts\<close>). Megabytes and gigabytes are doubles; the
  numbers the settings hold come as arguments, as \<open>machineNumber\<close> returns them.
\<close>

section \<open>Classifying a measurement\<close>

datatype pressure_level = Normal | High | Critical

fun RANK :: "pressure_level \<Rightarrow> nat" where
  "RANK Normal = 0"
| "RANK High = 1"
| "RANK Critical = 2"

definition double_max :: "double \<Rightarrow> double \<Rightarrow> double" where
  "double_max x y = (if double_less x y then y else x)"

definition times_1024 :: "double \<Rightarrow> double" where
  "times_1024 x = (fst x * 1024, snd x)"

record disk_thresholds =
  highMb :: double
  criticalMb :: double
  hardFloorMb :: double

record machine_number =
  mn_value :: "double option"
  mn_error :: "string option"

definition number_or_zero :: "machine_number \<Rightarrow> double" where
  "number_or_zero n = (case mn_value n of None \<Rightarrow> (0, 0) | Some x \<Rightarrow> x)"

definition first_error :: "string option list \<Rightarrow> string option" where
  "first_error es = (case List.find (\<lambda>e. e \<noteq> None) es of None \<Rightarrow> None | Some e \<Rightarrow> e)"

definition diskThresholds :: "machine_number \<Rightarrow> machine_number \<Rightarrow> machine_number \<Rightarrow> disk_thresholds \<times> string option" where
  "diskThresholds high critical flr =
     (let hard = times_1024 (number_or_zero flr) in
      (\<lparr>highMb = times_1024 (number_or_zero high), criticalMb = double_max (times_1024 (number_or_zero critical)) hard, hardFloorMb = hard\<rparr>,
       first_error [mn_error high, mn_error critical, mn_error flr]))"

definition higherLevel :: "pressure_level \<Rightarrow> pressure_level \<Rightarrow> pressure_level" where
  "higherLevel a b = (if RANK b \<le> RANK a then a else b)"

definition gb :: "double \<Rightarrow> string" where
  "gb mb = to_fixed1 (fst mb, snd mb + 10) @ '' GB''"

record volume =
  vol_name :: string
  vol_freeMb :: double

definition positive :: "double \<Rightarrow> bool" where
  "positive x = (0 < fst x)"

fun disk_loop :: "disk_thresholds \<Rightarrow> volume list \<Rightarrow> pressure_level \<Rightarrow> string list \<Rightarrow> pressure_level \<times> string list" where
  "disk_loop t [] level reasons = (level, reasons)"
| "disk_loop t (v # vs) level reasons =
     (if positive (criticalMb t) \<and> double_less (vol_freeMb v) (criticalMb t)
      then disk_loop t vs Critical (reasons @ [gb (vol_freeMb v) @ '' free on '' @ vol_name v @ '', under the '' @ gb (criticalMb t) @ '' critical floor''])
      else if positive (highMb t) \<and> double_less (vol_freeMb v) (highMb t)
      then disk_loop t vs (higherLevel level High)
        (reasons @ [gb (vol_freeMb v) @ '' free on '' @ vol_name v @ '', under disk.minFreeGb ('' @ gb (highMb t) @ '')''])
      else disk_loop t vs level reasons)"

definition diskPressure :: "volume list \<Rightarrow> disk_thresholds \<Rightarrow> pressure_level \<times> string list" where
  "diskPressure disk t = disk_loop t disk Normal []"

definition MEMORY_WARNING_MS :: int where "MEMORY_WARNING_MS = 10 * 60000"
definition GIB :: int where "GIB = 1073741824"

text \<open>The double nearest to \<open>0.1\<close>.\<close>

definition LOW_MEMORY_SHARE :: double where "LOW_MEMORY_SHARE = (3602879701896397, 55)"

record memory_reading =
  mem_level :: "string option"
  mem_available :: "int option"
  mem_total :: int

text \<open>
  The warning clock is kept as the time it stands for; \<open>previousWarningSince\<close> is the text of the
  last measurement, and the text returned is the ISO form of the clock.
\<close>

definition memoryPressure :: "memory_reading \<Rightarrow> string option \<Rightarrow> int \<Rightarrow> pressure_level \<times> string list \<times> string option" where
  "memoryPressure m previousWarningSince now =
     (let pressured = (mem_level m = Some ''warning'' \<or> mem_level m = Some ''critical'');
          since = date_parse (case previousWarningSince of None \<Rightarrow> [] | Some s \<Rightarrow> s);
          warningSince = (if pressured then Some (case since of Some s \<Rightarrow> s | None \<Rightarrow> now) else None);
          (level, reasons) =
            (if mem_level m = Some ''critical'' then (Critical, [''macOS memory pressure is critical''])
             else if mem_level m = Some ''warning'' \<and> (case warningSince of None \<Rightarrow> False | Some w \<Rightarrow> MEMORY_WARNING_MS \<le> now - w)
             then (High, [''macOS memory pressure has been warning for '' @ string_of_int ((now - the warningSince) div 60000) @ '' minutes''])
             else (Normal, []));
          low = (level = Normal \<and> (case mem_available m of None \<Rightarrow> False | Some a \<Rightarrow> int_less_double a (double_mul LOW_MEMORY_SHARE (mem_total m))))
      in (if low then High else level,
          (if low then reasons @ [to_fixed1 (double_div (the (mem_available m)) GIB) @ '' GB of '' @
                string_of_int (math_round (double_div (mem_total m) GIB)) @ '' GB memory available, under 10%'']
           else reasons),
          map_option to_iso warningSince))"

record daemon_pressure =
  dp_level :: pressure_level
  dp_disk :: pressure_level
  dp_memory :: pressure_level
  dp_reasons :: "string list"
  dp_memoryWarningSince :: "string option"

definition classifyPressure :: "volume list \<Rightarrow> memory_reading \<Rightarrow> disk_thresholds \<Rightarrow> string option \<Rightarrow> int \<Rightarrow> daemon_pressure" where
  "classifyPressure disk memory t previousWarningSince now =
     (let (dl, dr) = diskPressure disk t; (ml, mr, ws) = memoryPressure memory previousWarningSince now in
      \<lparr>dp_level = higherLevel dl ml, dp_disk = dl, dp_memory = ml, dp_reasons = dr @ mr, dp_memoryWarningSince = ws\<rparr>)"

section \<open>The ladder\<close>

datatype cause = Disk | Memory

fun level_of :: "daemon_pressure \<Rightarrow> cause \<Rightarrow> pressure_level" where
  "level_of p Disk = dp_disk p"
| "level_of p Memory = dp_memory p"

definition LADDER :: "(nat \<times> cause list) list" where
  "LADDER = [(0, [Memory]), (1, [Disk]), (2, [Disk]), (3, [Disk]), (4, [Disk]), (5, [Disk]), (6, [Disk, Memory])]"

definition rungsFrom :: "nat \<Rightarrow> (nat \<times> cause list) list" where
  "rungsFrom fromRung = filter (\<lambda>(rung, _). fromRung \<le> rung) LADDER"

definition causesOf :: "daemon_pressure \<Rightarrow> cause list \<Rightarrow> cause list" where
  "causesOf p relieves = filter (\<lambda>c. level_of p c \<noteq> Normal) relieves"

datatype rung_decision = Stop | Skip | Act "cause list" pressure_level

definition rungDecision :: "daemon_pressure \<Rightarrow> cause list \<Rightarrow> rung_decision" where
  "rungDecision p relieves =
     (if dp_level p = Normal then Stop
      else let causes = causesOf p relieves in
        if causes = [] then Skip
        else Act causes (if \<exists>c \<in> set causes. level_of p c = Critical then Critical else High))"

definition longestIdleFirst :: "('a \<Rightarrow> int option) \<Rightarrow> 'a list \<Rightarrow> 'a list" where
  "longestIdleFirst idleMs readings = sort_key (\<lambda>r. - the (idleMs r)) (filter (\<lambda>r. idleMs r \<noteq> None) readings)"

definition DAY_MS :: int where "DAY_MS = 86400000"

record dormant_action =
  da_target :: string
  da_bytes :: int
  da_reason :: string
  da_olderThanDays :: "double option"

definition dormantAction :: "string \<Rightarrow> int \<Rightarrow> string \<Rightarrow> dormant_action" where
  "dormantAction path thresholdMs why = \<lparr>da_target = path, da_bytes = 0, da_reason = why, da_olderThanDays = Some (double_div thresholdMs DAY_MS)\<rparr>"

definition dormantThresholdMs :: "dormant_action \<Rightarrow> int option" where
  "dormantThresholdMs a = map_option (\<lambda>d. math_round (double_mul d DAY_MS)) (da_olderThanDays a)"

section \<open>Properties\<close>

lemma RANK_cases: "RANK l \<le> 2" "RANK l = RANK k \<longleftrightarrow> l = k"
  by (cases l; cases k; simp)+

lemma RANK_higherLevel: "RANK (higherLevel a b) = max (RANK a) (RANK b)"
  by (simp add: higherLevel_def max_def)

definition volume_level :: "disk_thresholds \<Rightarrow> volume \<Rightarrow> pressure_level" where
  "volume_level t v = (if positive (criticalMb t) \<and> double_less (vol_freeMb v) (criticalMb t) then Critical
     else if positive (highMb t) \<and> double_less (vol_freeMb v) (highMb t) then High else Normal)"

lemma disk_loop_level:
  "RANK (fst (disk_loop t vs level reasons)) = fold (\<lambda>v. max (RANK (volume_level t v))) vs (RANK level)"
proof (induction t vs level reasons rule: disk_loop.induct)
  case (2 t v vs level reasons)
  have "max 2 (RANK level) = 2" using RANK_cases(1) [of level] by simp
  with 2 show ?case by (auto simp: volume_level_def RANK_higherLevel max.commute)
qed simp

lemma disk_loop_reasons:
  "length (snd (disk_loop t vs level reasons)) = length reasons + length (filter (\<lambda>v. volume_level t v \<noteq> Normal) vs)"
  by (induction t vs level reasons rule: disk_loop.induct) (auto simp: volume_level_def)

lemma fold_max_bound: "(\<forall>v \<in> set vs. f v \<le> fold (\<lambda>v. max (f v)) vs (a::nat)) \<and> a \<le> fold (\<lambda>v. max (f v)) vs a \<and>
   (fold (\<lambda>v. max (f v)) vs a = a \<or> (\<exists>v \<in> set vs. fold (\<lambda>v. max (f v)) vs a = f v))"
proof (induction vs arbitrary: a)
  case (Cons v vs)
  from Cons.IH [of "max (f v) a"] show ?case by (auto simp: max_def split: if_splits)
qed simp

text \<open>
  The disk level is the worst level of any one volume, and there is one reason for each volume
  that is under a threshold.
\<close>

theorem diskPressure_worst:
  "(\<forall>v \<in> set vs. RANK (volume_level t v) \<le> RANK (fst (diskPressure vs t))) \<and>
   (fst (diskPressure vs t) = Normal \<or> (\<exists>v \<in> set vs. volume_level t v = fst (diskPressure vs t))) \<and>
   length (snd (diskPressure vs t)) = length (filter (\<lambda>v. volume_level t v \<noteq> Normal) vs)"
proof -
  have r: "RANK (fst (diskPressure vs t)) = fold (\<lambda>v. max (RANK (volume_level t v))) vs 0"
    by (simp add: diskPressure_def disk_loop_level)
  note b = fold_max_bound [where f = "\<lambda>v. RANK (volume_level t v)" and a = 0 and vs = vs, folded r]
  have "fst (diskPressure vs t) = Normal \<or> (\<exists>v \<in> set vs. volume_level t v = fst (diskPressure vs t))"
    using b RANK_cases(2) by (metis RANK.simps(1))
  with b show ?thesis by (simp add: diskPressure_def disk_loop_reasons)
qed

definition gb_thresholds :: disk_thresholds where
  "gb_thresholds = \<lparr>highMb = (20480, 0), criticalMb = (6144, 0), hardFloorMb = (5120, 0)\<rparr>"

theorem diskPressure_worst_witness:
  "RANK (volume_level gb_thresholds \<lparr>vol_name = ''/'', vol_freeMb = (7000, 0)\<rparr>) \<le>
     RANK (fst (diskPressure [\<lparr>vol_name = ''/'', vol_freeMb = (7000, 0)\<rparr>, \<lparr>vol_name = ''/x'', vol_freeMb = (90000, 0)\<rparr>] gb_thresholds))"
  using diskPressure_worst [of "[\<lparr>vol_name = ''/'', vol_freeMb = (7000, 0)\<rparr>, \<lparr>vol_name = ''/x'', vol_freeMb = (90000, 0)\<rparr>]" gb_thresholds] by simp

text \<open>
  The ladder stops exactly at a normal level, and at any other level a rung of the whole
  ladder acts: on raised causes only, at critical exactly when one of them is critical.
\<close>

theorem ladder_acts:
  assumes "p = classifyPressure disk memory t previous now"
  shows "(dp_level p = Normal \<longleftrightarrow> (\<forall>r \<in> set (rungsFrom 0). rungDecision p (snd r) = Stop)) \<and>
    (dp_level p \<noteq> Normal \<longrightarrow> (\<exists>r \<in> set (rungsFrom 0). \<exists>causes level. rungDecision p (snd r) = Act causes level)) \<and>
    (\<forall>relieves causes level. rungDecision p relieves = Act causes level \<longrightarrow>
       set causes \<subseteq> set relieves \<and> causes \<noteq> [] \<and> (\<forall>c \<in> set causes. level_of p c \<noteq> Normal) \<and>
       (level = Critical \<longleftrightarrow> (\<exists>c \<in> set causes. level_of p c = Critical)) \<and> level \<noteq> Normal)"
proof -
  have l: "dp_level p = higherLevel (dp_disk p) (dp_memory p)"
    by (simp add: assms classifyPressure_def case_prod_beta Let_def)
  have rungs: "set (rungsFrom 0) = {(0, [Memory]), (1, [Disk]), (2, [Disk]), (3, [Disk]), (4, [Disk]), (5, [Disk]), (6, [Disk, Memory])}"
    by (auto simp: rungsFrom_def LADDER_def)
  have stop: "dp_level p = Normal \<longleftrightarrow> (\<forall>r \<in> set (rungsFrom 0). rungDecision p (snd r) = Stop)"
    by (auto simp: rungDecision_def rungs Let_def split: if_splits)
  have "\<exists>causes level. rungDecision p [Disk, Memory] = Act causes level" if "dp_level p \<noteq> Normal"
  proof -
    have "dp_disk p \<noteq> Normal \<or> dp_memory p \<noteq> Normal" using that l by (auto simp: higherLevel_def)
    then have "causesOf p [Disk, Memory] \<noteq> []" by (auto simp: causesOf_def)
    with that show ?thesis by (simp add: rungDecision_def Let_def)
  qed
  then have act: "dp_level p \<noteq> Normal \<longrightarrow> (\<exists>r \<in> set (rungsFrom 0). \<exists>causes level. rungDecision p (snd r) = Act causes level)"
    unfolding rungs by auto
  have "set causes \<subseteq> set relieves \<and> causes \<noteq> [] \<and> (\<forall>c \<in> set causes. level_of p c \<noteq> Normal) \<and>
       (level = Critical \<longleftrightarrow> (\<exists>c \<in> set causes. level_of p c = Critical)) \<and> level \<noteq> Normal"
    if "rungDecision p relieves = Act causes level" for relieves causes level
    using that by (auto simp: rungDecision_def causesOf_def Let_def split: if_splits)
  with stop act show ?thesis by blast
qed

theorem ladder_acts_witness:
  "\<exists>r \<in> set (rungsFrom 0). \<exists>causes level. rungDecision (classifyPressure [\<lparr>vol_name = ''/'', vol_freeMb = (7000, 0)\<rparr>]
     \<lparr>mem_level = None, mem_available = None, mem_total = 8589934592\<rparr> gb_thresholds None 0) (snd r) = Act causes level"
proof -
  let ?p = "classifyPressure [\<lparr>vol_name = ''/'', vol_freeMb = (7000, 0)\<rparr>] \<lparr>mem_level = None, mem_available = None, mem_total = 8589934592\<rparr> gb_thresholds None 0"
  have "dp_level ?p \<noteq> Normal" by code_simp
  with ladder_acts [OF refl, of "[\<lparr>vol_name = ''/'', vol_freeMb = (7000, 0)\<rparr>]" "\<lparr>mem_level = None, mem_available = None, mem_total = 8589934592\<rparr>" gb_thresholds None 0]
  show ?thesis by blast
qed

text \<open>
  A dormant-stage action carries its threshold intact: dividing the milliseconds into days and
  multiplying them back, in doubles, gives the same whole number of milliseconds.
\<close>

theorem dormantThresholdMs_round_trip:
  assumes "0 < t" "t < 2 ^ 50"
  shows "dormantThresholdMs (dormantAction path t why) = Some t"
  using div_mul_round [OF assms, of DAY_MS] by (simp add: dormantThresholdMs_def dormantAction_def DAY_MS_def)

theorem dormantThresholdMs_round_trip_witness: "dormantThresholdMs (dormantAction ''/w'' 600000 ''why'') = Some 600000"
  by (rule dormantThresholdMs_round_trip) simp_all

text \<open>
  A stage takes exactly the workspaces that have an idle time, each once, the longest idle first.
\<close>

theorem longestIdleFirst_sorted:
  "mset (longestIdleFirst idleMs rs) = filter_mset (\<lambda>r. idleMs r \<noteq> None) (mset rs) \<and>
   sorted_wrt (\<lambda>a b. the (idleMs b) \<le> the (idleMs a)) (longestIdleFirst idleMs rs)"
proof
  let ?xs = "longestIdleFirst idleMs rs"
  have "sorted (map (\<lambda>r. - the (idleMs r)) ?xs)" by (simp add: longestIdleFirst_def)
  then show "sorted_wrt (\<lambda>a b. the (idleMs b) \<le> the (idleMs a)) ?xs" by (simp add: sorted_wrt_map)
qed (simp add: longestIdleFirst_def)

end
