(* ===== verification/Build_Slots.thy ===== *)
theory Build_Slots
  imports Admission Claim_Properties Pressure_Policy Iso_Date
begin

text \<open>
  Build slots and wait queues: \<open>packages/core/state/build-capacity.ts\<close>,
  \<open>packages/stim-cli/src/engine/wait-queue.ts\<close>, \<open>packages/stim-cli/src/engine/build-slots.ts\<close> and what
  these use of \<open>packages/stim-cli/src/daemon/engine-switch.ts\<close>.
  A build slot is a claim set of its own, taken exclusively; a run that finds none waits on a shared
  claim in the queue, numbered in order of arrival. Before that, a run is held while another build of Stim
  is staged, for ten minutes at most after the staging. \<open>localeCompare\<close>, the clock, the machine's
  limits, the engine's files and what other processes do to the files between two looks are arguments. Not
  modelled: the daemon that wakes waiters and is told of waiting runs, the spawn declarations and the
  progress lines.
\<close>

section \<open>Text\<close>

definition formatElapsed :: "jsnum \<Rightarrow> string" where
  "formatElapsed ms = (let totalSeconds = max 0 (((case ms of Some x \<Rightarrow> x | None \<Rightarrow> 0) + 500) div 1000);
     minutes = totalSeconds div 60; seconds = totalSeconds mod 60 in
     if 0 < minutes then string_of_int minutes @ ''m'' @ (if seconds < 10 then ''0'' else []) @ string_of_int seconds @ ''s''
     else string_of_int seconds @ ''s'')"

text \<open>\<open>String(value)\<close>.\<close>

fun js_string :: "json \<Rightarrow> string" where
  "js_string (JStr s) = s"
| "js_string (JObj _) = ''[object Object]''"
| "js_string (JArr vs) = join '','' (map (\<lambda>v. if v = JNull then [] else js_string v) vs)"
| "js_string v = stringify v"

section \<open>The wait queue\<close>

fun json_number :: "json option \<Rightarrow> jsnum" where
  "json_number (Some JNull) = Some 0"
| "json_number (Some (JBool b)) = Some (if b then 1 else 0)"
| "json_number (Some (JNum n)) = Some n"
| "json_number (Some (JStr s)) = text_number s"
| "json_number _ = None"

definition sequence_of :: "claim_holder \<Rightarrow> int" where
  "sequence_of h = (case json_number (jfield ''sequence'' (details h)) of Some n \<Rightarrow> n | None \<Rightarrow> 0)"

definition waiter_cmp :: "(string \<Rightarrow> string \<Rightarrow> int) \<Rightarrow> claim_holder \<Rightarrow> claim_holder \<Rightarrow> int" where
  "waiter_cmp localeCompare a b =
     (if sequence_of a - sequence_of b \<noteq> 0 then sequence_of a - sequence_of b
      else if localeCompare (startedAt a) (startedAt b) \<noteq> 0 then localeCompare (startedAt a) (startedAt b)
      else localeCompare (claimId a) (claimId b))"

definition QUEUE_HELD :: string where
  "QUEUE_HELD = ''the wait queue is held exclusively''"

definition liveWaiters :: "(string \<Rightarrow> string \<Rightarrow> int) \<Rightarrow> os \<Rightarrow> claim_set \<Rightarrow> (claim_error + claim_holder list) \<times> claim_set" where
  "liveWaiters localeCompare w s = (case inspectClaimSet w s of
     (Inl e, s1) \<Rightarrow> (Inl e, s1)
   | (Inr st, s1) \<Rightarrow> (case st_exclusive st of
       Some h \<Rightarrow> (Inl (ClaimRefused (InDir (h_mode h) (h_name h)) QUEUE_HELD), s1)
     | None \<Rightarrow> (Inr (js_sort (waiter_cmp localeCompare) (st_shared st)), s1)))"

definition next_sequence :: "claim_holder list \<Rightarrow> int" where
  "next_sequence waiters = fold max (map sequence_of waiters) 0 + 1"

definition takeWaitTicket :: "os \<Rightarrow> string + claim_owner \<Rightarrow> (string \<times> json) list \<Rightarrow> claim_holder list \<Rightarrow> (nat \<Rightarrow> string) \<Rightarrow> (nat \<Rightarrow> string) \<Rightarrow> claim_set \<Rightarrow>
    (claim_error + claim_handle) \<times> claim_set" where
  "takeWaitTicket w self ds waiters ids stamps s =
     (case tryAcquireClaim w self Shared (JObj (AList.update ''sequence'' (JNum (next_sequence waiters)) ds)) ids stamps s of
        (Inl e, s1) \<Rightarrow> (Inl e, s1)
      | (Inr (Acquired c _), s1) \<Rightarrow> (Inr c, s1)
      | (Inr (HeldBy h _), s1) \<Rightarrow> (Inl (ClaimRefused (InDir (h_mode h) (h_name h)) QUEUE_HELD), s1)
      | (Inr (WaitingFor _ _ _), s1) \<Rightarrow> (Inl (ClaimRefused RootPath QUEUE_HELD), s1))"

fun find_index :: "('a \<Rightarrow> bool) \<Rightarrow> 'a list \<Rightarrow> nat option" where
  "find_index P [] = None"
| "find_index P (x # xs) = (if P x then Some 0 else map_option Suc (find_index P xs))"

definition queuePosition :: "claim_holder list \<Rightarrow> claim_handle option \<Rightarrow> int" where
  "queuePosition waiters ticket = (case Option.bind ticket (\<lambda>t. find_index (\<lambda>h. claimId h = hd_claimId t) waiters) of
     None \<Rightarrow> int (length waiters) + 1 | Some i \<Rightarrow> int i + 1)"

definition ABSOLUTE_WAIT_CEILING_MS :: int where "ABSOLUTE_WAIT_CEILING_MS = 90 * 60000"

definition positionCeilingMs :: "int \<Rightarrow> int" where
  "positionCeilingMs position = max (10 * 60000) (position * 5 * 60000)"

datatype wait_overdue = OverdueAbsolute int | OverdueUnverified int int string

text \<open>The closure \<open>waitCeiling\<close> makes: its variables, and its two functions at a reading of the clock.\<close>

record wait_ceiling =
  wc_started :: int
  wc_position :: "int option"
  wc_since :: "int option"
  wc_reason :: string

definition waitCeiling :: "int \<Rightarrow> wait_ceiling" where
  "waitCeiling now = \<lparr>wc_started = now, wc_position = None, wc_since = None, wc_reason = []\<rparr>"

definition ceiling_update :: "int \<Rightarrow> int \<Rightarrow> string option \<Rightarrow> wait_ceiling \<Rightarrow> wait_ceiling" where
  "ceiling_update now pos unverified c =
     c\<lparr>wc_since := (case unverified of None \<Rightarrow> None
         | Some _ \<Rightarrow> if wc_since c = None \<or> (case wc_position c of None \<Rightarrow> True | Some p \<Rightarrow> pos < p) then Some now else wc_since c),
       wc_reason := (case unverified of None \<Rightarrow> [] | Some r \<Rightarrow> r), wc_position := Some pos\<rparr>"

definition ceiling_overdue :: "int \<Rightarrow> wait_ceiling \<Rightarrow> wait_overdue option" where
  "ceiling_overdue now c =
     (if ABSOLUTE_WAIT_CEILING_MS \<le> now - wc_started c then Some (OverdueAbsolute (now - wc_started c))
      else case (wc_since c, wc_position c) of
        (Some t, Some p) \<Rightarrow> if positionCeilingMs p \<le> now - t then Some (OverdueUnverified p (now - t) (wc_reason c)) else None
      | _ \<Rightarrow> None)"

record waiting_run =
  wr_resource :: string
  wr_position :: nat
  wr_workspace :: "string option"
  wr_label :: string
  wr_platform :: "string option"
  wr_since :: string

definition waiting_entry :: "string \<Rightarrow> nat \<Rightarrow> claim_holder \<Rightarrow> waiting_run" where
  "waiting_entry resource i h =
     (let root = jstr_field ''root'' (details h) in
      \<lparr>wr_resource = resource, wr_position = i + 1, wr_workspace = root,
       wr_label = (case jstr_field ''displayName'' (details h) of Some d \<Rightarrow> d | None \<Rightarrow> (case root of Some r \<Rightarrow> r | None \<Rightarrow> ''a run'')),
       wr_platform = jstr_field ''platform'' (details h), wr_since = startedAt h\<rparr>)"

fun listWaiting :: "(string \<Rightarrow> string \<Rightarrow> int) \<Rightarrow> os \<Rightarrow> (string \<times> claim_set) list \<Rightarrow> waiting_run list \<times> (string \<times> claim_set) list" where
  "listWaiting loc w [] = ([], [])"
| "listWaiting loc w ((resource, s) # qs) =
     (let (r, s1) = liveWaiters loc w s; (rest, qs') = listWaiting loc w qs in
      ((case r of Inl _ \<Rightarrow> [] | Inr waiters \<Rightarrow> map (\<lambda>(i, h). waiting_entry resource i h) (enumerate 0 waiters)) @ rest, (resource, s1) # qs'))"

section \<open>The slots\<close>

text \<open>
  The directory \<open>build-slots\<close>: \<open>None\<close> when it cannot be listed, and for each name its claim set, or
  \<open>None\<close> when it is not a directory.
\<close>

type_synonym slots_dir = "(string \<times> claim_set option) list"

definition SLOT_PREFIX :: string where "SLOT_PREFIX = ''slot-''"

definition slot_name :: "nat \<Rightarrow> string" where
  "slot_name index = SLOT_PREFIX @ string_of_nat index"

definition slot_set :: "nat \<Rightarrow> slots_dir \<Rightarrow> claim_set" where
  "slot_set index d = (case map_of d (slot_name index) of None \<Rightarrow> empty_set | Some None \<Rightarrow> empty_set\<lparr>set_root := RootFile\<rparr> | Some (Some s) \<Rightarrow> s)"

definition put_slot :: "nat \<Rightarrow> claim_set \<Rightarrow> slots_dir \<Rightarrow> slots_dir" where
  "put_slot index s d =
     (if set_root s = RootAbsent then AList.delete (slot_name index) d
      else if set_root s = RootFile then AList.update (slot_name index) None d else AList.update (slot_name index) (Some s) d)"

text \<open>One round of the loop: an attempt on a slot, as \<open>Some\<close> claim, busy (\<open>None\<close>) or an error.\<close>

definition slot_attempt :: "os \<Rightarrow> string + claim_owner \<Rightarrow> (string \<times> json) list \<Rightarrow> (nat \<Rightarrow> nat \<Rightarrow> string) \<Rightarrow> (nat \<Rightarrow> nat \<Rightarrow> string) \<Rightarrow> nat \<Rightarrow> claim_set \<Rightarrow>
    (claim_error + claim_handle option) \<times> claim_set" where
  "slot_attempt w self ds ids stamps index s =
     (case tryAcquireClaim w self Exclusive (JObj (AList.update ''index'' (JNum (int index)) ds)) (ids index) (stamps index) s of
        (Inl e, s1) \<Rightarrow> (Inl e, s1)
      | (Inr (Acquired c _), s1) \<Rightarrow> (Inr (Some c), s1)
      | (Inr (HeldBy _ _), s1) \<Rightarrow> (Inr None, s1)
      | (Inr (WaitingFor _ pending _), s1) \<Rightarrow> (Inr None, snd (releaseClaim pending s1)))"

fun is_refusal :: "claim_error \<Rightarrow> bool" where
  "is_refusal (ClaimRefused _ _) = True"
| "is_refusal _ = False"

fun slot_loop :: "(nat \<Rightarrow> claim_set \<Rightarrow> (claim_error + claim_handle option) \<times> claim_set) \<Rightarrow> nat list \<Rightarrow> claim_error option \<Rightarrow> bool \<Rightarrow> slots_dir \<Rightarrow>
    (claim_error + (claim_handle \<times> nat) option) \<times> slots_dir" where
  "slot_loop attempt [] refusal busy d = (case refusal of Some e \<Rightarrow> if \<not> busy then (Inl e, d) else (Inr None, d) | None \<Rightarrow> (Inr None, d))"
| "slot_loop attempt (i # is) refusal busy d =
     (let (r, s) = attempt i (slot_set i d); d1 = put_slot i s d in
      case r of
        Inl e \<Rightarrow> if is_refusal e then slot_loop attempt is (case refusal of Some e' \<Rightarrow> Some e' | None \<Rightarrow> Some e) busy d1 else (Inl e, d1)
      | Inr None \<Rightarrow> slot_loop attempt is refusal True d1
      | Inr (Some c) \<Rightarrow> (Inr (Some (c, i)), d1))"

definition tryAcquireBuildSlotClaim :: "os \<Rightarrow> string + claim_owner \<Rightarrow> nat \<Rightarrow> (string \<times> json) list \<Rightarrow> (nat \<Rightarrow> nat \<Rightarrow> string) \<Rightarrow> (nat \<Rightarrow> nat \<Rightarrow> string) \<Rightarrow>
    slots_dir \<Rightarrow> (claim_error + (claim_handle \<times> nat) option) \<times> slots_dir" where
  "tryAcquireBuildSlotClaim w self cap ds ids stamps d = slot_loop (slot_attempt w self ds ids stamps) [0..<cap] None False d"

record slot_record =
  br_pid :: "int option"
  br_index :: "int option"
  br_projectRoot :: "string option"
  br_startedAt :: "string option"
  br_logFile :: "string option"
  br_client :: "string option"

definition toRecord :: "claim_holder \<Rightarrow> slot_record" where
  "toRecord h = \<lparr>br_pid = Some (pid (owner h)),
     br_index = (case jfield ''index'' (details h) of Some (JNum n) \<Rightarrow> Some n | _ \<Rightarrow> None),
     br_projectRoot = jstr_field ''projectRoot'' (details h),
     br_startedAt = (if startedAt h = [] then None else Some (startedAt h)),
     br_logFile = jstr_field ''logFile'' (details h),
     br_client = (if jfield ''offloaded'' (details h) = Some (JBool True) then jstr_field ''client'' (details h) else None)\<rparr>"

record slot_info = slot_reading +
  si_name :: string
  si_pid :: "int option"
  si_projectRoot :: "string option"
  si_startedAt :: "string option"
  si_logFile :: "string option"
  si_client :: "string option"

definition slot_info_of :: "os \<Rightarrow> string \<Rightarrow> claim_set \<Rightarrow> slot_info" where
  "slot_info_of w name s =
     (let v = readClaimSet w s;
          info = map_option toRecord (case sv_live v of h # _ \<Rightarrow> Some h | [] \<Rightarrow> (case sv_dead v of h # _ \<Rightarrow> Some h | [] \<Rightarrow> None)) in
      \<lparr>slot_index = text_number (drop (length SLOT_PREFIX) name), alive = (sv_live v \<noteq> []), unresolved = (sv_unresolved v \<noteq> []), si_name = name,
       si_pid = Option.bind info br_pid, si_projectRoot = Option.bind info br_projectRoot, si_startedAt = Option.bind info br_startedAt,
       si_logFile = Option.bind info br_logFile, si_client = Option.bind info br_client\<rparr>)"

definition listBuildSlots :: "os \<Rightarrow> slots_dir option \<Rightarrow> slot_info list" where
  "listBuildSlots w d = (case d of None \<Rightarrow> []
     | Some es \<Rightarrow> List.map_filter (\<lambda>(name, s). if prefix SLOT_PREFIX name then map_option (slot_info_of w name) s else None) es)"

record slot_holder =
  sh_slot :: int
  sh_workspace :: "string option"
  sh_client :: "string option"
  sh_since :: "string option"
  sh_unresolved :: bool

definition holder_entry :: "int \<Rightarrow> slot_info \<Rightarrow> slot_holder list" where
  "holder_entry cap i = (case slot_index i of None \<Rightarrow> []
     | Some n \<Rightarrow> if cap \<le> n then []
         else if alive i then [\<lparr>sh_slot = n, sh_workspace = si_projectRoot i, sh_client = si_client i, sh_since = si_startedAt i, sh_unresolved = False\<rparr>]
         else if unresolved i then [\<lparr>sh_slot = n, sh_workspace = None, sh_client = None, sh_since = None, sh_unresolved = True\<rparr>] else [])"

definition buildSlotUsage :: "int \<Rightarrow> slot_info list \<Rightarrow> int \<times> int \<times> slot_holder list" where
  "buildSlotUsage cap slots = (let holders = sort_key sh_slot (concat (map (holder_entry cap) slots)) in (cap, int (length holders), holders))"

definition liveOffloadedClients :: "os \<Rightarrow> slots_dir option \<Rightarrow> string list" where
  "liveOffloadedClients w d = (case d of None \<Rightarrow> []
     | Some es \<Rightarrow> List.map_filter (\<lambda>(name, s). if prefix SLOT_PREFIX name
         then Option.bind s (\<lambda>s. map_option (\<lambda>h. case jfield ''client'' (details h) of Some j \<Rightarrow> js_string j | None \<Rightarrow> ''undefined'')
           (List.find (\<lambda>h. jfield ''offloaded'' (details h) = Some (JBool True)) (sv_live (readClaimSet w s)))) else None) es)"

section \<open>How busy the machine is\<close>

definition NATIVE_PHASES :: "string list" where
  "NATIVE_PHASES = [''prebuild'', ''pods'', ''compile'']"

fun json_truthy :: "json option \<Rightarrow> bool" where
  "json_truthy None = False"
| "json_truthy (Some JNull) = False"
| "json_truthy (Some (JBool b)) = b"
| "json_truthy (Some (JNum n)) = (n \<noteq> 0)"
| "json_truthy (Some (JStr s)) = (s \<noteq> [])"
| "json_truthy (Some _) = True"

text \<open>The claim a workspace's \<open>state.json\<close> names for a native build that runs here.\<close>

definition native_claim :: "file_text option \<Rightarrow> (string \<times> string) option" where
  "native_claim file = (case file of Some (Some (JObj st)) \<Rightarrow>
     (case jfield ''activeBuild'' (JObj st) of Some (JObj a) \<Rightarrow>
        (case (jstr_field ''phase'' (JObj a), jfield ''claim'' (JObj a)) of
           (Some phase, Some (JObj c)) \<Rightarrow>
             (if phase \<notin> set NATIVE_PHASES \<or> json_truthy (jfield ''placement'' (JObj a)) then None
              else case (jstr_field ''root'' (JObj c), jstr_field ''claimId'' (JObj c)) of (Some r, Some i) \<Rightarrow> Some (r, i) | _ \<Rightarrow> None)
         | _ \<Rightarrow> None)
      | _ \<Rightarrow> None)
   | _ \<Rightarrow> None)"

definition liveNativeBuilds :: "os \<Rightarrow> (string \<Rightarrow> claim_set) \<Rightarrow> file_text option list option \<Rightarrow> nat" where
  "liveNativeBuilds w sets files = (case files of None \<Rightarrow> 0
     | Some fs \<Rightarrow> length (filter (\<lambda>f. case native_claim f of None \<Rightarrow> False
         | Some (root, i) \<Rightarrow> \<exists>h \<in> set (sv_live (readClaimSet w (sets root))). claimId h = i) fs))"

datatype load_state = Holding | Busy | Free

definition loadState :: "double \<Rightarrow> double \<Rightarrow> double option \<Rightarrow> load_state" where
  "loadState load busyAt limit =
     (if (case limit of None \<Rightarrow> False | Some l \<Rightarrow> positive l \<and> \<not> double_less load l) then Holding
      else if \<not> double_less load busyAt then Busy else Free)"

record machine_capacity =
  mc_loadPerCore :: double
  mc_builds :: int
  mc_maxBuilds :: int
  mc_maxLoadPerCore :: double

definition machineCapacity :: "double \<Rightarrow> nat \<Rightarrow> string list \<Rightarrow> int \<Rightarrow> double \<Rightarrow> machine_capacity" where
  "machineCapacity load native clients maxBuilds maxLoad =
     \<lparr>mc_loadPerCore = load, mc_builds = int native + int (length clients), mc_maxBuilds = maxBuilds, mc_maxLoadPerCore = maxLoad\<rparr>"

datatype saturated = AllSlotsBusy int | LoadAtOrAbove double

definition saturation :: "machine_capacity \<Rightarrow> saturated option" where
  "saturation c =
     (if 0 < mc_maxBuilds c \<and> mc_maxBuilds c \<le> mc_builds c then Some (AllSlotsBusy (mc_maxBuilds c))
      else if \<not> double_less (mc_loadPerCore c) (mc_maxLoadPerCore c) then Some (LoadAtOrAbove (mc_maxLoadPerCore c)) else None)"

section \<open>A switch of the engine\<close>

text \<open>A file of the engine's directory: \<open>None\<close> when it cannot be read, \<open>Some None\<close> when its text is not JSON.\<close>

type_synonym engine_file = "file_text option"

record store_engine =
  eng_root :: string
  eng_build :: string

record engine_pointer =
  ptr_build :: string
  ptr_version :: string

definition FORMAT :: int where "FORMAT = 1"
definition SLOT_HOLD_MS :: int where "SLOT_HOLD_MS = 10 * 60000"

definition field_text :: "string \<Rightarrow> json \<Rightarrow> string" where
  "field_text k v = (case jfield k v of None \<Rightarrow> ''undefined'' | Some j \<Rightarrow> js_string j)"

definition pointer :: "engine_file \<Rightarrow> engine_pointer option" where
  "pointer file = (case file of
     Some (Some v) \<Rightarrow> if jfield ''format'' v = Some (JNum FORMAT)
       then map_option (\<lambda>d. \<lparr>ptr_build = d, ptr_version = field_text ''version'' v\<rparr>) (jstr_field ''dir'' v) else None
   | _ \<Rightarrow> None)"

text \<open>\<open>current.json\<close> names a build that is not the one this process runs from.\<close>

definition switchedEngine :: "store_engine option \<Rightarrow> engine_file \<Rightarrow> engine_pointer option" where
  "switchedEngine engine current = (case engine of None \<Rightarrow> None
     | Some e \<Rightarrow> (case pointer current of None \<Rightarrow> None | Some p \<Rightarrow> if ptr_build p \<noteq> eng_build e then Some p else None))"

text \<open>\<open>Date.parse(staged.stagedAt)\<close>, \<open>None\<close> for \<open>NaN\<close>.\<close>

definition staged_at :: "json \<Rightarrow> jsnum" where
  "staged_at v = date_parse (field_text ''stagedAt'' v)"

text \<open>\<open>staged.json\<close> names another build, staged less than ten minutes ago: the version that is waited for.\<close>

definition stagedHold :: "store_engine option \<Rightarrow> int \<Rightarrow> engine_file \<Rightarrow> string option" where
  "stagedHold engine now file = (case (engine, file) of
     (Some e, Some (Some v)) \<Rightarrow>
       if jfield ''format'' v \<noteq> Some (JNum FORMAT) \<or> jfield ''dir'' v = Some (JStr (eng_build e)) then None
       else (case staged_at v of None \<Rightarrow> None | Some t \<Rightarrow> if now - t < SLOT_HOLD_MS then Some (field_text ''version'' v) else None)
   | _ \<Rightarrow> None)"

section \<open>Taking a slot in arrival order\<close>

record machine =
  m_slots :: slots_dir
  m_waits :: claim_set

datatype slot_failure = Cancelled | AutomaticRefused string | EndedForSwitch string | ClaimFailed claim_error | AtCapacity wait_overdue

record slot_handle =
  got_unlimited :: bool
  got_claim :: "claim_handle option"
  got_index :: "nat option"
  got_waitMs :: int

definition unlimited_slot :: slot_handle where
  "unlimited_slot = \<lparr>got_unlimited = True, got_claim = None, got_index = None, got_waitMs = 0\<rparr>"

definition opt_str :: "string option \<Rightarrow> json" where
  "opt_str x = (case x of None \<Rightarrow> JNull | Some t \<Rightarrow> JStr t)"

definition tryAcquireBuildSlot :: "os \<Rightarrow> string + claim_owner \<Rightarrow> int \<Rightarrow> string option \<Rightarrow> string option \<Rightarrow> (nat \<Rightarrow> nat \<Rightarrow> string) \<Rightarrow> (nat \<Rightarrow> nat \<Rightarrow> string) \<Rightarrow>
    slots_dir \<Rightarrow> (claim_error + slot_handle option) \<times> slots_dir" where
  "tryAcquireBuildSlot w self cap root logFile ids stamps d =
     (if cap \<le> 0 then (Inr (Some unlimited_slot), d)
      else case tryAcquireBuildSlotClaim w self (nat cap) [(''projectRoot'', opt_str root), (''logFile'', opt_str logFile)] ids stamps d of
        (Inl e, d1) \<Rightarrow> (Inl e, d1)
      | (Inr None, d1) \<Rightarrow> (Inr None, d1)
      | (Inr (Some (c, i)), d1) \<Rightarrow> (Inr (Some \<lparr>got_unlimited = False, got_claim = Some c, got_index = Some i, got_waitMs = 0\<rparr>), d1))"

text \<open>
  A look of the hold: the staged file, the clock, and whether the sleep after it ends in a cancellation.
\<close>

record hold_look =
  hl_staged :: engine_file
  hl_now :: int
  hl_cancelled :: bool

text \<open>The hold before the queue; \<open>None\<close> while it goes on. \<open>current\<close> is \<open>current.json\<close> as read after the loop.\<close>

fun holdForSwitch :: "store_engine option \<Rightarrow> engine_file \<Rightarrow> hold_look list \<Rightarrow> (slot_failure + unit) option" where
  "holdForSwitch engine current [] = None"
| "holdForSwitch engine current (l # ls) =
     (case stagedHold engine (hl_now l) (hl_staged l) of
        None \<Rightarrow> Some (case switchedEngine engine current of Some p \<Rightarrow> Inl (EndedForSwitch (ptr_version p)) | None \<Rightarrow> Inr ())
      | Some _ \<Rightarrow> if hl_cancelled l then Some (Inl Cancelled) else holdForSwitch engine current ls)"

text \<open>
  What one turn of the loop meets: what the other processes did since the last, the cancellation,
  machine checks, the engine's \<open>current.json\<close>, the current cap, fresh ids and times for claims, and the readings of
  the clock in the order the code takes them.
\<close>

record round =
  r_others :: "machine \<Rightarrow> machine"
  r_os :: os
  r_cancelled :: bool
  r_automatic :: "string option"
  r_current :: engine_file
  r_max :: int
  r_slot_ids :: "nat \<Rightarrow> nat \<Rightarrow> string"
  r_slot_stamps :: "nat \<Rightarrow> nat \<Rightarrow> string"
  r_ticket_ids :: "nat \<Rightarrow> string"
  r_ticket_stamps :: "nat \<Rightarrow> string"
  r_got :: int
  r_update :: int
  r_elapsed :: int
  r_overdue :: int

record slot_request =
  q_self :: "string + claim_owner"
  q_max :: "int option"
  q_root :: "string option"
  q_logFile :: "string option"
  q_automatic :: bool
  q_ceilingMs :: "int option"
  q_engine :: "store_engine option"
  q_locale :: "string \<Rightarrow> string \<Rightarrow> int"

record wait_state =
  ws_ticket :: "claim_handle option"
  ws_ceiling :: wait_ceiling

definition path_basename :: "string \<Rightarrow> string" where
  "path_basename p = rev (takeWhile (\<lambda>c. c \<noteq> CHR ''/'') (dropWhile (\<lambda>c. c = CHR ''/'') (rev p)))"

definition ticket_details :: "slot_request \<Rightarrow> (string \<times> json) list" where
  "ticket_details q = [(''root'', opt_str (q_root q)),
     (''displayName'', JStr (case q_root q of Some r \<Rightarrow> if r = [] then ''build'' else path_basename r | None \<Rightarrow> ''build'')), (''logFile'', opt_str (q_logFile q))]"

text \<open>The slots are named in the reason by their directory names, without the path before them.\<close>

definition unverified_reason :: "slot_info list \<Rightarrow> string option" where
  "unverified_reason slots = (if slots = [] then None else Some (''the holder of '' @ join '', '' (map si_name slots) @ '' cannot be verified''))"

definition round_overdue :: "slot_request \<Rightarrow> round \<Rightarrow> int \<Rightarrow> wait_ceiling \<Rightarrow> wait_overdue option" where
  "round_overdue q r elapsedMs c = (case q_ceilingMs q of
     None \<Rightarrow> ceiling_overdue (r_overdue r) c
   | Some limit \<Rightarrow> if limit \<le> elapsedMs then Some (OverdueAbsolute elapsedMs) else None)"

text \<open>A turn: \<open>Inl\<close> ends the loop with a result, \<open>Inr\<close> goes round again.\<close>

definition slot_round :: "slot_request \<Rightarrow> int \<Rightarrow> round \<Rightarrow> wait_state \<Rightarrow> machine \<Rightarrow> ((slot_failure + slot_handle) + wait_state) \<times> machine" where
  "slot_round q started r ws m0 =
     (let m = r_others r m0; cap = (case q_max q of Some n \<Rightarrow> n | None \<Rightarrow> r_max r) in
      if r_cancelled r then (Inl (Inl Cancelled), m)
      else if q_automatic q \<and> r_automatic r \<noteq> None then (Inl (Inl (AutomaticRefused (the (r_automatic r)))), m)
      else if switchedEngine (q_engine q) (r_current r) \<noteq> None then (Inl (Inl (EndedForSwitch (ptr_version (the (switchedEngine (q_engine q) (r_current r)))))), m)
      else case liveWaiters (q_locale q) (r_os r) (m_waits m) of
        (Inl e, s) \<Rightarrow> (Inl (Inl (ClaimFailed e)), m\<lparr>m_waits := s\<rparr>)
      | (Inr waiters, s) \<Rightarrow>
         (let m1 = m\<lparr>m_waits := s\<rparr>; position = queuePosition waiters (ws_ticket ws);
              turn = slotTurn position cap (busySlots (listBuildSlots (r_os r) (Some (m_slots m1))) cap);
              (got, d) = (if turn_claim turn
                 then tryAcquireBuildSlot (r_os r) (q_self q) cap (q_root q) (q_logFile q) (r_slot_ids r) (r_slot_stamps r) (m_slots m1)
                 else (Inr None, m_slots m1));
              m2 = m1\<lparr>m_slots := d\<rparr> in
          case got of
            Inl e \<Rightarrow> (Inl (Inl (ClaimFailed e)), m2)
          | Inr (Some h) \<Rightarrow> (Inl (Inr (h\<lparr>got_waitMs := (if ws_ticket ws = None then 0 else max 0 (r_got r - started))\<rparr>)), m2)
          | Inr None \<Rightarrow> (case ws_ticket ws of
              None \<Rightarrow> (case takeWaitTicket (r_os r) (q_self q) (ticket_details q) waiters (r_ticket_ids r) (r_ticket_stamps r) (m_waits m2) of
                  (Inl e, s2) \<Rightarrow> (Inl (Inl (ClaimFailed e)), m2\<lparr>m_waits := s2\<rparr>)
                | (Inr t, s2) \<Rightarrow> (Inr (ws\<lparr>ws_ticket := Some t\<rparr>), m2\<lparr>m_waits := s2\<rparr>))
            | Some t \<Rightarrow>
               (let c = ceiling_update (r_update r) position (unverified_reason (turn_unverified turn)) (ws_ceiling ws) in
                case round_overdue q r (r_elapsed r - started) c of
                  Some over \<Rightarrow> (Inl (Inl (AtCapacity over)), m2)
                | None \<Rightarrow> (Inr (ws\<lparr>ws_ceiling := c\<rparr>), m2)))))"

text \<open>The \<open>finally\<close> of the loop: the ticket, if one was taken, is released.\<close>

definition release_ticket :: "wait_state \<Rightarrow> machine \<Rightarrow> machine" where
  "release_ticket ws m = (case ws_ticket ws of None \<Rightarrow> m | Some t \<Rightarrow> m\<lparr>m_waits := snd (releaseClaim t (m_waits m))\<rparr>)"

fun slot_rounds :: "nat \<Rightarrow> slot_request \<Rightarrow> int \<Rightarrow> (nat \<Rightarrow> round) \<Rightarrow> nat \<Rightarrow> wait_state \<Rightarrow> machine \<Rightarrow> ((slot_failure + slot_handle) \<times> machine) option" where
  "slot_rounds 0 q started rs k ws m = None"
| "slot_rounds (Suc n) q started rs k ws m = (case slot_round q started (rs k) ws m of
     (Inl res, m1) \<Rightarrow> Some (res, release_ticket ws m1)
   | (Inr ws1, m1) \<Rightarrow> slot_rounds n q started rs (Suc k) ws1 m1)"

text \<open>
  \<open>entry\<close> is what the checks before the loops meet, \<open>looks\<close> the looks of the hold, \<open>rs\<close> the turns of the
  wait, of which \<open>fuel\<close> are run; \<open>None\<close> while the call is still held or waiting.
\<close>

definition acquireBuildSlot :: "nat \<Rightarrow> slot_request \<Rightarrow> round \<Rightarrow> hold_look list \<Rightarrow> int \<Rightarrow> int \<Rightarrow> (nat \<Rightarrow> round) \<Rightarrow> machine \<Rightarrow>
    ((slot_failure + slot_handle) \<times> machine) option" where
  "acquireBuildSlot fuel q entry looks started ceiling_started rs m =
     (if r_cancelled entry then Some (Inl Cancelled, m)
      else if q_automatic q \<and> r_automatic entry \<noteq> None then Some (Inl (AutomaticRefused (the (r_automatic entry))), m)
      else case holdForSwitch (q_engine q) (r_current entry) looks of
          None \<Rightarrow> None
        | Some (Inl e) \<Rightarrow> Some (Inl e, m)
        | Some (Inr _) \<Rightarrow>
            if (case q_max q of Some n \<Rightarrow> n | None \<Rightarrow> r_max entry) \<le> 0 then Some (Inr unlimited_slot, m)
            else slot_rounds fuel q started rs 0 \<lparr>ws_ticket = None, ws_ceiling = waitCeiling ceiling_started\<rparr> m)"

definition releaseBuildSlot :: "slot_handle \<Rightarrow> slots_dir \<Rightarrow> bool \<times> slots_dir" where
  "releaseBuildSlot h d = (if got_unlimited h then (False, d)
     else case (got_claim h, got_index h) of
       (Some c, Some i) \<Rightarrow> (let (b, s) = releaseClaim c (slot_set i d) in (b, put_slot i s d))
     | _ \<Rightarrow> (False, d))"

end
