(* ===== verification/Exclusive_Lock.thy ===== *)
theory Exclusive_Lock
  imports Claim_Properties
begin

text \<open>
  The contract of an exclusive lock, as the build slots, the directory locks and the locks around
  spawned processes rely on it: while a lock is held by a handle whose holder runs, no attempt on it
  succeeds or takes it away, and a successful attempt holds the lock. The claims of a set keep it.
\<close>

locale guarded_lock =
  fixes attempt :: "nat \<Rightarrow> claim_set \<Rightarrow> (claim_error + claim_handle option) \<times> claim_set"
    and held :: "claim_set \<Rightarrow> claim_handle \<Rightarrow> bool"
    and guarded :: "claim_handle \<Rightarrow> bool"
  assumes attempt_respects: "held s c \<Longrightarrow> guarded c \<Longrightarrow> attempt i s = (r, t) \<Longrightarrow> held t c \<and> (\<forall>c'. r \<noteq> Inr (Some c'))"
begin

text \<open>Any number of attempts in any order leave a guarded lock with its holder.\<close>

lemma attempts_respect:
  assumes "held s c" "guarded c" "run_each attempt is s = (rs, t)"
  shows "held t c \<and> list_all (\<lambda>r. \<forall>c'. r \<noteq> Inr (Some c')) rs"
  using assms(1,3)
proof (induction "is" arbitrary: s rs)
  case (Cons i "is")
  obtain r s1 where 1: "attempt i s = (r, s1)" by fastforce
  obtain rs1 where 2: "run_each attempt is s1 = (rs1, t)" "rs = r # rs1" using Cons.prems(2) 1 by (auto split: prod.splits)
  from attempt_respects [OF Cons.prems(1) assms(2) 1] Cons.IH [OF _ 2(1)] 2(2) show ?case by simp
qed simp

end

locale exclusive_lock = guarded_lock attempt held guarded
  for attempt :: "nat \<Rightarrow> claim_set \<Rightarrow> (claim_error + claim_handle option) \<times> claim_set"
    and held :: "claim_set \<Rightarrow> claim_handle \<Rightarrow> bool"
    and guarded :: "claim_handle \<Rightarrow> bool" +
  fixes honest :: bool
  assumes attempt_holds: "honest \<Longrightarrow> attempt i s = (Inr (Some c), t) \<Longrightarrow> held t c"
    and held_root: "held s c \<Longrightarrow> set_root s = RootDir"

section \<open>Claims as locks\<close>

text \<open>
  The locks of the program are attempts at the exclusive claim of a set, given up when they would have
  to wait. Attempt \<open>i\<close> has its own view of the processes, its own identity, ids and times; a handle is
  guarded while its owner runs in all these views and none of the new ids is its own.
\<close>

definition claim_guarded :: "(nat \<Rightarrow> os) \<Rightarrow> (nat \<Rightarrow> nat \<Rightarrow> string) \<Rightarrow> claim_handle \<Rightarrow> bool" where
  "claim_guarded ws ids c \<longleftrightarrow> hd_mode c = Exclusive \<and> (\<forall>i. inspectProcessIdentity (ws i) (hd_owner c) = Same) \<and> (\<forall>i k. ids i k @ CLAIM_SUFFIX \<noteq> hd_path c)"

definition claim_honest :: "(nat \<Rightarrow> os) \<Rightarrow> (nat \<Rightarrow> string + claim_owner) \<Rightarrow> (nat \<Rightarrow> nat \<Rightarrow> string) \<Rightarrow> bool" where
  "claim_honest ws selfs ids \<longleftrightarrow> (\<forall>i. \<exists>ow. selfs i = Inr ow \<and> valid_owner ow \<and> inspectProcessIdentity (ws i) ow = Same) \<and> (\<forall>i k. ids i k \<noteq> [])"

definition try_lock :: "os \<Rightarrow> string + claim_owner \<Rightarrow> json \<Rightarrow> (nat \<Rightarrow> string) \<Rightarrow> (nat \<Rightarrow> string) \<Rightarrow> claim_set \<Rightarrow> (claim_error + claim_handle option) \<times> claim_set" where
  "try_lock w self ds ids stamps s = (case tryAcquireClaim w self Exclusive ds ids stamps s of
       (Inl e, s1) \<Rightarrow> (Inl e, s1)
     | (Inr (Acquired c _), s1) \<Rightarrow> (Inr (Some c), s1)
     | (Inr (HeldBy _ _), s1) \<Rightarrow> (Inr None, s1)
     | (Inr (WaitingFor _ pending _), s1) \<Rightarrow> (Inr None, snd (releaseClaim pending s1)))"

lemma try_lock_acquired: "try_lock w self ds ids stamps s = (Inr (Some c), t) \<Longrightarrow> \<exists>r. tryAcquireClaim w self Exclusive ds ids stamps s = (Inr (Acquired c r), t)"
  by (auto simp: try_lock_def split: prod.splits sum.splits claim_attempt.splits)

locale claim_lock =
  fixes attempt :: "nat \<Rightarrow> claim_set \<Rightarrow> (claim_error + claim_handle option) \<times> claim_set"
    and ws :: "nat \<Rightarrow> os" and selfs :: "nat \<Rightarrow> string + claim_owner" and dets :: "nat \<Rightarrow> json" and ids stamps :: "nat \<Rightarrow> nat \<Rightarrow> string"
  assumes attempt_tries: "attempt i s = try_lock (ws i) (selfs i) (dets i) (ids i) (stamps i) s"
begin

lemma attempt_own:
  assumes "attempt i s = (Inr (Some c), t)" "selfs i = Inr ow" "valid_owner ow" "inspectProcessIdentity (ws i) ow = Same" "\<And>k. ids i k \<noteq> []"
  shows "holds t c \<and> hd_mode c = Exclusive \<and> hd_owner c = ow"
proof -
  obtain r where "tryAcquireClaim (ws i) (Inr ow) Exclusive (dets i) (ids i) (stamps i) s = (Inr (Acquired c r), t)"
    using assms(1,2) try_lock_acquired unfolding attempt_tries by metis
  from try_acquired [OF this assms(3,5,4)] show ?thesis .
qed

end

sublocale claim_lock \<subseteq> exclusive_lock attempt holds "claim_guarded ws ids" "claim_honest ws selfs ids"
proof
  fix s c i r t
  assume held: "holds s c" and guards: "claim_guarded ws ids c" and run: "attempt i s = (r, t)"
  obtain res u where try_it: "tryAcquireClaim (ws i) (selfs i) Exclusive (dets i) (ids i) (stamps i) s = (res, u)" by fastforce
  from try_excluded [OF this held] guards have "holds u c" "(\<exists>e. res = Inl e) \<or> (\<exists>h rs. res = Inr (HeldBy h rs))" by (auto simp: claim_guarded_def)
  with run try_it show "holds t c \<and> (\<forall>c'. r \<noteq> Inr (Some c'))" by (auto simp: attempt_tries try_lock_def)
next
  fix i s c t
  assume honest: "claim_honest ws selfs ids" and run: "attempt i s = (Inr (Some c), t)"
  from honest obtain ow where self: "selfs i = Inr ow" "valid_owner ow" "inspectProcessIdentity (ws i) ow = Same" "\<And>k. ids i k \<noteq> []"
    unfolding claim_honest_def by metis
  from attempt_own [OF run self] show "holds t c" by simp
next
  show "holds s c \<Longrightarrow> set_root s = RootDir" for s c by (rule holds_root)
qed

section \<open>Claims held by a child\<close>

text \<open>
  A claim stays held after its owner is gone while a child it announced is not recorded, or the
  recorded one or its process group still runs. \<open>ks\<close> are the child records the claim may carry.
\<close>

definition child_held :: "claim_owner option set \<Rightarrow> claim_set \<Rightarrow> claim_handle \<Rightarrow> bool" where
  "child_held ks s c \<longleftrightarrow> holds s c \<and> hd_mode c = Exclusive \<and> (\<exists>k \<in> ks. readChild s Exclusive (hd_path c) = Read k)"

definition child_guarded :: "(nat \<Rightarrow> os) \<Rightarrow> claim_owner option set \<Rightarrow> claim_handle \<Rightarrow> bool" where
  "child_guarded ws ks c \<longleftrightarrow> (\<forall>i k. Some k \<in> ks \<longrightarrow> inspectProcessIdentity (ws i) k \<noteq> Gone \<or> processGroupAlive (ws i) (pid k))"

lemma try_not_dead:
  assumes "tryAcquireClaim w self m ds ids stamps s = (res, t)" "holds s c" "hd_mode c = Exclusive"
    and alive: "\<And>h. readClaim s Exclusive (hd_path c) = Read h \<Longrightarrow> claimLiveness w s h \<noteq> Dead"
  shows "same_claim s t Exclusive (hd_path c) \<and> set_root t = RootDir \<and> ((\<exists>e. res = Inl e) \<or> (\<exists>h rs. res = Inr (HeldBy h rs)))"
proof (cases self)
  case (Inl e)
  with assms(1) holds_root [OF assms(2)] show ?thesis by (auto simp: tryAcquireClaim_def)
next
  case (Inr ow)
  have root: "set_root s = RootDir" by (rule holds_root [OF assms(2)])
  obtain h where h: "readClaim s Exclusive (hd_path c) = Read h" and p: "suffix CLAIM_SUFFIX (hd_path c)" using assms(2,3) by (auto simp: holds_def)
  obtain r s1 where run: "inspectClaimSet w s = (r, s1)" by fastforce
  have keep: "same_claim s s1 Exclusive (hd_path c)" by (rule inspect_keeps [OF run p readClaim_Read(3) [OF h] alive])
  have root1: "set_root s1 = RootDir" using inspect_frame [OF run] root by simp
  have excl: "st_exclusive st \<noteq> None" if "r = Inr st" for st
  proof -
    have st: "inspectClaimSet w s = (Inr st, s1)" using run that by simp
    have "claimLiveness w s h \<noteq> Unknown" using inspect_result(4) [OF st root, of Exclusive] h p by (auto simp: resolved_def)
    then have "claimLiveness w s h = Live" using alive [OF h] by (cases "claimLiveness w s h") auto
    then have "h \<in> claims_in w s Exclusive Live" using h p by (auto simp: claims_in_def)
    with inspect_result(2) [OF st root] show ?thesis by auto
  qed
  obtain k where k: "PUBLISH_ATTEMPTS = Suc k" by (simp add: PUBLISH_ATTEMPTS_def numeral_eq_Suc)
  have "acquire_loop (Suc k) w m ow ds ids stamps [] s = (res, t)" using assms(1) by (simp only: tryAcquireClaim_def Inr k sum.case)
  then have "t = s1 \<and> ((\<exists>e. res = Inl e) \<or> (\<exists>h rs. res = Inr (HeldBy h rs)))"
    using run root excl by (cases r) (auto simp: Let_def)
  with keep root1 show ?thesis by simp
qed

lemma child_not_dead:
  assumes "child_held ks s c" "child_guarded ws ks c" "readClaim s Exclusive (hd_path c) = Read h"
  shows "claimLiveness (ws i) s h \<noteq> Dead"
proof -
  obtain k where k: "k \<in> ks" "readChild s Exclusive (hd_path c) = Read k" using assms(1) by (auto simp: child_held_def)
  have h: "h_mode h = Exclusive" "h_name h = hd_path c" by (rule readClaim_Read [OF assms(3)])+
  have "childLiveness (ws i) s Exclusive (hd_path c) \<noteq> Some Dead" "childLiveness (ws i) s Exclusive (hd_path c) \<noteq> None"
    using k assms(2) by (auto simp: childLiveness_def child_guarded_def split: option.splits identity.splits)
  then show ?thesis by (auto simp: claimLiveness_def h split: identity.splits option.splits)
qed

sublocale claim_lock \<subseteq> by_child: guarded_lock attempt "child_held ks" "child_guarded ws ks" for ks
proof
  fix s c i r t
  assume held: "child_held ks s c" and guards: "child_guarded ws ks c" and run: "attempt i s = (r, t)"
  then have h: "holds s c" "hd_mode c = Exclusive" by (simp_all add: child_held_def)
  obtain res u where try_it: "tryAcquireClaim (ws i) (selfs i) Exclusive (dets i) (ids i) (stamps i) s = (res, u)" by fastforce
  note no = try_not_dead [OF this h child_not_dead [OF held guards]]
  with run try_it have "t = u" "\<forall>c'. r \<noteq> Inr (Some c')" by (auto simp: attempt_tries try_lock_def)
  moreover have "child_held ks u c" using held holds_same [OF h(1)] no h(2) by (auto simp: child_held_def same_claim_reads(1))
  ultimately show "child_held ks t c \<and> (\<forall>c'. r \<noteq> Inr (Some c'))" by simp
qed

end
