(* ===== verification/Build_Slot_Properties.thy ===== *)
theory Build_Slot_Properties
  imports Build_Slots Exclusive_Lock
begin

text \<open>
  What build slots and wait queues promise: a slot held by a live build is never given to another,
  slots are tried in order and an answer is given only when every one was tried, a run that joins a
  queue goes behind everybody in it, the patience of a waiter is bounded, and a wait that ends gives
  its ticket back.
\<close>

section \<open>What the slot loop needs of an exclusive lock\<close>

context exclusive_lock
begin

lemma slot_put_same: "set_root s \<noteq> RootAbsent \<Longrightarrow> set_root s \<noteq> RootFile \<Longrightarrow> slot_set i (put_slot i s d) = s"
  by (simp add: put_slot_def slot_set_def update_conv')

lemma slot_put_other: "slot_name j \<noteq> slot_name i \<Longrightarrow> slot_set j (put_slot i s d) = slot_set j d"
  by (simp add: put_slot_def slot_set_def update_conv' delete_conv')

lemma put_keeps_held:
  assumes "held (slot_set j d) c" "guarded c" "attempt i (slot_set i d) = (r, s)"
  shows "held (slot_set j (put_slot i s d)) c"
proof (cases "slot_name j = slot_name i")
  case True
  then have same: "slot_set j e = slot_set i e" for e by (simp add: slot_set_def)
  with attempt_respects [OF _ assms(2,3)] assms(1) have "held s c" by simp
  with held_root [OF this] show ?thesis using same slot_put_same by simp
next
  case False
  with assms(1) show ?thesis by (simp add: slot_put_other)
qed

text \<open>The loop gives out only a slot that no guarded handle holds, and takes no held slot away.\<close>

lemma slot_loop_respects:
  assumes "slot_loop attempt is refusal busy d = (res, e)" "held (slot_set j d) c" "guarded c"
  shows "held (slot_set j e) c \<and> (\<forall>c'. res \<noteq> Inr (Some (c', j)))"
  using assms(1,2)
proof (induction "is" arbitrary: refusal busy d)
  case Nil
  then show ?case by (auto split: option.splits if_splits)
next
  case (Cons i "is")
  obtain r s where a: "attempt i (slot_set i d) = (r, s)" by fastforce
  have keep: "held (slot_set j (put_slot i s d)) c" by (rule put_keeps_held [OF Cons.prems(2) assms(3) a])
  have no: "j = i \<Longrightarrow> r \<noteq> Inr (Some c')" for c' using attempt_respects [OF _ assms(3) a] Cons.prems(2) by auto
  show ?case using Cons.prems(1) a keep no Cons.IH [OF _ keep] by (auto simp: Let_def split: sum.splits option.splits if_splits)
qed

lemma slot_loop_takes:
  assumes "slot_loop attempt is refusal busy d = (Inr (Some (c, i)), e)" honest
  shows "i \<in> set is \<and> held (slot_set i e) c"
  using assms(1)
proof (induction "is" arbitrary: refusal busy d)
  case Nil
  then show ?case by (auto split: option.splits if_splits)
next
  case (Cons k "is")
  obtain r s where a: "attempt k (slot_set k d) = (r, s)" by fastforce
  show ?case
  proof (cases "\<exists>c'. r = Inr (Some c')")
    case True
    with Cons.prems a have "r = Inr (Some c)" "i = k" "e = put_slot k s d" by (auto simp: Let_def)
    with attempt_holds [OF assms(2)] a have "held s c" by simp
    with held_root [OF this] \<open>i = k\<close> \<open>e = put_slot k s d\<close> show ?thesis by (simp add: slot_put_same)
  next
    case False
    with Cons.prems a Cons.IH show ?thesis by (auto simp: Let_def split: sum.splits option.splits if_splits)
  qed
qed

end

section \<open>The claims are such a lock\<close>

definition guards :: "os \<Rightarrow> (nat \<Rightarrow> nat \<Rightarrow> string) \<Rightarrow> claim_handle \<Rightarrow> bool" where
  "guards w ids c \<longleftrightarrow> hd_mode c = Exclusive \<and> inspectProcessIdentity w (hd_owner c) = Same \<and> (\<forall>i k. ids i k @ CLAIM_SUFFIX \<noteq> hd_path c)"

definition honest_self :: "os \<Rightarrow> string + claim_owner \<Rightarrow> (nat \<Rightarrow> nat \<Rightarrow> string) \<Rightarrow> bool" where
  "honest_self w self ids \<longleftrightarrow> (\<exists>ow. self = Inr ow \<and> valid_owner ow \<and> inspectProcessIdentity w ow = Same) \<and> (\<forall>i k. ids i k \<noteq> [])"

interpretation slots: claim_lock "slot_attempt w self ds ids stamps" "\<lambda>_. w" "\<lambda>_. self"
    "\<lambda>i. JObj (AList.update ''index'' (JNum (int i)) ds)" ids stamps
  for w self ds ids stamps
  by unfold_locales (simp add: slot_attempt_def try_lock_def)

lemma slot_guards: "guards w ids c \<Longrightarrow> claim_guarded (\<lambda>_. w) ids c" "honest_self w self ids \<Longrightarrow> claim_honest (\<lambda>_. w) (\<lambda>_. self) ids"
  by (auto simp: guards_def claim_guarded_def honest_self_def claim_honest_def)

section \<open>Slots\<close>

lemma slot_name_inj [simp]: "slot_name i = slot_name j \<longleftrightarrow> i = j"
  by (simp add: slot_name_def string_of_nat_inj)

text \<open>
  C33. A build slot is never shared: when a run gets slot \<open>i\<close> of \<open>cap\<close>, the slot is below the cap, the
  run's claim on it stands, no running build held it, and every claim a running build holds on
  another slot stands as before.
\<close>

theorem build_slot_exclusive:
  assumes "tryAcquireBuildSlotClaim w self cap ds ids stamps d = (Inr (Some (c, i)), e)" "honest_self w self ids"
  shows "i < cap \<and> holds (slot_set i e) c \<and>
    (\<forall>j c'. holds (slot_set j d) c' \<longrightarrow> guards w ids c' \<longrightarrow> j \<noteq> i \<and> holds (slot_set j e) c')"
proof -
  have run: "slot_loop (slot_attempt w self ds ids stamps) [0..<cap] None False d = (Inr (Some (c, i)), e)"
    using assms(1) by (simp add: tryAcquireBuildSlotClaim_def)
  from slots.slot_loop_takes [OF run slot_guards(2) [OF assms(2)]] have "i < cap" "holds (slot_set i e) c" by auto
  moreover have "j \<noteq> i \<and> holds (slot_set j e) c'" if "holds (slot_set j d) c'" "guards w ids c'" for j c'
    using slots.slot_loop_respects [OF run that(1) slot_guards(1) [OF that(2)]] by auto
  ultimately show ?thesis by blast
qed

definition sample_os :: os where
  "sample_os = \<lparr>inspectProcessIdentity = (\<lambda>ow. if pid ow \<le> 9 then Same else Gone), group_answers = (\<lambda>_. False)\<rparr>"

definition one_slot_taken :: slots_dir where
  "one_slot_taken = snd (tryAcquireBuildSlotClaim sample_os (Inr (proc 7)) 2 [] (\<lambda>_ _. ''x'') (\<lambda>_ _. ''t0'') [])"

theorem build_slot_exclusive_witness:
  "fst (tryAcquireBuildSlotClaim sample_os (Inr (proc 8)) 2 [] (\<lambda>_ _. ''y'') (\<lambda>_ _. ''t1'') one_slot_taken) =
     Inr (Some (\<lparr>hd_path = ''y.claim'', hd_claimId = ''y'', hd_mode = Exclusive, hd_owner = proc 8, hd_startedAt = ''t1'', hd_details = JObj [(''index'', JNum 1)]\<rparr>, 1)) \<and>
   holds (slot_set 1 (snd (tryAcquireBuildSlotClaim sample_os (Inr (proc 8)) 2 [] (\<lambda>_ _. ''y'') (\<lambda>_ _. ''t1'') one_slot_taken)))
     \<lparr>hd_path = ''y.claim'', hd_claimId = ''y'', hd_mode = Exclusive, hd_owner = proc 8, hd_startedAt = ''t1'', hd_details = JObj [(''index'', JNum 1)]\<rparr>"
proof -
  let ?r = "tryAcquireBuildSlotClaim sample_os (Inr (proc 8)) 2 [] (\<lambda>_ _. ''y'') (\<lambda>_ _. ''t1'') one_slot_taken"
  let ?c = "\<lparr>hd_path = ''y.claim'', hd_claimId = ''y'', hd_mode = Exclusive, hd_owner = proc 8, hd_startedAt = ''t1'', hd_details = JObj [(''index'', JNum 1)]\<rparr>"
  have r: "fst ?r = Inr (Some (?c, 1))" by code_simp
  have "honest_self sample_os (Inr (proc 8)) (\<lambda>_ _. ''y'')"
    by (simp add: honest_self_def valid_owner_def proc_def sample_os_def safe_integer_def)
  with build_slot_exclusive [of sample_os "Inr (proc 8)" 2 "[]" "\<lambda>_ _. ''y''" "\<lambda>_ _. ''t1''" one_slot_taken ?c 1 "snd ?r"] r
  show ?thesis by (metis prod.collapse)
qed

text \<open>Distinct slots are distinct files, so the loop amounts to scanning the answers each slot gives on its own.\<close>

fun slot_scan :: "(nat \<times> (claim_error + claim_handle option)) list \<Rightarrow> claim_error option \<Rightarrow> bool \<Rightarrow> claim_error + (claim_handle \<times> nat) option" where
  "slot_scan [] refusal busy = (case refusal of Some e \<Rightarrow> if \<not> busy then Inl e else Inr None | None \<Rightarrow> Inr None)"
| "slot_scan ((i, Inl e) # xs) refusal busy =
     (if is_refusal e then slot_scan xs (case refusal of Some e' \<Rightarrow> Some e' | None \<Rightarrow> Some e) busy else Inl e)"
| "slot_scan ((i, Inr None) # xs) refusal busy = slot_scan xs refusal True"
| "slot_scan ((i, Inr (Some c)) # xs) refusal busy = Inr (Some (c, i))"

lemma slot_loop_scan:
  "distinct is \<Longrightarrow> fst (slot_loop attempt is refusal busy d) = slot_scan (map (\<lambda>i. (i, fst (attempt i (slot_set i d)))) is) refusal busy"
proof (induction "is" arbitrary: refusal busy d)
  case Nil
  then show ?case by (auto split: option.splits)
next
  case (Cons k "is")
  obtain r s where a: "attempt k (slot_set k d) = (r, s)" by fastforce
  have "slot_set j (put_slot k s d) = slot_set j d" if "j \<in> set is" for j
    using that Cons.prems by (intro slots.slot_put_other) auto
  then have same: "map (\<lambda>i. (i, fst (attempt i (slot_set i (put_slot k s d))))) is = map (\<lambda>i. (i, fst (attempt i (slot_set i d)))) is" by simp
  have "fst (slot_loop attempt is rf b (put_slot k s d)) = slot_scan (map (\<lambda>i. (i, fst (attempt i (slot_set i d)))) is) rf b" for rf b
    using Cons.IH [of rf b "put_slot k s d"] Cons.prems unfolding same by simp
  with a show ?case by (cases r) (auto simp: Let_def split: option.splits)
qed

lemma scan_got:
  "slot_scan xs refusal busy = Inr (Some (c, i)) \<Longrightarrow> \<exists>ys zs. xs = ys @ (i, Inr (Some c)) # zs \<and>
     (\<forall>(j, r) \<in> set ys. r = Inr None \<or> (\<exists>e. r = Inl e \<and> is_refusal e))"
proof (induction xs refusal busy rule: slot_scan.induct)
  case (2 i' e xs refusal busy)
  then obtain ys zs where "is_refusal e" "xs = ys @ (i, Inr (Some c)) # zs" "\<forall>(j, r) \<in> set ys. r = Inr None \<or> (\<exists>e. r = Inl e \<and> is_refusal e)"
    by (auto split: if_splits)
  then show ?case by (intro exI [of _ "(i', Inl e) # ys"] exI [of _ zs]) auto
next
  case (3 i' xs refusal busy)
  then obtain ys zs where "xs = ys @ (i, Inr (Some c)) # zs" "\<forall>(j, r) \<in> set ys. r = Inr None \<or> (\<exists>e. r = Inl e \<and> is_refusal e)" by auto
  then show ?case by (intro exI [of _ "(i', Inr None) # ys"] exI [of _ zs]) auto
qed (auto split: option.splits if_splits intro: exI [of _ "[]"])

lemma scan_busy:
  "slot_scan xs refusal busy = Inr None \<Longrightarrow> (\<forall>(j, r) \<in> set xs. r = Inr None \<or> (\<exists>e. r = Inl e \<and> is_refusal e)) \<and>
     (busy \<or> refusal = None \<and> xs = [] \<or> (\<exists>j. (j, Inr None) \<in> set xs))"
  by (induction xs refusal busy rule: slot_scan.induct) (auto split: option.splits if_splits)

lemma scan_refused:
  "slot_scan xs refusal busy = Inl e \<Longrightarrow> is_refusal e \<Longrightarrow> \<not> busy \<and> (\<forall>(j, r) \<in> set xs. \<exists>e. r = Inl e \<and> is_refusal e)"
  by (induction xs refusal busy rule: slot_scan.induct) (auto split: option.splits if_splits)

text \<open>
  The answer about the slots is the right one. A slot is given only after every lower one was
  found busy or could not be resolved; no slot is given only when every one was busy or unresolved,
  and at least one was busy; an unresolved slot's refusal is raised only when no slot was busy, so
  it never hides that waiting would help.
\<close>

theorem build_slot_answer:
  assumes "tryAcquireBuildSlotClaim w self cap ds ids stamps d = (res, e)"
    and "\<And>i. R i = fst (slot_attempt w self ds ids stamps i (slot_set i d))"
  shows "(\<forall>c i. res = Inr (Some (c, i)) \<longrightarrow> R i = Inr (Some c) \<and> (\<forall>j < i. R j = Inr None \<or> (\<exists>x. R j = Inl x \<and> is_refusal x))) \<and>
    (res = Inr None \<longrightarrow> (\<forall>j < cap. R j = Inr None \<or> (\<exists>x. R j = Inl x \<and> is_refusal x)) \<and> (0 < cap \<longrightarrow> (\<exists>j < cap. R j = Inr None))) \<and>
    (\<forall>x. res = Inl x \<longrightarrow> is_refusal x \<longrightarrow> (\<forall>j < cap. \<exists>y. R j = Inl y \<and> is_refusal y))"
proof -
  let ?xs = "map (\<lambda>i. (i, R i)) [0..<cap]"
  have res: "res = slot_scan ?xs None False"
    using slot_loop_scan [of "[0..<cap]" "slot_attempt w self ds ids stamps" None False d] assms by (simp add: tryAcquireBuildSlotClaim_def)
  have 1: "R i = Inr (Some c) \<and> (\<forall>j < i. R j = Inr None \<or> (\<exists>x. R j = Inl x \<and> is_refusal x))" if got: "res = Inr (Some (c, i))" for c i
  proof -
    from scan_got [of ?xs None False c i] got res obtain ys zs where xs: "?xs = ys @ (i, Inr (Some c)) # zs"
      and ys: "\<forall>(j, r) \<in> set ys. r = Inr None \<or> (\<exists>e. r = Inl e \<and> is_refusal e)" by auto
    have len: "length ys < cap" using arg_cong [OF xs, of length] by simp
    have nth: "(ys @ (i, Inr (Some c)) # zs) ! k = (k, R k)" if "k < cap" for k using that unfolding xs [symmetric] by simp
    from nth [OF len] have i: "length ys = i" "R i = Inr (Some c)" by auto
    have "(j, R j) \<in> set ys" if "j < i" for j using nth [of j] that i(1) len by (auto simp: nth_append in_set_conv_nth)
    with ys i(2) show ?thesis by fastforce
  qed
  have 2: "(\<forall>j < cap. R j = Inr None \<or> (\<exists>x. R j = Inl x \<and> is_refusal x)) \<and> (0 < cap \<longrightarrow> (\<exists>j < cap. R j = Inr None))" if "res = Inr None"
    using scan_busy [of ?xs None False] that res by auto
  have 3: "\<forall>j < cap. \<exists>y. R j = Inl y \<and> is_refusal y" if "res = Inl x" "is_refusal x" for x
    using scan_refused [of ?xs None False x] that res by auto
  show ?thesis using 1 2 3 by blast
qed

theorem build_slot_answer_witness:
  "fst (slot_attempt sample_os (Inr (proc 8)) [] (\<lambda>_ _. ''y'') (\<lambda>_ _. ''t1'') 0 (slot_set 0 one_slot_taken)) = Inr None"
proof -
  let ?r = "tryAcquireBuildSlotClaim sample_os (Inr (proc 8)) 1 [] (\<lambda>_ _. ''y'') (\<lambda>_ _. ''t1'') one_slot_taken"
  have "fst ?r = Inr None" by code_simp
  then have "?r = (Inr None, snd ?r)" by (metis prod.collapse)
  from build_slot_answer [OF this refl] show ?thesis by simp
qed

section \<open>Patience\<close>

fun ceiling_looks :: "(int \<times> int \<times> string option) list \<Rightarrow> wait_ceiling \<Rightarrow> wait_ceiling" where
  "ceiling_looks [] c = c"
| "ceiling_looks ((now, pos, unverified) # us) c = ceiling_looks us (ceiling_update now pos unverified c)"

lemma ceiling_looks_append: "ceiling_looks (us @ vs) c = ceiling_looks vs (ceiling_looks us c)"
  by (induction us c rule: ceiling_looks.induct) auto

lemma ceiling_looks_started: "wc_started (ceiling_looks us c) = wc_started c"
  by (induction us c rule: ceiling_looks.induct) (auto simp: ceiling_update_def)

definition stuck_since :: "(int \<times> int \<times> string option) list \<Rightarrow> int \<Rightarrow> int \<Rightarrow> bool" where
  "stuck_since us t p \<longleftrightarrow> us \<noteq> [] \<and> fst (hd us) = t \<and> fst (snd (last us)) = p \<and> (\<forall>u \<in> set us. snd (snd u) \<noteq> None) \<and>
     sorted (map (\<lambda>u. fst (snd u)) us)"

lemma sorted_le_last: "sorted xs \<Longrightarrow> x \<in> set xs \<Longrightarrow> x \<le> last xs" for x :: int
  by (induction xs) auto

lemma ceiling_since:
  "wc_since (ceiling_looks us (waitCeiling t0)) = Some t \<Longrightarrow>
     \<exists>vs ws p. us = vs @ ws \<and> stuck_since ws t p \<and> wc_position (ceiling_looks us (waitCeiling t0)) = Some p"
proof (induction us arbitrary: t rule: rev_induct)
  case Nil
  then show ?case by (simp add: waitCeiling_def)
next
  case (snoc u us)
  obtain now pos unverified where u: "u = (now, pos, unverified)" by (cases u) auto
  let ?c = "ceiling_looks us (waitCeiling t0)"
  have c: "ceiling_looks (us @ [u]) (waitCeiling t0) = ceiling_update now pos unverified ?c" by (simp add: ceiling_looks_append u)
  from snoc.prems c obtain r where r: "unverified = Some r" by (auto simp: ceiling_update_def split: option.splits)
  have p: "wc_position (ceiling_update now pos unverified ?c) = Some pos" by (simp add: ceiling_update_def)
  show ?case
  proof (cases "wc_since ?c = None \<or> (case wc_position ?c of None \<Rightarrow> True | Some p \<Rightarrow> pos < p)")
    case True
    with snoc.prems c r have "t = now" by (auto simp: ceiling_update_def)
    then show ?thesis using p c u r by (intro exI [of _ us] exI [of _ "[u]"] exI [of _ pos]) (auto simp: stuck_since_def)
  next
    case False
    with snoc.prems c r have "wc_since ?c = Some t" by (auto simp: ceiling_update_def)
    from snoc.IH [OF this] obtain vs ws p0 where ws: "us = vs @ ws" "stuck_since ws t p0" "wc_position ?c = Some p0" by blast
    with False have "p0 \<le> pos" by auto
    moreover have "fst (snd x) \<le> p0" if "x \<in> set ws" for x
      using sorted_le_last [of "map (\<lambda>u. fst (snd u)) ws" "fst (snd x)"] that ws(2) by (auto simp: stuck_since_def last_map)
    ultimately have "stuck_since (ws @ [u]) t pos"
      using ws(2) u r by (fastforce simp: stuck_since_def sorted_append)
    then show ?thesis using ws(1) p c by (intro exI [of _ vs] exI [of _ "ws @ [u]"] exI [of _ pos]) auto
  qed
qed

text \<open>
  A waiter gives up early only for good reason. Before the ninety minutes are over, the ceiling
  reports a waiter overdue only if from some look on, without a break until the last one, some
  holder ahead of it could not be verified and its position never improved, and if the time since
  that look has reached the ceiling of its position, at least ten minutes.
\<close>

theorem waitCeiling_patience:
  assumes "ceiling_overdue now (ceiling_looks us (waitCeiling t0)) = Some over" "now - t0 < ABSOLUTE_WAIT_CEILING_MS"
  shows "\<exists>vs ws t p reason. us = vs @ ws \<and> stuck_since ws t p \<and> over = OverdueUnverified p (now - t) reason \<and>
    positionCeilingMs p \<le> now - t \<and> 600000 \<le> now - t"
proof -
  let ?c = "ceiling_looks us (waitCeiling t0)"
  have "wc_started ?c = t0" by (simp add: ceiling_looks_started waitCeiling_def)
  with assms obtain t p where c: "wc_since ?c = Some t" "wc_position ?c = Some p" "positionCeilingMs p \<le> now - t"
    "over = OverdueUnverified p (now - t) (wc_reason ?c)"
    by (auto simp: ceiling_overdue_def split: option.splits if_splits)
  from ceiling_since [OF c(1)] c(2) obtain vs ws where "us = vs @ ws" "stuck_since ws t p" by auto
  with c show ?thesis by (auto simp: positionCeilingMs_def)
qed

theorem waitCeiling_patience_witness:
  "\<exists>vs ws t p reason. [(0, 3, None), (1000, 2, Some ''x''), (500000, 2, Some ''x'')] = vs @ ws \<and> stuck_since ws t p \<and>
     OverdueUnverified 2 600000 ''x'' = OverdueUnverified p (601000 - t) reason \<and> positionCeilingMs p \<le> 601000 - t \<and> 600000 \<le> 601000 - t"
proof -
  have "ceiling_overdue 601000 (ceiling_looks [(0, 3, None), (1000, 2, Some ''x''), (500000, 2, Some ''x'')] (waitCeiling 0)) = Some (OverdueUnverified 2 600000 ''x'')"
    by code_simp
  from waitCeiling_patience [OF this] show ?thesis by (simp add: ABSOLUTE_WAIT_CEILING_MS_def)
qed

section \<open>Waiting ends\<close>

definition past_ceiling :: "slot_request \<Rightarrow> int \<Rightarrow> int \<Rightarrow> round \<Rightarrow> bool" where
  "past_ceiling q started ceiling_started r = (case q_ceilingMs q of
     None \<Rightarrow> ABSOLUTE_WAIT_CEILING_MS \<le> r_overdue r - ceiling_started | Some limit \<Rightarrow> limit \<le> r_elapsed r - started)"

lemma round_overdue_past:
  "past_ceiling q started t r \<Longrightarrow> wc_started c = t \<Longrightarrow> round_overdue q r (r_elapsed r - started) c \<noteq> None"
  by (auto simp: past_ceiling_def round_overdue_def ceiling_overdue_def split: option.splits)

lemma slot_round_goes_on:
  assumes "slot_round q started r ws m = (Inr ws', m')"
  shows "ws_ticket ws' \<noteq> None" and "wc_started (ws_ceiling ws') = wc_started (ws_ceiling ws)"
    and "ws_ticket ws \<noteq> None \<Longrightarrow> round_overdue q r (r_elapsed r - started) (ws_ceiling ws') = None"
  using assms
  by (auto simp: slot_round_def Let_def ceiling_update_def split: if_splits prod.splits sum.splits option.splits)

lemma slot_rounds_end:
  assumes "ws_ticket ws \<noteq> None" "wc_started (ws_ceiling ws) = t" "past_ceiling q started t (rs (k + n))"
  shows "slot_rounds (Suc n) q started rs k ws m \<noteq> None"
  using assms
proof (induction n arbitrary: k ws m)
  case 0
  obtain r m' where round: "slot_round q started (rs k) ws m = (r, m')" by fastforce
  show ?case
  proof (cases r)
    case (Inr ws')
    with slot_round_goes_on [OF round [unfolded Inr]] round_overdue_past [of q started t "rs k" "ws_ceiling ws'"] 0 show ?thesis by simp
  qed (use round in simp)
next
  case (Suc n)
  obtain r m' where round: "slot_round q started (rs k) ws m = (r, m')" by fastforce
  show ?case
  proof (cases r)
    case (Inr ws')
    note next_state = slot_round_goes_on(1,2) [OF round [unfolded Inr]]
    have "slot_rounds (Suc n) q started rs (Suc k) ws' m' \<noteq> None" using next_state Suc.prems by (intro Suc.IH) simp_all
    with round Inr show ?thesis by simp
  qed (use round in simp)
qed

text \<open>The hold for a switch ends at a look that finds no staging less than ten minutes old.\<close>

definition hold_over :: "hold_look \<Rightarrow> bool" where
  "hold_over l \<longleftrightarrow> (\<forall>v t. hl_staged l = Some (Some v) \<and> staged_at v = Some t \<longrightarrow> t + SLOT_HOLD_MS \<le> hl_now l)"

lemma stagedHold_over: "hold_over l \<Longrightarrow> stagedHold engine (hl_now l) (hl_staged l) = None"
  by (force simp: hold_over_def stagedHold_def split: option.splits prod.splits)

lemma holdForSwitch_ends: "\<exists>l \<in> set looks. hold_over l \<Longrightarrow> holdForSwitch engine current looks \<noteq> None"
proof (induction looks)
  case (Cons l looks)
  then show ?case by (cases "stagedHold engine (hl_now l) (hl_staged l)") (auto simp: stagedHold_over)
qed simp

text \<open>
  C34. A call for a build slot returns whatever the other processes do. It has two loops: the hold while
  another build of Stim is staged, and the wait in the queue. If some look of the hold finds no staging, or
  only one that is at least ten minutes old, and the clock has passed the ceiling (the given one, or ninety
  minutes) at some turn of the wait after the first, then the call has returned, with a slot or an error,
  by the end of that turn.
\<close>

theorem acquireBuildSlot_returns:
  assumes "\<exists>l \<in> set looks. hold_over l" "past_ceiling q started t (rs (Suc n))"
  shows "\<exists>res m'. acquireBuildSlot (Suc (Suc n)) q entry looks started t rs m = Some (res, m')"
proof -
  let ?ws = "\<lparr>ws_ticket = None, ws_ceiling = waitCeiling t\<rparr>"
  obtain r m' where round: "slot_round q started (rs 0) ?ws m = (r, m')" by fastforce
  have "slot_rounds (Suc (Suc n)) q started rs 0 ?ws m \<noteq> None"
  proof (cases r)
    case (Inr ws')
    have "ws_ticket ws' \<noteq> None" "wc_started (ws_ceiling ws') = t" using slot_round_goes_on(1,2) [OF round [unfolded Inr]] by (simp_all add: waitCeiling_def)
    from slot_rounds_end [OF this, of q started rs 1 n m'] assms(2) round Inr show ?thesis by simp
  qed (use round in simp)
  then obtain res where "slot_rounds (Suc (Suc n)) q started rs 0 ?ws m = Some res" by blast
  moreover obtain held where "holdForSwitch (q_engine q) (r_current entry) looks = Some held" using holdForSwitch_ends [OF assms(1)] by blast
  ultimately show ?thesis by (cases res; cases held) (auto simp: acquireBuildSlot_def simp del: slot_rounds.simps)
qed

definition sample_round :: "int \<Rightarrow> round" where
  "sample_round now = \<lparr>r_others = id, r_os = sample_os, r_cancelled = False, r_automatic = None, r_current = None, r_max = 1,
     r_slot_ids = (\<lambda>_ _. ''y''), r_slot_stamps = (\<lambda>_ _. ''t1''), r_ticket_ids = (\<lambda>_. ''q''), r_ticket_stamps = (\<lambda>_. ''t1''),
     r_got = now, r_update = now, r_elapsed = now, r_overdue = now\<rparr>"

definition sample_request :: slot_request where
  "sample_request = \<lparr>q_self = Inr (proc 8), q_max = None, q_root = Some ''/w'', q_logFile = None, q_automatic = False, q_ceilingMs = Some 5000,
     q_engine = Some \<lparr>eng_root = ''/e'', eng_build = ''aaaaaaaaaaaa''\<rparr>, q_locale = (\<lambda>_ _. 0)\<rparr>"

text \<open>Another build was staged at time 1000: a run is held at 2000 and goes on at 602000.\<close>

definition staged_look :: "int \<Rightarrow> hold_look" where
  "staged_look now = \<lparr>hl_staged = Some (Some (JObj [(''format'', JNum 1), (''dir'', JStr ''bbbbbbbbbbbb''), (''version'', JStr ''2.0.0''),
     (''stagedAt'', JStr ''1970-01-01T00:00:01.000Z'')])), hl_now = now, hl_cancelled = False\<rparr>"

lemma staged_look_holds: "holdForSwitch (q_engine sample_request) None [staged_look 2000] = None"
  "holdForSwitch (q_engine sample_request) None [staged_look 2000, staged_look 602000] = Some (Inr ())"
  by code_simp+

theorem acquireBuildSlot_returns_witness:
  "\<exists>res m'. acquireBuildSlot 4 sample_request (sample_round 0) [staged_look 2000, staged_look 602000] 0 0 (\<lambda>k. sample_round (2000 * int k))
     \<lparr>m_slots = one_slot_taken, m_waits = empty_set\<rparr> = Some (res, m')"
proof -
  have four: "(4::nat) = Suc (Suc 2)" by simp
  have "date_parse ''1970-01-01T00:00:01.000Z'' = Some 1000" by code_simp
  then have "hold_over (staged_look 602000)" by (simp add: hold_over_def staged_look_def staged_at_def field_text_def jfield_def SLOT_HOLD_MS_def)
  then show ?thesis unfolding four
    by (intro acquireBuildSlot_returns) (auto simp: past_ceiling_def sample_request_def sample_round_def)
qed

section \<open>Arrival order\<close>

lemma next_sequence_above: "h \<in> set waiters \<Longrightarrow> sequence_of h < next_sequence waiters"
proof -
  have "a \<le> fold max xs a \<and> (\<forall>x \<in> set xs. x \<le> fold max xs a)" for xs and a :: int
  proof (induction xs arbitrary: a)
    case (Cons x xs)
    from Cons.IH [of "max x a"] show ?case by auto
  qed simp
  then show "h \<in> set waiters \<Longrightarrow> sequence_of h < next_sequence waiters" by (fastforce simp: next_sequence_def)
qed

lemma find_index_last:
  "xs \<noteq> [] \<Longrightarrow> P (last xs) \<Longrightarrow> (\<And>x. x \<in> set (butlast xs) \<Longrightarrow> \<not> P x) \<Longrightarrow> find_index P xs = Some (length xs - 1)"
proof (induction xs)
  case (Cons x xs)
  show ?case
  proof (cases "xs = []")
    case False
    with Cons.prems(3) [of x] Cons.prems Cons.IH show ?thesis by (cases xs) auto
  qed (use Cons.prems in simp)
qed simp

lemma liveWaiters_members:
  assumes "liveWaiters loc w s = (Inr waiters, s1)" "set_root s = RootDir"
  shows "set waiters = claims_in w s Shared Live \<and> set_root s1 = RootDir \<and>
    (\<forall>n. suffix CLAIM_SUFFIX n \<longrightarrow> file_at s1 Shared n \<noteq> None \<longrightarrow> same_claim s s1 Shared n)"
proof -
  from assms(1) obtain st where run: "inspectClaimSet w s = (Inr st, s1)" and "waiters = js_sort (waiter_cmp loc) (st_shared st)"
    by (auto simp: liveWaiters_def split: prod.splits sum.splits option.splits)
  with inspect_result(1) [OF run assms(2)] inspect_frame [OF run] inspect_present [OF run assms(2)] assms(2) show ?thesis by auto
qed

text \<open>
  A queue is first come, first served: a run that joins behind the waiters it saw is last in the
  queue it then reads, behind only runs that were waiting before, whatever the clock and the ids.
\<close>

theorem wait_ticket_joins_last:
  assumes first: "liveWaiters loc w s = (Inr waiters, s1)" and root: "set_root s = RootDir"
    and join: "takeWaitTicket w (Inr ow) ds waiters ids stamps s1 = (Inr t, s2)"
    and again: "liveWaiters loc w s2 = (Inr waiters', s3)"
    and self: "valid_owner ow" "inspectProcessIdentity w ow = Same" "\<And>k. ids k \<noteq> []"
    and fresh: "\<And>h. h \<in> set waiters \<Longrightarrow> claimId h \<notin> range ids" and reflexive: "\<And>x. loc x x = 0"
  shows "queuePosition waiters' (Some t) = int (length waiters') \<and> set (butlast waiters') \<subseteq> set waiters"
proof -
  let ?ds = "JObj (AList.update ''sequence'' (JNum (next_sequence waiters)) ds)"
  from join obtain r where run: "acquire_loop PUBLISH_ATTEMPTS w Shared ow ?ds ids stamps [] s1 = (Inr (Acquired t r), s2)"
    by (auto simp: takeWaitTicket_def tryAcquireClaim_def split: prod.splits sum.splits claim_attempt.splits)
  from acquire_loop_own [OF run disjI1 [OF refl] self(1,3,2)] obtain h where holds: "holds s2 t" and t: "hd_mode t = Shared" "hd_owner t = ow" "hd_claimId t \<in> range ids"
    and h: "readClaim s2 Shared (hd_path t) = Read h" "claimId h = hd_claimId t" "details h = ?ds" by auto
  have suffix: "suffix CLAIM_SUFFIX (hd_path t)" using holds by (simp add: holds_def)
  have "owner h = ow" using holds h(1) t by (auto simp: holds_def)
  then have live: "h \<in> claims_in w s2 Shared Live" using h(1) suffix self(2) live_owner by (auto simp: claims_in_def)
  note members = liveWaiters_members [OF first root] liveWaiters_members [OF again holds_root [OF holds]]
  have old: "h' \<in> set waiters" if "h' \<in> set waiters'" "h' \<noteq> h" for h'
  proof -
    from that(1) members(2) obtain n where n: "suffix CLAIM_SUFFIX n" "readClaim s2 Shared n = Read h'" "claimLiveness w s2 h' = Live"
      by (auto simp: claims_in_def)
    have other: "(Shared, n) \<noteq> (hd_mode t, hd_path t)" using that(2) n(2) h(1) by auto
    have 2: "same_claim s1 s2 Shared n" by (rule acquire_loop_present [OF run n(1) readClaim_Read(3) [OF n(2)] other])
    then have "file_at s1 Shared n \<noteq> None" using readClaim_Read(3) [OF n(2)] by (simp add: same_claim_def)
    with members(1) n(1) have "same_claim s s1 Shared n" by blast
    then have same: "same_claim s s2 Shared n" using 2 by (rule same_claim_trans)
    have "claimLiveness w s h' = Live" using same_claim_liveness [of s s2 h' w] same readClaim_Read(1,2) [OF n(2)] n(3) by simp
    then have "h' \<in> claims_in w s Shared Live" using n same_claim_reads(2) [OF same] by (auto simp: claims_in_def)
    then show ?thesis using members(1) by simp
  qed
  have in_h: "h \<in> set waiters'" using live members(2) by simp
  have seq: "sequence_of h = next_sequence waiters" by (simp add: sequence_of_def h(3) jfield_def update_conv')
  obtain xs where xs: "waiters' = js_sort (waiter_cmp loc) xs" using again by (auto simp: liveWaiters_def split: prod.splits sum.splits option.splits)
  have cmp: "waiter_cmp loc y h < 0 \<and> waiter_cmp loc h y > 0" if "y \<in> set waiters'" "y \<noteq> h" for y
    using next_sequence_above [OF old [OF that]] seq by (simp add: waiter_cmp_def)
  have "waiter_cmp loc h h = 0" using reflexive by (simp add: waiter_cmp_def)
  then have last: "last waiters' = h" unfolding xs using in_h xs cmp by (intro js_sort_last) auto
  have "distinct waiters'" using again readClaimSet_distinct [of w s2]
    by (auto simp: liveWaiters_def split: prod.splits sum.splits option.splits elim!: inspect_cases)
  then have once: "h \<notin> set (butlast waiters')" using last in_h
    by (metis append_butlast_last_id distinct.simps(2) distinct_append in_set_conv_decomp_last list.set_intros(1) disjoint_iff empty_iff list.set(1))
  have "find_index (\<lambda>x. claimId x = hd_claimId t) waiters' = Some (length waiters' - 1)"
  proof (rule find_index_last)
    show "waiters' \<noteq> []" using in_h by auto
    show "claimId (last waiters') = hd_claimId t" using last h(2) by simp
    show "claimId x \<noteq> hd_claimId t" if "x \<in> set (butlast waiters')" for x
      using fresh [OF old [OF in_set_butlastD [OF that]]] once that t(3) by metis
  qed
  moreover have "set (butlast waiters') \<subseteq> set waiters" using old once in_set_butlastD by fast
  ultimately show ?thesis using in_h by (cases waiters') (auto simp: queuePosition_def)
qed

definition queue_sample :: claim_set where
  "queue_sample = snd (takeWaitTicket sample_os (Inr (proc 7)) [] [] (\<lambda>_. ''p'') (\<lambda>_. ''t9'') empty_set)"

theorem wait_ticket_joins_last_witness:
  "\<exists>waiters t waiters'. liveWaiters (\<lambda>_ _. 0) sample_os queue_sample = (Inr waiters, queue_sample) \<and> length waiters = 1 \<and>
     fst (takeWaitTicket sample_os (Inr (proc 8)) [] waiters (\<lambda>_. ''a'') (\<lambda>_. ''t0'') queue_sample) = Inr t \<and>
     queuePosition waiters' (Some t) = int (length waiters')"
proof -
  let ?loc = "\<lambda>_ _. 0 :: int"
  define waiters where "waiters = projr (fst (liveWaiters ?loc sample_os queue_sample))"
  define join where "join = takeWaitTicket sample_os (Inr (proc 8)) [] waiters (\<lambda>_. ''a'') (\<lambda>_. ''t0'') queue_sample"
  define again where "again = liveWaiters ?loc sample_os (snd join)"
  have 1: "liveWaiters ?loc sample_os queue_sample = (Inr waiters, queue_sample)" "length waiters = 1" "set_root queue_sample = RootDir"
    "map claimId waiters = [''p'']" unfolding waiters_def by code_simp+
  have 2: "join = (Inr (projr (fst join)), snd join)" "again = (Inr (projr (fst again)), snd again)"
    unfolding again_def join_def waiters_def by code_simp+
  have "claimId h \<notin> range (\<lambda>_. ''a'')" if "h \<in> set waiters" for h
  proof -
    have "claimId h \<in> set (map claimId waiters)" using that by simp
    then show ?thesis unfolding 1(4) by simp
  qed
  moreover have "valid_owner (proc 8)" "inspectProcessIdentity sample_os (proc 8) = Same" by code_simp+
  ultimately have "queuePosition (projr (fst again)) (Some (projr (fst join))) = int (length (projr (fst again)))"
    using wait_ticket_joins_last [OF 1(1,3) trans [OF join_def [symmetric] 2(1)] trans [OF again_def [symmetric] 2(2)]] by simp
  moreover have "fst join = Inr (projr (fst join))" using 2(1) by (metis fst_conv)
  ultimately show ?thesis using 1(1,2) unfolding join_def by blast
qed

end
