(* ===== verification/Dir_Lock.thy ===== *)
theory Dir_Lock
  imports Exclusive_Lock
begin

text \<open>
  Directory locks (\<open>packages/core/dir-lock.ts\<close>): a lock is the exclusive claim of the claim set
  beside its path, and a map of the process counts how often the process is inside each lock. The
  state has that map, the claim sets by lock path, and the data the locked code works on; the code
  run under a lock is a function on the state, so that it can take locks itself. A turn of the
  waiting loop has what the other processes did before it, the operating system's answers, the ids
  and times of a claim, and the clock and the signal after a failed attempt. The loops answer \<open>None\<close>
  while they still wait.
\<close>

section \<open>State\<close>

definition DEFAULT_LOCK_WAIT_MS :: int where "DEFAULT_LOCK_WAIT_MS = 12000"
definition DEFAULT_LOCK_POLL_MS :: int where "DEFAULT_LOCK_POLL_MS = 25"

record 'd lock_state =
  lockDepths :: "(string \<times> int) list"
  lock_claims :: "string \<Rightarrow> claim_set"
  lock_data :: 'd

datatype 'e lock_error = LockClaim claim_error | LockTimeout string | LockParent | LockAborted | BodyThrew 'e

type_synonym ('d, 'e, 'a) locked = "'d lock_state \<Rightarrow> ('e lock_error + 'a) \<times> 'd lock_state"

definition lock_depth :: "string \<Rightarrow> 'd lock_state \<Rightarrow> int" where
  "lock_depth path st = (case map_of (lockDepths st) path of None \<Rightarrow> 0 | Some d \<Rightarrow> d)"

definition set_depth :: "string \<Rightarrow> int \<Rightarrow> 'd lock_state \<Rightarrow> 'd lock_state" where
  "set_depth path d st = st\<lparr>lockDepths := AList.update path d (lockDepths st)\<rparr>"

definition set_claims :: "string \<Rightarrow> claim_set \<Rightarrow> 'd lock_state \<Rightarrow> 'd lock_state" where
  "set_claims path s st = st\<lparr>lock_claims := (lock_claims st)(path := s)\<rparr>"

section \<open>Holding a lock\<close>

definition attemptDirLock :: "os \<Rightarrow> string + claim_owner \<Rightarrow> (nat \<Rightarrow> string) \<Rightarrow> (nat \<Rightarrow> string) \<Rightarrow> claim_set \<Rightarrow> (claim_error + claim_handle option) \<times> claim_set" where
  "attemptDirLock w self ids stamps s = (case tryAcquireClaim w self Exclusive (JObj []) ids stamps s of
       (Inl e, s1) \<Rightarrow> (Inl e, s1)
     | (Inr (Acquired c _), s1) \<Rightarrow> (Inr (Some c), s1)
     | (Inr (HeldBy _ _), s1) \<Rightarrow> (Inr None, s1)
     | (Inr (WaitingFor _ pending _), s1) \<Rightarrow> (Inr None, snd (releaseClaim pending s1)))"

text \<open>The \<open>finally\<close> blocks run whether the code returns or throws.\<close>

definition nestedDirLock :: "string \<Rightarrow> ('d, 'e, 'a) locked \<Rightarrow> ('d, 'e, 'a) locked" where
  "nestedDirLock path fn st =
     (let (r, st2) = fn (set_depth path (lock_depth path st + 1) st) in
      (r, set_depth path ((case map_of (lockDepths st2) path of None \<Rightarrow> 1 | Some d \<Rightarrow> d) - 1) st2))"

definition release_lock :: "string \<Rightarrow> claim_handle \<Rightarrow> 'd lock_state \<Rightarrow> 'd lock_state" where
  "release_lock path claim st = set_claims path (snd (releaseClaim claim (lock_claims st path))) st"

definition holdDirLock :: "string \<Rightarrow> claim_handle \<Rightarrow> ('d, 'e, 'a) locked \<Rightarrow> ('d, 'e, 'a) locked" where
  "holdDirLock path claim fn st =
     (let (r, st2) = fn (set_depth path 1 st) in (r, release_lock path claim (set_depth path 0 st2)))"

section \<open>Waiting for a lock\<close>

record 'd lock_round =
  rd_others :: "(string \<Rightarrow> claim_set) \<times> 'd \<Rightarrow> (string \<Rightarrow> claim_set) \<times> 'd"
  rd_os :: os
  rd_ids :: "nat \<Rightarrow> string"
  rd_stamps :: "nat \<Rightarrow> string"
  rd_now :: int
  rd_aborted :: bool

definition others_act :: "'d lock_round \<Rightarrow> 'd lock_state \<Rightarrow> 'd lock_state" where
  "others_act r st = (let (s, d) = rd_others r (lock_claims st, lock_data st) in st\<lparr>lock_claims := s, lock_data := d\<rparr>)"

fun lock_rounds :: "string + claim_owner \<Rightarrow> string \<Rightarrow> int \<Rightarrow> bool \<Rightarrow> 'd lock_round list \<Rightarrow> 'd lock_state \<Rightarrow>
    (('e lock_error + claim_handle) \<times> 'd lock_state) option" where
  "lock_rounds self path deadline signal [] st = None"
| "lock_rounds self path deadline signal (r # rs) st =
     (let st = others_act r st; (a, s) = attemptDirLock (rd_os r) self (rd_ids r) (rd_stamps r) (lock_claims st path); st = set_claims path s st in
      (case a of
         Inl e \<Rightarrow> Some (Inl (LockClaim e), st)
       | Inr (Some c) \<Rightarrow> Some (Inr c, st)
       | Inr None \<Rightarrow>
           if deadline \<le> rd_now r then Some (Inl (LockTimeout path), st)
           else if signal \<and> rd_aborted r then Some (Inl LockAborted, st)
           else lock_rounds self path deadline signal rs st))"

text \<open>\<open>prepareDirLock\<close> and the loop; \<open>parent\<close> is whether the parent directory is there.\<close>

definition acquire_lock :: "string + claim_owner \<Rightarrow> string \<Rightarrow> bool \<Rightarrow> int \<Rightarrow> int \<Rightarrow> bool \<Rightarrow> 'd lock_round list \<Rightarrow> 'd lock_state \<Rightarrow>
    (('e lock_error + claim_handle) \<times> 'd lock_state) option" where
  "acquire_lock self path parent now waitMs signal rounds st =
     (if \<not> parent then Some (Inl LockParent, st) else lock_rounds self path (now + waitMs) signal rounds st)"

definition withDirLock :: "string + claim_owner \<Rightarrow> string \<Rightarrow> ('d, 'e, 'a) locked \<Rightarrow> bool \<Rightarrow> int \<Rightarrow> int \<Rightarrow> 'd lock_round list \<Rightarrow> 'd lock_state \<Rightarrow>
    (('e lock_error + 'a) \<times> 'd lock_state) option" where
  "withDirLock self path fn parent now waitMs rounds st =
     (if 0 < lock_depth path st then Some (nestedDirLock path fn st)
      else case acquire_lock self path parent now waitMs False rounds st of
          None \<Rightarrow> None
        | Some (Inl e, st) \<Rightarrow> Some (Inl e, st)
        | Some (Inr claim, st) \<Rightarrow> Some (holdDirLock path claim fn st))"

text \<open>
  With a signal: \<open>early\<close> is whether it is aborted as the call starts, \<open>late\<close> as the lock is there. The
  code run under the lock does not wait, so in between the process is inside no lock of this kind.
\<close>

definition unless_aborted :: "bool \<Rightarrow> ('d, 'e, 'a) locked \<Rightarrow> ('d, 'e, 'a) locked" where
  "unless_aborted aborted fn st = (if aborted then (Inl LockAborted, st) else fn st)"

definition withDirLockAsync :: "string + claim_owner \<Rightarrow> string \<Rightarrow> ('d, 'e, 'a) locked \<Rightarrow> bool \<Rightarrow> bool \<Rightarrow> bool \<Rightarrow> int \<Rightarrow> int \<Rightarrow> 'd lock_round list \<Rightarrow>
    'd lock_state \<Rightarrow> (('e lock_error + 'a) \<times> 'd lock_state) option" where
  "withDirLockAsync self path fn early late parent now waitMs rounds st =
     (if early then Some (Inl LockAborted, st)
      else if 0 < lock_depth path st then Some (nestedDirLock path fn st)
      else case acquire_lock self path parent now waitMs True rounds st of
          None \<Rightarrow> None
        | Some (Inl e, st) \<Rightarrow> Some (Inl e, st)
        | Some (Inr claim, st) \<Rightarrow> Some (holdDirLock path claim (unless_aborted late fn) st))"

text \<open>A transaction takes the lock whatever the depth, and does not count.\<close>

definition withDirLockTransaction :: "string + claim_owner \<Rightarrow> string \<Rightarrow> ('d, 'e, 'a) locked \<Rightarrow> bool \<Rightarrow> bool \<Rightarrow> bool \<Rightarrow> int \<Rightarrow> int \<Rightarrow> 'd lock_round list \<Rightarrow>
    'd lock_state \<Rightarrow> (('e lock_error + 'a) \<times> 'd lock_state) option" where
  "withDirLockTransaction self path fn early late parent now waitMs rounds st =
     (if early then Some (Inl LockAborted, st)
      else case acquire_lock self path parent now waitMs True rounds st of
          None \<Rightarrow> None
        | Some (Inl e, st) \<Rightarrow> Some (Inl e, st)
        | Some (Inr claim, st) \<Rightarrow> Some (let (r, st2) = unless_aborted late fn st in (r, release_lock path claim st2)))"

section \<open>The lock of a directory is exclusive\<close>

interpretation dir_lock: claim_lock "\<lambda>i. attemptDirLock (ws i) (selfs i) (ids i) (stamps i)" ws selfs "\<lambda>_. JObj []" ids stamps
  for ws selfs ids stamps
  by unfold_locales (simp add: attemptDirLock_def try_lock_def)

end
