(* ===== verification/Dir_Lock_Properties.thy ===== *)
theory Dir_Lock_Properties
  imports Dir_Lock
begin

text \<open>
  What the directory locks promise: the code under a lock runs once, alone, and the lock is given
  back; a process inside a lock goes in again without waiting; and a wait ends by its deadline.
\<close>

section \<open>The waiting loop\<close>

lemma set_depth_simps [simp]:
  "lock_depth path (set_depth path d st) = d" "lock_claims (set_depth path d st) = lock_claims st" "lock_data (set_depth path d st) = lock_data st"
  by (simp_all add: lock_depth_def set_depth_def update_conv')

lemma set_claims_simps [simp]:
  "lock_depth p (set_claims path s st) = lock_depth p st" "lockDepths (set_claims path s st) = lockDepths st" "lock_claims (set_claims path s st) path = s"
  by (simp_all add: lock_depth_def set_claims_def)

lemma others_act_depths [simp]: "lockDepths (others_act r st) = lockDepths st"
  by (simp add: others_act_def split: prod.splits)

text \<open>What an answer of the loop says.\<close>

fun lock_answer :: "string + claim_owner \<Rightarrow> string \<Rightarrow> int \<Rightarrow> bool \<Rightarrow> 'd lock_round list \<Rightarrow> claim_set \<Rightarrow> 'e lock_error + claim_handle \<Rightarrow> bool" where
  "lock_answer self path deadline signal rounds t (Inr c) = (\<exists>r \<in> set rounds. \<exists>s. attemptDirLock (rd_os r) self (rd_ids r) (rd_stamps r) s = (Inr (Some c), t))"
| "lock_answer self path deadline signal rounds t (Inl (LockTimeout p)) = (p = path \<and> list_ex (\<lambda>r. deadline \<le> rd_now r) rounds)"
| "lock_answer self path deadline signal rounds t (Inl LockAborted) = (signal \<and> list_ex rd_aborted rounds)"
| "lock_answer self path deadline signal rounds t (Inl (LockClaim e)) = True"
| "lock_answer self path deadline signal rounds t (Inl _) = False"

lemma lock_answer_more: "lock_answer self path deadline signal rounds t res \<Longrightarrow> lock_answer self path deadline signal (r # rounds) t res"
  by (induction self path deadline signal rounds t res rule: lock_answer.induct) auto

lemma lock_rounds_answer:
  "lock_rounds self path deadline signal rounds st = Some (res, st') \<Longrightarrow>
   lockDepths st' = lockDepths st \<and> lock_answer self path deadline signal rounds (lock_claims st' path) res"
proof (induction rounds arbitrary: st)
  case (Cons r rounds)
  let ?st1 = "others_act r st"
  obtain a s where a: "attemptDirLock (rd_os r) self (rd_ids r) (rd_stamps r) (lock_claims ?st1 path) = (a, s)" by fastforce
  consider e where "a = Inl e" | c where "a = Inr (Some c)" | "a = Inr None" by (cases a) auto
  then show ?case
  proof cases
    case 3
    show ?thesis
    proof (cases "deadline \<le> rd_now r \<or> signal \<and> rd_aborted r")
      case True
      with Cons.prems a 3 show ?thesis by (auto simp: Let_def split: if_splits)
    next
      case False
      with Cons.prems a 3 have "lock_rounds self path deadline signal rounds (set_claims path s ?st1) = Some (res, st')"
        by (simp add: Let_def split: if_splits)
      from Cons.IH [OF this] lock_answer_more show ?thesis by auto
    qed
  qed (use Cons.prems a in \<open>auto simp: Let_def\<close>)
qed simp

lemma lock_rounds_ends: "list_ex (\<lambda>r. deadline \<le> rd_now r) rounds \<Longrightarrow> \<exists>y. lock_rounds self path deadline signal rounds st = Some y"
  by (induction rounds arbitrary: st) (auto simp: Let_def split: prod.splits sum.splits option.splits)

lemma acquire_lock_ends: "list_ex (\<lambda>r. now + waitMs \<le> rd_now r) rounds \<Longrightarrow> \<exists>y. acquire_lock self path parent now waitMs signal rounds st = Some y"
  unfolding acquire_lock_def by (cases parent) (simp only: not_True_eq_False if_False, rule lock_rounds_ends, assumption, simp)

text \<open>A lock that was just taken stands, and stands against every attempt of others.\<close>

lemma taken_lock_stands:
  assumes "lock_answer (Inr ow) path deadline signal rounds t (Inr c :: 'e lock_error + claim_handle)" "valid_owner ow"
    and "list_all (\<lambda>r. inspectProcessIdentity (rd_os r) ow = Same \<and> [] \<notin> range (rd_ids r)) rounds"
  shows "holds t c \<and> hd_mode c = Exclusive \<and> hd_owner c = ow"
proof -
  obtain r s where r: "r \<in> set rounds" "attemptDirLock (rd_os r) (Inr ow) (rd_ids r) (rd_stamps r) s = (Inr (Some c), t)" using assms(1) by auto
  have "inspectProcessIdentity (rd_os r) ow = Same" "rd_ids r k \<noteq> []" for k
    using assms(3) r(1) by (auto simp: list_all_iff) (metis rangeI)
  with dir_lock.attempt_own [OF r(2)] assms(2) show ?thesis by blast
qed

section \<open>Properties\<close>

text \<open>
  C17. Code under a directory lock runs alone and gives the lock back. A call from outside the lock ends
  without running the code only for a missing parent directory, a refused claim, or a clock at the
  deadline, and then nothing is counted; otherwise the code ran once, inside the lock, with the
  process's own claim in place, which no sequence of attempts by others (while the process runs)
  takes away or gets past; afterwards the process is outside the lock, and its claim is gone.
\<close>

theorem dir_lock_protects:
  assumes run: "withDirLock (Inr ow) path fn parent now waitMs rounds st = Some (r, st')" and out: "lock_depth path st \<le> 0"
    and self: "valid_owner ow" "list_all (\<lambda>r. inspectProcessIdentity (rd_os r) ow = Same \<and> [] \<notin> range (rd_ids r)) rounds"
  shows "(\<exists>e. r = Inl e \<and> lockDepths st' = lockDepths st \<and>
      (e = LockParent \<and> parent = False \<or> (\<exists>ce. e = LockClaim ce) \<or> e = LockTimeout path \<and> list_ex (\<lambda>r. now + waitMs \<le> rd_now r) rounds)) \<or>
    (\<exists>c st1 st2. holds (lock_claims st1 path) c \<and> hd_owner c = ow \<and> lock_depth path st1 = 1 \<and> fn st1 = (r, st2) \<and>
      (\<forall>ws selfs ids stamps is rs t. claim_guarded ws ids c \<longrightarrow>
         run_each (\<lambda>i. attemptDirLock (ws i) (selfs i) (ids i) (stamps i)) is (lock_claims st1 path) = (rs, t) \<longrightarrow>
         holds t c \<and> list_all (\<lambda>r. \<forall>c'. r \<noteq> Inr (Some c')) rs) \<and>
      lock_depth path st' = 0 \<and>
      (holds (lock_claims st2 path) c \<longrightarrow> undeletable (lock_claims st2 path) = [] \<longrightarrow> file_at (lock_claims st' path) Exclusive (hd_path c) = None))"
proof -
  have nodepth: "\<not> 0 < lock_depth path st" using out by simp
  show ?thesis
  proof (cases parent)
    case False
    with run nodepth have "r = Inl LockParent" "st' = st" by (auto simp: withDirLock_def acquire_lock_def)
    with False show ?thesis by (intro disjI1 exI [of _ LockParent]) simp
  next
    case True
    with run nodepth obtain res sta where l: "lock_rounds (Inr ow) path (now + waitMs) False rounds st = Some (res, sta)"
      "(case res of Inl e \<Rightarrow> (Inl e, sta) | Inr c \<Rightarrow> holdDirLock path c fn sta) = (r, st')"
      by (auto simp: withDirLock_def acquire_lock_def split: option.splits sum.splits)
    note answer = lock_rounds_answer [OF l(1)]
    show ?thesis
    proof (cases res)
      case (Inl e)
      with l(2) answer show ?thesis by (cases e) auto
    next
      case (Inr c)
      from taken_lock_stands [OF _ self] answer Inr have c: "holds (lock_claims sta path) c" "hd_mode c = Exclusive" "hd_owner c = ow" by auto
      obtain st2 where st2: "fn (set_depth path 1 sta) = (r, st2)" "st' = release_lock path c (set_depth path 0 st2)"
        using l(2) Inr by (auto simp: holdDirLock_def split: prod.splits)
      have gone: "file_at (lock_claims st' path) Exclusive (hd_path c) = None" if "holds (lock_claims st2 path) c" "undeletable (lock_claims st2 path) = []"
      proof -
        note kept = that
        obtain t where "releaseClaim c (lock_claims st2 path) = (True, t)" "file_at t (hd_mode c) (hd_path c) = None" using releaseClaim_effect [OF kept] by metis
        then show ?thesis by (simp add: st2(2) release_lock_def c(2))
      qed
      have zero: "lock_depth path st' = 0" by (simp add: st2(2) release_lock_def)
      show ?thesis
      proof (rule disjI2, rule exI [of _ c], rule exI [of _ "set_depth path 1 sta"], rule exI [of _ st2], intro conjI allI impI)
        fix ws selfs ids stamps "is" rs t
        assume g: "claim_guarded ws ids c"
          and "run_each (\<lambda>i. attemptDirLock (ws i) (selfs i) (ids i) (stamps i)) is (lock_claims (set_depth path 1 sta) path) = (rs, t)"
        with dir_lock.attempts_respect [OF c(1) g, of selfs stamps "is" rs t]
        show "holds t c" "list_all (\<lambda>r. \<forall>c'. r \<noteq> Inr (Some c')) rs" by simp_all
      qed (use c st2(1) gone zero in simp_all)
    qed
  qed
qed

text \<open>
  A process that is inside the lock goes in again at once, whoever waits for it and whatever the
  clock says: the code runs with the depth one higher, and when it leaves the depth as it found it,
  so does the call, without touching the claim.
\<close>

theorem dir_lock_reentrant:
  assumes "0 < lock_depth path st" "fn (set_depth path (lock_depth path st + 1) st) = (r, st2)" "lock_depth path st2 = lock_depth path st + 1"
  shows "\<exists>st'. withDirLock self path fn parent now waitMs rounds st = Some (r, st') \<and> lock_depth path st' = lock_depth path st \<and>
    lock_claims st' = lock_claims st2 \<and> lock_data st' = lock_data st2"
proof -
  have "map_of (lockDepths st2) path = Some (lock_depth path st + 1)" using assms(1,3) by (auto simp: lock_depth_def split: option.splits)
  with assms(1,2) show ?thesis by (simp add: withDirLock_def nestedDirLock_def)
qed

text \<open>
  A wait for a directory lock ends: once a turn's clock has reached the deadline the call has
  answered, with the lock taken or without, in each of the three ways to take it.
\<close>

theorem dir_lock_returns:
  fixes fn :: "('d, 'e, 'a) locked"
  assumes "list_ex (\<lambda>r. now + waitMs \<le> rd_now r) rounds"
  shows "(\<exists>y. withDirLock self path fn parent now waitMs rounds st = Some y) \<and>
    (\<exists>y. withDirLockAsync self path fn early late parent now waitMs rounds st = Some y) \<and>
    (\<exists>y. withDirLockTransaction self path fn early late parent now waitMs rounds st = Some y)"
proof -
  obtain y z :: "('e lock_error + claim_handle) \<times> 'd lock_state" where
    y: "acquire_lock self path parent now waitMs False rounds st = Some y" "acquire_lock self path parent now waitMs True rounds st = Some z"
    using acquire_lock_ends [OF assms] by blast
  obtain a s b t where yz: "y = (a, s)" "z = (b, t)" by (cases y; cases z)
  show ?thesis by (cases a; cases b) (simp_all add: withDirLock_def withDirLockAsync_def withDirLockTransaction_def y yz)
qed

section \<open>Examples\<close>

definition lock_round_sample :: "nat lock_round" where
  "lock_round_sample = \<lparr>rd_others = (\<lambda>x. x), rd_os = self_only (proc 7), rd_ids = (\<lambda>_. ''x''), rd_stamps = (\<lambda>_. ''t0''), rd_now = 0, rd_aborted = False\<rparr>"

definition lock_state_sample :: "nat lock_state" where
  "lock_state_sample = \<lparr>lockDepths = [], lock_claims = (\<lambda>_. empty_set), lock_data = 0\<rparr>"

definition count_up :: "(nat, unit, nat) locked" where
  "count_up st = (Inr (lock_data st), st\<lparr>lock_data := lock_data st + 1\<rparr>)"

theorem dir_lock_protects_witness:
  "\<exists>st' c st1 st2. withDirLock (Inr (proc 7)) ''l'' count_up True 0 12000 [lock_round_sample] lock_state_sample = Some (Inr 0, st') \<and>
     holds (lock_claims st1 ''l'') c \<and> lock_depth ''l'' st1 = 1 \<and> count_up st1 = (Inr 0, st2) \<and> lock_depth ''l'' st' = 0"
proof -
  let ?a = "attemptDirLock (self_only (proc 7)) (Inr (proc 7)) (\<lambda>_. ''x'') (\<lambda>_. ''t0'') empty_set"
  have a: "fst ?a = Inr (Some (claim_handle_for Exclusive (proc 7) (JObj []) ''x'' ''t0''))" by code_simp
  obtain st' where w: "withDirLock (Inr (proc 7)) ''l'' count_up True 0 12000 [lock_round_sample] lock_state_sample = Some (Inr 0, st')"
    using a by (cases ?a) (auto simp: withDirLock_def acquire_lock_def lock_state_sample_def lock_round_sample_def lock_depth_def others_act_def
      set_claims_def holdDirLock_def count_up_def set_depth_def)
  have v: "valid_owner (proc 7)" "lock_depth ''l'' lock_state_sample \<le> 0" "inspectProcessIdentity (self_only (proc 7)) (proc 7) = Same"
    by (simp_all add: valid_owner_def proc_def safe_integer_def lock_depth_def lock_state_sample_def self_only_def)
  have l: "list_all (\<lambda>r. inspectProcessIdentity (rd_os r) (proc 7) = Same \<and> [] \<notin> range (rd_ids r)) [lock_round_sample]"
    using v(3) by (auto simp: lock_round_sample_def)
  from dir_lock_protects [OF w v(2,1) l] w show ?thesis by auto
qed

theorem dir_lock_reentrant_witness:
  "\<exists>st'. withDirLock (Inr (proc 7)) ''l'' count_up False 0 0 [] (set_depth ''l'' 1 lock_state_sample) = Some (Inr 0, st') \<and> lock_depth ''l'' st' = 1"
proof -
  let ?st = "set_depth ''l'' 1 lock_state_sample"
  let ?st1 = "set_depth ''l'' (lock_depth ''l'' ?st + 1) ?st"
  have "0 < lock_depth ''l'' ?st" "count_up ?st1 = (Inr 0, ?st1\<lparr>lock_data := 1\<rparr>)" "lock_depth ''l'' (?st1\<lparr>lock_data := 1\<rparr>) = lock_depth ''l'' ?st + 1"
    by (simp_all add: count_up_def lock_state_sample_def set_depth_def lock_depth_def)
  from dir_lock_reentrant [where fn = count_up, OF this, of "Inr (proc 7)" False 0 0 "[]"] show ?thesis by auto
qed

theorem dir_lock_returns_witness:
  "\<exists>y. withDirLock (Inl ''unknown'') ''l'' count_up True 0 (- 5) [lock_round_sample] lock_state_sample = Some y"
proof -
  have "list_ex (\<lambda>r. 0 + (- 5) \<le> rd_now r) [lock_round_sample]" by (simp add: lock_round_sample_def)
  from dir_lock_returns [OF this] show ?thesis by blast
qed

end
