(* ===== verification/Build_Lock.thy ===== *)
theory Build_Lock
  imports Exclusive_Lock Device_Slots
begin

text \<open>
  Build locks (\<open>packages/stim-cli/src/engine/build-lock.ts\<close>): builds of the same inputs share one
  lock, an exclusive claim named by platform and fingerprint; whoever does not get it waits for the
  artifact. A turn of \<open>waitForBuild\<close> has what the cache answers, the claim set as it is then, the
  operating system's answers and the clock; a turn of \<open>waitForSharedBuild\<close> has what others did to the
  set before it, the ids and times of its claim, the clock, the turns of the wait it makes, and the
  version the engine was switched to meanwhile, if it was. The loops answer \<open>None\<close> while they still
  wait. Left out: the wording of messages, progress lines, and the recording of spawned processes on the claim.
\<close>

section \<open>Locks\<close>

definition LOCK_SUFFIX :: string where "LOCK_SUFFIX = ''.lock''"
definition WAIT_CEILING_MS :: int where "WAIT_CEILING_MS = 90 * 60 * 1000"

record build_lock_record =
  bl_pid :: "int option"
  bl_projectRoot :: "string option"
  bl_startedAt :: "string option"
  bl_logFile :: "string option"

record build_lock_handle =
  bh_acquired :: bool
  bh_lock :: "build_lock_record option"
  bh_held :: "build_lock_record option"
  bh_tookOver :: "build_lock_record option"
  bh_claim :: "claim_handle option"

text \<open>The name of a lock in the directory \<open>build-locks\<close>.\<close>

definition buildLockPath :: "string \<Rightarrow> string \<Rightarrow> string" where
  "buildLockPath platform key = segment platform @ ''-'' @ segment key @ LOCK_SUFFIX"

definition lock_toRecord :: "claim_holder \<Rightarrow> build_lock_record" where
  "lock_toRecord h = \<lparr>bl_pid = Some (pid (owner h)), bl_projectRoot = jstr_field ''projectRoot'' (details h),
     bl_startedAt = (if startedAt h = [] then None else Some (startedAt h)), bl_logFile = jstr_field ''logFile'' (details h)\<rparr>"

definition first_of :: "'a list \<Rightarrow> 'a option" where
  "first_of xs = (case xs of [] \<Rightarrow> None | x # _ \<Rightarrow> Some x)"

definition first_holder :: "claim_survey \<Rightarrow> claim_holder option" where
  "first_holder v = (case sv_live v of h # _ \<Rightarrow> Some h | [] \<Rightarrow> first_of (sv_dead v))"

definition readBuildLock :: "os \<Rightarrow> claim_set \<Rightarrow> build_lock_record option" where
  "readBuildLock w s = map_option lock_toRecord (first_holder (readClaimSet w s))"

definition json_text :: "string option \<Rightarrow> json" where
  "json_text t = (case t of None \<Rightarrow> JNull | Some s \<Rightarrow> JStr s)"

definition acquireBuildLock :: "os \<Rightarrow> string + claim_owner \<Rightarrow> string option \<Rightarrow> string option \<Rightarrow> (nat \<Rightarrow> string) \<Rightarrow> (nat \<Rightarrow> string) \<Rightarrow> claim_set \<Rightarrow>
    (claim_error + build_lock_handle) \<times> claim_set" where
  "acquireBuildLock w self root logFile ids stamps s =
     (case tryAcquireClaim w self Exclusive (JObj [(''projectRoot'', json_text root), (''logFile'', json_text logFile)]) ids stamps s of
        (Inl e, s1) \<Rightarrow> (Inl e, s1)
      | (Inr (Acquired c reaped), s1) \<Rightarrow>
          (Inr \<lparr>bh_acquired = True, bh_lock = Some \<lparr>bl_pid = Some (pid (hd_owner c)), bl_projectRoot = root, bl_startedAt = Some (hd_startedAt c), bl_logFile = logFile\<rparr>,
             bh_held = None, bh_tookOver = map_option lock_toRecord (first_of reaped), bh_claim = Some c\<rparr>, s1)
      | (Inr (HeldBy h _), s1) \<Rightarrow> (Inr \<lparr>bh_acquired = False, bh_lock = None, bh_held = Some (lock_toRecord h), bh_tookOver = None, bh_claim = None\<rparr>, s1)
      | (Inr (WaitingFor hs pending _), s1) \<Rightarrow>
          (Inr \<lparr>bh_acquired = False, bh_lock = None, bh_held = map_option lock_toRecord (first_of hs), bh_tookOver = None, bh_claim = None\<rparr>,
           snd (releaseClaim pending s1)))"

definition releaseBuildLock :: "build_lock_handle option \<Rightarrow> claim_set \<Rightarrow> bool \<times> claim_set" where
  "releaseBuildLock handle s = (case Option.bind handle bh_claim of None \<Rightarrow> (False, s) | Some c \<Rightarrow> releaseClaim c s)"

record build_lock_info =
  li_name :: string
  li_platform :: string
  li_key :: "string option"
  li_record :: "build_lock_record option"
  li_alive :: bool
  li_unresolved :: bool

definition lock_info :: "os \<Rightarrow> string \<Rightarrow> claim_set \<Rightarrow> build_lock_info" where
  "lock_info w name s =
     (let stem = take (length name - length LOCK_SUFFIX) name; v = readClaimSet w s;
          cut = (case index_of CHR ''-'' stem of Some (Suc n) \<Rightarrow> Some (Suc n) | _ \<Rightarrow> None) in
      \<lparr>li_name = name, li_platform = (case cut of None \<Rightarrow> stem | Some n \<Rightarrow> take n stem), li_key = map_option (\<lambda>n. drop (n + 1) stem) cut,
       li_record = map_option lock_toRecord (first_holder v), li_alive = (sv_live v \<noteq> []), li_unresolved = (sv_unresolved v \<noteq> [])\<rparr>)"

text \<open>The directory as its listing, with \<open>None\<close> for a name that is not a directory, or \<open>None\<close> when it cannot be listed.\<close>

definition listBuildLocks :: "os \<Rightarrow> (string \<times> claim_set option) list option \<Rightarrow> build_lock_info list" where
  "listBuildLocks w d = (case d of None \<Rightarrow> []
     | Some es \<Rightarrow> concat (map (\<lambda>(name, e). if \<not> suffix LOCK_SUFFIX name then [] else case e of None \<Rightarrow> [] | Some s \<Rightarrow> [lock_info w name s]) es))"

section \<open>Waiting for the artifact\<close>

record wait_round =
  wb_hit :: "string option"
  wb_os :: os
  wb_set :: claim_set
  wb_now :: int

datatype build_wait = WaitHit string int | WaitReleased "build_lock_record option" int | WaitFailed int build_lock_record int

datatype build_wait_error = WaitRefused claim_error | WaitTimeout "build_lock_record option"

text \<open>The path the cache answers, where it is one (an empty text is none).\<close>

definition cache_hit :: "wait_round \<Rightarrow> string option" where
  "cache_hit r = (case wb_hit r of Some (c # cs) \<Rightarrow> Some (c # cs) | _ \<Rightarrow> None)"

fun wait_rounds :: "int \<Rightarrow> int \<Rightarrow> build_lock_record option \<Rightarrow> wait_round list \<Rightarrow> (build_wait_error + build_wait) option" where
  "wait_rounds started ceilingMs holder [] = None"
| "wait_rounds started ceilingMs holder (r # rs) = (case cache_hit r of
       Some hit \<Rightarrow> Some (Inr (WaitHit hit (wb_now r - started)))
     | None \<Rightarrow>
         let v = readClaimSet (wb_os r) (wb_set r) in
         (case sv_unresolved v of
            (p, reason) # _ \<Rightarrow> Some (Inl (WaitRefused (ClaimRefused p reason)))
          | [] \<Rightarrow> (case sv_live v of
                live # _ \<Rightarrow> let holder = Some (lock_toRecord live) in
                  if ceilingMs \<le> wb_now r - started then Some (Inl (WaitTimeout holder)) else wait_rounds started ceilingMs holder rs
              | [] \<Rightarrow> (case sv_dead v of
                    dead # _ \<Rightarrow> Some (Inr (WaitFailed (pid (owner dead)) (lock_toRecord dead) (wb_now r - started)))
                  | [] \<Rightarrow> Some (Inr (WaitReleased holder (wb_now r - started)))))))"

definition waitForBuild :: "int \<Rightarrow> int \<Rightarrow> os \<Rightarrow> claim_set \<Rightarrow> wait_round list \<Rightarrow> (build_wait_error + build_wait) option" where
  "waitForBuild started ceilingMs w s rounds = wait_rounds started ceilingMs (readBuildLock w s) rounds"

section \<open>One build for all who need it\<close>

record shared_round =
  sr_others :: "claim_set \<Rightarrow> claim_set"
  sr_os :: os
  sr_ids :: "nat \<Rightarrow> string"
  sr_stamps :: "nat \<Rightarrow> string"
  sr_now :: int
  sr_started :: int
  sr_waits :: "wait_round list"
  sr_switched :: "string option"

record shared_go =
  go_lock :: "build_lock_handle option"
  go_hit :: "(string \<times> int option \<times> int) option"
  go_released :: "(int option \<times> int \<times> string) option"
  go_previous :: "build_lock_record option"

datatype shared_wait = SharedGo shared_go | SharedRefusal claim_error | SharedTimeout | SharedEnded string

definition holder_name :: "build_lock_record \<Rightarrow> string" where
  "holder_name h = (case bl_projectRoot h of Some (c # cs) \<Rightarrow> c # cs | _ \<Rightarrow> ''another workspace'')"

text \<open>\<open>claimFailure(err)\<close>: a refused or unavailable claim; any other error is a warning, and the build goes on.\<close>

definition is_claim_failure :: "claim_error \<Rightarrow> bool" where
  "is_claim_failure e = (case e of ClaimIo _ \<Rightarrow> False | _ \<Rightarrow> True)"

fun shared_rounds :: "int \<Rightarrow> string + claim_owner \<Rightarrow> string option \<Rightarrow> string option \<Rightarrow> build_lock_record option \<Rightarrow> (int option \<times> int \<times> string) option \<Rightarrow>
    shared_round list \<Rightarrow> claim_set \<Rightarrow> (shared_wait \<times> claim_set) option" where
  "shared_rounds waitStarted self root logFile failedHolder released [] s = None"
| "shared_rounds waitStarted self root logFile failedHolder released (r # rs) s =
     (case acquireBuildLock (sr_os r) self root logFile (sr_ids r) (sr_stamps r) (sr_others r s) of
        (Inl e, s) \<Rightarrow> if is_claim_failure e then Some (SharedRefusal e, s)
           else Some (SharedGo \<lparr>go_lock = None, go_hit = None, go_released = released, go_previous = None\<rparr>, s)
      | (Inr attempt, s) \<Rightarrow>
          if bh_acquired attempt then
            Some (SharedGo \<lparr>go_lock = Some attempt, go_hit = None, go_released = released,
              go_previous = (case bh_tookOver attempt of Some p \<Rightarrow> Some p | None \<Rightarrow> failedHolder)\<rparr>, s)
          else (case bh_held attempt of
              None \<Rightarrow> Some (SharedGo \<lparr>go_lock = None, go_hit = None, go_released = released, go_previous = None\<rparr>, s)
            | Some holder \<Rightarrow>
                let ceilingMs = WAIT_CEILING_MS - (sr_now r - waitStarted) in
                if ceilingMs \<le> 0 then Some (SharedTimeout, s)
                else (case waitForBuild (sr_started r) ceilingMs (sr_os r) s (sr_waits r) of
                    None \<Rightarrow> None
                  | Some (Inl (WaitRefused e)) \<Rightarrow> Some (SharedRefusal e, s)
                  | Some (Inl (WaitTimeout _)) \<Rightarrow> Some (SharedTimeout, s)
                  | Some (Inr waited) \<Rightarrow> (case sr_switched r of
                        Some version \<Rightarrow> Some (SharedEnded version, s)
                      | None \<Rightarrow> (case waited of
                            WaitHit hit ms \<Rightarrow> Some (SharedGo \<lparr>go_lock = None, go_hit = Some (hit, bl_pid holder, ms), go_released = None, go_previous = None\<rparr>, s)
                          | WaitReleased _ ms \<Rightarrow> shared_rounds waitStarted self root logFile None (Some (bl_pid holder, ms, holder_name holder)) rs s
                          | WaitFailed _ _ _ \<Rightarrow> shared_rounds waitStarted self root logFile (Some holder) None rs s)))))"

definition waitForSharedBuild :: "int \<Rightarrow> string + claim_owner \<Rightarrow> string \<Rightarrow> string \<Rightarrow> shared_round list \<Rightarrow> claim_set \<Rightarrow> (shared_wait \<times> claim_set) option" where
  "waitForSharedBuild waitStarted self root logFile rounds s = shared_rounds waitStarted self (Some root) (Some logFile) None None rounds s"

end
