(* ===== verification/Build_Lock_Properties.thy ===== *)
theory Build_Lock_Properties
  imports Build_Lock
begin

text \<open>
  What the build locks promise: one build of the same inputs at a time, waiters that are told what
  became of it, and a wait that ends.
\<close>

section \<open>The build lock is exclusive\<close>

definition lock_attempt :: "os \<Rightarrow> string + claim_owner \<Rightarrow> string option \<Rightarrow> string option \<Rightarrow> (nat \<Rightarrow> string) \<Rightarrow> (nat \<Rightarrow> string) \<Rightarrow> claim_set \<Rightarrow>
    (claim_error + claim_handle option) \<times> claim_set" where
  "lock_attempt w self root logFile ids stamps s = (case acquireBuildLock w self root logFile ids stamps s of (r, t) \<Rightarrow> (map_sum id bh_claim r, t))"

interpretation build_lock: claim_lock "\<lambda>i. lock_attempt (ws i) (selfs i) (roots i) (logs i) (ids i) (stamps i)" ws selfs
    "\<lambda>i. JObj [(''projectRoot'', json_text (roots i)), (''logFile'', json_text (logs i))]" ids stamps
  for ws selfs roots logs ids stamps
  by unfold_locales (simp add: lock_attempt_def acquireBuildLock_def try_lock_def split: prod.splits sum.splits claim_attempt.splits)

lemma acquired_claim: "acquireBuildLock w self root logFile ids stamps s = (Inr h, t) \<Longrightarrow> bh_acquired h \<longleftrightarrow> bh_claim h \<noteq> None"
  by (auto simp: acquireBuildLock_def split: prod.splits sum.splits claim_attempt.splits)

lemma acquired_lock:
  assumes "acquireBuildLock w (Inr ow) root logFile ids stamps s = (Inr h, t)" "bh_acquired h"
    and "valid_owner ow" "inspectProcessIdentity w ow = Same" "[] \<notin> range ids"
  shows "\<exists>c. bh_claim h = Some c \<and> holds t c \<and> hd_mode c = Exclusive \<and> hd_owner c = ow"
proof -
  obtain c where c: "bh_claim h = Some c" using acquired_claim [OF assms(1)] assms(2) by auto
  then have "lock_attempt w (Inr ow) root logFile ids stamps s = (Inr (Some c), t)" using assms(1) by (simp add: lock_attempt_def)
  moreover have "ids k \<noteq> []" for k using assms(5) by (metis rangeI)
  ultimately show ?thesis
    using build_lock.attempt_own [where ws = "\<lambda>_. w" and selfs = "\<lambda>_. Inr ow" and roots = "\<lambda>_. root" and logs = "\<lambda>_. logFile" and ids = "\<lambda>_. ids" and
      stamps = "\<lambda>_. stamps"] assms(3,4) c by blast
qed

lemma run_each_map: "run_each (\<lambda>i s. case f i s of (r, t) \<Rightarrow> (g r, t)) is s = (map g (fst (run_each f is s)), snd (run_each f is s))"
  by (induction "is" arbitrary: s) (auto simp: Let_def split: prod.splits)

text \<open>
  C18. A build has the machine to itself: once a run holds the lock of a platform and fingerprint, and
  while it runs, every sequence of attempts by others at that lock gets an error or the holder's
  record, never the lock, and the claim stands.
\<close>

theorem build_lock_exclusive:
  fixes ws :: "nat \<Rightarrow> os"
  assumes run: "acquireBuildLock w (Inr ow) root logFile ids stamps s = (Inr h, t)" "bh_acquired h"
    and self: "valid_owner ow" "inspectProcessIdentity w ow = Same" "[] \<notin> range ids"
    and others: "run_each (\<lambda>i. acquireBuildLock (ws i) (selfs i) (roots i) (logs i) (ids' i) (stamps' i)) is t = (rs, u)"
    and running: "\<And>i. inspectProcessIdentity (ws i) ow = Same" "\<And>i k. bh_claim h \<noteq> None \<Longrightarrow> ids' i k @ CLAIM_SUFFIX \<noteq> hd_path (the (bh_claim h))"
  shows "holds t (the (bh_claim h)) \<and> holds u (the (bh_claim h)) \<and> list_all (\<lambda>r. case r of Inl _ \<Rightarrow> True | Inr h' \<Rightarrow> \<not> bh_acquired h') rs"
proof -
  obtain c where c: "bh_claim h = Some c" "holds t c" "hd_mode c = Exclusive" "hd_owner c = ow" using acquired_lock [OF run self] by blast
  have guard: "claim_guarded ws ids' c" using c running by (simp add: claim_guarded_def)
  have "run_each (\<lambda>i. lock_attempt (ws i) (selfs i) (roots i) (logs i) (ids' i) (stamps' i)) is t = (map (map_sum id bh_claim) rs, u)"
    using others run_each_map [where f = "\<lambda>i. acquireBuildLock (ws i) (selfs i) (roots i) (logs i) (ids' i) (stamps' i)" and g = "map_sum id bh_claim"]
    by (simp add: lock_attempt_def [abs_def])
  from build_lock.attempts_respect [OF c(2) guard this]
  have u: "holds u c" "list_all (\<lambda>r. \<forall>c'. map_sum id bh_claim r \<noteq> Inr (Some c')) rs" by (simp_all add: list_all_length)
  have made: "list_all (\<lambda>r. case r of Inl _ \<Rightarrow> True | Inr h' \<Rightarrow> bh_acquired h' \<longrightarrow> bh_claim h' \<noteq> None) rs"
    using others
  proof (induction "is" arbitrary: t rs)
    case (Cons i "is")
    obtain r t1 where 1: "acquireBuildLock (ws i) (selfs i) (roots i) (logs i) (ids' i) (stamps' i) t = (r, t1)" by fastforce
    with Cons.prems Cons.IH [of t1] acquired_claim [of "ws i" "selfs i" "roots i" "logs i" "ids' i" "stamps' i" t _ t1]
    show ?case by (auto split: prod.splits sum.splits)
  qed simp
  have "case r of Inl _ \<Rightarrow> True | Inr h' \<Rightarrow> \<not> bh_acquired h'" if "r \<in> set rs" for r
  proof (cases r)
    case (Inr h')
    have "map_sum id bh_claim r \<noteq> Inr (Some c')" for c' using u(2) that by (simp add: list_all_iff)
    then have "bh_claim h' = None" using Inr by (cases "bh_claim h'") auto
    moreover have "bh_acquired h' \<longrightarrow> bh_claim h' \<noteq> None" using made that Inr by (auto simp: list_all_iff)
    ultimately show ?thesis using Inr by simp
  qed simp
  with c u(1) show ?thesis by (simp add: list_all_iff)
qed

section \<open>Waiting\<close>

text \<open>What the answer of a wait says of the turn it came in.\<close>

fun wait_answer :: "int \<Rightarrow> int \<Rightarrow> build_wait_error + build_wait \<Rightarrow> wait_round \<Rightarrow> bool" where
  "wait_answer started ceilingMs (Inr (WaitHit p ms)) r = (cache_hit r = Some p \<and> ms = wb_now r - started)"
| "wait_answer started ceilingMs (Inr (WaitReleased h ms)) r = (let v = readClaimSet (wb_os r) (wb_set r) in
     cache_hit r = None \<and> sv_live v = [] \<and> sv_dead v = [] \<and> sv_unresolved v = [] \<and> ms = wb_now r - started)"
| "wait_answer started ceilingMs (Inr (WaitFailed p h ms)) r = (let v = readClaimSet (wb_os r) (wb_set r) in
     cache_hit r = None \<and> sv_live v = [] \<and> sv_unresolved v = [] \<and> (\<exists>d ds. sv_dead v = d # ds \<and> p = pid (owner d) \<and> h = lock_toRecord d) \<and> ms = wb_now r - started)"
| "wait_answer started ceilingMs (Inl (WaitRefused e)) r = (let v = readClaimSet (wb_os r) (wb_set r) in
     cache_hit r = None \<and> (\<exists>p reason us. sv_unresolved v = (p, reason) # us \<and> e = ClaimRefused p reason))"
| "wait_answer started ceilingMs (Inl (WaitTimeout h)) r = (let v = readClaimSet (wb_os r) (wb_set r) in
     cache_hit r = None \<and> (\<exists>l ls. sv_live v = l # ls \<and> h = Some (lock_toRecord l)) \<and> ceilingMs \<le> wb_now r - started)"

lemma wait_rounds_answer: "wait_rounds started ceilingMs holder rounds = Some a \<Longrightarrow> \<exists>r \<in> set rounds. wait_answer started ceilingMs a r"
proof (induction rounds arbitrary: holder)
  case (Cons r rs)
  show ?case
  proof (cases "wait_answer started ceilingMs a r")
    case False
    with Cons.prems obtain holder' where "wait_rounds started ceilingMs holder' rs = Some a"
      by (auto simp: Let_def split: option.splits list.splits if_splits)
    from Cons.IH [OF this] show ?thesis by auto
  qed auto
qed simp

lemma wait_rounds_ends: "list_ex (\<lambda>r. ceilingMs \<le> wb_now r - started) rounds \<Longrightarrow> \<exists>y. wait_rounds started ceilingMs holder rounds = Some y"
  by (induction rounds arbitrary: holder) (auto simp: Let_def split: option.splits list.splits)

text \<open>
  A wait for another run's build ends with what the last turn saw: the artifact the cache has, a lock
  nobody holds, a builder that is gone, a claim that cannot be read, or a builder that still runs when
  the time is up; and it has ended by the turn whose clock reaches the ceiling.
\<close>

theorem waitForBuild_answers:
  "(\<forall>a. waitForBuild started ceilingMs w s rounds = Some a \<longrightarrow> (\<exists>r \<in> set rounds. wait_answer started ceilingMs a r)) \<and>
   (list_ex (\<lambda>r. ceilingMs \<le> wb_now r - started) rounds \<longrightarrow> (\<exists>y. waitForBuild started ceilingMs w s rounds = Some y))"
  unfolding waitForBuild_def using wait_rounds_answer wait_rounds_ends by blast

section \<open>Shared builds\<close>

text \<open>What the answer of a shared build says of the turns before it and of the set it leaves.\<close>

fun shared_answer :: "int \<Rightarrow> claim_owner \<Rightarrow> shared_round list \<Rightarrow> shared_wait \<Rightarrow> claim_set \<Rightarrow> bool" where
  "shared_answer started ow rounds (SharedGo g) t =
     (case (go_lock g, go_hit g) of
        (Some h, None) \<Rightarrow> bh_acquired h \<and> (\<exists>c. bh_claim h = Some c \<and> holds t c \<and> hd_owner c = ow)
      | (None, Some (hit, _, _)) \<Rightarrow> list_ex (\<lambda>r. list_ex (\<lambda>x. cache_hit x = Some hit) (sr_waits r)) rounds
      | (None, None) \<Rightarrow> list_ex (\<lambda>r. \<exists>root logFile s code u. acquireBuildLock (sr_os r) (Inr ow) root logFile (sr_ids r) (sr_stamps r) s = (Inl (ClaimIo code), u)) rounds
      | (Some _, Some _) \<Rightarrow> False)"
| "shared_answer started ow rounds SharedTimeout t = list_ex (\<lambda>r. WAIT_CEILING_MS \<le> sr_now r - started \<or>
     list_ex (\<lambda>x. WAIT_CEILING_MS \<le> (sr_now r - started) + (wb_now x - sr_started r)) (sr_waits r)) rounds"
| "shared_answer started ow rounds (SharedRefusal e) t = is_claim_failure e"
| "shared_answer started ow rounds (SharedEnded v) t = list_ex (\<lambda>r. sr_switched r = Some v) rounds"

lemma shared_answer_more: "shared_answer started ow rounds a t \<Longrightarrow> shared_answer started ow (r # rounds) a t"
  by (cases a) (auto split: option.splits)

lemma held_some:
  assumes "acquireBuildLock w self root logFile ids stamps s = (Inr h, t)" "\<not> bh_acquired h"
  shows "bh_held h \<noteq> None"
proof -
  have nonempty: "hs \<noteq> []" if "tryAcquireClaim w self Exclusive ds ids stamps s = (Inr (WaitingFor hs p r), u)" for ds hs p r u
    using that waiting_holders by blast
  show ?thesis using assms nonempty
    by (fastforce simp: acquireBuildLock_def first_of_def split: prod.splits sum.splits claim_attempt.splits list.splits)
qed

lemma shared_rounds_answer:
  assumes ow: "valid_owner ow" and views: "list_all (\<lambda>r. inspectProcessIdentity (sr_os r) ow = Same \<and> [] \<notin> range (sr_ids r)) rounds"
    and run: "shared_rounds started (Inr ow) root logFile failed released rounds s = Some (a, t)"
  shows "shared_answer started ow rounds a t"
  using views run
proof (induction rounds arbitrary: failed released s)
  case (Cons r rs)
  let ?wait = "\<lambda>s. waitForBuild (sr_started r) (WAIT_CEILING_MS - (sr_now r - started)) (sr_os r) s (sr_waits r)"
  have view: "inspectProcessIdentity (sr_os r) ow = Same" "[] \<notin> range (sr_ids r)" using Cons.prems(1) by auto
  obtain at s1 where at: "acquireBuildLock (sr_os r) (Inr ow) root logFile (sr_ids r) (sr_stamps r) (sr_others r s) = (at, s1)" by fastforce
  consider (io) code where "at = Inl (ClaimIo code)" | (failure) e where "at = Inl e" "is_claim_failure e"
    | (got) h where "at = Inr h" "bh_acquired h" | (held) h holder where "at = Inr h" "\<not> bh_acquired h" "bh_held h = Some holder"
  proof (cases at)
    case (Inl e)
    then show ?thesis using io failure by (cases e) (auto simp: is_claim_failure_def)
  next
    case (Inr h)
    then show ?thesis using got held held_some [of "sr_os r" "Inr ow" root logFile "sr_ids r" "sr_stamps r" "sr_others r s" h s1] at by (cases "bh_held h") auto
  qed
  then show ?case
  proof cases
    case io
    then show ?thesis using Cons.prems(2) at by (auto simp: is_claim_failure_def) blast
  next
    case failure
    then show ?thesis using Cons.prems(2) at by auto
  next
    case got
    from acquired_lock [OF at [unfolded got(1)] got(2) ow view] Cons.prems(2) at got show ?thesis by auto
  next
    case held
    have timeout: ?thesis if "a = SharedTimeout" "WAIT_CEILING_MS \<le> sr_now r - started" using that by simp
    have step: "WAIT_CEILING_MS - (sr_now r - started) \<le> 0 \<and> a = SharedTimeout \<or>
      (\<exists>y. ?wait s1 = Some y \<and> ((\<exists>e. y = Inl (WaitRefused e) \<and> a = SharedRefusal e) \<or> (\<exists>h. y = Inl (WaitTimeout h) \<and> a = SharedTimeout) \<or>
        (\<exists>v. sr_switched r = Some v \<and> a = SharedEnded v) \<or>
        (\<exists>p ms. y = Inr (WaitHit p ms) \<and> a = SharedGo \<lparr>go_lock = None, go_hit = Some (p, bl_pid holder, ms), go_released = None, go_previous = None\<rparr>) \<or>
        (\<exists>f rel. shared_rounds started (Inr ow) root logFile f rel rs s1 = Some (a, t))))"
      using Cons.prems(2) at held by (auto simp: Let_def split: if_splits option.splits sum.splits build_wait_error.splits build_wait.splits)
    have rest: ?thesis if "shared_rounds started (Inr ow) root logFile f rel rs s1 = Some (a, t)" for f rel
      using Cons.IH [OF _ that] Cons.prems(1) shared_answer_more by simp
    have waited: "\<exists>x \<in> set (sr_waits r). wait_answer (sr_started r) (WAIT_CEILING_MS - (sr_now r - started)) y x" if "?wait s1 = Some y" for y
      using wait_rounds_answer that unfolding waitForBuild_def by blast
    from step show ?thesis
      using timeout rest waited by (elim disjE exE conjE; fastforce simp: is_claim_failure_def Let_def list_ex_iff)
  qed
qed simp

lemma shared_rounds_ends:
  "list_all (\<lambda>r. list_ex (\<lambda>x. WAIT_CEILING_MS \<le> (sr_now r - started) + (wb_now x - sr_started r)) (sr_waits r)) rounds \<Longrightarrow>
   list_ex (\<lambda>r. WAIT_CEILING_MS \<le> sr_now r - started) rounds \<Longrightarrow>
   \<exists>y. shared_rounds started self root logFile failed released rounds s = Some y"
proof (induction rounds arbitrary: failed released s)
  case (Cons r rs)
  obtain at s1 where at: "acquireBuildLock (sr_os r) self root logFile (sr_ids r) (sr_stamps r) (sr_others r s) = (at, s1)" by fastforce
  have "list_ex (\<lambda>x. WAIT_CEILING_MS - (sr_now r - started) \<le> wb_now x - sr_started r) (sr_waits r)"
    using Cons.prems(1) by (auto simp: list_ex_iff algebra_simps)
  then obtain y where y: "waitForBuild (sr_started r) (WAIT_CEILING_MS - (sr_now r - started)) (sr_os r) s1 (sr_waits r) = Some y"
    using wait_rounds_ends unfolding waitForBuild_def by blast
  show ?case
  proof (cases "WAIT_CEILING_MS - (sr_now r - started) \<le> 0")
    case True
    with at show ?thesis by (auto simp: Let_def split: sum.splits option.splits)
  next
    case False
    with Cons.prems have "\<exists>y. shared_rounds started self root logFile f rel rs s1 = Some y" for f rel by (intro Cons.IH) auto
    with at y False show ?thesis
      by (auto simp: Let_def split: sum.splits option.splits build_wait_error.splits build_wait.splits)
  qed
qed simp

text \<open>
  What \<open>waitForSharedBuild\<close> answers: a lock it gives is this run's own claim, in place when it
  returns; a hit is an artifact the cache had; it lets a run build without the lock only when the
  claim could not be written; it refuses a claim only for its own reasons, and gives up waiting only
  once ninety minutes have passed since it started, over all the builds it waited for.
\<close>

theorem shared_build_answer:
  assumes "waitForSharedBuild started (Inr ow) root logFile rounds s = Some (a, t)" "valid_owner ow"
    and "list_all (\<lambda>r. inspectProcessIdentity (sr_os r) ow = Same \<and> [] \<notin> range (sr_ids r)) rounds"
  shows "shared_answer started ow rounds a t"
  using shared_rounds_answer [OF assms(2,3)] assms(1) unfolding waitForSharedBuild_def by blast

definition sample_shared :: shared_round where
  "sample_shared = \<lparr>sr_others = (\<lambda>s. s), sr_os = self_only (proc 7), sr_ids = (\<lambda>_. ''x''), sr_stamps = (\<lambda>_. ''t0''), sr_now = 0, sr_started = 0,
     sr_waits = [], sr_switched = None\<rparr>"

theorem shared_build_answer_witness:
  "\<exists>a t. waitForSharedBuild 0 (Inr (proc 7)) ''/w'' ''/log'' [sample_shared] empty_set = Some (a, t) \<and> shared_answer 0 (proc 7) [sample_shared] a t"
proof -
  let ?a = "acquireBuildLock (self_only (proc 7)) (Inr (proc 7)) (Some ''/w'') (Some ''/log'') (\<lambda>_. ''x'') (\<lambda>_. ''t0'') empty_set"
  have "case fst ?a of Inl _ \<Rightarrow> False | Inr h \<Rightarrow> bh_acquired h" by code_simp
  then obtain h t where "?a = (Inr h, t)" "bh_acquired h" by (cases ?a) (auto split: sum.splits)
  then obtain a where w: "waitForSharedBuild 0 (Inr (proc 7)) ''/w'' ''/log'' [sample_shared] empty_set = Some (a, t)"
    by (simp add: waitForSharedBuild_def sample_shared_def)
  have v: "valid_owner (proc 7)" "inspectProcessIdentity (self_only (proc 7)) (proc 7) = Same" by code_simp+
  then have "list_all (\<lambda>r. inspectProcessIdentity (sr_os r) (proc 7) = Same \<and> [] \<notin> range (sr_ids r)) [sample_shared]"
    by (auto simp: sample_shared_def)
  from shared_build_answer [OF w v(1) this] w show ?thesis by blast
qed

text \<open>
  Waiting for shared builds ends: if every wait it makes is followed to its ceiling and the clock of
  some turn is ninety minutes past the start, \<open>waitForSharedBuild\<close> has answered, however often the
  lock changed hands.
\<close>

theorem shared_build_returns:
  assumes "list_all (\<lambda>r. list_ex (\<lambda>x. WAIT_CEILING_MS \<le> (sr_now r - started) + (wb_now x - sr_started r)) (sr_waits r)) rounds"
    and "list_ex (\<lambda>r. WAIT_CEILING_MS \<le> sr_now r - started) rounds"
  shows "\<exists>y. waitForSharedBuild started self root logFile rounds s = Some y"
  unfolding waitForSharedBuild_def by (rule shared_rounds_ends [OF assms])

theorem shared_build_returns_witness:
  "\<exists>y. waitForSharedBuild 0 (Inr (proc 7)) ''/w'' ''/log'' [sample_shared\<lparr>sr_now := 5400000,
     sr_waits := [\<lparr>wb_hit = None, wb_os = self_only (proc 7), wb_set = empty_set, wb_now = 0\<rparr>]\<rparr>] empty_set = Some y"
  by (rule shared_build_returns) (simp_all add: sample_shared_def WAIT_CEILING_MS_def)

theorem build_lock_exclusive_witness:
  "\<exists>h t rs u. acquireBuildLock (self_only (proc 7)) (Inr (proc 7)) None None (\<lambda>_. ''x'') (\<lambda>_. ''t0'') empty_set = (Inr h, t) \<and>
     run_each (\<lambda>i. acquireBuildLock (self_only (proc 7)) (Inr (proc 9)) None None (\<lambda>_. ''y'') (\<lambda>_. ''t1'')) [0, 1 :: nat] t = (rs, u) \<and>
     list_all (\<lambda>r. case r of Inl _ \<Rightarrow> True | Inr h' \<Rightarrow> \<not> bh_acquired h') rs"
proof -
  let ?a = "acquireBuildLock (self_only (proc 7)) (Inr (proc 7)) None None (\<lambda>_. ''x'') (\<lambda>_. ''t0'') empty_set"
  have "case fst ?a of Inl _ \<Rightarrow> False | Inr h \<Rightarrow> bh_acquired h \<and> map_option hd_path (bh_claim h) = Some ''x.claim''" by code_simp
  then obtain h t where h: "?a = (Inr h, t)" "bh_acquired h" "map_option hd_path (bh_claim h) = Some ''x.claim''" by (cases ?a) (auto split: sum.splits)
  have v: "valid_owner (proc 7)" "inspectProcessIdentity (self_only (proc 7)) (proc 7) = Same" "[] \<notin> range (\<lambda>_ :: nat. ''x'')" by (simp_all | code_simp)+
  obtain rs u where o: "run_each (\<lambda>i. acquireBuildLock (self_only (proc 7)) (Inr (proc 9)) None None (\<lambda>_. ''y'') (\<lambda>_. ''t1'')) [0, 1 :: nat] t = (rs, u)" by fastforce
  have f: "''y'' @ CLAIM_SUFFIX \<noteq> hd_path (the (bh_claim h))" using h(3) by (auto simp: CLAIM_SUFFIX_def)
  from build_lock_exclusive [OF h(1,2) v o v(2) f] h o show ?thesis by blast
qed

section \<open>Names\<close>

text \<open>The list of locks reads platform and fingerprint back from the name, where the platform has no dash.\<close>

lemma index_of_first: "c \<notin> set a \<Longrightarrow> index_of c (a @ c # b) = Some (length a)"
  by (induction a) auto

lemma segment_nonempty: "segment v \<noteq> []"
  by (simp add: segment_def Let_def)

theorem lock_name_round_trip:
  assumes "CHR ''-'' \<notin> set (segment platform)"
  shows "li_platform (lock_info w (buildLockPath platform key) s) = segment platform \<and> li_key (lock_info w (buildLockPath platform key) s) = Some (segment key)"
proof -
  let ?stem = "segment platform @ CHR ''-'' # segment key"
  have stem: "take (length (buildLockPath platform key) - length LOCK_SUFFIX) (buildLockPath platform key) = ?stem" by (simp add: buildLockPath_def)
  obtain n where n: "length (segment platform) = Suc n" using segment_nonempty [of platform] by (cases "segment platform") auto
  have "index_of CHR ''-'' ?stem = Some (Suc n)" using index_of_first [OF assms] n by simp
  moreover have "take (Suc n) ?stem = segment platform" "drop (Suc n + 1) ?stem = segment key" using n by simp_all
  ultimately show ?thesis unfolding lock_info_def stem by (simp add: Let_def)
qed

theorem lock_name_round_trip_witness:
  "li_platform (lock_info (self_only (proc 7)) (buildLockPath ''ios'' ''ab-c'') empty_set) = ''ios''"
proof -
  have "CHR ''-'' \<notin> set (segment ''ios'')" "segment ''ios'' = ''ios''" by code_simp+
  with lock_name_round_trip [of "''ios''"] show ?thesis by metis
qed

end
