(* ===== verification/Byte_Text.thy ===== *)
theory Byte_Text
  imports Stim_Prelude "HOL-Library.Word"
begin

text \<open>
  Byte strings, as \<open>Buffer\<close> and \<open>Uint8Array\<close> hold them, and the encodings the secure connection
  uses: ASCII literals, numbers of fixed width, UTF-8 and base64url. A JavaScript text is a list of
  code points here; a surrogate that is not part of a pair is a code point of its own.
\<close>

type_synonym byte = "8 word"
type_synonym bytes = "byte list"
type_synonym unicode = "nat list"

definition byte_of :: "nat \<Rightarrow> byte" where
  "byte_of n = word_of_nat n"

lemma unat_byte_of [simp]: "unat (byte_of n) = n mod 256"
  by (simp add: byte_of_def unat_of_nat)

lemma byte_of_unat [simp]: "byte_of (unat b) = b"
  by (simp add: byte_of_def)

lemma unat_byte: "unat (b :: byte) < 256"
proof -
  have "unat b < 2 ^ LENGTH(8)" by (rule unsigned_less)
  then show ?thesis by simp
qed

text \<open>\<open>Buffer.from(text, 'ascii')\<close> for a literal.\<close>

definition ascii :: "string \<Rightarrow> bytes" where
  "ascii s = map (\<lambda>c. byte_of (of_char c)) s"

lemma length_ascii [simp]: "length (ascii s) = length s"
  by (simp add: ascii_def)

section \<open>Numbers of fixed width\<close>

text \<open>\<open>writeBigUInt64LE\<close>: the low byte first; \<open>writeUInt32BE\<close>: the high byte first.\<close>

fun le_bytes :: "nat \<Rightarrow> nat \<Rightarrow> bytes" where
  "le_bytes 0 n = []"
| "le_bytes (Suc k) n = byte_of n # le_bytes k (n div 256)"

fun le_value :: "bytes \<Rightarrow> nat" where
  "le_value [] = 0"
| "le_value (b # bs) = unat b + 256 * le_value bs"

definition be_bytes :: "nat \<Rightarrow> nat \<Rightarrow> bytes" where
  "be_bytes k n = rev (le_bytes k n)"

definition be_value :: "bytes \<Rightarrow> nat" where
  "be_value bs = le_value (rev bs)"

lemma length_le_bytes [simp]: "length (le_bytes k n) = k"
  by (induction k arbitrary: n) simp_all

lemma length_be_bytes [simp]: "length (be_bytes k n) = k"
  by (simp add: be_bytes_def)

lemma le_value_bytes: "n < 256 ^ k \<Longrightarrow> le_value (le_bytes k n) = n"
proof (induction k arbitrary: n)
  case (Suc k)
  then have "n div 256 < 256 ^ k" by (simp add: less_mult_imp_div_less mult.commute)
  with Suc.IH show ?case by simp
qed simp

lemma be_value_bytes: "n < 256 ^ k \<Longrightarrow> be_value (be_bytes k n) = n"
  by (simp add: be_bytes_def be_value_def le_value_bytes)

lemma le_bytes_inj: "m < 256 ^ k \<Longrightarrow> n < 256 ^ k \<Longrightarrow> le_bytes k m = le_bytes k n \<Longrightarrow> m = n"
  by (metis le_value_bytes)

section \<open>UTF-8\<close>

definition is_surrogate :: "nat \<Rightarrow> bool" where
  "is_surrogate u = (0xD800 \<le> u \<and> u \<le> 0xDFFF)"

definition is_scalar :: "nat \<Rightarrow> bool" where
  "is_scalar u = (u \<le> 0x10FFFF \<and> \<not> is_surrogate u)"

text \<open>One code point; a lone surrogate is written as \<open>U+FFFD\<close>.\<close>

definition utf8_point :: "nat \<Rightarrow> nat list" where
  "utf8_point u =
     (let u = (if is_surrogate u then 0xFFFD else u) in
      if u < 0x80 then [u]
      else if u < 0x800 then [0xC0 + u div 64, 0x80 + u mod 64]
      else if u < 0x10000 then [0xE0 + u div 4096, 0x80 + u div 64 mod 64, 0x80 + u mod 64]
      else [0xF0 + u div 262144, 0x80 + u div 4096 mod 64, 0x80 + u div 64 mod 64, 0x80 + u mod 64])"

definition utf8_encode :: "unicode \<Rightarrow> bytes" where
  "utf8_encode us = map byte_of (concat (map utf8_point us))"

text \<open>\<open>new TextDecoder('utf-8', { fatal: true })\<close>: the first code point, with the bounds on the second byte.\<close>

definition trail :: "nat \<Rightarrow> bool" where
  "trail b = (0x80 \<le> b \<and> b \<le> 0xBF)"

fun utf8_first :: "nat list \<Rightarrow> (nat \<times> nat list) option" where
  "utf8_first [] = None"
| "utf8_first (a # bs) =
     (if a < 0x80 then Some (a, bs)
      else if 0xC2 \<le> a \<and> a \<le> 0xDF then
        (case bs of b # rest \<Rightarrow> if trail b then Some ((a - 0xC0) * 64 + (b - 0x80), rest) else None | _ \<Rightarrow> None)
      else if 0xE0 \<le> a \<and> a \<le> 0xEF then
        (case bs of b # c # rest \<Rightarrow>
           if trail b \<and> trail c \<and> (a = 0xE0 \<longrightarrow> 0xA0 \<le> b) \<and> (a = 0xED \<longrightarrow> b \<le> 0x9F)
           then Some ((a - 0xE0) * 4096 + (b - 0x80) * 64 + (c - 0x80), rest) else None
         | _ \<Rightarrow> None)
      else if 0xF0 \<le> a \<and> a \<le> 0xF4 then
        (case bs of b # c # d # rest \<Rightarrow>
           if trail b \<and> trail c \<and> trail d \<and> (a = 0xF0 \<longrightarrow> 0x90 \<le> b) \<and> (a = 0xF4 \<longrightarrow> b \<le> 0x8F)
           then Some ((a - 0xF0) * 262144 + (b - 0x80) * 4096 + (c - 0x80) * 64 + (d - 0x80), rest) else None
         | _ \<Rightarrow> None)
      else None)"

fun utf8_points :: "nat \<Rightarrow> nat list \<Rightarrow> unicode option" where
  "utf8_points 0 ns = (if ns = [] then Some [] else None)"
| "utf8_points (Suc k) ns = (if ns = [] then Some [] else
     (case utf8_first ns of None \<Rightarrow> None | Some (u, rest) \<Rightarrow> map_option ((#) u) (utf8_points k rest)))"

definition utf8_decode :: "bytes \<Rightarrow> unicode option" where
  "utf8_decode bs = utf8_points (length bs) (map unat bs)"

lemma utf8_point_bytes: "u \<le> 0x10FFFF \<Longrightarrow> n \<in> set (utf8_point u) \<Longrightarrow> n < 256"
  by (auto simp: utf8_point_def is_surrogate_def Let_def split: if_splits)

lemma utf8_point_nonempty [simp]: "utf8_point u \<noteq> []"
  by (simp add: utf8_point_def Let_def)

lemma split_64:
  fixes u :: nat
  shows "u = u div 4096 * 4096 + u div 64 mod 64 * 64 + u mod 64 \<and>
    u = u div 262144 * 262144 + u div 4096 mod 64 * 4096 + u div 64 mod 64 * 64 + u mod 64"
proof -
  have d: "u div 4096 = u div 64 div 64" "u div 262144 = u div 64 div 64 div 64" by (simp_all flip: div_mult2_eq)
  have "u = u div 64 * 64 + u mod 64" "u div 64 = u div 64 div 64 * 64 + u div 64 mod 64"
    "u div 64 div 64 = u div 64 div 64 div 64 * 64 + u div 64 div 64 mod 64" by (simp_all only: div_mult_mod_eq)
  then show ?thesis unfolding d by linarith
qed

lemma utf8_first_point:
  assumes "is_scalar u"
  shows "utf8_first (utf8_point u @ rest) = Some (u, rest)"
proof -
  have u: "u \<le> 0x10FFFF" "\<not> (0xD800 \<le> u \<and> u \<le> 0xDFFF)" using assms by (simp_all add: is_scalar_def is_surrogate_def)
  consider "u < 0x80" | "0x80 \<le> u" "u < 0x800" | "0x800 \<le> u" "u < 0x10000" | "0x10000 \<le> u" by linarith
  then show ?thesis
  proof cases
    case 2
    then have "2 \<le> u div 64" "u div 64 \<le> 0x1F" by auto
    with 2 u show ?thesis by (simp add: utf8_point_def is_surrogate_def trail_def)
  next
    case 3
    define x y z where "x = u div 4096" and "y = u div 64 mod 64" and "z = u mod 64"
    have "x \<le> 15" "y < 64" "z < 64" using 3 by (auto simp: x_def y_def z_def)
    moreover have eq: "u = x * 4096 + y * 64 + z" unfolding x_def y_def z_def by (rule split_64 [THEN conjunct1])
    moreover have "x = 0 \<Longrightarrow> 0x20 \<le> y" using eq 3 calculation by linarith
    moreover have "y \<le> 0x1F" if "x = 13"
    proof (rule ccontr)
      assume "\<not> y \<le> 0x1F"
      with that eq calculation(2,3) have "0xD800 \<le> u \<and> u \<le> 0xDFFF" by simp
      with u(2) show False by blast
    qed
    moreover have "utf8_point u = [0xE0 + x, 0x80 + y, 0x80 + z]"
      using 3 u by (auto simp: utf8_point_def is_surrogate_def x_def y_def z_def)
    ultimately show ?thesis by (auto simp: trail_def)
  next
    case 4
    define w x y z where "w = u div 262144" and "x = u div 4096 mod 64" and "y = u div 64 mod 64" and "z = u mod 64"
    have "x < 64" "y < 64" "z < 64" "w \<le> 4" using u by (auto simp: w_def x_def y_def z_def)
    moreover have eq: "u = w * 262144 + x * 4096 + y * 64 + z" unfolding w_def x_def y_def z_def by (rule split_64 [THEN conjunct2])
    moreover have "w = 0 \<Longrightarrow> 0x10 \<le> x" using eq 4 calculation by linarith
    moreover have "w = 4 \<Longrightarrow> x \<le> 0xF" using eq u(1) calculation by linarith
    moreover have "utf8_point u = [0xF0 + w, 0x80 + x, 0x80 + y, 0x80 + z]"
      using 4 u by (simp add: utf8_point_def is_surrogate_def w_def x_def y_def z_def)
    ultimately show ?thesis by (auto simp: trail_def)
  qed (simp add: utf8_point_def is_surrogate_def)
qed

lemma utf8_points_encode:
  "list_all is_scalar us \<Longrightarrow> length (concat (map utf8_point us)) \<le> k \<Longrightarrow> utf8_points k (concat (map utf8_point us)) = Some us"
proof (induction us arbitrary: k)
  case (Cons u us)
  obtain k' where k: "k = Suc k'" using Cons.prems(2) by (cases k) auto
  have "length (concat (map utf8_point us)) \<le> k'"
    using Cons.prems(2) utf8_point_nonempty [of u] by (cases "utf8_point u") (auto simp: k)
  with Cons show ?case by (simp add: k utf8_first_point)
next
  case Nil
  then show ?case by (cases k) simp_all
qed

theorem utf8_round_trip: "list_all is_scalar us \<Longrightarrow> utf8_decode (utf8_encode us) = Some us"
proof -
  assume us: "list_all is_scalar us"
  have "map (\<lambda>n. n mod 256) (concat (map utf8_point us)) = concat (map utf8_point us)"
    using us by (intro map_idI) (auto simp: list_all_iff is_scalar_def dest!: utf8_point_bytes)
  with us show ?thesis by (simp add: utf8_decode_def utf8_encode_def o_def utf8_points_encode)
qed

section \<open>Base64url\<close>

definition b64_char :: "nat \<Rightarrow> char" where
  "b64_char d = (if d < 26 then char_of (65 + d) else if d < 52 then char_of (71 + d)
     else if d < 62 then char_of (d - 4) else if d = 62 then CHR ''-'' else CHR ''_'')"

definition b64_digit :: "char \<Rightarrow> nat option" where
  "b64_digit c = (let n = (of_char c :: nat) in
     if 65 \<le> n \<and> n \<le> 90 then Some (n - 65) else if 97 \<le> n \<and> n \<le> 122 then Some (n - 71)
     else if 48 \<le> n \<and> n \<le> 57 then Some (n + 4) else if c = CHR ''-'' then Some 62 else if c = CHR ''_'' then Some 63 else None)"

text \<open>\<open>toString('base64url')\<close>: three bytes as four digits, without padding.\<close>

fun b64_encode :: "bytes \<Rightarrow> string" where
  "b64_encode [] = []"
| "b64_encode [a] = (let x = unat a in [b64_char (x div 4), b64_char (x mod 4 * 16)])"
| "b64_encode [a, b] = (let x = unat a; y = unat b in
     [b64_char (x div 4), b64_char (x mod 4 * 16 + y div 16), b64_char (y mod 16 * 4)])"
| "b64_encode (a # b # c # rest) = (let x = unat a; y = unat b; z = unat c in
     [b64_char (x div 4), b64_char (x mod 4 * 16 + y div 16), b64_char (y mod 16 * 4 + z div 64), b64_char (z mod 64)] @ b64_encode rest)"

text \<open>\<open>Buffer.from(text, 'base64url')\<close> on the digits of a text; the bits that do not fill a byte are dropped.\<close>

fun b64_decode :: "nat list \<Rightarrow> bytes" where
  "b64_decode (p # q # r # s # rest) = [byte_of (p * 4 + q div 16), byte_of (q mod 16 * 16 + r div 4), byte_of (r mod 4 * 64 + s)] @ b64_decode rest"
| "b64_decode [p, q, r] = [byte_of (p * 4 + q div 16), byte_of (q mod 16 * 16 + r div 4)]"
| "b64_decode [p, q] = [byte_of (p * 4 + q div 16)]"
| "b64_decode _ = []"

lemma b64_digit_char: "d < 64 \<Longrightarrow> b64_digit (b64_char d) = Some d"
  by (auto simp: b64_char_def b64_digit_def Let_def)

lemma b64_decode_encode: "b64_decode (map (the \<circ> b64_digit) (b64_encode bs)) = bs"
proof (induction bs rule: b64_encode.induct)
  case (2 a)
  with unat_byte [of a] show ?case by (simp add: Let_def b64_digit_char div_mult_mod_eq)
next
  case (3 a b)
  have "unat a mod 4 * 16 + unat b div 16 < 64" "(unat a mod 4 * 16 + unat b div 16) div 16 = unat a mod 4"
    "(unat a mod 4 * 16 + unat b div 16) mod 16 = unat b div 16" using unat_byte [of b] by auto
  with unat_byte [of a] show ?case by (simp add: Let_def b64_digit_char div_mult_mod_eq)
next
  case (4 a b c rest)
  have "unat a mod 4 * 16 + unat b div 16 < 64" "(unat a mod 4 * 16 + unat b div 16) div 16 = unat a mod 4"
    "(unat a mod 4 * 16 + unat b div 16) mod 16 = unat b div 16"
    "unat b mod 16 * 4 + unat c div 64 < 64" "(unat b mod 16 * 4 + unat c div 64) div 4 = unat b mod 16"
    "(unat b mod 16 * 4 + unat c div 64) mod 4 = unat c div 64" using unat_byte [of b] unat_byte [of c] by auto
  moreover have "unat a div 4 < 64" using unat_byte [of a] by simp
  ultimately show ?case using 4 by (simp add: Let_def b64_digit_char div_mult_mod_eq)
qed simp

end
