(* ===== verification/Noise.thy ===== *)
theory Noise
  imports Byte_Text
begin

text \<open>
  The Noise handshake and transport (\<open>packages/core/noise.ts\<close>): cipher states, the symmetric
  state, the handshake state for the patterns XX and XXpsk2, and the framing of messages after it.
  The primitives of the runtime's \<open>crypto\<close> module are the parameter \<open>c\<close>: ChaCha20-Poly1305, SHA-256,
  HMAC, X25519 (\<open>None\<close> where it throws) and the public key of a private one. A key pair the code
  generates is an argument. An object the code mutates is a record that is returned changed; an
  error is a value, and where the code gives up the object after an error (it sets a flag that every
  later call checks) the rest of a half-done change is left out.
\<close>

section \<open>Primitives and errors\<close>

record crypto =
  seal_aead :: "bytes \<Rightarrow> bytes \<Rightarrow> bytes \<Rightarrow> bytes \<Rightarrow> bytes \<times> bytes"
  open_aead :: "bytes \<Rightarrow> bytes \<Rightarrow> bytes \<Rightarrow> bytes \<Rightarrow> bytes \<Rightarrow> bytes option"
  sha_256 :: "bytes \<Rightarrow> bytes"
  hmac_256 :: "bytes \<Rightarrow> bytes \<Rightarrow> bytes"
  x_25519 :: "bytes \<Rightarrow> bytes \<Rightarrow> bytes option"
  public_of :: "bytes \<Rightarrow> bytes"

datatype noise_error =
    TagMissing | AuthFailed | NonceExhausted | HandshakeTooLarge | HandshakeTruncated | HandshakeDone | NotThisTurn
  | HandshakeHasFailed | HandshakeWrapped | HandshakeIncomplete | AlreadySplit | InvalidPublicKey | NeedsPsk | NeedsRemoteKey
  | NeedsEphemeral | TransportClosed | MessageTooLarge | UnknownMessageType | MessageNotValid
  | CipherKeyLength | PskMismatch | PskLength | TransportNeedsKeys | OverSendLimit | PrivateKeyLength | NotUtf8

text \<open>Which of them are a \<open>NoiseError\<close>; the others are a \<open>RangeError\<close> or a \<open>TypeError\<close>.\<close>

definition is_noise_error :: "noise_error \<Rightarrow> bool" where
  "is_noise_error e = (e \<notin> {CipherKeyLength, PskMismatch, PskLength, TransportNeedsKeys, OverSendLimit, PrivateKeyLength, NotUtf8})"

definition KEY_BYTES :: nat where "KEY_BYTES = 32"
definition MAX_HANDSHAKE_MESSAGE_BYTES :: nat where "MAX_HANDSHAKE_MESSAGE_BYTES = 1024"
definition HASH_BYTES :: nat where "HASH_BYTES = 32"
definition TAG_BYTES :: nat where "TAG_BYTES = 16"
definition MAX_NONCE :: nat where "MAX_NONCE = 2 ^ 64 - 1"
definition NOISE_TEXT :: byte where "NOISE_TEXT = 1"
definition NOISE_BINARY :: byte where "NOISE_BINARY = 2"

record key_pair =
  publicKey :: bytes
  privateKey :: bytes

definition noiseKeyPairFromPrivateKey :: "crypto \<Rightarrow> bytes \<Rightarrow> noise_error + key_pair" where
  "noiseKeyPairFromPrivateKey c priv =
     (if length priv \<noteq> KEY_BYTES then Inl PrivateKeyLength else Inr \<lparr>publicKey = public_of c priv, privateKey = priv\<rparr>)"

definition nonceBytes :: "nat \<Rightarrow> bytes" where
  "nonceBytes n = replicate 4 0 @ le_bytes 8 n"

definition aeadEncrypt :: "crypto \<Rightarrow> bytes \<Rightarrow> nat \<Rightarrow> bytes \<Rightarrow> bytes \<Rightarrow> bytes" where
  "aeadEncrypt c k n ad plaintext = (let (body, tag) = seal_aead c k (nonceBytes n) ad plaintext in body @ tag)"

definition aeadDecrypt :: "crypto \<Rightarrow> bytes \<Rightarrow> nat \<Rightarrow> bytes \<Rightarrow> bytes \<Rightarrow> noise_error + bytes" where
  "aeadDecrypt c k n ad ciphertext =
     (if length ciphertext < TAG_BYTES then Inl TagMissing
      else let cut = length ciphertext - TAG_BYTES in
        case open_aead c k (nonceBytes n) ad (drop cut ciphertext) (take cut ciphertext) of
          None \<Rightarrow> Inl AuthFailed | Some plaintext \<Rightarrow> Inr plaintext)"

definition hkdf :: "crypto \<Rightarrow> bytes \<Rightarrow> bytes \<Rightarrow> bytes \<times> bytes \<times> bytes" where
  "hkdf c chainingKey input =
     (let temp = hmac_256 c chainingKey input; first = hmac_256 c temp [1]; second = hmac_256 c temp (first @ [2])
      in (first, second, hmac_256 c temp (second @ [3])))"

section \<open>Cipher states\<close>

record cipher_state =
  cs_key :: "bytes option"
  cs_n :: nat

definition new_cipher :: "bytes option \<Rightarrow> noise_error + cipher_state" where
  "new_cipher key = (case key of None \<Rightarrow> Inr \<lparr>cs_key = None, cs_n = 0\<rparr>
     | Some k \<Rightarrow> if length k \<noteq> KEY_BYTES then Inl CipherKeyLength else Inr \<lparr>cs_key = Some k, cs_n = 0\<rparr>)"

definition hasKey :: "cipher_state \<Rightarrow> bool" where
  "hasKey cs = (cs_key cs \<noteq> None)"

definition setNonce :: "nat \<Rightarrow> cipher_state \<Rightarrow> cipher_state" where
  "setNonce n cs = cs\<lparr>cs_n := n\<rparr>"

definition encryptWithAd :: "crypto \<Rightarrow> cipher_state \<Rightarrow> bytes \<Rightarrow> bytes \<Rightarrow> noise_error + bytes \<times> cipher_state" where
  "encryptWithAd c cs ad plaintext = (case cs_key cs of None \<Rightarrow> Inr (plaintext, cs)
     | Some k \<Rightarrow> if MAX_NONCE \<le> cs_n cs then Inl NonceExhausted
         else Inr (aeadEncrypt c k (cs_n cs) ad plaintext, cs\<lparr>cs_n := cs_n cs + 1\<rparr>))"

definition decryptWithAd :: "crypto \<Rightarrow> cipher_state \<Rightarrow> bytes \<Rightarrow> bytes \<Rightarrow> noise_error + bytes \<times> cipher_state" where
  "decryptWithAd c cs ad ciphertext = (case cs_key cs of None \<Rightarrow> Inr (ciphertext, cs)
     | Some k \<Rightarrow> if MAX_NONCE \<le> cs_n cs then Inl NonceExhausted
         else and_then (aeadDecrypt c k (cs_n cs) ad ciphertext) (\<lambda>plaintext. Inr (plaintext, cs\<lparr>cs_n := cs_n cs + 1\<rparr>)))"

section \<open>The symmetric state\<close>

datatype noise_protocol = NOISE_XX | NOISE_XX_PSK2

fun protocol_name :: "noise_protocol \<Rightarrow> string" where
  "protocol_name NOISE_XX = ''Noise_XX_25519_ChaChaPoly_SHA256''"
| "protocol_name NOISE_XX_PSK2 = ''Noise_XXpsk2_25519_ChaChaPoly_SHA256''"

record symmetric_state =
  sym_ck :: bytes
  sym_h :: bytes
  sym_cipher :: cipher_state

definition new_symmetric :: "crypto \<Rightarrow> noise_protocol \<Rightarrow> symmetric_state" where
  "new_symmetric c protocol =
     (let name = ascii (protocol_name protocol);
          h = (if length name \<le> HASH_BYTES then name @ replicate (HASH_BYTES - length name) 0 else sha_256 c name)
      in \<lparr>sym_ck = h, sym_h = h, sym_cipher = \<lparr>cs_key = None, cs_n = 0\<rparr>\<rparr>)"

definition mixHash :: "crypto \<Rightarrow> bytes \<Rightarrow> symmetric_state \<Rightarrow> symmetric_state" where
  "mixHash c data s = s\<lparr>sym_h := sha_256 c (sym_h s @ data)\<rparr>"

definition mixKey :: "crypto \<Rightarrow> bytes \<Rightarrow> symmetric_state \<Rightarrow> noise_error + symmetric_state" where
  "mixKey c input s = (let (ck, k, _) = hkdf c (sym_ck s) input in
     and_then (new_cipher (Some k)) (\<lambda>cs. Inr (s\<lparr>sym_ck := ck, sym_cipher := cs\<rparr>)))"

definition mixKeyAndHash :: "crypto \<Rightarrow> bytes \<Rightarrow> symmetric_state \<Rightarrow> noise_error + symmetric_state" where
  "mixKeyAndHash c input s = (let (ck, h, k) = hkdf c (sym_ck s) input in
     and_then (new_cipher (Some k)) (\<lambda>cs. Inr ((mixHash c h (s\<lparr>sym_ck := ck\<rparr>))\<lparr>sym_cipher := cs\<rparr>)))"

definition encryptAndHash :: "crypto \<Rightarrow> bytes \<Rightarrow> symmetric_state \<Rightarrow> noise_error + bytes \<times> symmetric_state" where
  "encryptAndHash c plaintext s = and_then (encryptWithAd c (sym_cipher s) (sym_h s) plaintext)
     (\<lambda>(ciphertext, cs). Inr (ciphertext, mixHash c ciphertext (s\<lparr>sym_cipher := cs\<rparr>)))"

definition decryptAndHash :: "crypto \<Rightarrow> bytes \<Rightarrow> symmetric_state \<Rightarrow> noise_error + bytes \<times> symmetric_state" where
  "decryptAndHash c ciphertext s = and_then (decryptWithAd c (sym_cipher s) (sym_h s) ciphertext)
     (\<lambda>(plaintext, cs). Inr (plaintext, mixHash c ciphertext (s\<lparr>sym_cipher := cs\<rparr>)))"

definition sym_split :: "crypto \<Rightarrow> symmetric_state \<Rightarrow> noise_error + cipher_state \<times> cipher_state" where
  "sym_split c s = (let (first, second, _) = hkdf c (sym_ck s) [] in
     and_then (new_cipher (Some first)) (\<lambda>a. and_then (new_cipher (Some second)) (\<lambda>b. Inr (a, b))))"

section \<open>The handshake\<close>

datatype noise_token = TokE | TokS | TokEE | TokES | TokSE | TokPsk

fun PATTERNS :: "noise_protocol \<Rightarrow> noise_token list list" where
  "PATTERNS NOISE_XX = [[TokE], [TokE, TokEE, TokS, TokES], [TokS, TokSE]]"
| "PATTERNS NOISE_XX_PSK2 = [[TokE], [TokE, TokEE, TokS, TokES, TokPsk], [TokS, TokSE]]"

record handshake_state =
  hs_symmetric :: symmetric_state
  hs_messages :: "noise_token list list"
  hs_initiator :: bool
  hs_s :: key_pair
  hs_psk :: "bytes option"
  hs_e :: "key_pair option"
  hs_re :: "bytes option"
  hs_rs :: "bytes option"
  hs_index :: nat
  hs_failed :: bool
  hs_split :: bool

definition new_handshake :: "crypto \<Rightarrow> noise_protocol \<Rightarrow> bool \<Rightarrow> bytes \<Rightarrow> key_pair \<Rightarrow> bytes option \<Rightarrow> key_pair option \<Rightarrow> noise_error + handshake_state" where
  "new_handshake c protocol initiator prologue s psk e =
     (if (protocol = NOISE_XX_PSK2) \<noteq> (psk \<noteq> None) then Inl PskMismatch
      else if (case psk of None \<Rightarrow> False | Some k \<Rightarrow> length k \<noteq> KEY_BYTES) then Inl PskLength
      else Inr \<lparr>hs_symmetric = mixHash c prologue (new_symmetric c protocol), hs_messages = PATTERNS protocol, hs_initiator = initiator,
        hs_s = s, hs_psk = psk, hs_e = e, hs_re = None, hs_rs = None, hs_index = 0, hs_failed = False, hs_split = False\<rparr>)"

definition isComplete :: "handshake_state \<Rightarrow> bool" where
  "isComplete hs = (hs_index hs = length (hs_messages hs))"

definition remoteStaticPublicKey :: "handshake_state \<Rightarrow> bytes option" where
  "remoteStaticPublicKey hs = (if hs_failed hs then None else hs_rs hs)"

definition handshakeHash :: "handshake_state \<Rightarrow> noise_error + bytes" where
  "handshakeHash hs = (if \<not> isComplete hs then Inl HandshakeIncomplete else Inr (sym_h (hs_symmetric hs)))"

definition with_symmetric :: "handshake_state \<Rightarrow> noise_error + symmetric_state \<Rightarrow> noise_error + handshake_state" where
  "with_symmetric hs r = and_then r (\<lambda>s. Inr (hs\<lparr>hs_symmetric := s\<rparr>))"

definition mixEphemeral :: "crypto \<Rightarrow> bytes \<Rightarrow> handshake_state \<Rightarrow> noise_error + handshake_state" where
  "mixEphemeral c pub hs = (let s = mixHash c pub (hs_symmetric hs) in
     if hs_psk hs \<noteq> None then with_symmetric hs (mixKey c pub s) else Inr (hs\<lparr>hs_symmetric := s\<rparr>))"

definition x25519 :: "crypto \<Rightarrow> key_pair \<Rightarrow> bytes \<Rightarrow> noise_error + bytes" where
  "x25519 c kp pub = (case x_25519 c (privateKey kp) pub of None \<Rightarrow> Inl InvalidPublicKey | Some k \<Rightarrow> Inr k)"

definition remote_key :: "bytes option \<Rightarrow> noise_error + bytes" where
  "remote_key k = (case k of None \<Rightarrow> Inl NeedsRemoteKey | Some k \<Rightarrow> Inr k)"

definition mix_dh :: "crypto \<Rightarrow> key_pair \<Rightarrow> bytes option \<Rightarrow> handshake_state \<Rightarrow> noise_error + handshake_state" where
  "mix_dh c kp remote hs = and_then (remote_key remote) (\<lambda>pub. and_then (x25519 c kp pub)
     (\<lambda>k. with_symmetric hs (mixKey c k (hs_symmetric hs))))"

definition mixToken :: "crypto \<Rightarrow> noise_token \<Rightarrow> handshake_state \<Rightarrow> noise_error + handshake_state" where
  "mixToken c t hs =
     (if t = TokPsk then (case hs_psk hs of None \<Rightarrow> Inl NeedsPsk | Some k \<Rightarrow> with_symmetric hs (mixKeyAndHash c k (hs_symmetric hs)))
      else (case hs_e hs of None \<Rightarrow> Inl NeedsEphemeral
        | Some e \<Rightarrow>
            if t = TokEE then mix_dh c e (hs_re hs) hs
            else if t = TokES then (if hs_initiator hs then mix_dh c e (hs_rs hs) hs else mix_dh c (hs_s hs) (hs_re hs) hs)
            else (if hs_initiator hs then mix_dh c (hs_s hs) (hs_re hs) hs else mix_dh c e (hs_rs hs) hs)))"

definition encrypt_with :: "crypto \<Rightarrow> bytes \<Rightarrow> handshake_state \<Rightarrow> noise_error + bytes \<times> handshake_state" where
  "encrypt_with c plaintext hs = and_then (encryptAndHash c plaintext (hs_symmetric hs)) (\<lambda>(ct, s). Inr (ct, hs\<lparr>hs_symmetric := s\<rparr>))"

definition decrypt_with :: "crypto \<Rightarrow> bytes \<Rightarrow> handshake_state \<Rightarrow> noise_error + bytes \<times> handshake_state" where
  "decrypt_with c ciphertext hs = and_then (decryptAndHash c ciphertext (hs_symmetric hs)) (\<lambda>(pt, s). Inr (pt, hs\<lparr>hs_symmetric := s\<rparr>))"

text \<open>The loop of \<open>writeMessage\<close> over its tokens; \<open>fresh\<close> is the key pair it generates when it has none.\<close>

definition write_token :: "crypto \<Rightarrow> key_pair \<Rightarrow> noise_token \<Rightarrow> handshake_state \<Rightarrow> noise_error + bytes \<times> handshake_state" where
  "write_token c fresh t hs =
     (if t = TokE then
        (let e = (case hs_e hs of None \<Rightarrow> fresh | Some e \<Rightarrow> e) in
         and_then (mixEphemeral c (publicKey e) (hs\<lparr>hs_e := Some e\<rparr>)) (\<lambda>hs'. Inr (publicKey e, hs')))
      else if t = TokS then encrypt_with c (publicKey (hs_s hs)) hs
      else and_then (mixToken c t hs) (\<lambda>hs'. Inr ([], hs')))"

fun write_tokens :: "crypto \<Rightarrow> key_pair \<Rightarrow> noise_token list \<Rightarrow> handshake_state \<Rightarrow> noise_error + bytes \<times> handshake_state" where
  "write_tokens c fresh [] hs = Inr ([], hs)"
| "write_tokens c fresh (t # ts) hs = and_then (write_token c fresh t hs)
     (\<lambda>(part, hs). and_then (write_tokens c fresh ts hs) (\<lambda>(parts, hs). Inr (part @ parts, hs)))"

text \<open>\<open>take(length)\<close>, and the loop of \<open>readMessage\<close>; what is left of the message is passed on.\<close>

definition take_part :: "nat \<Rightarrow> bytes \<Rightarrow> noise_error + bytes \<times> bytes" where
  "take_part n rest = (if length rest < n then Inl HandshakeTruncated else Inr (take n rest, drop n rest))"

definition read_token :: "crypto \<Rightarrow> noise_token \<Rightarrow> bytes \<Rightarrow> handshake_state \<Rightarrow> noise_error + bytes \<times> handshake_state" where
  "read_token c t rest hs =
     (if t = TokE then and_then (take_part KEY_BYTES rest)
        (\<lambda>(re, rest). and_then (mixEphemeral c re (hs\<lparr>hs_re := Some re\<rparr>)) (\<lambda>hs. Inr (rest, hs)))
      else if t = TokS then
        and_then (take_part (KEY_BYTES + (if hasKey (sym_cipher (hs_symmetric hs)) then TAG_BYTES else 0)) rest)
          (\<lambda>(part, rest). and_then (decrypt_with c part hs) (\<lambda>(rs, hs). Inr (rest, hs\<lparr>hs_rs := Some rs\<rparr>)))
      else and_then (mixToken c t hs) (\<lambda>hs. Inr (rest, hs)))"

fun read_tokens :: "crypto \<Rightarrow> noise_token list \<Rightarrow> bytes \<Rightarrow> handshake_state \<Rightarrow> noise_error + bytes \<times> handshake_state" where
  "read_tokens c [] rest hs = Inr (rest, hs)"
| "read_tokens c (t # ts) rest hs = and_then (read_token c t rest hs) (\<lambda>(rest, hs). read_tokens c ts rest hs)"

text \<open>\<open>#step\<close>: the turn, the index and the flag of a failure.\<close>

definition hs_step :: "bool \<Rightarrow> (noise_token list \<Rightarrow> handshake_state \<Rightarrow> noise_error + bytes \<times> handshake_state) \<Rightarrow> handshake_state \<Rightarrow>
    (noise_error + bytes) \<times> handshake_state" where
  "hs_step writing run hs =
     (if hs_failed hs then (Inl HandshakeHasFailed, hs)
      else case (if length (hs_messages hs) \<le> hs_index hs then Inl HandshakeDone
            else if writing \<noteq> (hs_initiator hs = (hs_index hs mod 2 = 0)) then Inl NotThisTurn
            else run (hs_messages hs ! hs_index hs) hs) of
          Inl e \<Rightarrow> (Inl (if is_noise_error e then e else HandshakeWrapped), hs\<lparr>hs_failed := True\<rparr>)
        | Inr (out, hs') \<Rightarrow> (Inr out, hs'\<lparr>hs_index := hs_index hs' + 1\<rparr>))"

definition write_run :: "crypto \<Rightarrow> key_pair \<Rightarrow> bytes \<Rightarrow> noise_token list \<Rightarrow> handshake_state \<Rightarrow> noise_error + bytes \<times> handshake_state" where
  "write_run c fresh payload ts hs = and_then (write_tokens c fresh ts hs) (\<lambda>(parts, hs).
     and_then (encrypt_with c payload hs) (\<lambda>(ct, hs).
       if MAX_HANDSHAKE_MESSAGE_BYTES < length (parts @ ct) then Inl HandshakeTooLarge else Inr (parts @ ct, hs)))"

definition writeMessage :: "crypto \<Rightarrow> key_pair \<Rightarrow> bytes \<Rightarrow> handshake_state \<Rightarrow> (noise_error + bytes) \<times> handshake_state" where
  "writeMessage c fresh payload hs = hs_step True (write_run c fresh payload) hs"

definition read_run :: "crypto \<Rightarrow> bytes \<Rightarrow> noise_token list \<Rightarrow> handshake_state \<Rightarrow> noise_error + bytes \<times> handshake_state" where
  "read_run c message ts hs =
     (if MAX_HANDSHAKE_MESSAGE_BYTES < length message then Inl HandshakeTooLarge
      else and_then (read_tokens c ts message hs) (\<lambda>(rest, hs). decrypt_with c rest hs))"

definition readMessage :: "crypto \<Rightarrow> bytes \<Rightarrow> handshake_state \<Rightarrow> (noise_error + bytes) \<times> handshake_state" where
  "readMessage c message hs = hs_step False (read_run c message) hs"

text \<open>\<open>split\<close>: this side's sending and receiving cipher states.\<close>

definition hs_split_keys :: "crypto \<Rightarrow> handshake_state \<Rightarrow> (noise_error + cipher_state \<times> cipher_state) \<times> handshake_state" where
  "hs_split_keys c hs =
     (if hs_failed hs \<or> \<not> isComplete hs then (Inl HandshakeIncomplete, hs)
      else if hs_split hs then (Inl AlreadySplit, hs)
      else (and_then (sym_split c (hs_symmetric hs)) (\<lambda>(i2r, r2i). Inr (if hs_initiator hs then (i2r, r2i) else (r2i, i2r))),
            hs\<lparr>hs_split := True\<rparr>))"

section \<open>The transport\<close>

datatype noise_message = TextMessage unicode | BinaryMessage bytes

record noise_transport =
  tr_send :: cipher_state
  tr_receive :: cipher_state
  tr_maxSend :: nat
  tr_maxReceive :: nat
  tr_closed :: bool

definition new_transport :: "cipher_state \<Rightarrow> cipher_state \<Rightarrow> nat \<Rightarrow> nat \<Rightarrow> noise_error + noise_transport" where
  "new_transport send receive maxSend maxReceive =
     (if \<not> hasKey send \<or> \<not> hasKey receive then Inl TransportNeedsKeys
      else Inr \<lparr>tr_send = send, tr_receive = receive, tr_maxSend = maxSend, tr_maxReceive = maxReceive, tr_closed = False\<rparr>)"

definition tr_encrypt :: "crypto \<Rightarrow> noise_message \<Rightarrow> noise_transport \<Rightarrow> (noise_error + bytes) \<times> noise_transport" where
  "tr_encrypt c data tr =
     (if tr_closed tr then (Inl TransportClosed, tr)
      else let (kind, body) = (case data of TextMessage us \<Rightarrow> (NOISE_TEXT, utf8_encode us) | BinaryMessage bs \<Rightarrow> (NOISE_BINARY, bs)) in
        if tr_maxSend tr < length body then (Inl OverSendLimit, tr)
        else (case encryptWithAd c (tr_send tr) [] (kind # body) of
                Inl e \<Rightarrow> (Inl e, tr\<lparr>tr_closed := True\<rparr>)
              | Inr (ct, cs) \<Rightarrow> (Inr ct, tr\<lparr>tr_send := cs\<rparr>)))"

definition read_plaintext :: "bytes \<Rightarrow> noise_error + noise_message" where
  "read_plaintext plaintext = (case plaintext of
       [] \<Rightarrow> Inl UnknownMessageType
     | kind # body \<Rightarrow>
         if kind = NOISE_TEXT then (case utf8_decode body of None \<Rightarrow> Inl NotUtf8 | Some us \<Rightarrow> Inr (TextMessage us))
         else if kind = NOISE_BINARY then Inr (BinaryMessage body)
         else Inl UnknownMessageType)"

definition tr_decrypt :: "crypto \<Rightarrow> bytes \<Rightarrow> noise_transport \<Rightarrow> (noise_error + noise_message) \<times> noise_transport" where
  "tr_decrypt c message tr =
     (if tr_closed tr then (Inl TransportClosed, tr)
      else case (if tr_maxReceive tr + 1 + TAG_BYTES < length message then Inl MessageTooLarge
              else and_then (decryptWithAd c (tr_receive tr) [] message)
                (\<lambda>(plaintext, cs). and_then (read_plaintext plaintext) (\<lambda>m. Inr (m, cs)))) of
          Inl e \<Rightarrow> (Inl (if is_noise_error e then e else MessageNotValid), tr\<lparr>tr_closed := True\<rparr>)
        | Inr (m, cs) \<Rightarrow> (Inr m, tr\<lparr>tr_receive := cs\<rparr>))"

end
