(* ===== verification/Noise_Laws.thy ===== *)
theory Noise_Laws
  imports Noise
begin

text \<open>
  Laws of the handshake: what one side writes the other reads, token by token, with both symmetric
  states equal afterwards. The primitives are required to be what their documentation says.
\<close>

section \<open>What is required of the primitives\<close>

text \<open>
  Sealing keeps the length, gives a tag of sixteen bytes, and opening undoes it; digests have 32
  bytes; public keys have 32 bytes, and X25519 of honestly made keys is defined and symmetric.
\<close>

definition crypto_ok :: "crypto \<Rightarrow> bool" where
  "crypto_ok c \<longleftrightarrow>
     (\<forall>k n ad pt body tag. seal_aead c k n ad pt = (body, tag) \<longrightarrow>
        length body = length pt \<and> length tag = TAG_BYTES \<and> open_aead c k n ad tag body = Some pt) \<and>
     (\<forall>k x. length (hmac_256 c k x) = KEY_BYTES) \<and> (\<forall>x. length (sha_256 c x) = HASH_BYTES) \<and>
     (\<forall>a. length a = KEY_BYTES \<longrightarrow> length (public_of c a) = KEY_BYTES) \<and>
     (\<forall>a b. length a = KEY_BYTES \<longrightarrow> length b = KEY_BYTES \<longrightarrow>
        x_25519 c a (public_of c b) = x_25519 c b (public_of c a) \<and> x_25519 c a (public_of c b) \<noteq> None)"

definition key_ok :: "crypto \<Rightarrow> key_pair \<Rightarrow> bool" where
  "key_ok c kp \<longleftrightarrow> length (privateKey kp) = KEY_BYTES \<and> publicKey kp = public_of c (privateKey kp)"

lemma crypto_seal:
  "crypto_ok c \<Longrightarrow> seal_aead c k n ad pt = (body, tag) \<Longrightarrow> length body = length pt \<and> length tag = TAG_BYTES \<and> open_aead c k n ad tag body = Some pt"
  unfolding crypto_ok_def by blast

lemma crypto_hmac: "crypto_ok c \<Longrightarrow> length (hmac_256 c k x) = KEY_BYTES"
  unfolding crypto_ok_def by blast

lemma crypto_sha: "crypto_ok c \<Longrightarrow> length (sha_256 c x) = HASH_BYTES"
  unfolding crypto_ok_def by blast

lemma key_ok_length: "crypto_ok c \<Longrightarrow> key_ok c kp \<Longrightarrow> length (publicKey kp) = KEY_BYTES"
  unfolding crypto_ok_def key_ok_def by simp

lemma crypto_dh: "crypto_ok c \<Longrightarrow> key_ok c a \<Longrightarrow> key_ok c b \<Longrightarrow> \<exists>k. x25519 c a (publicKey b) = Inr k \<and> x25519 c b (publicKey a) = Inr k"
  unfolding crypto_ok_def key_ok_def x25519_def by (metis (no_types, lifting) option.case_eq_if)

section \<open>Cipher states\<close>

lemma aead_round_trip:
  assumes "crypto_ok c"
  shows "aeadDecrypt c k n ad (aeadEncrypt c k n ad pt) = Inr pt" "length (aeadEncrypt c k n ad pt) = length pt + TAG_BYTES"
proof -
  obtain body tag where s: "seal_aead c k (nonceBytes n) ad pt = (body, tag)" by fastforce
  from crypto_seal [OF assms s] s show "aeadDecrypt c k n ad (aeadEncrypt c k n ad pt) = Inr pt"
    "length (aeadEncrypt c k n ad pt) = length pt + TAG_BYTES"
    by (simp_all add: aeadDecrypt_def aeadEncrypt_def Let_def)
qed

lemma cipher_round_trip:
  "crypto_ok c \<Longrightarrow> encryptWithAd c cs ad pt = Inr (ct, cs') \<Longrightarrow> decryptWithAd c cs ad ct = Inr (pt, cs')"
  by (auto simp: encryptWithAd_def decryptWithAd_def aead_round_trip split: option.splits if_splits)

lemma encrypt_succeeds:
  assumes "crypto_ok c" "cs_n cs < MAX_NONCE"
  shows "\<exists>ct cs'. encryptWithAd c cs ad pt = Inr (ct, cs') \<and> length ct = length pt + (if hasKey cs then TAG_BYTES else 0) \<and>
    cs_n cs' \<le> Suc (cs_n cs)"
  using assms by (auto simp: encryptWithAd_def hasKey_def aead_round_trip split: option.splits)

section \<open>The symmetric state\<close>

lemma mixKey_succeeds: "crypto_ok c \<Longrightarrow> \<exists>s'. mixKey c x s = Inr s' \<and> cs_n (sym_cipher s') = 0"
  by (simp add: mixKey_def hkdf_def new_cipher_def crypto_hmac Let_def)

lemma mixKeyAndHash_succeeds: "crypto_ok c \<Longrightarrow> \<exists>s'. mixKeyAndHash c x s = Inr s' \<and> cs_n (sym_cipher s') = 0"
  by (simp add: mixKeyAndHash_def hkdf_def new_cipher_def crypto_hmac Let_def)

lemma mixHash_cipher [simp]: "sym_cipher (mixHash c d s) = sym_cipher s"
  by (simp add: mixHash_def)

lemma hash_round_trip:
  "crypto_ok c \<Longrightarrow> encryptAndHash c pt s = Inr (ct, s') \<Longrightarrow> decryptAndHash c ct s = Inr (pt, s')"
  by (auto simp: encryptAndHash_def decryptAndHash_def and_then_def cipher_round_trip split: sum.splits prod.splits)

lemma encryptAndHash_succeeds:
  assumes "crypto_ok c" "cs_n (sym_cipher s) < MAX_NONCE"
  shows "\<exists>ct s'. encryptAndHash c pt s = Inr (ct, s') \<and> length ct = length pt + (if hasKey (sym_cipher s) then TAG_BYTES else 0) \<and>
    cs_n (sym_cipher s') \<le> Suc (cs_n (sym_cipher s))"
  using encrypt_succeeds [OF assms, of "sym_h s" pt] by (auto simp: encryptAndHash_def)

lemma split_succeeds:
  "crypto_ok c \<Longrightarrow> \<exists>a b. sym_split c s = Inr (a, b) \<and> hasKey a \<and> hasKey b \<and> cs_n a = 0 \<and> cs_n b = 0"
  by (simp add: sym_split_def hkdf_def new_cipher_def crypto_hmac Let_def hasKey_def)

section \<open>Writer and reader in step\<close>

text \<open>The two sides share the symmetric state and the secret and have opposite roles; the counter is at most \<open>k\<close>.\<close>

definition synced :: "nat \<Rightarrow> handshake_state \<Rightarrow> handshake_state \<Rightarrow> bool" where
  "synced k w r \<longleftrightarrow> hs_symmetric r = hs_symmetric w \<and> hs_psk r = hs_psk w \<and> hs_initiator r = (\<not> hs_initiator w) \<and>
     cs_n (sym_cipher (hs_symmetric w)) \<le> k"

lemma synced_mono: "synced k w r \<Longrightarrow> k \<le> l \<Longrightarrow> synced l w r"
  by (auto simp: synced_def)

text \<open>Writing the tokens \<open>ts\<close> gives \<open>out\<close>, and reading \<open>out\<close>, whatever follows it, takes the reader along.\<close>

definition carries :: "crypto \<Rightarrow> key_pair \<Rightarrow> noise_token list \<Rightarrow> handshake_state \<Rightarrow> handshake_state \<Rightarrow> bytes \<Rightarrow> handshake_state \<Rightarrow> handshake_state \<Rightarrow> bool" where
  "carries c fresh ts w r out w' r' \<longleftrightarrow> write_tokens c fresh ts w = Inr (out, w') \<and> (\<forall>rest. read_tokens c ts (out @ rest) r = Inr (rest, r'))"

lemma carries_Nil: "carries c fresh [] w r [] w r"
  by (simp add: carries_def)

lemma carries_Cons:
  assumes "write_token c fresh t w = Inr (o1, w1)" "\<And>rest. read_token c t (o1 @ rest) r = Inr (rest, r1)"
    and "carries c fresh ts w1 r1 o2 w2 r2"
  shows "carries c fresh (t # ts) w r (o1 @ o2) w2 r2"
  using assms by (simp add: carries_def)

lemma carry_e:
  assumes c: "crypto_ok c" and s: "synced k w r" and e: "e = (case hs_e w of None \<Rightarrow> fresh | Some e \<Rightarrow> e)" "key_ok c e"
  shows "\<exists>s'. write_token c fresh TokE w = Inr (publicKey e, w\<lparr>hs_e := Some e, hs_symmetric := s'\<rparr>) \<and>
    (\<forall>rest. read_token c TokE (publicKey e @ rest) r = Inr (rest, r\<lparr>hs_re := Some (publicKey e), hs_symmetric := s'\<rparr>)) \<and>
    cs_n (sym_cipher s') \<le> k"
proof -
  let ?s = "mixHash c (publicKey e) (hs_symmetric w)"
  obtain s' where s': "mixKey c (publicKey e) ?s = Inr s'" "cs_n (sym_cipher s') = 0" using mixKey_succeeds [OF c] by blast
  have len: "length (publicKey e) = KEY_BYTES" by (rule key_ok_length [OF c e(2)])
  show ?thesis
  proof (cases "hs_psk w")
    case None
    then show ?thesis using s len
      by (intro exI [of _ ?s]) (auto simp: write_token_def read_token_def take_part_def mixEphemeral_def Let_def e(1) [symmetric] synced_def)
  next
    case (Some p)
    then show ?thesis using s len s'
      by (intro exI [of _ s']) (auto simp: write_token_def read_token_def take_part_def mixEphemeral_def with_symmetric_def Let_def e(1) [symmetric] synced_def)
  qed
qed

lemma carry_s:
  assumes c: "crypto_ok c" and s: "synced k w r" "k < MAX_NONCE" and key: "key_ok c (hs_s w)"
  shows "\<exists>ct s'. write_token c fresh TokS w = Inr (ct, w\<lparr>hs_symmetric := s'\<rparr>) \<and>
    (\<forall>rest. read_token c TokS (ct @ rest) r = Inr (rest, r\<lparr>hs_rs := Some (publicKey (hs_s w)), hs_symmetric := s'\<rparr>)) \<and>
    cs_n (sym_cipher s') \<le> Suc k \<and> length ct \<le> 48"
proof -
  have n: "cs_n (sym_cipher (hs_symmetric w)) < MAX_NONCE" using s by (simp add: synced_def)
  obtain ct s' where enc: "encryptAndHash c (publicKey (hs_s w)) (hs_symmetric w) = Inr (ct, s')"
      "length ct = KEY_BYTES + (if hasKey (sym_cipher (hs_symmetric w)) then TAG_BYTES else 0)" "cs_n (sym_cipher s') \<le> Suc (cs_n (sym_cipher (hs_symmetric w)))"
    using encryptAndHash_succeeds [OF c n, of "publicKey (hs_s w)"] key_ok_length [OF c key] by auto
  have sym: "hs_symmetric r = hs_symmetric w" using s(1) by (simp add: synced_def)
  have comm: "r\<lparr>hs_symmetric := s', hs_rs := x\<rparr> = r\<lparr>hs_rs := x, hs_symmetric := s'\<rparr>" for x by (cases r) simp
  have "length ct \<le> 48" using enc(2) by (simp add: KEY_BYTES_def TAG_BYTES_def split: if_splits)
  moreover have "write_token c fresh TokS w = Inr (ct, w\<lparr>hs_symmetric := s'\<rparr>)"
    by (simp add: write_token_def encrypt_with_def enc(1))
  moreover have "read_token c TokS (ct @ rest) r = Inr (rest, r\<lparr>hs_rs := Some (publicKey (hs_s w)), hs_symmetric := s'\<rparr>)" for rest
    using hash_round_trip [OF c enc(1)] by (simp add: read_token_def take_part_def decrypt_with_def sym enc(2) comm)
  ultimately show ?thesis using enc(3) s by (intro exI [of _ ct] exI [of _ s']) (auto simp: synced_def)
qed

lemma carry_dh:
  assumes c: "crypto_ok c" and s: "synced k w r" and "key_ok c a" "key_ok c b"
  shows "\<exists>s'. mix_dh c a (Some (publicKey b)) w = Inr (w\<lparr>hs_symmetric := s'\<rparr>) \<and>
    mix_dh c b (Some (publicKey a)) r = Inr (r\<lparr>hs_symmetric := s'\<rparr>) \<and> cs_n (sym_cipher s') = 0"
proof -
  obtain d where d: "x25519 c a (publicKey b) = Inr d" "x25519 c b (publicKey a) = Inr d" using crypto_dh [OF c assms(3,4)] by blast
  obtain s' where "mixKey c d (hs_symmetric w) = Inr s'" "cs_n (sym_cipher s') = 0" using mixKey_succeeds [OF c] by blast
  with d s show ?thesis by (intro exI [of _ s']) (simp add: mix_dh_def remote_key_def with_symmetric_def synced_def)
qed

text \<open>Who knows which keys once the ephemeral ones have crossed.\<close>

definition knows_e :: "crypto \<Rightarrow> handshake_state \<Rightarrow> handshake_state \<Rightarrow> bool" where
  "knows_e c w r \<longleftrightarrow> (\<exists>ew er. hs_e w = Some ew \<and> hs_e r = Some er \<and> hs_re w = Some (publicKey er) \<and> hs_re r = Some (publicKey ew) \<and>
     key_ok c ew \<and> key_ok c er)"

lemma mix_carried:
  assumes "mixToken c t w = Inr (w\<lparr>hs_symmetric := s'\<rparr>)" "mixToken c t r = Inr (r\<lparr>hs_symmetric := s'\<rparr>)" "t \<noteq> TokE" "t \<noteq> TokS"
  shows "write_token c fresh t w = Inr ([], w\<lparr>hs_symmetric := s'\<rparr>) \<and> (\<forall>rest. read_token c t ([] @ rest) r = Inr (rest, r\<lparr>hs_symmetric := s'\<rparr>))"
  using assms by (simp add: write_token_def read_token_def)

lemma carry_mix:
  assumes c: "crypto_ok c" and s: "synced k w r" and t: "t \<noteq> TokE" "t \<noteq> TokS" and e: "t \<noteq> TokPsk \<Longrightarrow> knows_e c w r"
    and es: "t = TokES \<Longrightarrow> \<not> hs_initiator w \<and> hs_rs r = Some (publicKey (hs_s w)) \<and> key_ok c (hs_s w)"
    and se: "t = TokSE \<Longrightarrow> hs_initiator w \<and> hs_rs r = Some (publicKey (hs_s w)) \<and> key_ok c (hs_s w)"
    and psk: "t = TokPsk \<Longrightarrow> hs_psk w \<noteq> None"
  shows "\<exists>s'. write_token c fresh t w = Inr ([], w\<lparr>hs_symmetric := s'\<rparr>) \<and>
    (\<forall>rest. read_token c t ([] @ rest) r = Inr (rest, r\<lparr>hs_symmetric := s'\<rparr>)) \<and> cs_n (sym_cipher s') = 0"
proof -
  have "\<exists>s'. mixToken c t w = Inr (w\<lparr>hs_symmetric := s'\<rparr>) \<and> mixToken c t r = Inr (r\<lparr>hs_symmetric := s'\<rparr>) \<and> cs_n (sym_cipher s') = 0"
  proof (cases "t = TokPsk")
    case True
    obtain p where p: "hs_psk w = Some p" using psk [OF True] by blast
    obtain s' where "mixKeyAndHash c p (hs_symmetric w) = Inr s'" "cs_n (sym_cipher s') = 0" using mixKeyAndHash_succeeds [OF c] by blast
    with True p s show ?thesis by (intro exI [of _ s']) (simp add: mixToken_def with_symmetric_def synced_def)
  next
    case False
    from e [OF False] obtain ew er where k: "hs_e w = Some ew" "hs_e r = Some er" "hs_re w = Some (publicKey er)" "hs_re r = Some (publicKey ew)"
      "key_ok c ew" "key_ok c er" unfolding knows_e_def by blast
    have role: "hs_initiator r = (\<not> hs_initiator w)" using s by (simp add: synced_def)
    from False t consider "t = TokEE" | "t = TokES" | "t = TokSE" by (cases t) auto
    then show ?thesis
    proof cases
      case 1
      with carry_dh [OF c s k(5,6)] k show ?thesis by (simp add: mixToken_def)
    next
      case 2
      with carry_dh [OF c s _ k(6), of "hs_s w"] es k role show ?thesis by (simp add: mixToken_def)
    next
      case 3
      with carry_dh [OF c s _ k(6), of "hs_s w"] se k role show ?thesis by (simp add: mixToken_def)
    qed
  qed
  then show ?thesis using mix_carried [OF _ _ t] by blast
qed

text \<open>A message: its tokens, then its payload.\<close>

lemma message_carried:
  assumes c: "crypto_ok c" and car: "carries c fresh ts w r out w' r'" and s: "synced k w' r'" "k < MAX_NONCE"
    and len: "length out + length p + TAG_BYTES \<le> MAX_HANDSHAKE_MESSAGE_BYTES"
    and turn: "hs_initiator w = (hs_index w mod 2 = 0)" "hs_initiator r = (\<not> hs_initiator w)" "hs_index r = hs_index w"
      "hs_messages r = hs_messages w" "hs_index w < length (hs_messages w)" "hs_messages w ! hs_index w = ts"
      "\<not> hs_failed w" "\<not> hs_failed r"
  shows "\<exists>m s'. writeMessage c fresh p w = (Inr m, w'\<lparr>hs_symmetric := s', hs_index := hs_index w' + 1\<rparr>) \<and>
    readMessage c m r = (Inr p, r'\<lparr>hs_symmetric := s', hs_index := hs_index r' + 1\<rparr>) \<and> cs_n (sym_cipher s') \<le> Suc k"
proof -
  have n: "cs_n (sym_cipher (hs_symmetric w')) < MAX_NONCE" using s by (simp add: synced_def)
  obtain ct s' where enc: "encryptAndHash c p (hs_symmetric w') = Inr (ct, s')"
      "length ct = length p + (if hasKey (sym_cipher (hs_symmetric w')) then TAG_BYTES else 0)" "cs_n (sym_cipher s') \<le> Suc (cs_n (sym_cipher (hs_symmetric w')))"
    using encryptAndHash_succeeds [OF c n, of p] by auto
  have small: "\<not> MAX_HANDSHAKE_MESSAGE_BYTES < length (out @ ct)" using len enc(2) by (simp split: if_splits)
  have sym: "hs_symmetric r' = hs_symmetric w'" using s(1) by (simp add: synced_def)
  have "write_run c fresh p ts w = Inr (out @ ct, w'\<lparr>hs_symmetric := s'\<rparr>)"
    using car small by (simp add: write_run_def carries_def encrypt_with_def enc(1))
  moreover have "read_run c (out @ ct) ts r = Inr (p, r'\<lparr>hs_symmetric := s'\<rparr>)"
    using car small hash_round_trip [OF c enc(1)] by (simp add: read_run_def carries_def decrypt_with_def sym)
  ultimately show ?thesis
    using turn enc(3) s by (intro exI [of _ "out @ ct"] exI [of _ s']) (auto simp: writeMessage_def readMessage_def hs_step_def synced_def)
qed


section \<open>The three messages\<close>

lemma first_message:
  assumes c: "crypto_ok c" and e: "key_ok c eI" and s: "synced 0 w r" and none: "hs_e w = None"
  shows "\<exists>out s'. carries c eI [TokE] w r out (w\<lparr>hs_e := Some eI, hs_symmetric := s'\<rparr>) (r\<lparr>hs_re := Some (publicKey eI), hs_symmetric := s'\<rparr>) \<and>
    cs_n (sym_cipher s') = 0 \<and> length out = 32"
proof -
  obtain s' where "write_token c eI TokE w = Inr (publicKey eI, w\<lparr>hs_e := Some eI, hs_symmetric := s'\<rparr>)"
      "\<forall>rest. read_token c TokE (publicKey eI @ rest) r = Inr (rest, r\<lparr>hs_re := Some (publicKey eI), hs_symmetric := s'\<rparr>)" "cs_n (sym_cipher s') \<le> 0"
    using carry_e [OF c s _ e, where fresh = eI] none by auto
  with carries_Cons [OF _ _ carries_Nil] key_ok_length [OF c e] show ?thesis
    by (metis KEY_BYTES_def append_Nil2 le_zero_eq)
qed

lemma second_tokens:
  assumes c: "crypto_ok c" and e: "key_ok c eR" "key_ok c eI" and s: "synced k w r" "k < 10" and none: "hs_e w = None" "hs_e r = Some eI"
    and re: "hs_re w = Some (publicKey eI)" and role: "\<not> hs_initiator w" and key: "key_ok c (hs_s w)"
  shows "\<exists>out s'. carries c eR [TokE, TokEE, TokS, TokES] w r out (w\<lparr>hs_e := Some eR, hs_symmetric := s'\<rparr>)
      (r\<lparr>hs_re := Some (publicKey eR), hs_rs := Some (publicKey (hs_s w)), hs_symmetric := s'\<rparr>) \<and>
    cs_n (sym_cipher s') = 0 \<and> length out \<le> 80"
proof -
  have role': "hs_initiator r" using s role by (simp add: synced_def)
  obtain s1 where 1: "write_token c eR TokE w = Inr (publicKey eR, w\<lparr>hs_e := Some eR, hs_symmetric := s1\<rparr>)"
      "\<And>rest. read_token c TokE (publicKey eR @ rest) r = Inr (rest, r\<lparr>hs_re := Some (publicKey eR), hs_symmetric := s1\<rparr>)" "cs_n (sym_cipher s1) \<le> k"
    using carry_e [OF c s(1) _ e(1), where fresh = eR] none by auto
  let ?w1 = "w\<lparr>hs_e := Some eR, hs_symmetric := s1\<rparr>" and ?r1 = "r\<lparr>hs_re := Some (publicKey eR), hs_symmetric := s1\<rparr>"
  have s1: "synced k ?w1 ?r1" using s(1) 1(3) by (simp add: synced_def)
  have k1: "knows_e c ?w1 ?r1" using none re e by (simp add: knows_e_def)
  obtain s2 where 2: "write_token c eR TokEE ?w1 = Inr ([], ?w1\<lparr>hs_symmetric := s2\<rparr>)"
      "\<And>rest. read_token c TokEE ([] @ rest) ?r1 = Inr (rest, ?r1\<lparr>hs_symmetric := s2\<rparr>)" "cs_n (sym_cipher s2) = 0"
    using carry_mix [OF c s1, of TokEE eR] k1 by auto
  let ?w2 = "w\<lparr>hs_e := Some eR, hs_symmetric := s2\<rparr>" and ?r2 = "r\<lparr>hs_re := Some (publicKey eR), hs_symmetric := s2\<rparr>"
  have s2: "synced 0 ?w2 ?r2" using s(1) 2(3) by (simp add: synced_def)
  obtain ct s3 where 3: "write_token c eR TokS ?w2 = Inr (ct, ?w2\<lparr>hs_symmetric := s3\<rparr>)"
      "\<And>rest. read_token c TokS (ct @ rest) ?r2 = Inr (rest, ?r2\<lparr>hs_rs := Some (publicKey (hs_s w)), hs_symmetric := s3\<rparr>)"
      "cs_n (sym_cipher s3) \<le> Suc 0" "length ct \<le> 48"
    using carry_s [OF c s2, of eR] key by (auto simp: MAX_NONCE_def)
  let ?w3 = "w\<lparr>hs_e := Some eR, hs_symmetric := s3\<rparr>"
    and ?r3 = "r\<lparr>hs_re := Some (publicKey eR), hs_rs := Some (publicKey (hs_s w)), hs_symmetric := s3\<rparr>"
  have s3: "synced 1 ?w3 ?r3" using s(1) 3(3) by (simp add: synced_def)
  have k3: "knows_e c ?w3 ?r3" using none re e by (simp add: knows_e_def)
  obtain s4 where 4: "write_token c eR TokES ?w3 = Inr ([], ?w3\<lparr>hs_symmetric := s4\<rparr>)"
      "\<And>rest. read_token c TokES ([] @ rest) ?r3 = Inr (rest, ?r3\<lparr>hs_symmetric := s4\<rparr>)" "cs_n (sym_cipher s4) = 0"
    using carry_mix [OF c s3, of TokES eR] k3 role key by auto
  have "carries c eR [TokE, TokEE, TokS, TokES] w r (publicKey eR @ [] @ ct @ [] @ []) (?w3\<lparr>hs_symmetric := s4\<rparr>) (?r3\<lparr>hs_symmetric := s4\<rparr>)"
    using 1(1,2) 2(1,2) 3(1,2) 4(1,2) by (simp add: carries_def)
  then show ?thesis using 4(3) 3(4) key_ok_length [OF c e(1)] by (fastforce simp: KEY_BYTES_def)
qed


lemma carries_append_psk:
  assumes c: "crypto_ok c" and car: "carries c f ts w r out w' r'" and s: "synced k w' r'" and psk: "hs_psk w' \<noteq> None"
  shows "\<exists>s'. carries c f (ts @ [TokPsk]) w r out (w'\<lparr>hs_symmetric := s'\<rparr>) (r'\<lparr>hs_symmetric := s'\<rparr>) \<and> cs_n (sym_cipher s') = 0"
proof -
  obtain s' where 1: "write_token c f TokPsk w' = Inr ([], w'\<lparr>hs_symmetric := s'\<rparr>)"
      "\<And>rest. read_token c TokPsk ([] @ rest) r' = Inr (rest, r'\<lparr>hs_symmetric := s'\<rparr>)" "cs_n (sym_cipher s') = 0"
    using carry_mix [OF c s, of TokPsk f] psk by auto
  have "write_tokens c f (ts @ us) w = and_then (write_tokens c f ts w) (\<lambda>(a, w). and_then (write_tokens c f us w) (\<lambda>(b, w). Inr (a @ b, w)))" for us w
    by (induction ts arbitrary: w) (auto simp: and_then_def split: sum.splits)
  moreover have "read_tokens c (ts @ us) rest r = and_then (read_tokens c ts rest r) (\<lambda>(rest, r). read_tokens c us rest r)" for us rest r
    by (induction ts arbitrary: rest r) (auto simp: and_then_def split: sum.splits)
  ultimately have "carries c f (ts @ [TokPsk]) w r out (w'\<lparr>hs_symmetric := s'\<rparr>) (r'\<lparr>hs_symmetric := s'\<rparr>)"
    using car 1(1,2) by (simp add: carries_def)
  with 1(3) show ?thesis by blast
qed

lemma second_message:
  assumes c: "crypto_ok c" and e: "key_ok c eR" "key_ok c eI" and s: "synced k w r" "k < 10" and none: "hs_e w = None" "hs_e r = Some eI"
    and re: "hs_re w = Some (publicKey eI)" and role: "\<not> hs_initiator w" and key: "key_ok c (hs_s w)"
    and ts: "ts = [TokE, TokEE, TokS, TokES] \<or> ts = [TokE, TokEE, TokS, TokES, TokPsk] \<and> hs_psk w \<noteq> None"
  shows "\<exists>out s'. carries c eR ts w r out (w\<lparr>hs_e := Some eR, hs_symmetric := s'\<rparr>)
      (r\<lparr>hs_re := Some (publicKey eR), hs_rs := Some (publicKey (hs_s w)), hs_symmetric := s'\<rparr>) \<and>
    cs_n (sym_cipher s') = 0 \<and> length out \<le> 80"
proof -
  obtain out s1 where 1: "carries c eR [TokE, TokEE, TokS, TokES] w r out (w\<lparr>hs_e := Some eR, hs_symmetric := s1\<rparr>)
      (r\<lparr>hs_re := Some (publicKey eR), hs_rs := Some (publicKey (hs_s w)), hs_symmetric := s1\<rparr>)" "cs_n (sym_cipher s1) = 0" "length out \<le> 80"
    using second_tokens [OF c e s none re role key] by blast
  have s1: "synced 0 (w\<lparr>hs_e := Some eR, hs_symmetric := s1\<rparr>) (r\<lparr>hs_re := Some (publicKey eR), hs_rs := Some (publicKey (hs_s w)), hs_symmetric := s1\<rparr>)"
    using s 1(2) by (simp add: synced_def)
  from ts show ?thesis
  proof
    assume "ts = [TokE, TokEE, TokS, TokES]"
    with 1 show ?thesis by blast
  next
    assume psk: "ts = [TokE, TokEE, TokS, TokES, TokPsk] \<and> hs_psk w \<noteq> None"
    with carries_append_psk [OF c 1(1) s1] obtain s2 where
      "carries c eR ts w r out (w\<lparr>hs_e := Some eR, hs_symmetric := s2\<rparr>)
         (r\<lparr>hs_re := Some (publicKey eR), hs_rs := Some (publicKey (hs_s w)), hs_symmetric := s2\<rparr>)" "cs_n (sym_cipher s2) = 0"
      by auto
    with 1(3) show ?thesis by blast
  qed
qed

lemma third_message:
  assumes c: "crypto_ok c" and s: "synced k w r" "k < 10" and e: "knows_e c w r" and role: "hs_initiator w" and key: "key_ok c (hs_s w)"
  shows "\<exists>out s'. carries c f [TokS, TokSE] w r out (w\<lparr>hs_symmetric := s'\<rparr>)
      (r\<lparr>hs_rs := Some (publicKey (hs_s w)), hs_symmetric := s'\<rparr>) \<and> cs_n (sym_cipher s') = 0 \<and> length out \<le> 48"
proof -
  have k: "k < MAX_NONCE" using s(2) by (simp add: MAX_NONCE_def)
  obtain ct s1 where 1: "write_token c f TokS w = Inr (ct, w\<lparr>hs_symmetric := s1\<rparr>)"
      "\<And>rest. read_token c TokS (ct @ rest) r = Inr (rest, r\<lparr>hs_rs := Some (publicKey (hs_s w)), hs_symmetric := s1\<rparr>)"
      "cs_n (sym_cipher s1) \<le> Suc k" "length ct \<le> 48"
    using carry_s [OF c s(1) k key] by blast
  let ?w = "w\<lparr>hs_symmetric := s1\<rparr>" and ?r = "r\<lparr>hs_rs := Some (publicKey (hs_s w)), hs_symmetric := s1\<rparr>"
  have s1: "synced (Suc k) ?w ?r" using s(1) 1(3) by (simp add: synced_def)
  have k1: "knows_e c ?w ?r" using e by (simp add: knows_e_def)
  obtain s2 where 2: "write_token c f TokSE ?w = Inr ([], ?w\<lparr>hs_symmetric := s2\<rparr>)"
      "\<And>rest. read_token c TokSE ([] @ rest) ?r = Inr (rest, ?r\<lparr>hs_symmetric := s2\<rparr>)" "cs_n (sym_cipher s2) = 0"
    using carry_mix [OF c s1, of TokSE f] k1 role key by auto
  have "carries c f [TokS, TokSE] w r ct (?w\<lparr>hs_symmetric := s2\<rparr>) (?r\<lparr>hs_symmetric := s2\<rparr>)"
    using 1(1,2) 2(1,2) by (simp add: carries_def)
  with 1(4) 2(3) show ?thesis by (intro exI [of _ ct] exI [of _ s2]) simp
qed


lemma handshake_carried:
  assumes c: "crypto_ok c" and keys: "key_ok c sI" "key_ok c sR" "key_ok c eI" "key_ok c eR"
    and i0: "new_handshake c protocol True prologue sI psk None = Inr i0"
    and r0: "new_handshake c protocol False prologue sR psk None = Inr r0"
    and len: "length p1 \<le> 900" "length p2 \<le> 900" "length p3 \<le> 900"
  shows "\<exists>m1 i1 r1 m2 i2 r2 m3 i3 r3. writeMessage c eI p1 i0 = (Inr m1, i1) \<and> readMessage c m1 r0 = (Inr p1, r1) \<and>
    writeMessage c eR p2 r1 = (Inr m2, r2) \<and> readMessage c m2 i1 = (Inr p2, i2) \<and>
    writeMessage c f p3 i2 = (Inr m3, i3) \<and> readMessage c m3 r2 = (Inr p3, r3) \<and>
    remoteStaticPublicKey i2 = Some (publicKey sR) \<and>
    isComplete i3 \<and> isComplete r3 \<and> remoteStaticPublicKey i3 = Some (publicKey sR) \<and> remoteStaticPublicKey r3 = Some (publicKey sI) \<and>
    hs_symmetric r3 = hs_symmetric i3 \<and> hs_initiator i3 \<and> \<not> hs_initiator r3 \<and> \<not> hs_failed i3 \<and> \<not> hs_failed r3 \<and> \<not> hs_split i3 \<and> \<not> hs_split r3"
proof -
  note new = i0 [unfolded new_handshake_def] r0 [unfolded new_handshake_def]
  have i0': "hs_initiator i0" "hs_s i0 = sI" "hs_e i0 = None" "hs_index i0 = 0" "hs_messages i0 = PATTERNS protocol" "\<not> hs_failed i0" "\<not> hs_split i0" "hs_psk i0 = psk"
    and r0': "\<not> hs_initiator r0" "hs_s r0 = sR" "hs_e r0 = None" "hs_index r0 = 0" "hs_messages r0 = PATTERNS protocol" "\<not> hs_failed r0" "\<not> hs_split r0" "hs_psk r0 = psk"
    and s0: "synced 0 i0 r0" and psk: "protocol = NOISE_XX_PSK2 \<longleftrightarrow> psk \<noteq> None"
    using new by (auto simp: synced_def new_symmetric_def Let_def split: if_splits)
  have n: "length (PATTERNS protocol) = 3" by (cases protocol) simp_all
  obtain ts where p: "PATTERNS protocol = [[TokE], ts, [TokS, TokSE]]"
    and ts: "ts = [TokE, TokEE, TokS, TokES] \<or> ts = [TokE, TokEE, TokS, TokES, TokPsk] \<and> psk \<noteq> None"
    using psk by (cases protocol) auto
  have big: "32 + length p1 + TAG_BYTES \<le> MAX_HANDSHAKE_MESSAGE_BYTES" "80 + length p2 + TAG_BYTES \<le> MAX_HANDSHAKE_MESSAGE_BYTES"
    "48 + length p3 + TAG_BYTES \<le> MAX_HANDSHAKE_MESSAGE_BYTES" "2 < MAX_NONCE" "0 < MAX_NONCE"
    using len by (simp_all add: TAG_BYTES_def MAX_HANDSHAKE_MESSAGE_BYTES_def MAX_NONCE_def)
  \<comment> \<open>message 1\<close>
  obtain o1 s1 where c1: "carries c eI [TokE] i0 r0 o1 (i0\<lparr>hs_e := Some eI, hs_symmetric := s1\<rparr>) (r0\<lparr>hs_re := Some (publicKey eI), hs_symmetric := s1\<rparr>)"
    "cs_n (sym_cipher s1) = 0" "length o1 = 32"
    using first_message [OF c keys(3) s0 i0'(3)] by blast
  have "synced 0 (i0\<lparr>hs_e := Some eI, hs_symmetric := s1\<rparr>) (r0\<lparr>hs_re := Some (publicKey eI), hs_symmetric := s1\<rparr>)"
    using s0 c1(2) by (simp add: synced_def)
  from message_carried [OF c c1(1) this big(5), of p1] c1(3) big(1) i0' r0' p obtain m1 t1 where
    m1: "writeMessage c eI p1 i0 = (Inr m1, i0\<lparr>hs_e := Some eI, hs_symmetric := t1, hs_index := 1\<rparr>)"
      "readMessage c m1 r0 = (Inr p1, r0\<lparr>hs_re := Some (publicKey eI), hs_symmetric := t1, hs_index := 1\<rparr>)" "cs_n (sym_cipher t1) \<le> 1"
    by auto
  \<comment> \<open>message 2\<close>
  let ?i1 = "i0\<lparr>hs_e := Some eI, hs_symmetric := t1, hs_index := 1\<rparr>" and ?r1 = "r0\<lparr>hs_re := Some (publicKey eI), hs_symmetric := t1, hs_index := 1\<rparr>"
  have s1: "synced 1 ?r1 ?i1" using s0 m1(3) by (auto simp: synced_def)
  obtain o2 s2 where c2: "carries c eR ts ?r1 ?i1 o2 (?r1\<lparr>hs_e := Some eR, hs_symmetric := s2\<rparr>)
      (?i1\<lparr>hs_re := Some (publicKey eR), hs_rs := Some (publicKey sR), hs_symmetric := s2\<rparr>)" "cs_n (sym_cipher s2) = 0" "length o2 \<le> 80"
    using second_message [OF c keys(4,3) s1, of ts] i0' r0' keys(2) ts by auto
  have "synced 0 (?r1\<lparr>hs_e := Some eR, hs_symmetric := s2\<rparr>) (?i1\<lparr>hs_re := Some (publicKey eR), hs_rs := Some (publicKey sR), hs_symmetric := s2\<rparr>)"
    using s0 c2(2) by (simp add: synced_def)
  from message_carried [OF c c2(1) this big(5), of p2] c2(3) big(2) i0' r0' p obtain m2 t2 where
    m2: "writeMessage c eR p2 ?r1 = (Inr m2, ?r1\<lparr>hs_e := Some eR, hs_symmetric := t2, hs_index := 2\<rparr>)"
      "readMessage c m2 ?i1 = (Inr p2, ?i1\<lparr>hs_re := Some (publicKey eR), hs_rs := Some (publicKey sR), hs_symmetric := t2, hs_index := 2\<rparr>)" "cs_n (sym_cipher t2) \<le> 1"
    by (auto simp: numeral_2_eq_2)
  \<comment> \<open>message 3\<close>
  let ?r2 = "?r1\<lparr>hs_e := Some eR, hs_symmetric := t2, hs_index := 2\<rparr>"
    and ?i2 = "?i1\<lparr>hs_re := Some (publicKey eR), hs_rs := Some (publicKey sR), hs_symmetric := t2, hs_index := 2\<rparr>"
  have s2: "synced 1 ?i2 ?r2" using s0 m2(3) by (auto simp: synced_def)
  have k2: "knows_e c ?i2 ?r2" using keys by (simp add: knows_e_def)
  obtain o3 s3 where c3: "carries c f [TokS, TokSE] ?i2 ?r2 o3 (?i2\<lparr>hs_symmetric := s3\<rparr>)
      (?r2\<lparr>hs_rs := Some (publicKey sI), hs_symmetric := s3\<rparr>)" "cs_n (sym_cipher s3) = 0" "length o3 \<le> 48"
    using third_message [OF c s2 _ k2, of f] i0' keys(1) by auto
  have "synced 0 (?i2\<lparr>hs_symmetric := s3\<rparr>) (?r2\<lparr>hs_rs := Some (publicKey sI), hs_symmetric := s3\<rparr>)"
    using s0 c3(2) by (simp add: synced_def)
  from message_carried [OF c c3(1) this big(5), of p3] c3(3) big(3) i0' r0' p obtain m3 t3 where
    m3: "writeMessage c f p3 ?i2 = (Inr m3, ?i2\<lparr>hs_symmetric := t3, hs_index := 3\<rparr>)"
      "readMessage c m3 ?r2 = (Inr p3, ?r2\<lparr>hs_rs := Some (publicKey sI), hs_symmetric := t3, hs_index := 3\<rparr>)"
    by (auto simp: eval_nat_numeral)
  show ?thesis
    by (rule exI [of _ m1], rule exI [of _ ?i1], rule exI [of _ ?r1], rule exI [of _ m2], rule exI [of _ ?i2], rule exI [of _ ?r2],
        rule exI [of _ m3], rule exI [of _ "?i2\<lparr>hs_symmetric := t3, hs_index := 3\<rparr>"],
        rule exI [of _ "?r2\<lparr>hs_rs := Some (publicKey sI), hs_symmetric := t3, hs_index := 3\<rparr>"])
      (use m1(1,2) m2(1,2) m3 i0' r0' n in \<open>simp add: isComplete_def remoteStaticPublicKey_def\<close>)
qed

end
