(* ===== verification/Noise_Properties.thy ===== *)
theory Noise_Properties
  imports Noise_Laws
begin

text \<open>
  What the handshake and the transport promise: both sides agree, an error is final, messages arrive
  in the order they were sent, no nonce is used twice, and a frame out of its place is refused. The
  interface \<open>ordered_channel\<close> holds what a sender and a receiver in step guarantee of sequences.
\<close>

section \<open>A channel in step\<close>

locale ordered_channel =
  fixes send :: "'m \<Rightarrow> 's \<Rightarrow> ('e + 'f) \<times> 's" and receive :: "'f \<Rightarrow> 'r \<Rightarrow> ('d + 'm) \<times> 'r"
    and in_step :: "nat \<Rightarrow> 's \<Rightarrow> 'r \<Rightarrow> bool" and fits :: "'s \<Rightarrow> 'm \<Rightarrow> bool"
  assumes carried: "in_step (Suc n) s r \<Longrightarrow> fits s m \<Longrightarrow>
      \<exists>f s' r'. send m s = (Inr f, s') \<and> receive f r = (Inr m, r') \<and> in_step n s' r' \<and> (\<forall>m'. fits s' m' = fits s m')"
begin

lemma all_carried:
  assumes "in_step (length ms) s r" "list_all (fits s) ms"
  shows "\<exists>fs s' r'. run_all send ms s = (Inr fs, s') \<and> run_all receive fs r = (Inr ms, r') \<and> in_step 0 s' r'"
  using assms
proof (induction ms arbitrary: s r)
  case (Cons m ms)
  obtain f s1 r1 where 1: "send m s = (Inr f, s1)" "receive f r = (Inr m, r1)" "in_step (length ms) s1 r1" "\<forall>m'. fits s1 m' = fits s m'"
    using carried [of "length ms" s r m] Cons.prems by auto
  then have "list_all (fits s1) ms" using Cons.prems by (simp add: list_all_iff)
  from Cons.IH [OF 1(3) this] obtain fs s2 r2 where
    "run_all send ms s1 = (Inr fs, s2)" "run_all receive fs r1 = (Inr ms, r2)" "in_step 0 s2 r2" by blast
  with 1 show ?case by (intro exI [of _ "f # fs"] exI [of _ s2] exI [of _ r2]) simp
qed simp

end

section \<open>The transport is an ordered channel\<close>

definition body_of :: "noise_message \<Rightarrow> bytes" where
  "body_of m = (case m of TextMessage us \<Rightarrow> utf8_encode us | BinaryMessage bs \<Rightarrow> bs)"

definition kind_of :: "noise_message \<Rightarrow> byte" where
  "kind_of m = (case m of TextMessage us \<Rightarrow> NOISE_TEXT | BinaryMessage bs \<Rightarrow> NOISE_BINARY)"

text \<open>A message the sender takes: within its limit, and a text of whole code points.\<close>

definition sendable :: "noise_transport \<Rightarrow> noise_message \<Rightarrow> bool" where
  "sendable tr m = (length (body_of m) \<le> tr_maxSend tr \<and> (case m of TextMessage us \<Rightarrow> list_all is_scalar us | BinaryMessage bs \<Rightarrow> True))"

text \<open>Sender and receiver have the same key and counter, and \<open>n\<close> more messages fit before the last nonce.\<close>

definition paired :: "nat \<Rightarrow> noise_transport \<Rightarrow> noise_transport \<Rightarrow> bool" where
  "paired n s r = (tr_receive r = tr_send s \<and> hasKey (tr_send s) \<and> \<not> tr_closed s \<and> \<not> tr_closed r \<and> tr_maxSend s \<le> tr_maxReceive r \<and>
     cs_n (tr_send s) + n \<le> MAX_NONCE)"

lemma tr_encrypt_body:
  "tr_encrypt c m tr = (if tr_closed tr then (Inl TransportClosed, tr) else if tr_maxSend tr < length (body_of m) then (Inl OverSendLimit, tr)
     else case encryptWithAd c (tr_send tr) [] (kind_of m # body_of m) of
         Inl e \<Rightarrow> (Inl e, tr\<lparr>tr_closed := True\<rparr>) | Inr (ct, cs) \<Rightarrow> (Inr ct, tr\<lparr>tr_send := cs\<rparr>))"
  by (simp add: tr_encrypt_def body_of_def kind_of_def split: noise_message.splits)

lemma read_plaintext_body: "sendable tr m \<Longrightarrow> read_plaintext (kind_of m # body_of m) = Inr m"
  by (auto simp: read_plaintext_def kind_of_def body_of_def sendable_def NOISE_TEXT_def NOISE_BINARY_def utf8_round_trip split: noise_message.splits)

lemma transport_carried:
  assumes c: "crypto_ok c" and p: "paired (Suc n) s r" and m: "sendable s m"
  shows "\<exists>f s' r'. tr_encrypt c m s = (Inr f, s') \<and> tr_decrypt c f r = (Inr m, r') \<and> paired n s' r' \<and> sendable s' = sendable s"
proof -
  have n: "cs_n (tr_send s) < MAX_NONCE" using p by (simp add: paired_def)
  obtain k where k: "cs_key (tr_send s) = Some k" using p by (auto simp: paired_def hasKey_def)
  let ?cs = "(tr_send s)\<lparr>cs_n := cs_n (tr_send s) + 1\<rparr>" and ?f = "aeadEncrypt c k (cs_n (tr_send s)) [] (kind_of m # body_of m)"
  have enc: "encryptWithAd c (tr_send s) [] (kind_of m # body_of m) = Inr (?f, ?cs)" using n k by (simp add: encryptWithAd_def)
  have len: "length ?f = length (body_of m) + 1 + TAG_BYTES" by (simp add: aead_round_trip [OF c])
  have small: "\<not> tr_maxSend s < length (body_of m)" "\<not> tr_maxReceive r + 1 + TAG_BYTES < length ?f"
    using m p by (auto simp: sendable_def paired_def len)
  have "tr_encrypt c m s = (Inr ?f, s\<lparr>tr_send := ?cs\<rparr>)" using p enc small(1) by (simp add: tr_encrypt_body paired_def)
  moreover have "tr_decrypt c ?f r = (Inr m, r\<lparr>tr_receive := ?cs\<rparr>)"
    using p cipher_round_trip [OF c enc] small(2) read_plaintext_body [OF m] by (simp add: tr_decrypt_def paired_def)
  moreover have "paired n (s\<lparr>tr_send := ?cs\<rparr>) (r\<lparr>tr_receive := ?cs\<rparr>)" using p by (simp add: paired_def hasKey_def)
  moreover have "sendable (s\<lparr>tr_send := ?cs\<rparr>) = sendable s" by (simp add: sendable_def fun_eq_iff)
  ultimately show ?thesis by blast
qed

interpretation noise_channel: ordered_channel "tr_encrypt c" "tr_decrypt c" "\<lambda>n s r. crypto_ok c \<and> paired n s r" sendable for c
proof unfold_locales
  fix n s r m
  assume "crypto_ok c \<and> paired (Suc n) s r" "sendable s m"
  with transport_carried [of c n s r m] show "\<exists>f s' r'. tr_encrypt c m s = (Inr f, s') \<and> tr_decrypt c f r = (Inr m, r') \<and>
      (crypto_ok c \<and> paired n s' r') \<and> (\<forall>m'. sendable s' m' = sendable s m')" by auto
qed

section \<open>Errors are final\<close>

datatype handshake_call = CallWrite key_pair bytes | CallRead bytes

fun call_handshake :: "crypto \<Rightarrow> handshake_call \<Rightarrow> handshake_state \<Rightarrow> (noise_error + bytes) \<times> handshake_state" where
  "call_handshake c (CallWrite fresh payload) hs = writeMessage c fresh payload hs"
| "call_handshake c (CallRead message) hs = readMessage c message hs"

datatype transport_call = CallEncrypt noise_message | CallDecrypt bytes

fun call_transport :: "crypto \<Rightarrow> transport_call \<Rightarrow> noise_transport \<Rightarrow> noise_error option \<times> noise_transport" where
  "call_transport c (CallEncrypt m) tr = (case tr_encrypt c m tr of (Inl e, tr') \<Rightarrow> (Some e, tr') | (Inr _, tr') \<Rightarrow> (None, tr'))"
| "call_transport c (CallDecrypt f) tr = (case tr_decrypt c f tr of (Inl e, tr') \<Rightarrow> (Some e, tr') | (Inr _, tr') \<Rightarrow> (None, tr'))"

lemma hs_step_error: "hs_step w run hs = (Inl e, hs') \<Longrightarrow> hs_failed hs'"
  by (auto simp: hs_step_def split: if_splits sum.splits)

lemma handshake_call_error: "call_handshake c call hs = (Inl e, hs') \<Longrightarrow> hs_failed hs'"
  by (cases call) (auto simp: writeMessage_def readMessage_def dest: hs_step_error)

lemma handshake_call_failed: "hs_failed hs \<Longrightarrow> call_handshake c call hs = (Inl HandshakeHasFailed, hs)"
  by (cases call) (simp_all add: writeMessage_def readMessage_def hs_step_def)

lemma transport_call_error: "call_transport c call tr = (Some e, tr') \<Longrightarrow> tr_closed tr' \<or> e = OverSendLimit \<and> tr' = tr"
  by (cases call) (auto simp: tr_encrypt_body tr_decrypt_def split: if_splits sum.splits prod.splits)

lemma transport_call_closed: "tr_closed tr \<Longrightarrow> call_transport c call tr = (Some TransportClosed, tr)"
  by (cases call) (simp_all add: tr_encrypt_body tr_decrypt_def)


section \<open>Nonces and frames out of place\<close>

text \<open>The frames of a sequence of sends: the counters they use follow each other.\<close>

lemma tr_encrypt_nonce:
  assumes "cs_key (tr_send s) = Some k" "cs_n (tr_send s) \<le> MAX_NONCE" "tr_encrypt c m s = (out, s')"
  shows "case out of
      Inr f \<Rightarrow> f = aeadEncrypt c k (cs_n (tr_send s)) [] (kind_of m # body_of m) \<and> cs_n (tr_send s) < MAX_NONCE \<and>
        cs_key (tr_send s') = Some k \<and> cs_n (tr_send s') = Suc (cs_n (tr_send s))
    | Inl _ \<Rightarrow> tr_send s' = tr_send s"
  using assms by (auto simp: tr_encrypt_body encryptWithAd_def split: if_splits)

definition frames_of :: "('e + 'a) list \<Rightarrow> 'a list" where
  "frames_of rs = [f. Inr f \<leftarrow> rs]"

lemma frames_of_simps [simp]: "frames_of [] = []" "frames_of (Inr f # rs) = f # frames_of rs" "frames_of (Inl e # rs) = frames_of rs"
  by (simp_all add: frames_of_def)

lemma frames_nonces:
  assumes "run_each (tr_encrypt c) ms s = (rs, s')" "cs_key (tr_send s) = Some k" "cs_n (tr_send s) \<le> MAX_NONCE"
  shows "\<exists>pts. length pts = length (frames_of rs) \<and> cs_n (tr_send s') = cs_n (tr_send s) + length pts \<and> cs_n (tr_send s') \<le> MAX_NONCE \<and>
    frames_of rs = map2 (\<lambda>n pt. aeadEncrypt c k n [] pt) [cs_n (tr_send s)..<cs_n (tr_send s) + length pts] pts"
  using assms
proof (induction ms arbitrary: s rs)
  case Nil
  then show ?case by simp
next
  case (Cons m ms)
  obtain out s1 where 1: "tr_encrypt c m s = (out, s1)" by fastforce
  obtain rs2 where 2: "run_each (tr_encrypt c) ms s1 = (rs2, s')" "rs = out # rs2" using Cons.prems(1) 1 by (auto split: prod.splits)
  note step = tr_encrypt_nonce [OF Cons.prems(2,3) 1]
  show ?case
  proof (cases out)
    case (Inl e)
    with step Cons.IH [OF 2(1)] Cons.prems 2 show ?thesis by simp
  next
    case (Inr f)
    have st: "f = aeadEncrypt c k (cs_n (tr_send s)) [] (kind_of m # body_of m)" "cs_key (tr_send s1) = Some k"
      "cs_n (tr_send s1) = Suc (cs_n (tr_send s))" "Suc (cs_n (tr_send s)) \<le> MAX_NONCE" using step Inr by simp_all
    obtain pts where pts: "length pts = length (frames_of rs2)" "cs_n (tr_send s') = Suc (cs_n (tr_send s)) + length pts"
        "cs_n (tr_send s') \<le> MAX_NONCE" "frames_of rs2 = map2 (\<lambda>n pt. aeadEncrypt c k n [] pt) [Suc (cs_n (tr_send s))..<Suc (cs_n (tr_send s)) + length pts] pts"
      using Cons.IH [OF 2(1) st(2)] st(4) unfolding st(3) by blast
    have up: "[cs_n (tr_send s)..<Suc (cs_n (tr_send s) + length pts)] = cs_n (tr_send s) # [Suc (cs_n (tr_send s))..<Suc (cs_n (tr_send s)) + length pts]"
      by (simp add: upt_conv_Cons del: upt_Suc)
    show ?thesis using pts unfolding 2(2) Inr st(1)
      by (intro exI [of _ "(kind_of m # body_of m) # pts"]) (simp add: up del: upt_Suc)
  qed
qed

lemma nonceBytes_inj: "m < 2 ^ 64 \<Longrightarrow> n < 2 ^ 64 \<Longrightarrow> nonceBytes m = nonceBytes n \<Longrightarrow> m = n"
  using le_bytes_inj [of m 8 n] by (simp add: nonceBytes_def)

text \<open>What authentication adds: opening succeeds only on the sealing of what it returns, under the same key and nonce.\<close>

definition authentic :: "crypto \<Rightarrow> bool" where
  "authentic c \<longleftrightarrow> (\<forall>k n ad tag body pt. open_aead c k n ad tag body = Some pt \<longrightarrow> seal_aead c k n ad pt = (body, tag))"

lemma aeadDecrypt_authentic:
  assumes "authentic c" "aeadDecrypt c k n ad ct = Inr pt"
  shows "ct = aeadEncrypt c k n ad pt"
proof -
  let ?cut = "length ct - TAG_BYTES"
  have "open_aead c k (nonceBytes n) ad (drop ?cut ct) (take ?cut ct) = Some pt"
    using assms(2) by (auto simp: aeadDecrypt_def Let_def split: if_splits option.splits)
  then have "seal_aead c k (nonceBytes n) ad pt = (take ?cut ct, drop ?cut ct)" using assms(1) unfolding authentic_def by blast
  then show ?thesis by (simp add: aeadEncrypt_def)
qed

lemma aead_not_sealed:
  assumes "crypto_ok c" "authentic c" "TAG_BYTES \<le> length f" "\<And>pt. f \<noteq> aeadEncrypt c k n ad pt"
  shows "aeadDecrypt c k n ad f = Inl AuthFailed"
proof (cases "aeadDecrypt c k n ad f")
  case (Inl e)
  with assms(3) show ?thesis by (auto simp: aeadDecrypt_def Let_def split: if_splits option.splits)
next
  case (Inr pt)
  with aeadDecrypt_authentic [OF assms(2)] assms(4) show ?thesis by blast
qed

text \<open>The receiver's counter has moved by one for every frame it accepted.\<close>

lemma accepted_count:
  assumes "run_all (tr_decrypt c) fs r = (Inr got, r')" "hasKey (tr_receive r)"
  shows "tr_receive r' = (tr_receive r)\<lparr>cs_n := cs_n (tr_receive r) + length fs\<rparr> \<and> tr_closed r' = tr_closed r \<and> tr_maxReceive r' = tr_maxReceive r"
  using assms
proof (induction fs arbitrary: r got)
  case (Cons f fs)
  obtain m r1 got' where 1: "tr_decrypt c f r = (Inr m, r1)" "run_all (tr_decrypt c) fs r1 = (Inr got', r')"
    using Cons.prems(1) by (auto split: prod.splits sum.splits)
  have r1: "r1 = r\<lparr>tr_receive := (tr_receive r)\<lparr>cs_n := cs_n (tr_receive r) + 1\<rparr>\<rparr>"
    using 1(1) Cons.prems(2) by (auto simp: tr_decrypt_def decryptWithAd_def hasKey_def and_then_def split: if_splits sum.splits)
  then have "hasKey (tr_receive r1)" using Cons.prems(2) by (simp add: hasKey_def)
  with Cons.IH [OF 1(2)] r1 show ?case by simp
qed simp

text \<open>A frame the sender made fits what the receiver takes.\<close>

lemma frames_fit:
  assumes "run_each (tr_encrypt c) ms s = (rs, s')" "crypto_ok c" "hasKey (tr_send s)" "f \<in> set (frames_of rs)"
  shows "TAG_BYTES \<le> length f \<and> length f \<le> tr_maxSend s + 1 + TAG_BYTES"
  using assms(1,3,4)
proof (induction ms arbitrary: s rs)
  case (Cons m ms)
  obtain out s1 rs1 where 1: "tr_encrypt c m s = (out, s1)" "run_each (tr_encrypt c) ms s1 = (rs1, s')" "rs = out # rs1"
    using Cons.prems(1) by (auto split: prod.splits)
  have keep: "tr_maxSend s1 = tr_maxSend s" "hasKey (tr_send s1)"
    using 1(1) Cons.prems(2) by (auto simp: tr_encrypt_body encryptWithAd_def hasKey_def split: if_splits sum.splits prod.splits option.splits)
  have new: "length g = length (body_of m) + 1 + TAG_BYTES \<and> length (body_of m) \<le> tr_maxSend s" if "out = Inr g" for g
    using 1(1) that Cons.prems(2) by (auto simp: tr_encrypt_body encryptWithAd_def hasKey_def aead_round_trip(2) [OF assms(2)] split: if_splits option.splits)
  show ?case
  proof (cases "f \<in> set (frames_of rs1)")
    case True
    with Cons.IH [OF 1(2) keep(2)] keep(1) show ?thesis by simp
  next
    case False
    with Cons.prems(3) 1(3) have "out = Inr f" by (cases out) auto
    with new show ?thesis by simp
  qed
qed simp

section \<open>Primitives for the examples\<close>

definition pad_to :: "nat \<Rightarrow> bytes \<Rightarrow> bytes" where
  "pad_to n bs = take n (bs @ replicate n 0)"

lemma length_pad_to [simp]: "length (pad_to n bs) = n"
  by (simp add: pad_to_def)

definition toy_crypto :: crypto where
  "toy_crypto = \<lparr>seal_aead = \<lambda>k n ad pt. (pt, pad_to 16 n),
     open_aead = \<lambda>k n ad tag body. if tag = pad_to 16 n then Some body else None,
     sha_256 = pad_to 32, hmac_256 = \<lambda>k x. pad_to 32 (x @ k), x_25519 = \<lambda>a b. Some (map2 (+) a b), public_of = \<lambda>a. a\<rparr>"

lemma map2_plus_commute: "map2 (+) a b = map2 (+) b (a :: bytes)"
  by (induction a b rule: list_induct2') (simp_all add: add.commute)

lemma toy_crypto_ok: "crypto_ok toy_crypto"
  by (auto simp: crypto_ok_def toy_crypto_def TAG_BYTES_def KEY_BYTES_def HASH_BYTES_def map2_plus_commute)

lemma pad_nonce: "pad_to 16 (nonceBytes n) = nonceBytes n @ replicate 4 0"
proof -
  have "length (nonceBytes n) = 12" by (simp add: nonceBytes_def)
  moreover have "replicate 16 0 = replicate 4 0 @ replicate 12 (0 :: byte)" by (simp flip: replicate_add)
  ultimately show ?thesis by (simp add: pad_to_def)
qed

lemma toy_authentic: "authentic toy_crypto"
  by (auto simp: authentic_def toy_crypto_def split: if_splits)

definition toy_key :: "byte \<Rightarrow> key_pair" where
  "toy_key b = \<lparr>publicKey = replicate 32 b, privateKey = replicate 32 b\<rparr>"

lemma toy_key_ok: "key_ok toy_crypto (toy_key b)"
  by (simp add: key_ok_def toy_key_def toy_crypto_def KEY_BYTES_def)

definition toy_cipher :: "nat \<Rightarrow> cipher_state" where
  "toy_cipher n = \<lparr>cs_key = Some (replicate 32 7), cs_n = n\<rparr>"

definition toy_transport :: "nat \<Rightarrow> nat \<Rightarrow> noise_transport" where
  "toy_transport i j = \<lparr>tr_send = toy_cipher i, tr_receive = toy_cipher j, tr_maxSend = 100, tr_maxReceive = 100, tr_closed = False\<rparr>"


section \<open>Properties\<close>

text \<open>
  Two sides that start with the same prologue and secret and honest keys, and carry each other's
  three messages, both complete: each payload is delivered, each side knows the other's static key,
  both have the same handshake hash, and one side's sending key is the other's receiving key.
\<close>

theorem handshake_agrees:
  assumes "crypto_ok c" "key_ok c sI" "key_ok c sR" "key_ok c eI" "key_ok c eR"
    and "new_handshake c protocol True prologue sI psk None = Inr i0" "new_handshake c protocol False prologue sR psk None = Inr r0"
    and "length p1 \<le> 900" "length p2 \<le> 900" "length p3 \<le> 900"
  shows "\<exists>m1 i1 r1 m2 i2 r2 m3 i3 r3 h a b i4 r4. writeMessage c eI p1 i0 = (Inr m1, i1) \<and> readMessage c m1 r0 = (Inr p1, r1) \<and>
    writeMessage c eR p2 r1 = (Inr m2, r2) \<and> readMessage c m2 i1 = (Inr p2, i2) \<and>
    writeMessage c fresh p3 i2 = (Inr m3, i3) \<and> readMessage c m3 r2 = (Inr p3, r3) \<and>
    remoteStaticPublicKey i3 = Some (publicKey sR) \<and> remoteStaticPublicKey r3 = Some (publicKey sI) \<and>
    handshakeHash i3 = Inr h \<and> handshakeHash r3 = Inr h \<and>
    hs_split_keys c i3 = (Inr (a, b), i4) \<and> hs_split_keys c r3 = (Inr (b, a), r4) \<and> hasKey a \<and> hasKey b"
proof -
  from handshake_carried [OF assms] obtain m1 i1 r1 m2 i2 r2 m3 i3 r3 where
    ms: "writeMessage c eI p1 i0 = (Inr m1, i1)" "readMessage c m1 r0 = (Inr p1, r1)" "writeMessage c eR p2 r1 = (Inr m2, r2)"
      "readMessage c m2 i1 = (Inr p2, i2)" "writeMessage c fresh p3 i2 = (Inr m3, i3)" "readMessage c m3 r2 = (Inr p3, r3)"
    and st: "isComplete i3" "isComplete r3" "remoteStaticPublicKey i3 = Some (publicKey sR)" "remoteStaticPublicKey r3 = Some (publicKey sI)"
      "hs_symmetric r3 = hs_symmetric i3" "hs_initiator i3" "\<not> hs_initiator r3" "\<not> hs_failed i3" "\<not> hs_failed r3" "\<not> hs_split i3" "\<not> hs_split r3"
    by metis
  obtain a b where ab: "sym_split c (hs_symmetric i3) = Inr (a, b)" "hasKey a" "hasKey b" using split_succeeds [OF assms(1)] by blast
  have "handshakeHash i3 = Inr (sym_h (hs_symmetric i3))" "handshakeHash r3 = Inr (sym_h (hs_symmetric i3))"
    "hs_split_keys c i3 = (Inr (a, b), i3\<lparr>hs_split := True\<rparr>)" "hs_split_keys c r3 = (Inr (b, a), r3\<lparr>hs_split := True\<rparr>)"
    using st ab(1) by (simp_all add: handshakeHash_def hs_split_keys_def)
  with ms st ab show ?thesis by metis
qed

theorem handshake_agrees_witness:
  "\<exists>i0 r0 m1 i1 r1 m2 i2 r2 m3 i3 r3. new_handshake toy_crypto NOISE_XX True [9] (toy_key 1) None None = Inr i0 \<and>
     new_handshake toy_crypto NOISE_XX False [9] (toy_key 2) None None = Inr r0 \<and>
     writeMessage toy_crypto (toy_key 3) [] i0 = (Inr m1, i1) \<and> readMessage toy_crypto m1 r0 = (Inr [], r1) \<and>
     writeMessage toy_crypto (toy_key 4) [] r1 = (Inr m2, r2) \<and> readMessage toy_crypto m2 i1 = (Inr [], i2) \<and>
     writeMessage toy_crypto (toy_key 5) [8] i2 = (Inr m3, i3) \<and> readMessage toy_crypto m3 r2 = (Inr [8], r3) \<and>
     remoteStaticPublicKey r3 = Some (replicate 32 1)"
proof -
  obtain i0 r0 where n: "new_handshake toy_crypto NOISE_XX True [9] (toy_key 1) None None = Inr i0"
      "new_handshake toy_crypto NOISE_XX False [9] (toy_key 2) None None = Inr r0"
    by (simp add: new_handshake_def)
  have l: "length [] \<le> (900 :: nat)" "length [8 :: byte] \<le> 900" by simp_all
  have k: "publicKey (toy_key 1) = replicate 32 1" by (simp add: toy_key_def)
  from handshake_agrees [OF toy_crypto_ok toy_key_ok [of 1] toy_key_ok [of 2] toy_key_ok [of 3] toy_key_ok [of 4] n l(1) l(1) l(2), of "toy_key 5"] n
  show ?thesis unfolding k by metis
qed

text \<open>
  After an error no call on the handshake does anything: every later write and read returns the error
  that says the handshake has failed, there is no remote key and no keys to split.
\<close>

theorem handshake_failure_final:
  assumes "call_handshake c call hs = (Inl e, hs')"
  shows "run_each (call_handshake c) calls hs' = (replicate (length calls) (Inl HandshakeHasFailed), hs') \<and>
    remoteStaticPublicKey hs' = None \<and> hs_split_keys c hs' = (Inl HandshakeIncomplete, hs')"
proof -
  have "hs_failed hs'" by (rule handshake_call_error [OF assms])
  then show ?thesis
    by (simp add: run_each_fixed handshake_call_failed remoteStaticPublicKey_def hs_split_keys_def)
qed

theorem handshake_failure_final_witness:
  "\<exists>hs hs'. new_handshake toy_crypto NOISE_XX True [] (toy_key 1) None None = Inr hs \<and>
     call_handshake toy_crypto (CallRead [1, 2]) hs = (Inl NotThisTurn, hs') \<and>
     run_each (call_handshake toy_crypto) [CallWrite (toy_key 2) []] hs' = ([Inl HandshakeHasFailed], hs')"
proof -
  obtain hs where n: "new_handshake toy_crypto NOISE_XX True [] (toy_key 1) None None = Inr hs" by (simp add: new_handshake_def)
  then have "call_handshake toy_crypto (CallRead [1, 2]) hs = (Inl NotThisTurn, hs\<lparr>hs_failed := True\<rparr>)"
    by (auto simp: new_handshake_def readMessage_def hs_step_def is_noise_error_def)
  with n handshake_failure_final [OF this, of "[CallWrite (toy_key 2) []]"] show ?thesis by (metis (no_types, lifting) length_Cons list.size(3) replicate_0 replicate_Suc)
qed

text \<open>
  Messages sent in a row over transports in step all arrive, as they were sent and in the same order,
  and the transports are in step again.
\<close>

theorem transport_in_order:
  assumes "crypto_ok c" "paired (length ms) s r" "list_all (sendable s) ms"
  shows "\<exists>fs s' r'. run_all (tr_encrypt c) ms s = (Inr fs, s') \<and> run_all (tr_decrypt c) fs r = (Inr ms, r') \<and> paired 0 s' r'"
  using noise_channel.all_carried [of c ms s r] assms by blast

theorem transport_in_order_witness:
  "\<exists>fs s' r'. run_all (tr_encrypt toy_crypto) [TextMessage [104, 0x20AC], BinaryMessage [1, 2]] (toy_transport 0 5) = (Inr fs, s') \<and>
     run_all (tr_decrypt toy_crypto) fs (toy_transport 3 0) = (Inr [TextMessage [104, 0x20AC], BinaryMessage [1, 2]], r')"
proof -
  have "paired (length [TextMessage [104, 0x20AC], BinaryMessage [1, 2]]) (toy_transport 0 5) (toy_transport 3 0)"
    by (simp add: paired_def toy_transport_def toy_cipher_def hasKey_def MAX_NONCE_def)
  moreover have "list_all (sendable (toy_transport 0 5)) [TextMessage [104, 0x20AC], BinaryMessage [1, 2]]"
    by (simp add: sendable_def body_of_def toy_transport_def utf8_encode_def utf8_point_def is_scalar_def is_surrogate_def)
  ultimately show ?thesis using transport_in_order [OF toy_crypto_ok] by blast
qed

text \<open>
  C20. Whatever a transport is asked to send, its frames are sealed under consecutive counters from the
  one it started with, none of them the reserved last one: no two frames share a nonce.
\<close>

theorem nonces_never_reused:
  assumes "run_each (tr_encrypt c) ms s = (rs, s')" "cs_key (tr_send s) = Some k" "cs_n (tr_send s) \<le> MAX_NONCE"
  shows "\<exists>pts. frames_of rs = map2 (\<lambda>n pt. aeadEncrypt c k n [] pt) [cs_n (tr_send s)..<cs_n (tr_send s) + length pts] pts \<and>
    cs_n (tr_send s) + length pts \<le> MAX_NONCE \<and> distinct (map nonceBytes [cs_n (tr_send s)..<cs_n (tr_send s) + length pts])"
proof -
  obtain pts where pts: "frames_of rs = map2 (\<lambda>n pt. aeadEncrypt c k n [] pt) [cs_n (tr_send s)..<cs_n (tr_send s) + length pts] pts"
    "cs_n (tr_send s) + length pts \<le> MAX_NONCE" using frames_nonces [OF assms] by metis
  have "inj_on nonceBytes (set [cs_n (tr_send s)..<cs_n (tr_send s) + length pts])"
    using pts(2) by (intro inj_onI nonceBytes_inj) (auto simp: MAX_NONCE_def)
  then have "distinct (map nonceBytes [cs_n (tr_send s)..<cs_n (tr_send s) + length pts])" by (simp add: distinct_map)
  with pts show ?thesis by blast
qed

theorem nonces_never_reused_witness:
  "\<exists>rs s' pts. run_each (tr_encrypt toy_crypto) [BinaryMessage [1], BinaryMessage (replicate 200 0), BinaryMessage [1]] (toy_transport 4 0) = (rs, s') \<and>
     frames_of rs = map2 (\<lambda>n pt. aeadEncrypt toy_crypto (replicate 32 7) n [] pt) [4..<4 + length pts] pts"
proof -
  obtain rs s' where r: "run_each (tr_encrypt toy_crypto) [BinaryMessage [1], BinaryMessage (replicate 200 0), BinaryMessage [1]] (toy_transport 4 0) = (rs, s')"
    by fastforce
  have k: "cs_key (tr_send (toy_transport 4 0)) = Some (replicate 32 7)" "cs_n (tr_send (toy_transport 4 0)) \<le> MAX_NONCE"
    and n: "cs_n (tr_send (toy_transport 4 0)) = 4"
    by (simp_all add: toy_transport_def toy_cipher_def MAX_NONCE_def)
  from nonces_never_reused [OF r k] r show ?thesis unfolding n by blast
qed

text \<open>
  C21. A frame out of its place is refused. Sender and receiver start in step; the sender has made some
  frames and the receiver has accepted \<open>n\<close> frames, whichever. A frame of the sender's other than its \<open>n\<close>-th
  (one replayed, one that overtook another, one after a lost one) is then refused, and nothing is sent or
  received on the transport again; the only other way is a collision in the cipher: the very bytes of the
  frame, sealed under its own nonce, are also a sealing under the nonce the receiver is at.
\<close>

theorem out_of_order_refused:
  assumes c: "crypto_ok c" "authentic c" and pair: "paired 0 s r" "cs_key (tr_send s) = Some k"
    and sent: "run_each (tr_encrypt c) ms s = (rs, s')" and accepted: "run_all (tr_decrypt c) fs r = (Inr got, r')"
    and j: "j < length (frames_of rs)" "j \<noteq> length fs"
  shows "(\<exists>e r''. tr_decrypt c (frames_of rs ! j) r' = (Inl e, r'') \<and> e \<in> {AuthFailed, NonceExhausted} \<and>
      (\<forall>calls. run_each (call_transport c) calls r'' = (replicate (length calls) (Some TransportClosed), r''))) \<or>
    (\<exists>pt pt'. frames_of rs ! j = aeadEncrypt c k (cs_n (tr_send s) + j) [] pt \<and>
      aeadEncrypt c k (cs_n (tr_send s) + j) [] pt = aeadEncrypt c k (cs_n (tr_send s) + length fs) [] pt')"
proof -
  let ?f = "frames_of rs ! j" and ?n = "cs_n (tr_send s) + length fs"
  have start: "cs_n (tr_send s) \<le> MAX_NONCE" "hasKey (tr_send s)" "tr_receive r = tr_send s" "\<not> tr_closed r" "tr_maxSend s \<le> tr_maxReceive r"
    using pair(1) by (simp_all add: paired_def)
  obtain pts where pts: "length pts = length (frames_of rs)"
      "frames_of rs = map2 (\<lambda>n pt. aeadEncrypt c k n [] pt) [cs_n (tr_send s)..<cs_n (tr_send s) + length pts] pts"
    using frames_nonces [OF sent pair(2) start(1)] by blast
  have f: "?f = aeadEncrypt c k (cs_n (tr_send s) + j) [] (pts ! j)" using j(1) pts(1) by (subst pts(2)) simp
  have r': "tr_receive r' = (tr_send s)\<lparr>cs_n := ?n\<rparr>" "\<not> tr_closed r'" "tr_maxReceive r' = tr_maxReceive r"
    using accepted_count [OF accepted] start by simp_all
  have fits: "TAG_BYTES \<le> length ?f" "\<not> tr_maxReceive r' + 1 + TAG_BYTES < length ?f"
    using frames_fit [OF sent c(1) start(2) nth_mem [OF j(1)]] start(5) r'(3) by simp_all
  show ?thesis
  proof (cases "\<exists>pt. ?f = aeadEncrypt c k ?n [] pt")
    case True
    with f show ?thesis by metis
  next
    case False
    then have "aeadDecrypt c k ?n [] ?f = Inl AuthFailed" using aead_not_sealed [OF c fits(1)] by blast
    then have "tr_decrypt c ?f r' = (Inl (if MAX_NONCE \<le> ?n then NonceExhausted else AuthFailed), r'\<lparr>tr_closed := True\<rparr>)"
      using r' fits(2) pair(2) by (simp add: tr_decrypt_def decryptWithAd_def is_noise_error_def)
    then show ?thesis by (simp add: run_each_fixed transport_call_closed)
  qed
qed

theorem out_of_order_refused_witness:
  "\<exists>rs s' got r' e r''. run_each (tr_encrypt toy_crypto) [BinaryMessage [1], BinaryMessage [2]] (toy_transport 0 0) = (rs, s') \<and>
     run_all (tr_decrypt toy_crypto) [frames_of rs ! 0] (toy_transport 0 0) = (Inr got, r') \<and>
     tr_decrypt toy_crypto (frames_of rs ! 0) r' = (Inl e, r'') \<and>
     run_each (call_transport toy_crypto) [CallDecrypt (frames_of rs ! 1)] r'' = ([Some TransportClosed], r'')"
proof -
  let ?ms = "[BinaryMessage [1], BinaryMessage [2]]" and ?k = "replicate 32 7" and ?f = "aeadEncrypt toy_crypto (replicate 32 7)"
  let ?r = "\<lparr>tr_send = toy_cipher 0, tr_receive = toy_cipher 1, tr_maxSend = 100, tr_maxReceive = 100, tr_closed = False\<rparr>"
  obtain s' where sent: "run_each (tr_encrypt toy_crypto) ?ms (toy_transport 0 0) = ([Inr (?f 0 [] [2, 1]), Inr (?f 1 [] [2, 2])], s')"
    by (simp add: tr_encrypt_def toy_transport_def toy_cipher_def encryptWithAd_def MAX_NONCE_def NOISE_BINARY_def)
  have "decryptWithAd toy_crypto (toy_cipher 0) [] (?f 0 [] [2, 1]) = Inr ([2, 1], toy_cipher 1)"
    by (simp add: decryptWithAd_def toy_cipher_def aead_round_trip [OF toy_crypto_ok] MAX_NONCE_def)
  then have got: "run_all (tr_decrypt toy_crypto) [?f 0 [] [2, 1]] (toy_transport 0 0) = (Inr [BinaryMessage [1]], ?r)"
    by (simp add: tr_decrypt_def toy_transport_def read_plaintext_def NOISE_TEXT_def NOISE_BINARY_def aead_round_trip(2) [OF toy_crypto_ok])
  have pair: "paired 0 (toy_transport 0 0) (toy_transport 0 0)" "cs_key (tr_send (toy_transport 0 0)) = Some ?k"
    by (simp_all add: paired_def toy_transport_def toy_cipher_def hasKey_def)
  have len: "length (nonceBytes 0) = length (nonceBytes 1)" by (simp add: nonceBytes_def)
  have "nonceBytes 0 \<noteq> nonceBytes 1" using nonceBytes_inj [of 0 1] by auto
  then have other: "?f 0 [] pt \<noteq> ?f 1 [] pt'" for pt pt'
    using append_eq_append_conv [of pt pt' "nonceBytes 0" "nonceBytes 1"] len by (simp add: aeadEncrypt_def toy_crypto_def pad_nonce)
  have n0: "cs_n (tr_send (toy_transport 0 0)) = 0" by (simp add: toy_transport_def toy_cipher_def)
  from out_of_order_refused [OF toy_crypto_ok toy_authentic pair sent got, of 0] other obtain e r'' where
    ref: "tr_decrypt toy_crypto (?f 0 [] [2, 1]) ?r = (Inl e, r'')" 
      "\<And>calls. run_each (call_transport toy_crypto) calls r'' = (replicate (length calls) (Some TransportClosed), r'')"
    by (auto simp: n0)
  show ?thesis using sent got ref(1) ref(2) [of "[CallDecrypt (?f 1 [] [2, 2])]"]
    by (intro exI [of _ "[Inr (?f 0 [] [2, 1]), Inr (?f 1 [] [2, 2])]"] exI [of _ s'] exI [of _ "[BinaryMessage [1]]"] exI [of _ ?r] exI [of _ e] exI [of _ r'']) simp
qed

text \<open>
  A frame that is accepted was sealed with this key at this very counter, with no other text: it is
  the frame that encrypting the accepted bytes gives.
\<close>

theorem accepted_is_authentic:
  assumes "authentic c" "tr_decrypt c f r = (Inr m, r')" "cs_key (tr_receive r) = Some k"
  shows "\<exists>pt. f = aeadEncrypt c k (cs_n (tr_receive r)) [] pt \<and> read_plaintext pt = Inr m \<and>
    cs_n (tr_receive r') = Suc (cs_n (tr_receive r)) \<and> cs_n (tr_receive r) < MAX_NONCE \<and> length f \<le> tr_maxReceive r + 1 + TAG_BYTES"
proof -
  obtain pt where pt: "aeadDecrypt c k (cs_n (tr_receive r)) [] f = Inr pt" "read_plaintext pt = Inr m"
      "r' = r\<lparr>tr_receive := (tr_receive r)\<lparr>cs_n := cs_n (tr_receive r) + 1\<rparr>\<rparr>" "cs_n (tr_receive r) < MAX_NONCE" "length f \<le> tr_maxReceive r + 1 + TAG_BYTES"
    using assms(2,3) by (auto simp: tr_decrypt_def decryptWithAd_def and_then_def split: if_splits sum.splits)
  with aeadDecrypt_authentic [OF assms(1) pt(1)] show ?thesis by auto
qed

theorem accepted_is_authentic_witness:
  "\<exists>f m r'. tr_decrypt toy_crypto f (toy_transport 0 0) = (Inr m, r') \<and>
     (\<exists>pt. f = aeadEncrypt toy_crypto (replicate 32 7) 0 [] pt \<and> read_plaintext pt = Inr m)"
proof -
  let ?f = "aeadEncrypt toy_crypto (replicate 32 7) 0 [] [2, 5]"
  have "decryptWithAd toy_crypto (toy_cipher 0) [] ?f = Inr ([2, 5], toy_cipher 1)"
    by (simp add: decryptWithAd_def toy_cipher_def aead_round_trip [OF toy_crypto_ok] MAX_NONCE_def)
  then obtain r' where d: "tr_decrypt toy_crypto ?f (toy_transport 0 0) = (Inr (BinaryMessage [5]), r')"
    by (simp add: tr_decrypt_def toy_transport_def read_plaintext_def NOISE_TEXT_def NOISE_BINARY_def aead_round_trip(2) [OF toy_crypto_ok])
  have k: "cs_key (tr_receive (toy_transport 0 0)) = Some (replicate 32 7)" and n: "cs_n (tr_receive (toy_transport 0 0)) = 0"
    by (simp_all add: toy_transport_def toy_cipher_def)
  from accepted_is_authentic [OF toy_authentic d k] d show ?thesis unfolding n by blast
qed

end
