(* ===== verification/Noise_Session.thy ===== *)
theory Noise_Session
  imports Noise_Properties Json_Value
begin

text \<open>
  Authenticated connections over a WebSocket (\<open>packages/core/noise-session.ts\<close>): secrets, the first
  message, the two sides of the handshake as machines over the socket's events, the socket that
  follows, and the frames of an offload job's pipe. The socket is what its events say: each event
  comes with whether the socket is open at that moment, and what the code does to the socket is a
  list of actions. A text message is what \<open>JSON.parse\<close> makes of it. \<open>ws\<close> throws from \<open>send\<close> only
  while a socket is connecting; where the code catches that, it is an argument.
\<close>

section \<open>Secrets\<close>

definition STIM_PROTOCOL_VERSION :: byte where "STIM_PROTOCOL_VERSION = 2"
definition MODE_RETURNING :: byte where "MODE_RETURNING = 0"
definition MODE_FIRST_CONTACT :: byte where "MODE_FIRST_CONTACT = 1"
definition SECRET_BYTES :: nat where "SECRET_BYTES = 32"
definition LOOKUP_BYTES :: nat where "LOOKUP_BYTES = 16"
definition MAX_CLIENT_MESSAGE_BYTES :: nat where "MAX_CLIENT_MESSAGE_BYTES = 64 * 1024"
definition MAX_SERVER_MESSAGE_BYTES :: nat where "MAX_SERVER_MESSAGE_BYTES = 16 * 1024 * 1024"
definition MAX_PREFIX_BYTES :: nat where "MAX_PREFIX_BYTES = 2 + LOOKUP_BYTES"
definition MAX_FIRST_MESSAGE_BYTES :: nat where "MAX_FIRST_MESSAGE_BYTES = MAX_PREFIX_BYTES + MAX_HANDSHAKE_MESSAGE_BYTES"
definition MAX_HELD_MESSAGES :: nat where "MAX_HELD_MESSAGES = 64"
definition CLOSE_REFUSED :: nat where "CLOSE_REFUSED = 4401"
definition CLOSE_BAD_REQUEST :: nat where "CLOSE_BAD_REQUEST = 4400"
definition PROLOGUE :: bytes where "PROLOGUE = ascii ''stim noise v1''"

text \<open>\<open>SECRET_PATTERN.test(text)\<close>: 43 characters of the alphabet of base64url.\<close>

definition SECRET_PATTERN :: "string \<Rightarrow> bool" where
  "SECRET_PATTERN t = (length t = 43 \<and> list_all (\<lambda>ch. b64_digit ch \<noteq> None) t)"

definition newSecret :: "bytes \<Rightarrow> string" where
  "newSecret random = b64_encode random"

definition decodeSecret :: "string \<Rightarrow> bytes option" where
  "decodeSecret t = (if \<not> SECRET_PATTERN t then None
     else let bs = b64_decode (map (the \<circ> b64_digit) t) in
       if length bs = SECRET_BYTES \<and> b64_encode bs = t then Some bs else None)"

definition hex_text :: "bytes \<Rightarrow> string" where
  "hex_text bs = concat (map (\<lambda>b. [hex_digit (unat b div 16), hex_digit (unat b mod 16)]) bs)"

record secret_values =
  sv_psk :: bytes
  sv_lookup :: bytes
  sv_journal :: string

datatype session_error = SecretLength | LookupMismatch | LookupLength | NeedsServerKey | NoiseFailed noise_error

definition secretValues :: "crypto \<Rightarrow> bytes \<Rightarrow> session_error + secret_values" where
  "secretValues c secret =
     (if length secret \<noteq> SECRET_BYTES then Inl SecretLength
      else Inr \<lparr>sv_psk = sha_256 c (ascii ''stim noise psk v1'' @ secret),
        sv_lookup = take LOOKUP_BYTES (sha_256 c (ascii ''stim noise lookup v1'' @ secret)),
        sv_journal = hex_text (sha_256 c (ascii ''stim setup journal v1'' @ secret))\<rparr>)"

definition keyFingerprint :: "crypto \<Rightarrow> bytes \<Rightarrow> string" where
  "keyFingerprint c pub = b64_encode (sha_256 c pub)"

section \<open>The long-term key\<close>

text \<open>
  \<open>readOrCreateKeyFile\<close>: \<open>fs\<close> holds the files as the first read finds them and \<open>fs'\<close> as the key is
  written, since other processes act in between; \<open>fresh\<close> is the key pair generated. A file whose
  name is taken is not written (\<open>wx\<close>), and a link does not replace a file.
\<close>

datatype key_file_error = KeyMissing | KeyFileLength | KeyTemporaryTaken | KeyInvalid noise_error

type_synonym key_files = "string \<rightharpoonup> bytes"

definition read_key_file :: "crypto \<Rightarrow> key_files \<Rightarrow> string \<Rightarrow> key_file_error + key_pair" where
  "read_key_file c fs file = (case fs file of None \<Rightarrow> Inl KeyMissing
     | Some bs \<Rightarrow> if length bs \<noteq> 32 then Inl KeyFileLength
         else (case noiseKeyPairFromPrivateKey c bs of Inl e \<Rightarrow> Inl (KeyInvalid e) | Inr kp \<Rightarrow> Inr kp))"

definition readOrCreateKeyFile :: "crypto \<Rightarrow> key_pair \<Rightarrow> string \<Rightarrow> string \<Rightarrow> key_files \<Rightarrow> key_files \<Rightarrow> (key_file_error + key_pair) \<times> key_files" where
  "readOrCreateKeyFile c fresh file temporary fs fs' = (case read_key_file c fs file of
       Inr kp \<Rightarrow> (Inr kp, fs)
     | Inl e \<Rightarrow>
         if e \<noteq> KeyMissing then (Inl e, fs)
         else if fs' temporary \<noteq> None then (Inl KeyTemporaryTaken, fs')
         else let fs2 = fs'(temporary \<mapsto> privateKey fresh) in
           (case fs2 file of
              Some _ \<Rightarrow> (read_key_file c fs2 file, fs2(temporary := None))
            | None \<Rightarrow> (Inr fresh, (fs2(file \<mapsto> privateKey fresh))(temporary := None))))"

section \<open>The first message\<close>

definition handshakePrefix :: "byte \<Rightarrow> bytes option \<Rightarrow> session_error + bytes" where
  "handshakePrefix mode lookup =
     (if (mode = MODE_FIRST_CONTACT) \<noteq> (lookup \<noteq> None) then Inl LookupMismatch
      else if (case lookup of None \<Rightarrow> False | Some l \<Rightarrow> length l \<noteq> LOOKUP_BYTES) then Inl LookupLength
      else Inr ([STIM_PROTOCOL_VERSION, mode] @ (case lookup of None \<Rightarrow> [] | Some l \<Rightarrow> l)))"

datatype parsed_first = FirstReturning bytes bytes | FirstContact bytes bytes bytes | FirstError string

definition parseFirstMessage :: "bytes \<Rightarrow> parsed_first" where
  "parseFirstMessage bs =
     (if length bs < 1 \<or> bs ! 0 \<noteq> STIM_PROTOCOL_VERSION then FirstError ''protocol-unsupported''
      else if MAX_FIRST_MESSAGE_BYTES < length bs then FirstError ''handshake-failed''
      else if 1 < length bs \<and> bs ! 1 = MODE_RETURNING then FirstReturning (take 2 bs) (drop 2 bs)
      else if 1 < length bs \<and> bs ! 1 = MODE_FIRST_CONTACT \<and> MAX_PREFIX_BYTES \<le> length bs
        then FirstContact (take MAX_PREFIX_BYTES bs) (drop 2 (take MAX_PREFIX_BYTES bs)) (drop MAX_PREFIX_BYTES bs)
      else FirstError ''handshake-failed'')"

definition handshakePrologue :: "bytes \<Rightarrow> bytes" where
  "handshakePrologue header = PROLOGUE @ header"

section \<open>Refusals\<close>

datatype ws_message = TextIn file_text | BinaryIn bytes

datatype raw_event = RawMessage ws_message | RawClosed nat string | RawFailed string | TimedOut

datatype raw_action = RawSend bytes | RawSendText string | RawClose nat string

definition HOME_UNAVAILABLE_MESSAGE :: string where
  "HOME_UNAVAILABLE_MESSAGE = ''The machine cannot read its Stim home, usually because the disk that holds it is disconnected or not responding. It serves clients again once the Stim home answers.''"

text \<open>The entries of the table (an object also answers to the names it inherits; those are left out).\<close>

definition REFUSAL_MESSAGES :: "(string \<times> string) list" where
  "REFUSAL_MESSAGES =
    [(''unknown-secret'', ''The machine does not know this pairing token or setup ticket yet, or it expired.''),
     (''home-unavailable'', HOME_UNAVAILABLE_MESSAGE),
     (''unauthorized'', ''The machine does not recognize this client. Pair again.''),
     (''protocol-unsupported'', ''The machine speaks another stim-server protocol. Update it and this client, then pair again.''),
     (''handshake-failed'', ''The authentication handshake failed.''),
     (''server-key-mismatch'', ''The machine answered with a different server key than the one pinned at pairing. Pair again.'')]"

definition or_else :: "'a option \<Rightarrow> 'a \<Rightarrow> 'a" where
  "or_else a b = (case a of None \<Rightarrow> b | Some x \<Rightarrow> x)"

definition plaintextRefusal :: "file_text \<Rightarrow> (string \<times> string) option" where
  "plaintextRefusal text = (case text of None \<Rightarrow> None
     | Some v \<Rightarrow> (case jfield ''error'' v of None \<Rightarrow> None
         | Some e \<Rightarrow> (case (jstr_field ''code'' e, jstr_field ''message'' e) of (Some code, Some message) \<Rightarrow> Some (code, message) | _ \<Rightarrow> None)))"

section \<open>The socket after the handshake\<close>

record noise_socket =
  so_transport :: noise_transport
  so_remoteKey :: bytes
  so_held :: "(bytes \<times> bool) list option"

definition new_socket :: "noise_transport \<Rightarrow> bytes \<Rightarrow> noise_socket" where
  "new_socket tr key = \<lparr>so_transport = tr, so_remoteKey = key, so_held = Some []\<rparr>"

datatype send_data = SendText unicode | SendBytes bytes

datatype send_error = NotOpen | NotSent noise_error

text \<open>What is done to the socket, to the listeners, and to the callback of \<open>send\<close>.\<close>

datatype socket_action =
    SockClose nat string | SockSend bytes | EmitMessage bytes bool | EmitClose nat string | EmitError string | EmitPong
  | SendDone send_error

text \<open>\<open>raw.on('message', ...)\<close>; \<open>None\<close> is a text message.\<close>

definition socket_message :: "crypto \<Rightarrow> bytes option \<Rightarrow> noise_socket \<Rightarrow> socket_action list \<times> noise_socket" where
  "socket_message c data so = (case data of
       None \<Rightarrow> ([SockClose CLOSE_BAD_REQUEST ''handshake-failed''], so)
     | Some frame \<Rightarrow> (case tr_decrypt c frame (so_transport so) of
           (Inl _, tr) \<Rightarrow> ([SockClose CLOSE_BAD_REQUEST ''decrypt-failed''], so\<lparr>so_transport := tr\<rparr>)
         | (Inr m, tr) \<Rightarrow>
             let so = so\<lparr>so_transport := tr\<rparr>; event = (case m of TextMessage us \<Rightarrow> (utf8_encode us, False) | BinaryMessage bs \<Rightarrow> (bs, True)) in
             (case so_held so of
                None \<Rightarrow> ([EmitMessage (fst event) (snd event)], so)
              | Some held \<Rightarrow> if MAX_HELD_MESSAGES \<le> length held then ([SockClose 1008 ''too many messages''], so)
                  else ([], so\<lparr>so_held := Some (held @ [event])\<rparr>))))"

text \<open>The first listener for messages: the held ones follow in a microtask, before any other event of the socket.\<close>

definition socket_listen :: "noise_socket \<Rightarrow> socket_action list \<times> noise_socket" where
  "socket_listen so = (case so_held so of None \<Rightarrow> ([], so)
     | Some held \<Rightarrow> (map (\<lambda>(bs, binary). EmitMessage bs binary) held, so\<lparr>so_held := None\<rparr>))"

text \<open>The listeners the constructor sets on the socket; an error goes only to a listener for errors.\<close>

datatype socket_event = SockMessage "bytes option" | SockListen | SockClosed nat string | SockFailed bool string | SockPong

fun socket_step :: "crypto \<Rightarrow> socket_event \<Rightarrow> noise_socket \<Rightarrow> socket_action list \<times> noise_socket" where
  "socket_step c (SockMessage data) so = socket_message c data so"
| "socket_step c SockListen so = socket_listen so"
| "socket_step c (SockClosed code reason) so = ([EmitClose code reason], so)"
| "socket_step c (SockFailed listened message) so = (if listened then [EmitError message] else [], so)"
| "socket_step c SockPong so = ([EmitPong], so)"

text \<open>\<open>Buffer.toString()\<close>: UTF-8 where each longest part that cannot be completed becomes \<open>U+FFFD\<close>.\<close>

definition utf8_bad :: "nat list \<Rightarrow> nat" where
  "utf8_bad ns = (case ns of
       a # b # rest \<Rightarrow>
         if 0xE0 \<le> a \<and> a \<le> 0xEF \<and> trail b \<and> (a = 0xE0 \<longrightarrow> 0xA0 \<le> b) \<and> (a = 0xED \<longrightarrow> b \<le> 0x9F) then 2
         else if 0xF0 \<le> a \<and> a \<le> 0xF4 \<and> trail b \<and> (a = 0xF0 \<longrightarrow> 0x90 \<le> b) \<and> (a = 0xF4 \<longrightarrow> b \<le> 0x8F)
           then (case rest of d # _ \<Rightarrow> if trail d then 3 else 2 | [] \<Rightarrow> 2)
         else 1
     | _ \<Rightarrow> 1)"

fun utf8_lossy_points :: "nat \<Rightarrow> nat list \<Rightarrow> unicode" where
  "utf8_lossy_points 0 ns = []"
| "utf8_lossy_points (Suc k) ns = (if ns = [] then [] else
     (case utf8_first ns of Some (u, rest) \<Rightarrow> u # utf8_lossy_points k rest
      | None \<Rightarrow> 0xFFFD # utf8_lossy_points k (drop (utf8_bad ns) ns)))"

definition utf8_lossy :: "bytes \<Rightarrow> unicode" where
  "utf8_lossy bs = utf8_lossy_points (length bs) (map unat bs)"

text \<open>\<open>send(data, { binary })\<close>; \<open>is_open\<close> is whether \<open>readyState\<close> is \<open>OPEN\<close>.\<close>

definition socket_send :: "crypto \<Rightarrow> bool \<Rightarrow> send_data \<Rightarrow> bool option \<Rightarrow> noise_socket \<Rightarrow> socket_action list \<times> noise_socket" where
  "socket_send c is_open data binary so =
     (if \<not> is_open then ([SendDone NotOpen], so)
      else let m = (case data of SendText us \<Rightarrow> TextMessage us
                    | SendBytes bs \<Rightarrow> if binary = Some False then TextMessage (utf8_lossy bs) else BinaryMessage bs) in
        (case tr_encrypt c m (so_transport so) of
           (Inl e, tr) \<Rightarrow> ([SockClose (if e = OverSendLimit then 1009 else 1011) ''message not sent'', SendDone (NotSent e)], so\<lparr>so_transport := tr\<rparr>)
         | (Inr frame, tr) \<Rightarrow> ([SockSend frame], so\<lparr>so_transport := tr\<rparr>)))"

section \<open>The client's side\<close>

record client_options =
  co_keyPair :: key_pair
  co_serverKey :: "bytes option"
  co_secret :: "bytes option"
  co_name :: "string option"
  co_accept :: "(bytes \<Rightarrow> bool) option"
  co_maxSend :: "nat option"
  co_maxReceive :: "nat option"

text \<open>\<open>ClientBroken\<close>: the listener threw after it had removed itself, and the promise stays open.\<close>

datatype client_state = ClientWaiting handshake_state | ClientDone noise_socket | ClientFailed string string | ClientBroken session_error

text \<open>\<open>fail(code, detail)\<close>.\<close>

definition client_fail :: "bool \<Rightarrow> string \<Rightarrow> string option \<Rightarrow> raw_action list \<times> client_state" where
  "client_fail is_open code detail =
     (if is_open then [RawClose CLOSE_REFUSED code] else [],
      ClientFailed code (or_else detail (or_else (map_of REFUSAL_MESSAGES code) (''The machine refused the connection ('' @ code @ '').''))))"

text \<open>The PSK, where there is a secret, and the prefix of the first message.\<close>

definition client_prefix :: "crypto \<Rightarrow> client_options \<Rightarrow> session_error + bytes option \<times> bytes" where
  "client_prefix c opts = (case co_secret opts of
       None \<Rightarrow> if co_serverKey opts = None then Inl NeedsServerKey
               else and_then (handshakePrefix MODE_RETURNING None) (\<lambda>header. Inr (None, header))
     | Some secret \<Rightarrow> and_then (secretValues c secret) (\<lambda>values.
         and_then (handshakePrefix MODE_FIRST_CONTACT (Some (sv_lookup values))) (\<lambda>header. Inr (Some (sv_psk values), header))))"

definition client_handshake :: "crypto \<Rightarrow> client_options \<Rightarrow> session_error + bytes \<times> handshake_state" where
  "client_handshake c opts = and_then (client_prefix c opts) (\<lambda>(psk, header).
     case new_handshake c (if psk = None then NOISE_XX else NOISE_XX_PSK2) True (handshakePrologue header) (co_keyPair opts) psk None of
       Inl e \<Rightarrow> Inl (NoiseFailed e) | Inr hs \<Rightarrow> Inr (header, hs))"

text \<open>\<open>initiateNoise\<close> up to its first message; \<open>fresh\<close> is its ephemeral key pair and \<open>sent\<close> whether \<open>send\<close> did not throw.\<close>

definition initiateNoise :: "crypto \<Rightarrow> client_options \<Rightarrow> key_pair \<Rightarrow> bool \<Rightarrow> bool \<Rightarrow> session_error + raw_action list \<times> client_state" where
  "initiateNoise c opts fresh is_open sent = and_then (client_handshake c opts) (\<lambda>(header, hs).
     Inr (case writeMessage c fresh [] hs of
         (Inl _, _) \<Rightarrow> client_fail is_open ''handshake-failed'' None
       | (Inr m, hs) \<Rightarrow> if sent then ([RawSend (header @ m)], ClientWaiting hs) else client_fail is_open ''handshake-failed'' None))"

definition key_refused :: "client_options \<Rightarrow> bytes \<Rightarrow> bool" where
  "key_refused opts key = (case co_serverKey opts of
       Some pinned \<Rightarrow> key \<noteq> pinned
     | None \<Rightarrow> (case co_accept opts of None \<Rightarrow> False | Some accept \<Rightarrow> \<not> accept key))"

definition name_payload :: "client_options \<Rightarrow> bytes" where
  "name_payload opts = (if co_secret opts = None then []
     else utf8_encode (map of_char (stringify (JObj [(''name'', JStr (or_else (co_name opts) []))]))))"

text \<open>\<open>handshake.split()\<close> and the socket over the transport it gives.\<close>

definition make_socket :: "crypto \<Rightarrow> handshake_state \<Rightarrow> nat \<Rightarrow> nat \<Rightarrow> bytes \<Rightarrow> session_error + noise_socket" where
  "make_socket c hs maxSend maxReceive key = (case fst (hs_split_keys c hs) of Inl e \<Rightarrow> Inl (NoiseFailed e)
     | Inr (send, receive) \<Rightarrow> (case new_transport send receive maxSend maxReceive of
           Inl e \<Rightarrow> Inl (NoiseFailed e) | Inr tr \<Rightarrow> Inr (new_socket tr key)))"

text \<open>
  \<open>onMessage\<close> of the client. Message 2 carries the server's static key, so there is one to take
  (\<open>remoteStaticPublicKey!\<close>), and message 3 has no ephemeral key to generate.
\<close>

definition client_message :: "crypto \<Rightarrow> client_options \<Rightarrow> bool \<Rightarrow> ws_message \<Rightarrow> handshake_state \<Rightarrow> raw_action list \<times> client_state" where
  "client_message c opts is_open data hs = (case data of
       TextIn text \<Rightarrow> let refusal = plaintextRefusal text in
         client_fail is_open (or_else (map_option fst refusal) ''handshake-failed'') (map_option snd refusal)
     | BinaryIn bs \<Rightarrow> (case readMessage c bs hs of
           (Inl _, _) \<Rightarrow> client_fail is_open ''handshake-failed'' None
         | (Inr payload, hs) \<Rightarrow>
             if payload \<noteq> [] then client_fail is_open ''handshake-failed'' None
             else let serverKey = the (remoteStaticPublicKey hs) in
               if key_refused opts serverKey then client_fail is_open ''server-key-mismatch'' None
               else (case writeMessage c (co_keyPair opts) (name_payload opts) hs of
                   (Inl _, _) \<Rightarrow> client_fail is_open ''handshake-failed'' None
                 | (Inr message3, hs) \<Rightarrow> ([RawSend message3],
                     case make_socket c hs (or_else (co_maxSend opts) MAX_CLIENT_MESSAGE_BYTES) (or_else (co_maxReceive opts) MAX_SERVER_MESSAGE_BYTES) serverKey of
                       Inl e \<Rightarrow> ClientBroken e | Inr so \<Rightarrow> ClientDone so))))"

text \<open>An event while the handshake waits; once it is settled the listeners are gone.\<close>

fun client_step :: "crypto \<Rightarrow> client_options \<Rightarrow> bool \<times> raw_event \<Rightarrow> client_state \<Rightarrow> raw_action list \<times> client_state" where
  "client_step c opts (is_open, RawMessage m) (ClientWaiting hs) = client_message c opts is_open m hs"
| "client_step c opts (is_open, RawClosed code reason) (ClientWaiting hs) =
     client_fail is_open (if reason = [] then ''closed'' else reason)
       (if reason = [] then Some (''The connection closed during the handshake ('' @ string_of_nat code @ '').'') else None)"
| "client_step c opts (is_open, RawFailed message) (ClientWaiting hs) = client_fail is_open ''closed'' (Some message)"
| "client_step c opts (is_open, TimedOut) (ClientWaiting hs) = client_fail is_open ''timeout'' (Some ''The machine did not finish the handshake in time.'')"
| "client_step c opts _ st = ([], st)"

section \<open>The server's side\<close>

datatype psk_answer = PskIs bytes | PskNone | PskRefused string | PskThrows

record server_options =
  vo_keyPair :: key_pair
  vo_psk :: "string \<Rightarrow> psk_answer"
  vo_maxSend :: "nat option"
  vo_maxReceive :: "nat option"

record accepted_handshake =
  ac_socket :: noise_socket
  ac_mode :: byte
  ac_lookup :: "string option"
  ac_clientKey :: bytes
  ac_payload :: bytes

text \<open>
  \<open>ServerThrew True\<close>: the promise is rejected with an error of another kind, and the timer and the
  listener for the close are still there; \<open>ServerBroken\<close> as for the client.
\<close>

datatype server_state = ServerWaiting handshake_state byte "bytes option" | ServerAccepted accepted_handshake | ServerRefused string string
  | ServerThrew bool | ServerBroken session_error

definition PROTOCOL_UNSUPPORTED_MESSAGE :: string where
  "PROTOCOL_UNSUPPORTED_MESSAGE = ''This stim-server speaks protocol 2, with its own authentication. Update this app or Stim, then pair again.''"

text \<open>\<open>refuse(code, closeCode)\<close>.\<close>

definition server_refuse :: "bool \<Rightarrow> string \<Rightarrow> nat \<Rightarrow> raw_action list \<times> server_state" where
  "server_refuse is_open code closeCode =
     (if is_open then [RawClose closeCode code] else [], ServerRefused code (or_else (map_of REFUSAL_MESSAGES code) code))"

text \<open>The cleartext reply to a protocol 1 hello.\<close>

definition hello_reply :: "file_text \<Rightarrow> json" where
  "hello_reply text =
     (let id = (case Option.bind text (jfield ''id'') of Some (JNum n) \<Rightarrow> JNum n | Some (JStr s) \<Rightarrow> JStr s | _ \<Rightarrow> JNull) in
      JObj [(''id'', id), (''error'', JObj [(''code'', JStr ''protocol-unsupported''), (''message'', JStr PROTOCOL_UNSUPPORTED_MESSAGE)])])"

text \<open>The handshake on message 1, and message 2; \<open>lookup\<close> is there on first contact.\<close>

definition server_handshake :: "crypto \<Rightarrow> server_options \<Rightarrow> key_pair \<Rightarrow> bool \<Rightarrow> bytes option \<Rightarrow> byte \<Rightarrow> bytes option \<Rightarrow> bytes \<Rightarrow> bytes \<Rightarrow>
    raw_action list \<times> server_state" where
  "server_handshake c opts fresh is_open psk mode lookup header message1 =
     (case new_handshake c (if psk = None then NOISE_XX else NOISE_XX_PSK2) False (handshakePrologue header) (vo_keyPair opts) psk None of
        Inl e \<Rightarrow> if is_noise_error e then server_refuse is_open ''handshake-failed'' CLOSE_REFUSED else ([], ServerThrew True)
      | Inr hs \<Rightarrow> (case readMessage c message1 hs of
            (Inl _, _) \<Rightarrow> server_refuse is_open ''handshake-failed'' CLOSE_REFUSED
          | (Inr payload, hs) \<Rightarrow>
              if payload \<noteq> [] then server_refuse is_open ''handshake-failed'' CLOSE_REFUSED
              else (case writeMessage c fresh [] hs of
                  (Inl _, _) \<Rightarrow> server_refuse is_open ''handshake-failed'' CLOSE_REFUSED
                | (Inr message2, hs) \<Rightarrow> ([RawSend message2], ServerWaiting hs mode lookup))))"

definition acceptNoise :: "crypto \<Rightarrow> server_options \<Rightarrow> key_pair \<Rightarrow> bool \<Rightarrow> ws_message \<Rightarrow> raw_action list \<times> server_state" where
  "acceptNoise c opts fresh is_open first = (case first of
       TextIn text \<Rightarrow>
         (let (actions, st) = server_refuse is_open ''protocol-unsupported'' CLOSE_BAD_REQUEST in
          ((if is_open then [RawSendText (stringify (hello_reply text))] else []) @ actions, st))
     | BinaryIn bs \<Rightarrow> (case parseFirstMessage bs of
           FirstError e \<Rightarrow> server_refuse is_open e (if e = ''protocol-unsupported'' then CLOSE_BAD_REQUEST else CLOSE_REFUSED)
         | FirstReturning header message1 \<Rightarrow> server_handshake c opts fresh is_open None MODE_RETURNING None header message1
         | FirstContact header lookup message1 \<Rightarrow> (case vo_psk opts (hex_text lookup) of
               PskRefused code \<Rightarrow> server_refuse is_open code CLOSE_REFUSED
             | PskThrows \<Rightarrow> ([], ServerThrew True)
             | PskNone \<Rightarrow> server_refuse is_open ''unknown-secret'' CLOSE_REFUSED
             | PskIs psk \<Rightarrow> server_handshake c opts fresh is_open (Some psk) MODE_FIRST_CONTACT (Some lookup) header message1)))"

text \<open>\<open>onMessage\<close> of the server.\<close>

definition server_message :: "crypto \<Rightarrow> server_options \<Rightarrow> bool \<Rightarrow> ws_message \<Rightarrow> handshake_state \<Rightarrow> byte \<Rightarrow> bytes option \<Rightarrow> raw_action list \<times> server_state" where
  "server_message c opts is_open data hs mode lookup = (case data of
       TextIn _ \<Rightarrow> server_refuse is_open ''handshake-failed'' CLOSE_REFUSED
     | BinaryIn bs \<Rightarrow> (case readMessage c bs hs of
           (Inl _, _) \<Rightarrow> server_refuse is_open ''handshake-failed'' CLOSE_REFUSED
         | (Inr payload, hs) \<Rightarrow> let clientKey = the (remoteStaticPublicKey hs) in
             ([], case make_socket c hs (or_else (vo_maxSend opts) MAX_SERVER_MESSAGE_BYTES) (or_else (vo_maxReceive opts) MAX_CLIENT_MESSAGE_BYTES) clientKey of
                 Inl e \<Rightarrow> ServerBroken e
               | Inr so \<Rightarrow> ServerAccepted \<lparr>ac_socket = so, ac_mode = mode, ac_lookup = map_option hex_text lookup, ac_clientKey = clientKey, ac_payload = payload\<rparr>)))"

fun server_step :: "crypto \<Rightarrow> server_options \<Rightarrow> bool \<times> raw_event \<Rightarrow> server_state \<Rightarrow> raw_action list \<times> server_state" where
  "server_step c opts (is_open, RawMessage m) (ServerWaiting hs mode lookup) = server_message c opts is_open m hs mode lookup"
| "server_step c opts (is_open, RawClosed code reason) (ServerWaiting hs mode lookup) = server_refuse is_open ''closed'' CLOSE_REFUSED"
| "server_step c opts (is_open, TimedOut) (ServerWaiting hs mode lookup) = server_refuse is_open ''timeout'' CLOSE_REFUSED"
| "server_step c opts (is_open, RawClosed code reason) (ServerThrew True) = (fst (server_refuse is_open ''closed'' CLOSE_REFUSED), ServerThrew False)"
| "server_step c opts (is_open, TimedOut) (ServerThrew True) = (fst (server_refuse is_open ''timeout'' CLOSE_REFUSED), ServerThrew False)"
| "server_step c opts _ st = ([], st)"

section \<open>Frames of an offload job's pipe\<close>

definition MAX_JOB_FRAME_BYTES :: nat where "MAX_JOB_FRAME_BYTES = MAX_SERVER_MESSAGE_BYTES + 1"

text \<open>\<open>None\<close>: \<open>writeUInt32BE\<close> throws for a length over 32 bits.\<close>

definition jobFrame :: "bytes \<Rightarrow> bool \<Rightarrow> bytes option" where
  "jobFrame data binary = (if 2 ^ 32 \<le> length data + 1 then None
     else Some (be_bytes 4 (length data + 1) @ [if binary then NOISE_BINARY else NOISE_TEXT] @ data))"

datatype job_error = JobFrameLength nat | JobFrameType byte

text \<open>The loop of \<open>push\<close>: the frames, or what it throws, and what is left buffered.\<close>

function job_loop :: "bytes \<Rightarrow> (job_error + (bytes \<times> bool) list) \<times> bytes" where
  "job_loop buf =
     (if length buf < 4 then (Inr [], buf)
      else let n = be_value (take 4 buf) in
        if n < 1 \<or> MAX_JOB_FRAME_BYTES < n then (Inl (JobFrameLength n), buf)
        else if length buf < 4 + n then (Inr [], buf)
        else let kind = buf ! 4 in
          if kind \<noteq> NOISE_TEXT \<and> kind \<noteq> NOISE_BINARY then (Inl (JobFrameType kind), buf)
          else (case job_loop (drop (4 + n) buf) of
                  (Inl e, rest) \<Rightarrow> (Inl e, rest)
                | (Inr frames, rest) \<Rightarrow> (Inr ((drop 5 (take (4 + n) buf), kind = NOISE_BINARY) # frames), rest)))"
  by pat_completeness auto
termination by (relation "measure length") auto

declare job_loop.simps [simp del]

definition job_push :: "bytes \<Rightarrow> bytes \<Rightarrow> (job_error + (bytes \<times> bool) list) \<times> bytes" where
  "job_push chunk buffered = job_loop (buffered @ chunk)"

definition job_partial :: "bytes \<Rightarrow> bool" where
  "job_partial buffered = (0 < length buffered)"

end
