(* ===== verification/Session_Laws.thy ===== *)
theory Session_Laws
  imports Noise_Session
begin

text \<open>Laws of the parts of a session: secrets, job frames, and what a handshake step leaves.\<close>

section \<open>Secrets\<close>

lemma b64_encode_digits: "list_all (\<lambda>ch. b64_digit ch \<noteq> None) (b64_encode bs)"
proof (induction bs rule: b64_encode.induct)
  case (2 a)
  with unat_byte [of a] show ?case by (simp add: Let_def b64_digit_char)
next
  case (3 a b)
  have "unat a mod 4 * 16 + unat b div 16 < 64" using unat_byte [of b] by auto
  with unat_byte [of a] show ?case by (simp add: Let_def b64_digit_char)
next
  case (4 a b c rest)
  have "unat a div 4 < 64" "unat a mod 4 * 16 + unat b div 16 < 64" "unat b mod 16 * 4 + unat c div 64 < 64"
    using unat_byte [of a] unat_byte [of b] unat_byte [of c] by auto
  then have "b64_digit (b64_char (unat a div 4)) \<noteq> None" "b64_digit (b64_char (unat a mod 4 * 16 + unat b div 16)) \<noteq> None"
    "b64_digit (b64_char (unat b mod 16 * 4 + unat c div 64)) \<noteq> None" "b64_digit (b64_char (unat c mod 64)) \<noteq> None"
    by (simp_all add: b64_digit_char)
  with 4 show ?case by (simp add: Let_def)
qed simp

lemma b64_encode_length: "length (b64_encode bs) = (4 * length bs + 2) div 3"
  by (induction bs rule: b64_encode.induct) (simp_all add: Let_def)

section \<open>The first message\<close>

lemma parse_prefix:
  assumes "handshakePrefix mode lookup = Inr header" "mode = MODE_RETURNING \<or> mode = MODE_FIRST_CONTACT" "length m \<le> MAX_HANDSHAKE_MESSAGE_BYTES"
  shows "parseFirstMessage (header @ m) = (case lookup of None \<Rightarrow> FirstReturning header m | Some l \<Rightarrow> FirstContact header l m)"
proof -
  have o: "header = [STIM_PROTOCOL_VERSION, mode] @ (case lookup of None \<Rightarrow> [] | Some l \<Rightarrow> l)" "mode = MODE_FIRST_CONTACT \<longleftrightarrow> lookup \<noteq> None"
    "\<And>l. lookup = Some l \<Longrightarrow> length l = LOOKUP_BYTES"
    using assms(1) by (auto simp: handshakePrefix_def split: if_splits option.splits)
  show ?thesis
  proof (cases lookup)
    case None
    with o assms(2,3) show ?thesis by (simp add: parseFirstMessage_def MAX_FIRST_MESSAGE_BYTES_def MAX_PREFIX_BYTES_def)
  next
    case (Some l)
    with o assms(3) show ?thesis
      by (simp add: parseFirstMessage_def MAX_FIRST_MESSAGE_BYTES_def MAX_PREFIX_BYTES_def LOOKUP_BYTES_def MODE_RETURNING_def MODE_FIRST_CONTACT_def)
  qed
qed

section \<open>Job frames\<close>

lemma be_bytes_4: "be_bytes 4 n = [byte_of (n div 256 div 256 div 256), byte_of (n div 256 div 256), byte_of (n div 256), byte_of n]"
proof -
  have four: "4 = Suc (Suc (Suc (Suc 0)))" by simp
  show ?thesis unfolding be_bytes_def four by simp
qed

lemma job_loop_short: "length buf < 4 \<Longrightarrow> job_loop buf = (Inr [], buf)"
  by (subst job_loop.simps) simp

text \<open>The ways an iteration goes, by what the buffer holds.\<close>

definition frame_length :: "bytes \<Rightarrow> nat" where
  "frame_length buf = be_value (take 4 buf)"

definition good_length :: "bytes \<Rightarrow> bool" where
  "good_length buf = (1 \<le> frame_length buf \<and> frame_length buf \<le> MAX_JOB_FRAME_BYTES)"

definition good_kind :: "bytes \<Rightarrow> bool" where
  "good_kind buf = (buf ! 4 = NOISE_TEXT \<or> buf ! 4 = NOISE_BINARY)"

lemma job_loop_length: "4 \<le> length buf \<Longrightarrow> \<not> good_length buf \<Longrightarrow> job_loop buf = (Inl (JobFrameLength (frame_length buf)), buf)"
  by (subst job_loop.simps) (auto simp: good_length_def frame_length_def Let_def)

lemma job_loop_part: "4 \<le> length buf \<Longrightarrow> good_length buf \<Longrightarrow> length buf < 4 + frame_length buf \<Longrightarrow> job_loop buf = (Inr [], buf)"
  by (subst job_loop.simps) (simp add: good_length_def frame_length_def Let_def)

lemma job_loop_kind:
  "good_length buf \<Longrightarrow> 4 + frame_length buf \<le> length buf \<Longrightarrow> \<not> good_kind buf \<Longrightarrow> job_loop buf = (Inl (JobFrameType (buf ! 4)), buf)"
  by (subst job_loop.simps) (simp add: good_length_def good_kind_def frame_length_def Let_def)

lemma job_loop_good:
  assumes "good_length buf" "4 + frame_length buf \<le> length buf" "good_kind buf"
  shows "job_loop buf = (case job_loop (drop (4 + frame_length buf) buf) of (Inl e, rest) \<Rightarrow> (Inl e, rest)
     | (Inr frames, rest) \<Rightarrow> (Inr ((drop 5 (take (4 + frame_length buf) buf), buf ! 4 = NOISE_BINARY) # frames), rest))"
proof -
  have c: "(length buf < 4) = False" "(be_value (take 4 buf) < 1 \<or> MAX_JOB_FRAME_BYTES < be_value (take 4 buf)) = False"
    "(length buf < 4 + be_value (take 4 buf)) = False" "(buf ! 4 \<noteq> NOISE_TEXT \<and> buf ! 4 \<noteq> NOISE_BINARY) = False"
    using assms by (auto simp: good_length_def good_kind_def frame_length_def)
  show ?thesis by (subst job_loop.simps) (simp only: c Let_def if_False frame_length_def)
qed

lemma frame_append:
  "4 \<le> length a \<Longrightarrow> frame_length (a @ b) = frame_length a" "4 \<le> length a \<Longrightarrow> good_length (a @ b) = good_length a"
  "4 < length a \<Longrightarrow> good_kind (a @ b) = good_kind a"
  by (simp_all add: frame_length_def good_length_def good_kind_def nth_append)

lemma job_loop_append:
  "job_loop a = (r, rest) \<Longrightarrow> job_loop (a @ b) = (case r of Inl e \<Rightarrow> (Inl e, rest @ b)
     | Inr fs \<Rightarrow> (case job_loop (rest @ b) of (Inl e, rest') \<Rightarrow> (Inl e, rest') | (Inr gs, rest') \<Rightarrow> (Inr (fs @ gs), rest')))"
proof (induction "length a" arbitrary: a r rest rule: less_induct)
  case (less a)
  consider (short) "length a < 4" | (length) "4 \<le> length a" "\<not> good_length a"
    | (part) "4 \<le> length a" "good_length a" "length a < 4 + frame_length a"
    | (kind) "good_length a" "4 + frame_length a \<le> length a" "\<not> good_kind a"
    | (frame) "good_length a" "4 + frame_length a \<le> length a" "good_kind a"
    by linarith
  then show ?case
  proof cases
    case length
    with less.prems show ?thesis by (auto simp: job_loop_length frame_append)
  next
    case kind
    then have "4 < length a" by (simp add: good_length_def)
    with kind less.prems show ?thesis by (auto simp: job_loop_kind frame_append nth_append)
  next
    case frame
    have four: "4 < length a" using frame by (simp add: good_length_def)
    let ?rest = "drop (4 + frame_length a) a" and ?f = "(drop 5 (take (4 + frame_length a) a), a ! 4 = NOISE_BINARY)"
    obtain r' rest' where loop: "job_loop ?rest = (r', rest')" by fastforce
    have here: "(r, rest) = (case r' of Inl e \<Rightarrow> (Inl e, rest') | Inr frames \<Rightarrow> (Inr (?f # frames), rest'))"
      using job_loop_good [OF frame] loop less.prems by (simp split: sum.splits)
    have "length ?rest < length a" using frame four by simp
    note ih = less.hyps [OF this loop]
    have "job_loop (a @ b) = (case job_loop (?rest @ b) of (Inl e, rest) \<Rightarrow> (Inl e, rest) | (Inr frames, rest) \<Rightarrow> (Inr (?f # frames), rest))"
    proof -
      have same: "frame_length (a @ b) = frame_length a" "(a @ b) ! 4 = a ! 4" "take (4 + frame_length a) (a @ b) = take (4 + frame_length a) a"
        "drop (4 + frame_length a) (a @ b) = ?rest @ b" using frame four by (simp_all add: frame_append nth_append)
      have "good_length (a @ b)" "4 + frame_length (a @ b) \<le> length (a @ b)" "good_kind (a @ b)" using frame four by (simp_all add: frame_append)
      then show ?thesis using job_loop_good [of "a @ b"] by (simp only: same)
    qed
    with ih here show ?thesis by (auto split: sum.splits prod.splits)
  qed (use less.prems in \<open>auto simp: job_loop_short job_loop_part split: sum.splits prod.splits\<close>)
qed

lemma job_loop_frame:
  assumes "jobFrame data binary = Some f" "length data \<le> MAX_SERVER_MESSAGE_BYTES"
  shows "job_loop (f @ rest) = (case job_loop rest of (Inl e, r) \<Rightarrow> (Inl e, r) | (Inr fs, r) \<Rightarrow> (Inr ((data, binary) # fs), r))"
proof -
  define h where "h = be_bytes 4 (length data + 1)"
  define k where "k = (if binary then NOISE_BINARY else NOISE_TEXT)"
  have f: "f = h @ k # data" "length data + 1 < 2 ^ 32" using assms(1) by (auto simp: jobFrame_def h_def k_def split: if_splits)
  have v: "length h = 4" "be_value h = Suc (length data)" using be_value_bytes [of "length data + 1" 4] f(2) by (simp_all add: h_def)
  have n: "frame_length (f @ rest) = Suc (length data)" using v by (simp add: frame_length_def f(1))
  have kind: "(f @ rest) ! 4 = k" using v(1) by (simp add: f(1) nth_append)
  have "good_length (f @ rest)" "good_kind (f @ rest)"
    using assms(2) by (simp_all add: good_length_def good_kind_def n kind k_def MAX_JOB_FRAME_BYTES_def)
  moreover have "drop (4 + Suc (length data)) (f @ rest) = rest" "drop 5 (take (4 + Suc (length data)) (f @ rest)) = data"
    using v(1) by (simp_all add: f(1))
  moreover have "(k = NOISE_BINARY) = binary" by (simp add: k_def NOISE_TEXT_def NOISE_BINARY_def)
  moreover have "4 + Suc (length data) \<le> length (f @ rest)" using v(1) by (simp add: f(1))
  ultimately show ?thesis using job_loop_good [of "f @ rest"] by (simp only: n kind)
qed

lemma job_loop_idle: "job_loop a = (Inr fs, rest) \<Longrightarrow> job_loop rest = (Inr [], rest)"
  using job_loop_append [of a "Inr fs" rest "[]"] by (auto split: sum.splits prod.splits)

lemma job_loop_stuck: "job_loop a = (Inl e, rest) \<Longrightarrow> job_loop rest = (Inl e, rest)"
proof (induction "length a" arbitrary: a rule: less_induct)
  case (less a)
  consider (idle) "job_loop a = (Inr [], a)" | (stuck) "\<exists>e. job_loop a = (Inl e, a)"
    | (frame) "good_length a" "4 + frame_length a \<le> length a" "good_kind a"
    using job_loop_short job_loop_length job_loop_part job_loop_kind by (metis not_less)
  then show ?case
  proof cases
    case frame
    have "length (drop (4 + frame_length a) a) < length a" using frame by (simp add: good_length_def)
    moreover have "job_loop (drop (4 + frame_length a) a) = (Inl e, rest)"
      using job_loop_good [OF frame] less.prems by (auto split: sum.splits prod.splits)
    ultimately show ?thesis using less.hyps by blast
  qed (use less.prems in auto)
qed

lemma job_pushes:
  "job_loop (buf @ concat chunks) = (Inr fs, rest) \<Longrightarrow> job_loop buf = (Inr [], buf) \<Longrightarrow>
   \<exists>fss. run_all job_push chunks buf = (Inr fss, rest) \<and> concat fss = fs"
proof (induction chunks arbitrary: buf fs)
  case (Cons x xs)
  obtain r rest1 where 1: "job_loop (buf @ x) = (r, rest1)" by fastforce
  obtain f1 gs where 2: "r = Inr f1" "job_loop (rest1 @ concat xs) = (Inr gs, rest)" "fs = f1 @ gs"
    using Cons.prems(1) job_loop_append [OF 1, of "concat xs"] by (auto split: sum.splits prod.splits)
  obtain fss where "run_all job_push xs rest1 = (Inr fss, rest)" "concat fss = gs"
    using Cons.IH [OF 2(2) job_loop_idle] 1 2(1) by blast
  moreover have "job_push x buf = (Inr f1, rest1)" using 1 2(1) by (simp add: job_push_def)
  ultimately show ?case using 2(3) by simp
qed simp

lemma job_loop_frames:
  "list_all2 (\<lambda>(d, b) f. jobFrame d b = Some f \<and> length d \<le> MAX_SERVER_MESSAGE_BYTES) ms fs \<Longrightarrow> job_loop (concat fs) = (Inr ms, [])"
  by (induction rule: list_all2_induct) (auto simp: job_loop_short job_loop_frame)

section \<open>What a handshake step leaves as it was\<close>

definition hs_frame :: "handshake_state \<Rightarrow> nat \<times> noise_token list list \<times> bool \<times> bool \<times> bool" where
  "hs_frame hs = (hs_index hs, hs_messages hs, hs_initiator hs, hs_split hs, hs_failed hs)"

lemma hs_frame_updates [simp]:
  "hs_frame (hs\<lparr>hs_symmetric := s\<rparr>) = hs_frame hs" "hs_frame (hs\<lparr>hs_e := e\<rparr>) = hs_frame hs"
  "hs_frame (hs\<lparr>hs_re := x\<rparr>) = hs_frame hs" "hs_frame (hs\<lparr>hs_rs := x\<rparr>) = hs_frame hs"
  by (simp_all add: hs_frame_def)

lemma with_symmetric_Inr: "with_symmetric hs r = Inr hs' \<Longrightarrow> \<exists>s. hs' = hs\<lparr>hs_symmetric := s\<rparr>"
  by (auto simp: with_symmetric_def and_then_Inr)

lemma mix_dh_Inr: "mix_dh c kp k hs = Inr hs' \<Longrightarrow> \<exists>s. hs' = hs\<lparr>hs_symmetric := s\<rparr>"
  by (auto simp: mix_dh_def and_then_Inr dest: with_symmetric_Inr)

lemma mixEphemeral_Inr: "mixEphemeral c k hs = Inr hs' \<Longrightarrow> \<exists>s. hs' = hs\<lparr>hs_symmetric := s\<rparr>"
  by (auto simp: mixEphemeral_def Let_def dest: with_symmetric_Inr split: if_splits)

lemma mixToken_Inr: "mixToken c t hs = Inr hs' \<Longrightarrow> \<exists>s. hs' = hs\<lparr>hs_symmetric := s\<rparr>"
  by (auto simp: mixToken_def dest: with_symmetric_Inr mix_dh_Inr split: if_splits option.splits)

lemma write_token_frame: "write_token c f t hs = Inr (out, hs') \<Longrightarrow> hs_frame hs' = hs_frame hs \<and> hs_rs hs' = hs_rs hs"
  by (auto simp: write_token_def encrypt_with_def Let_def and_then_Inr dest!: mixEphemeral_Inr mixToken_Inr split: if_splits prod.splits)

lemma write_tokens_frame: "write_tokens c f ts hs = Inr (out, hs') \<Longrightarrow> hs_frame hs' = hs_frame hs \<and> hs_rs hs' = hs_rs hs"
  by (induction ts arbitrary: hs out) (fastforce simp: and_then_Inr dest!: write_token_frame)+

lemma read_token_frame:
  "read_token c t rest hs = Inr (rest', hs') \<Longrightarrow> hs_frame hs' = hs_frame hs \<and> (hs_rs hs' \<noteq> None \<longleftrightarrow> hs_rs hs \<noteq> None \<or> t = TokS)"
  by (auto simp: read_token_def decrypt_with_def and_then_Inr dest!: mixEphemeral_Inr mixToken_Inr split: if_splits prod.splits)

lemma read_tokens_frame:
  "read_tokens c ts rest hs = Inr (rest', hs') \<Longrightarrow> hs_frame hs' = hs_frame hs \<and> (hs_rs hs' \<noteq> None \<longleftrightarrow> hs_rs hs \<noteq> None \<or> TokS \<in> set ts)"
proof (induction ts arbitrary: rest hs)
  case (Cons t ts)
  then obtain rest1 hs1 where "read_token c t rest hs = Inr (rest1, hs1)" "read_tokens c ts rest1 hs1 = Inr (rest', hs')"
    by (auto simp: and_then_Inr)
  with Cons.IH read_token_frame show ?case by fastforce
qed simp

text \<open>A call that succeeds: it was this side's turn, and the index moves on by one.\<close>

lemma writeMessage_moves:
  assumes "writeMessage c f p hs = (Inr out, hs')"
  shows "\<not> hs_failed hs \<and> hs_index hs < length (hs_messages hs) \<and> hs_index hs' = Suc (hs_index hs) \<and> hs_messages hs' = hs_messages hs \<and>
    hs_initiator hs' = hs_initiator hs \<and> hs_split hs' = hs_split hs \<and> \<not> hs_failed hs' \<and> hs_rs hs' = hs_rs hs \<and> length out \<le> MAX_HANDSHAKE_MESSAGE_BYTES"
proof -
  obtain hs1 where 1: "write_run c f p (hs_messages hs ! hs_index hs) hs = Inr (out, hs1)" "hs' = hs1\<lparr>hs_index := hs_index hs1 + 1\<rparr>"
    "\<not> hs_failed hs" "hs_index hs < length (hs_messages hs)"
    using assms by (auto simp: writeMessage_def hs_step_def split: if_splits sum.splits)
  from 1(1) have "hs_frame hs1 = hs_frame hs \<and> hs_rs hs1 = hs_rs hs \<and> length out \<le> MAX_HANDSHAKE_MESSAGE_BYTES"
    by (auto simp: write_run_def and_then_Inr encrypt_with_def dest!: write_tokens_frame split: if_splits prod.splits)
  with 1(2-4) show ?thesis by (simp add: hs_frame_def)
qed

lemma readMessage_moves:
  assumes "readMessage c m hs = (Inr out, hs')"
  shows "\<not> hs_failed hs \<and> hs_index hs < length (hs_messages hs) \<and> hs_index hs' = Suc (hs_index hs) \<and> hs_messages hs' = hs_messages hs \<and>
    hs_initiator hs' = hs_initiator hs \<and> hs_split hs' = hs_split hs \<and> \<not> hs_failed hs' \<and>
    (hs_rs hs' \<noteq> None \<longleftrightarrow> hs_rs hs \<noteq> None \<or> TokS \<in> set (hs_messages hs ! hs_index hs))"
proof -
  obtain hs1 where 1: "read_run c m (hs_messages hs ! hs_index hs) hs = Inr (out, hs1)" "hs' = hs1\<lparr>hs_index := hs_index hs1 + 1\<rparr>"
    "\<not> hs_failed hs" "hs_index hs < length (hs_messages hs)"
    using assms by (auto simp: readMessage_def hs_step_def split: if_splits sum.splits)
  from 1(1) obtain rest hs2 where "read_tokens c (hs_messages hs ! hs_index hs) m hs = Inr (rest, hs2)" "decrypt_with c rest hs2 = Inr (out, hs1)"
    by (auto simp: read_run_def and_then_Inr split: if_splits)
  with read_tokens_frame have "hs_frame hs1 = hs_frame hs \<and> (hs_rs hs1 \<noteq> None \<longleftrightarrow> hs_rs hs \<noteq> None \<or> TokS \<in> set (hs_messages hs ! hs_index hs))"
    by (fastforce simp: decrypt_with_def and_then_Inr split: prod.splits)
  with 1(2-4) show ?thesis by (auto simp: hs_frame_def)
qed

lemma make_socket_succeeds:
  assumes "crypto_ok c" "isComplete hs" "\<not> hs_failed hs" "\<not> hs_split hs"
  shows "\<exists>so. make_socket c hs ms mr key = Inr so"
proof -
  obtain a b where ab: "sym_split c (hs_symmetric hs) = Inr (a, b)" "hasKey a" "hasKey b" using split_succeeds [OF assms(1)] by blast
  with assms show ?thesis by (simp add: make_socket_def hs_split_keys_def new_transport_def)
qed

lemma make_socket_key: "make_socket c hs ms mr key = Inr so \<Longrightarrow> so_remoteKey so = key \<and> so_held so = Some []"
  by (auto simp: make_socket_def new_socket_def split: sum.splits prod.splits)

end
