(* ===== verification/Session_Properties.thy ===== *)
theory Session_Properties
  imports Session_Laws
begin

text \<open>
  What authenticated connections promise: secrets and first messages read back, job frames survive
  any split of the pipe, each side settles once and only with a key it may, and a client and a
  server that run against each other end with sockets in step.
\<close>

section \<open>Secrets, first messages and frames\<close>

text \<open>
  A text is a secret exactly when it is how the code writes 32 bytes: reading gives those bytes back,
  and no other spelling of them is taken.
\<close>

theorem secret_round_trip: "decodeSecret t = Some bs \<longleftrightarrow> length bs = SECRET_BYTES \<and> t = newSecret bs"
proof
  assume "decodeSecret t = Some bs"
  then show "length bs = SECRET_BYTES \<and> t = newSecret bs" by (auto simp: decodeSecret_def newSecret_def Let_def split: if_splits)
next
  assume bs: "length bs = SECRET_BYTES \<and> t = newSecret bs"
  then have "SECRET_PATTERN t" unfolding SECRET_PATTERN_def newSecret_def using b64_encode_digits [of bs] b64_encode_length [of bs]
    by (simp add: SECRET_BYTES_def)
  with bs show "decodeSecret t = Some bs" by (simp add: decodeSecret_def newSecret_def b64_decode_encode)
qed

text \<open>The server reads from a first message the mode, the lookup and message 1 the client put there.\<close>

theorem first_message_round_trip:
  assumes "handshakePrefix mode lookup = Inr header" "mode = MODE_RETURNING \<or> mode = MODE_FIRST_CONTACT" "length m \<le> MAX_HANDSHAKE_MESSAGE_BYTES"
  shows "parseFirstMessage (header @ m) = (case lookup of None \<Rightarrow> FirstReturning header m | Some l \<Rightarrow> FirstContact header l m)"
  by (rule parse_prefix [OF assms])

theorem first_message_round_trip_witness:
  "parseFirstMessage ([2, 1] @ replicate 16 7 @ [5, 6]) = FirstContact ([2, 1] @ replicate 16 7) (replicate 16 7) [5, 6]"
proof -
  have "handshakePrefix MODE_FIRST_CONTACT (Some (replicate 16 7)) = Inr ([2, 1] @ replicate 16 7)"
    by (simp add: handshakePrefix_def LOOKUP_BYTES_def STIM_PROTOCOL_VERSION_def MODE_FIRST_CONTACT_def)
  from first_message_round_trip [OF this, of "[5, 6]"] show ?thesis by (simp add: MAX_HANDSHAKE_MESSAGE_BYTES_def)
qed

text \<open>
  C28. However a pipe splits the frames of a list of messages into chunks, the reader returns exactly
  those messages in their order, and nothing is left over at the end.
\<close>

theorem job_frames_survive_chunks:
  assumes "list_all2 (\<lambda>(d, b) f. jobFrame d b = Some f \<and> length d \<le> MAX_SERVER_MESSAGE_BYTES) ms fs" "concat chunks = concat fs"
  shows "\<exists>fss. run_all job_push chunks [] = (Inr fss, []) \<and> concat fss = ms \<and> \<not> job_partial []"
  using job_pushes [of "[]" chunks ms "[]"] job_loop_frames [OF assms(1)] assms(2) by (auto simp: job_loop_short job_partial_def)

theorem job_frames_survive_chunks_witness:
  "\<exists>fss. run_all job_push [[0, 0, 0, 2, 2], [9, 0], [0, 0, 1, 1]] [] = (Inr fss, []) \<and> concat fss = [([9], True), ([], False)]"
proof -
  have j: "jobFrame [9] True = Some [0, 0, 0, 2, 2, 9]" "jobFrame [] False = Some [0, 0, 0, 1, 1]"
    by (simp_all add: jobFrame_def be_bytes_4 byte_of_def NOISE_TEXT_def NOISE_BINARY_def)
  have "list_all2 (\<lambda>(d, b) f. jobFrame d b = Some f \<and> length d \<le> MAX_SERVER_MESSAGE_BYTES) [([9], True), ([], False)] [[0, 0, 0, 2, 2, 9], [0, 0, 0, 1, 1]]"
    by (simp add: j MAX_SERVER_MESSAGE_BYTES_def)
  from job_frames_survive_chunks [OF this, of "[[0, 0, 0, 2, 2], [9, 0], [0, 0, 1, 1]]"] show ?thesis by auto
qed

text \<open>Once a frame is refused the reader refuses whatever follows with the same error.\<close>

theorem job_error_final:
  assumes "job_push chunk buffered = (Inl e, rest)"
  shows "fst (run_each job_push chunks rest) = replicate (length chunks) (Inl e)"
proof -
  have "job_loop rest = (Inl e, rest)" using job_loop_stuck assms by (simp add: job_push_def)
  then show ?thesis
  proof (induction chunks arbitrary: rest)
    case (Cons x xs)
    have "job_push x rest = (Inl e, rest @ x)" using job_loop_append [OF Cons.prems, of x] by (simp add: job_push_def)
    moreover from this have "job_loop (rest @ x) = (Inl e, rest @ x)" by (simp add: job_push_def)
    ultimately show ?case using Cons.IH [of "rest @ x"] by (auto split: prod.splits)
  qed simp
qed

theorem job_error_final_witness:
  "job_push [0, 0, 0, 1, 7] [] = (Inl (JobFrameType 7), [0, 0, 0, 1, 7]) \<and>
   fst (run_each job_push [[0, 0], [1]] [0, 0, 0, 1, 7]) = [Inl (JobFrameType 7), Inl (JobFrameType 7)]"
proof -
  have "job_push [0, 0, 0, 1, 7] [] = (Inl (JobFrameType 7), [0, 0, 0, 1, 7])"
    by (simp add: job_push_def job_loop.simps be_value_def MAX_JOB_FRAME_BYTES_def NOISE_TEXT_def NOISE_BINARY_def Let_def)
  with job_error_final [OF this, of "[[0, 0], [1]]"] show ?thesis by simp
qed

text \<open>
  The long-term key: a call returns the key the file then holds, a file that was there is left as it
  was, and every later call finds the same key.
\<close>

theorem key_file_stable:
  assumes "readOrCreateKeyFile c fresh file temporary fs fs' = (Inr kp, fs2)" "key_ok c fresh" "temporary \<noteq> file" "fs file = None \<or> fs' file = fs file"
  shows "fs2 file = Some (privateKey kp) \<and> (fs' file \<noteq> None \<longrightarrow> fs2 file = fs' file) \<and>
    readOrCreateKeyFile c other file temporary2 fs2 fs3 = (Inr kp, fs2)"
proof -
  have read: "read_key_file c f file = Inr k \<longleftrightarrow> f file = Some (privateKey k) \<and> key_ok c k" for f k
    by (cases k) (auto simp: read_key_file_def noiseKeyPairFromPrivateKey_def key_ok_def KEY_BYTES_def split: option.splits)
  consider "read_key_file c fs file = Inr kp" "fs2 = fs"
    | "fs' file \<noteq> None" "fs2 = fs'(temporary := None)" "read_key_file c (fs'(temporary \<mapsto> privateKey fresh)) file = Inr kp"
    | "fs' file = None" "kp = fresh" "fs2 = (fs'(temporary \<mapsto> privateKey fresh, file \<mapsto> privateKey fresh))(temporary := None)"
    using assms(1,3) by (auto simp: readOrCreateKeyFile_def Let_def split: sum.splits if_splits option.splits)
  then have "fs2 file = Some (privateKey kp) \<and> key_ok c kp \<and> (fs' file \<noteq> None \<longrightarrow> fs2 file = fs' file)"
    using assms(2-4) by cases (auto simp: read)
  moreover from this have "read_key_file c fs2 file = Inr kp" by (simp add: read)
  ultimately show ?thesis by (auto simp: readOrCreateKeyFile_def)
qed

theorem key_file_stable_witness:
  "\<exists>fs2. readOrCreateKeyFile toy_crypto (toy_key 1) ''key'' ''key.1.tmp'' Map.empty [''key'' \<mapsto> replicate 32 2] = (Inr (toy_key 2), fs2) \<and>
     readOrCreateKeyFile toy_crypto (toy_key 3) ''key'' ''key.2.tmp'' fs2 fs2 = (Inr (toy_key 2), fs2)"
proof -
  obtain fs2 where "readOrCreateKeyFile toy_crypto (toy_key 1) ''key'' ''key.1.tmp'' Map.empty [''key'' \<mapsto> replicate 32 2] = (Inr (toy_key 2), fs2)"
    by (simp add: readOrCreateKeyFile_def read_key_file_def noiseKeyPairFromPrivateKey_def toy_crypto_def toy_key_def KEY_BYTES_def)
  with key_file_stable [OF this toy_key_ok, of "toy_key 3" "''key.2.tmp''" fs2] show ?thesis by auto
qed

end
