(* ===== verification/Session_Agreement.thy ===== *)
theory Session_Agreement
  imports Session_Properties
begin

text \<open>
  The two sides of a session as machines: what holds of either whatever the network does, and what
  the two reach when each other's messages arrive.
\<close>

section \<open>The client\<close>

lemma patterns: "length (PATTERNS p) = 3" "TokS \<in> set (PATTERNS p ! 1)" "TokS \<in> set (PATTERNS p ! 2)" "TokS \<notin> set (PATTERNS p ! 0)"
  by (cases p; simp)+

definition starting :: "handshake_state \<Rightarrow> bool" where
  "starting hs \<longleftrightarrow> hs_index hs = 0 \<and> (\<exists>p. hs_messages hs = PATTERNS p) \<and> \<not> hs_failed hs \<and> \<not> hs_split hs \<and> hs_rs hs = None"

lemma new_handshake_starting: "new_handshake c p i prologue s psk e = Inr hs \<Longrightarrow> starting hs \<and> hs_initiator hs = i"
  by (auto simp: new_handshake_def starting_def simp del: PATTERNS.simps split: if_splits)

lemma client_handshake_Inr:
  assumes "client_handshake c opts = Inr (header, hs)"
  shows "\<exists>psk. client_prefix c opts = Inr (psk, header) \<and>
    new_handshake c (if psk = None then NOISE_XX else NOISE_XX_PSK2) True (handshakePrologue header) (co_keyPair opts) psk None = Inr hs"
proof -
  obtain psk o' where p: "client_prefix c opts = Inr (psk, o')" using assms by (auto simp: client_handshake_def and_then_Inr)
  with assms show ?thesis
    by (cases "new_handshake c (if psk = None then NOISE_XX else NOISE_XX_PSK2) True (handshakePrologue o') (co_keyPair opts) psk None")
      (auto simp: client_handshake_def)
qed

lemma client_handshake_starting: "client_handshake c opts = Inr (header, hs) \<Longrightarrow> starting hs"
  by (auto dest!: client_handshake_Inr new_handshake_starting)

text \<open>One message written or read, and a message still to come that carries a static key.\<close>

definition midway :: "nat \<Rightarrow> handshake_state \<Rightarrow> bool" where
  "midway i hs \<longleftrightarrow> hs_index hs = i \<and> (\<exists>p. hs_messages hs = PATTERNS p) \<and> \<not> hs_failed hs \<and> \<not> hs_split hs"

lemma write_midway: "writeMessage c f p hs = (Inr m, hs') \<Longrightarrow> midway i hs \<Longrightarrow> midway (Suc i) hs'"
  using writeMessage_moves [of c f p hs m hs'] by (auto simp: midway_def)

lemma read_midway: "readMessage c m hs = (Inr out, hs') \<Longrightarrow> midway i hs \<Longrightarrow> midway (Suc i) hs'"
  using readMessage_moves [of c m hs out hs'] by (auto simp: midway_def)

lemma midway_complete: "midway 3 hs \<Longrightarrow> isComplete hs"
  by (auto simp: midway_def isComplete_def patterns)

lemma starting_midway: "starting hs \<Longrightarrow> midway 0 hs"
  by (auto simp: starting_def midway_def)

fun client_inv :: "client_options \<Rightarrow> raw_action list \<Rightarrow> client_state \<Rightarrow> bool" where
  "client_inv opts acts (ClientWaiting hs) = (midway 1 hs \<and> (\<exists>m. acts = [RawSend m]))"
| "client_inv opts acts (ClientDone so) = (\<not> key_refused opts (so_remoteKey so) \<and> (\<exists>m1 m3. acts = [RawSend m1, RawSend m3]))"
| "client_inv opts acts (ClientFailed code message) =
     (\<exists>sends closes. acts = sends @ closes \<and> (sends = [] \<or> (\<exists>m. sends = [RawSend m])) \<and> (closes = [] \<or> closes = [RawClose CLOSE_REFUSED code]))"
| "client_inv opts acts (ClientBroken e) = False"

lemma client_fail_inv:
  assumes "client_fail is_open code detail = (acts, st)" "sends = [] \<or> (\<exists>m. sends = [RawSend m])"
  shows "client_inv opts (sends @ acts) st"
proof -
  have "acts = [] \<or> acts = [RawClose CLOSE_REFUSED code]" "\<exists>message. st = ClientFailed code message"
    using assms(1) by (auto simp: client_fail_def split: if_splits)
  with assms(2) show ?thesis by (elim exE) (simp only: client_inv.simps, blast)
qed

lemma client_message_inv:
  assumes c: "crypto_ok c" and step: "client_message c opts is_open data hs = (acts', st)" and inv: "client_inv opts acts (ClientWaiting hs)"
  shows "client_inv opts (acts @ acts') st"
proof -
  obtain m where m: "acts = [RawSend m]" and mid: "midway 1 hs" using inv by auto
  have fail: "client_inv opts (acts @ acts') st" if "client_fail is_open code detail = (acts', st)" for code detail
    using client_fail_inv [OF that, of acts] m by simp
  show ?thesis
  proof (cases "\<exists>code detail. client_fail is_open code detail = (acts', st)")
    case True
    with fail show ?thesis by blast
  next
    case False
    then obtain bs hs1 message3 hs2 where 1: "data = BinaryIn bs" "readMessage c bs hs = (Inr [], hs1)" "\<not> key_refused opts (the (remoteStaticPublicKey hs1))"
      "writeMessage c (co_keyPair opts) (name_payload opts) hs1 = (Inr message3, hs2)" "acts' = [RawSend message3]"
      "st = (case make_socket c hs2 (or_else (co_maxSend opts) MAX_CLIENT_MESSAGE_BYTES) (or_else (co_maxReceive opts) MAX_SERVER_MESSAGE_BYTES)
         (the (remoteStaticPublicKey hs1)) of Inl e \<Rightarrow> ClientBroken e | Inr so \<Rightarrow> ClientDone so)"
      using step by (auto simp: client_message_def Let_def split: ws_message.splits prod.splits sum.splits if_splits)
    have "midway 3 hs2" using write_midway [OF 1(4)] read_midway [OF 1(2)] mid by (simp add: eval_nat_numeral)
    then obtain so where "make_socket c hs2 (or_else (co_maxSend opts) MAX_CLIENT_MESSAGE_BYTES) (or_else (co_maxReceive opts) MAX_SERVER_MESSAGE_BYTES)
         (the (remoteStaticPublicKey hs1)) = Inr so"
      using make_socket_succeeds [OF c] midway_complete by (metis midway_def)
    with 1 m make_socket_key [OF this] show ?thesis by simp
  qed
qed

lemma client_step_inv:
  assumes c: "crypto_ok c" and "client_step c opts ev st = (acts', st')" "client_inv opts acts st"
  shows "client_inv opts (acts @ acts') st'"
proof (cases st)
  case (ClientWaiting hs)
  then obtain m where "acts = [RawSend m]" using assms(3) by auto
  then have fail: "client_fail is_open code detail = (acts', st') \<Longrightarrow> client_inv opts (acts @ acts') st'" for is_open code detail
    using client_fail_inv [of is_open code detail acts' st' acts] by simp
  show ?thesis
  proof (cases "snd ev")
    case (RawMessage m)
    with assms ClientWaiting show ?thesis by (cases ev) (auto simp del: client_inv.simps intro: client_message_inv [OF c])
  qed (use assms ClientWaiting in \<open>cases ev; auto simp del: client_inv.simps intro: fail split: if_splits\<close>)+
qed (use assms in auto)

lemma client_run_inv:
  "crypto_ok c \<Longrightarrow> run_each (client_step c opts) evs st = (actss, st') \<Longrightarrow> client_inv opts acts st \<Longrightarrow> client_inv opts (acts @ concat actss) st'"
proof (induction evs arbitrary: st actss acts)
  case (Cons ev evs)
  obtain a st1 where 1: "client_step c opts ev st = (a, st1)" by fastforce
  obtain as where 2: "run_each (client_step c opts) evs st1 = (as, st')" "actss = a # as" using Cons.prems(2) 1 by (auto split: prod.splits)
  from Cons.IH [OF Cons.prems(1) 2(1) client_step_inv [OF Cons.prems(1) 1 Cons.prems(3)]] show ?case by (simp add: 2(2))
qed simp

lemma initiate_inv:
  assumes "initiateNoise c opts fresh is_open sent = Inr (acts, st)"
  shows "client_inv opts acts st"
proof -
  obtain header hs where 1: "client_handshake c opts = Inr (header, hs)"
    "(case writeMessage c fresh [] hs of (Inl _, _) \<Rightarrow> client_fail is_open ''handshake-failed'' None
       | (Inr m, hs) \<Rightarrow> if sent then ([RawSend (header @ m)], ClientWaiting hs) else client_fail is_open ''handshake-failed'' None) = (acts, st)"
    using assms by (auto simp: initiateNoise_def and_then_Inr)
  have mid: "midway 0 hs" by (rule starting_midway [OF client_handshake_starting [OF 1(1)]])
  show ?thesis
  proof (cases "client_fail is_open ''handshake-failed'' None = (acts, st)")
    case True
    with client_fail_inv [OF True, of "[]"] show ?thesis by simp
  next
    case False
    with 1(2) obtain m hs' where "writeMessage c fresh [] hs = (Inr m, hs')" "acts = [RawSend (header @ m)]" "st = ClientWaiting hs'"
      by (auto split: prod.splits sum.splits if_splits)
    with write_midway [OF this(1) mid] show ?thesis by simp
  qed
qed

section \<open>The server\<close>

text \<open>What the first message has to have been, and the mode and lookup that go with it.\<close>

definition admitted :: "server_options \<Rightarrow> ws_message \<Rightarrow> byte \<Rightarrow> bytes option \<Rightarrow> bool" where
  "admitted opts first mode lookup \<longleftrightarrow> (\<exists>bs. first = BinaryIn bs \<and>
     (mode = MODE_RETURNING \<and> lookup = None \<and> (\<exists>header m. parseFirstMessage bs = FirstReturning header m) \<or>
      mode = MODE_FIRST_CONTACT \<and> (\<exists>header l m psk. parseFirstMessage bs = FirstContact header l m \<and> lookup = Some l \<and> vo_psk opts (hex_text l) = PskIs psk)))"

fun closing :: "raw_action \<Rightarrow> bool" where
  "closing (RawClose _ _) = True"
| "closing _ = False"

fun server_inv :: "server_options \<Rightarrow> ws_message \<Rightarrow> raw_action list \<Rightarrow> server_state \<Rightarrow> bool" where
  "server_inv opts first acts (ServerWaiting hs mode lookup) = (midway 2 hs \<and> admitted opts first mode lookup \<and> (\<exists>m. acts = [RawSend m]))"
| "server_inv opts first acts (ServerAccepted a) =
     ((\<exists>lookup. admitted opts first (ac_mode a) lookup \<and> ac_lookup a = map_option hex_text lookup) \<and> so_remoteKey (ac_socket a) = ac_clientKey a \<and> (\<exists>m. acts = [RawSend m]))"
| "server_inv opts first acts (ServerRefused code message) = (\<exists>sends closes. acts = sends @ closes \<and> length sends \<le> 1 \<and>
     list_all (\<lambda>a. case a of RawClose _ _ \<Rightarrow> False | _ \<Rightarrow> True) sends \<and> (closes = [] \<or> (\<exists>n. closes = [RawClose n code])))"
| "server_inv opts first acts (ServerThrew waiting) = (length acts \<le> 1 \<and> (waiting \<longrightarrow> acts = []))"
| "server_inv opts first acts (ServerBroken e) = False"

lemma server_refuse_inv:
  assumes "server_refuse is_open code n = (acts, st)" "length sends \<le> 1" "list_all (\<lambda>a. case a of RawClose _ _ \<Rightarrow> False | _ \<Rightarrow> True) sends"
  shows "server_inv opts first (sends @ acts) st"
proof -
  have "acts = [] \<or> (\<exists>n. acts = [RawClose n code])" "\<exists>message. st = ServerRefused code message"
    using assms(1) by (auto simp: server_refuse_def split: if_splits)
  with assms(2,3) show ?thesis by (elim exE) (simp only: server_inv.simps, blast)
qed

lemma server_handshake_inv:
  assumes "server_handshake c opts fresh is_open psk mode lookup header m1 = (acts, st)" "admitted opts first mode lookup"
  shows "server_inv opts first acts st"
proof (cases "server_refuse is_open ''handshake-failed'' CLOSE_REFUSED = (acts, st)")
  case True
  from server_refuse_inv [OF this, of "[]"] show ?thesis by simp
next
  case False
  consider "acts = []" "st = ServerThrew True"
    | hs hs1 m2 hs2 where "new_handshake c (if psk = None then NOISE_XX else NOISE_XX_PSK2) False (handshakePrologue header) (vo_keyPair opts) psk None = Inr hs"
        "readMessage c m1 hs = (Inr [], hs1)" "writeMessage c fresh [] hs1 = (Inr m2, hs2)" "acts = [RawSend m2]" "st = ServerWaiting hs2 mode lookup"
    using assms(1) False by (auto simp: server_handshake_def split: prod.splits sum.splits if_splits)
  then show ?thesis
  proof cases
    case 2
    have "midway 0 hs" using new_handshake_starting [OF 2(1)] by (simp add: starting_midway)
    then have "midway 2 hs2" using write_midway [OF 2(3)] read_midway [OF 2(2)] by (simp add: eval_nat_numeral)
    with 2 assms(2) show ?thesis by simp
  qed simp
qed

lemma accept_inv:
  assumes "acceptNoise c opts fresh is_open first = (acts, st)"
  shows "server_inv opts first acts st"
proof (cases first)
  case (TextIn t)
  then obtain a where a: "server_refuse is_open ''protocol-unsupported'' CLOSE_BAD_REQUEST = (a, st)"
    "acts = (if is_open then [RawSendText (stringify (hello_reply t))] else []) @ a"
    using assms by (auto simp: acceptNoise_def split: prod.splits)
  from server_refuse_inv [OF a(1), of "if is_open then [RawSendText (stringify (hello_reply t))] else []"] show ?thesis by (simp add: a(2))
next
  case (BinaryIn bs)
  show ?thesis
  proof (cases "\<exists>code n. server_refuse is_open code n = (acts, st)")
    case True
    then obtain code n where "server_refuse is_open code n = (acts, st)" by blast
    from server_refuse_inv [OF this, of "[]"] show ?thesis by simp
  next
    case False
    then consider "acts = []" "st = ServerThrew True"
      | header m where "parseFirstMessage bs = FirstReturning header m" "server_handshake c opts fresh is_open None MODE_RETURNING None header m = (acts, st)"
      | header l m psk where "parseFirstMessage bs = FirstContact header l m" "vo_psk opts (hex_text l) = PskIs psk"
          "server_handshake c opts fresh is_open (Some psk) MODE_FIRST_CONTACT (Some l) header m = (acts, st)"
      using assms BinaryIn by (auto simp: acceptNoise_def split: parsed_first.splits psk_answer.splits)
    then show ?thesis
    proof cases
      case 2
      with BinaryIn show ?thesis by (intro server_handshake_inv [OF 2(2)]) (simp add: admitted_def)
    next
      case 3
      with BinaryIn show ?thesis by (intro server_handshake_inv [OF 3(3)]) (auto simp: admitted_def)
    qed simp
  qed
qed

lemma server_message_inv:
  assumes c: "crypto_ok c" and step: "server_message c opts is_open data hs mode lookup = (acts', st)" and inv: "server_inv opts first acts (ServerWaiting hs mode lookup)"
  shows "server_inv opts first (acts @ acts') st"
proof -
  obtain m where m: "acts = [RawSend m]" and mid: "midway 2 hs" and ad: "admitted opts first mode lookup" using inv by auto
  show ?thesis
  proof (cases "server_refuse is_open ''handshake-failed'' CLOSE_REFUSED = (acts', st)")
    case True
    from server_refuse_inv [OF this, of acts] m show ?thesis by simp
  next
    case False
    then obtain bs payload hs1 where 1: "data = BinaryIn bs" "readMessage c bs hs = (Inr payload, hs1)" "acts' = []"
      "st = (case make_socket c hs1 (or_else (vo_maxSend opts) MAX_SERVER_MESSAGE_BYTES) (or_else (vo_maxReceive opts) MAX_CLIENT_MESSAGE_BYTES) (the (remoteStaticPublicKey hs1)) of
          Inl e \<Rightarrow> ServerBroken e | Inr so \<Rightarrow> ServerAccepted \<lparr>ac_socket = so, ac_mode = mode, ac_lookup = map_option hex_text lookup,
            ac_clientKey = the (remoteStaticPublicKey hs1), ac_payload = payload\<rparr>)"
      using step by (auto simp: server_message_def Let_def split: ws_message.splits prod.splits sum.splits)
    have "midway 3 hs1" using read_midway [OF 1(2)] mid by (simp add: eval_nat_numeral)
    then obtain so where "make_socket c hs1 (or_else (vo_maxSend opts) MAX_SERVER_MESSAGE_BYTES) (or_else (vo_maxReceive opts) MAX_CLIENT_MESSAGE_BYTES)
        (the (remoteStaticPublicKey hs1)) = Inr so"
      using make_socket_succeeds [OF c] midway_complete by (metis midway_def)
    with 1 m ad make_socket_key [OF this] show ?thesis by auto
  qed
qed

lemma server_step_inv:
  assumes c: "crypto_ok c" and step: "server_step c opts ev st = (acts', st')" and inv: "server_inv opts first acts st"
  shows "server_inv opts first (acts @ acts') st'"
proof (cases st)
  case (ServerWaiting hs mode lookup)
  then obtain m where m: "acts = [RawSend m]" using inv by auto
  have refuse: "server_inv opts first (acts @ acts') st'" if "server_refuse is_open code n = (acts', st')" for is_open code n
    using server_refuse_inv [OF that, of acts] m by simp
  show ?thesis
  proof (cases "snd ev")
    case (RawMessage m)
    with step inv ServerWaiting show ?thesis by (cases ev) (auto simp del: server_inv.simps intro: server_message_inv [OF c])
  next
    case (RawFailed message)
    with step inv ServerWaiting show ?thesis by (cases ev) auto
  qed (use step inv ServerWaiting in \<open>cases ev; auto simp del: server_inv.simps intro: refuse\<close>)+
next
  case (ServerThrew w)
  with step inv show ?thesis by (cases ev; cases "snd ev"; cases w) (auto simp: server_refuse_def split: if_splits)
qed (use step inv in auto)

lemma not_closing: "(\<lambda>a. case a of RawClose _ _ \<Rightarrow> False | _ \<Rightarrow> True) = (\<lambda>a. \<not> closing a)"
  by (simp add: fun_eq_iff split: raw_action.split)

lemma server_inv_closes:
  assumes "server_inv opts first acts st"
  shows "length (filter closing acts) \<le> 1"
proof (cases st)
  case (ServerRefused code message)
  then obtain sends closes where "acts = sends @ closes" "list_all (\<lambda>a. \<not> closing a) sends" "closes = [] \<or> (\<exists>n. closes = [RawClose n code])"
    using assms by (auto simp: not_closing)
  then show ?thesis by (auto simp: list_all_iff filter_empty_conv [THEN iffD2])
qed (use assms le_trans [OF length_filter_le] in auto)

lemma server_run_inv:
  "crypto_ok c \<Longrightarrow> run_each (server_step c opts) evs st = (actss, st') \<Longrightarrow> server_inv opts first acts st \<Longrightarrow> server_inv opts first (acts @ concat actss) st'"
proof (induction evs arbitrary: st actss acts)
  case (Cons ev evs)
  obtain a st1 where 1: "server_step c opts ev st = (a, st1)" by fastforce
  obtain as where 2: "run_each (server_step c opts) evs st1 = (as, st')" "actss = a # as" using Cons.prems(2) 1 by (auto split: prod.splits)
  from Cons.IH [OF Cons.prems(1) 2(1) server_step_inv [OF Cons.prems(1) 1 Cons.prems(3)]] show ?case by (simp add: 2(2))
qed simp

section \<open>Properties of either side\<close>

text \<open>
  C25. Whatever the network does, the client settles at most once: it ends with a socket only if the other
  side proved the pinned key, or one it accepts where none is pinned, after its two messages and with
  the connection still open; it closes the connection at most once, with the code it fails with; and
  it is never left with neither result.
\<close>

theorem client_settles:
  assumes "crypto_ok c" "initiateNoise c opts fresh is_open sent = Inr (acts, st0)" "run_each (client_step c opts) evs st0 = (actss, st)"
  shows "case st of
      ClientDone so \<Rightarrow> (case co_serverKey opts of Some pinned \<Rightarrow> so_remoteKey so = pinned
          | None \<Rightarrow> (case co_accept opts of None \<Rightarrow> True | Some accept \<Rightarrow> accept (so_remoteKey so))) \<and>
        (\<exists>m1 m3. acts @ concat actss = [RawSend m1, RawSend m3])
    | ClientFailed code _ \<Rightarrow> (\<exists>sends closes. acts @ concat actss = sends @ closes \<and> (sends = [] \<or> (\<exists>m. sends = [RawSend m])) \<and>
        (closes = [] \<or> closes = [RawClose CLOSE_REFUSED code]))
    | ClientWaiting hs \<Rightarrow> \<not> isComplete hs \<and> (\<exists>m. acts @ concat actss = [RawSend m])
    | ClientBroken _ \<Rightarrow> False"
proof -
  have "client_inv opts (acts @ concat actss) st" using client_run_inv [OF assms(1,3) initiate_inv [OF assms(2)]] .
  then show ?thesis by (cases st) (auto simp: key_refused_def midway_def isComplete_def patterns split: option.splits)
qed

theorem client_settles_witness:
  "\<exists>acts st0 actss. initiateNoise toy_crypto \<lparr>co_keyPair = toy_key 1, co_serverKey = Some (replicate 32 2), co_secret = None, co_name = None,
        co_accept = None, co_maxSend = None, co_maxReceive = None\<rparr> (toy_key 3) True True = Inr (acts, st0) \<and>
     run_each (client_step toy_crypto \<lparr>co_keyPair = toy_key 1, co_serverKey = Some (replicate 32 2), co_secret = None, co_name = None,
        co_accept = None, co_maxSend = None, co_maxReceive = None\<rparr>) [(True, TimedOut), (True, TimedOut)] st0 =
       (actss, ClientFailed ''timeout'' ''The machine did not finish the handshake in time.'') \<and>
     (\<exists>sends closes. acts @ concat actss = sends @ closes \<and> (closes = [] \<or> closes = [RawClose CLOSE_REFUSED ''timeout'']))"
proof -
  let ?o = "\<lparr>co_keyPair = toy_key 1, co_serverKey = Some (replicate 32 2), co_secret = None, co_name = None, co_accept = None, co_maxSend = None, co_maxReceive = None\<rparr>"
  obtain hs where h: "client_handshake toy_crypto ?o = Inr ([2, 0], hs)" "new_handshake toy_crypto NOISE_XX True (handshakePrologue [2, 0]) (toy_key 1) None None = Inr hs"
    by (simp add: client_handshake_def client_prefix_def handshakePrefix_def MODE_RETURNING_def MODE_FIRST_CONTACT_def STIM_PROTOCOL_VERSION_def new_handshake_def)
  obtain r0 where "new_handshake toy_crypto NOISE_XX False (handshakePrologue [2, 0]) (toy_key 2) None None = Inr r0" by (simp add: new_handshake_def)
  from handshake_carried [OF toy_crypto_ok toy_key_ok toy_key_ok toy_key_ok [of 3] toy_key_ok [of 4] h(2) this, of "[]" "[]" "[]" "toy_key 5"]
  obtain m1 hs1 where "writeMessage toy_crypto (toy_key 3) [] hs = (Inr m1, hs1)" by auto
  then have i: "initiateNoise toy_crypto ?o (toy_key 3) True True = Inr ([RawSend ([2, 0] @ m1)], ClientWaiting hs1)"
    by (simp add: initiateNoise_def h(1))
  obtain actss where r: "run_each (client_step toy_crypto ?o) [(True, TimedOut), (True, TimedOut)] (ClientWaiting hs1) =
      (actss, ClientFailed ''timeout'' ''The machine did not finish the handshake in time.'')"
    by (simp add: client_fail_def or_else_def)
  from client_settles [OF toy_crypto_ok i r] i r show ?thesis by auto
qed

text \<open>
  C26. Whatever the network does, the server accepts a client only on a first message of protocol 2 that is
  a returning client's or names a secret the server knows, with the mode and the lookup of that
  message, the key of the connection it hands on being the client's, after exactly one message of its own
  and no close. A refusal is at most one message and then at most one close, with the code it is refused
  with; while it waits it has sent one message; and in no case is the connection closed twice.
\<close>

theorem server_accepts:
  assumes "crypto_ok c" "acceptNoise c opts fresh is_open first = (acts, st0)" "run_each (server_step c opts) evs st0 = (actss, st)"
  shows "length (filter closing (acts @ concat actss)) \<le> 1 \<and> (case st of
      ServerAccepted a \<Rightarrow> (\<exists>bs. first = BinaryIn bs \<and> (case parseFirstMessage bs of
            FirstReturning _ _ \<Rightarrow> ac_mode a = MODE_RETURNING \<and> ac_lookup a = None
          | FirstContact _ l _ \<Rightarrow> ac_mode a = MODE_FIRST_CONTACT \<and> ac_lookup a = Some (hex_text l) \<and> (\<exists>psk. vo_psk opts (hex_text l) = PskIs psk)
          | FirstError _ \<Rightarrow> False)) \<and>
        so_remoteKey (ac_socket a) = ac_clientKey a \<and> (\<exists>m. acts @ concat actss = [RawSend m])
    | ServerRefused code _ \<Rightarrow> (\<exists>sends closes. acts @ concat actss = sends @ closes \<and> length sends \<le> 1 \<and> list_all (\<lambda>a. \<not> closing a) sends \<and>
        (closes = [] \<or> (\<exists>n. closes = [RawClose n code])))
    | ServerWaiting hs _ _ \<Rightarrow> \<not> isComplete hs \<and> (\<exists>m. acts @ concat actss = [RawSend m])
    | ServerThrew waiting \<Rightarrow> length (acts @ concat actss) \<le> 1 \<and> (waiting \<longrightarrow> acts @ concat actss = [])
    | ServerBroken _ \<Rightarrow> False)"
proof -
  let ?acts = "acts @ concat actss"
  have inv: "server_inv opts first ?acts st" using server_run_inv [OF assms(1,3) accept_inv [OF assms(2)]] .
  from server_inv_closes [OF inv] inv show ?thesis by (cases st) (auto simp: not_closing admitted_def midway_def isComplete_def patterns)
qed

theorem server_accepts_witness:
  "\<exists>acts st0. acceptNoise toy_crypto \<lparr>vo_keyPair = toy_key 2, vo_psk = \<lambda>_. PskNone, vo_maxSend = None, vo_maxReceive = None\<rparr> (toy_key 3) True (BinaryIn ([2, 1] @ replicate 16 7)) =
       (acts, st0) \<and> st0 = ServerRefused ''unknown-secret'' ''The machine does not know this pairing token or setup ticket yet, or it expired.'' \<and>
     length (filter closing acts) \<le> 1 \<and>
     (\<exists>sends closes. acts @ concat [] = sends @ closes \<and> length sends \<le> 1 \<and> (closes = [] \<or> (\<exists>n. closes = [RawClose n ''unknown-secret''])))"
proof -
  let ?o = "\<lparr>vo_keyPair = toy_key 2, vo_psk = \<lambda>_. PskNone, vo_maxSend = None, vo_maxReceive = None\<rparr>"
  let ?st = "ServerRefused ''unknown-secret'' ''The machine does not know this pairing token or setup ticket yet, or it expired.''"
  have "parseFirstMessage ([2, 1] @ replicate 16 7 @ []) = FirstContact ([2, 1] @ replicate 16 7) (replicate 16 7) []"
    using parse_prefix [of MODE_FIRST_CONTACT "Some (replicate 16 7)" "[2, 1] @ replicate 16 7" "[]"]
    by (simp add: handshakePrefix_def LOOKUP_BYTES_def STIM_PROTOCOL_VERSION_def MODE_FIRST_CONTACT_def)
  then have a: "acceptNoise toy_crypto ?o (toy_key 3) True (BinaryIn ([2, 1] @ replicate 16 7)) = ([RawClose CLOSE_REFUSED ''unknown-secret''], ?st)"
    by (simp add: acceptNoise_def server_refuse_def or_else_def REFUSAL_MESSAGES_def)
  have r: "run_each (server_step toy_crypto ?o) [] ?st = ([], ?st)" by simp
  from server_accepts [OF toy_crypto_ok a r] a show ?thesis by auto
qed

end
