(* ===== verification/Session_Delivery.thy ===== *)
theory Session_Delivery
  imports Session_Agreement
begin

text \<open>
  A client and a server against each other: both reach a socket, each with the other's key, and the
  messages sent on one come out of the other in order, those before the first listener included.
\<close>

section \<open>Both sides reach a socket\<close>

text \<open>The client can start, and the server knows the secret where there is one.\<close>

definition may_connect :: "crypto \<Rightarrow> client_options \<Rightarrow> server_options \<Rightarrow> bool" where
  "may_connect c opts vopts = (case co_secret opts of
       None \<Rightarrow> co_serverKey opts \<noteq> None
     | Some secret \<Rightarrow> (case secretValues c secret of Inl _ \<Rightarrow> False | Inr v \<Rightarrow> vo_psk vopts (hex_text (sv_lookup v)) = PskIs (sv_psk v)))"

definition limits_agree :: "client_options \<Rightarrow> server_options \<Rightarrow> bool" where
  "limits_agree opts vopts =
     (or_else (co_maxSend opts) MAX_CLIENT_MESSAGE_BYTES \<le> or_else (vo_maxReceive vopts) MAX_CLIENT_MESSAGE_BYTES \<and>
      or_else (vo_maxSend vopts) MAX_SERVER_MESSAGE_BYTES \<le> or_else (co_maxReceive opts) MAX_SERVER_MESSAGE_BYTES)"

lemma client_prefix_known:
  assumes c: "crypto_ok c" and may: "may_connect c opts vopts"
  shows "\<exists>psk header mode lookup. client_prefix c opts = Inr (psk, header) \<and> handshakePrefix mode lookup = Inr header \<and>
    (mode = MODE_RETURNING \<and> psk = None \<and> lookup = None \<or>
     mode = MODE_FIRST_CONTACT \<and> (\<exists>l k. lookup = Some l \<and> psk = Some k \<and> length k = KEY_BYTES \<and> vo_psk vopts (hex_text l) = PskIs k))"
proof (cases "co_secret opts")
  case None
  with may show ?thesis
    by (intro exI [of _ None] exI [of _ "[STIM_PROTOCOL_VERSION, MODE_RETURNING]"] exI [of _ MODE_RETURNING])
      (auto simp: may_connect_def client_prefix_def handshakePrefix_def MODE_RETURNING_def MODE_FIRST_CONTACT_def)
next
  case (Some secret)
  with may obtain v where v: "secretValues c secret = Inr v" "vo_psk vopts (hex_text (sv_lookup v)) = PskIs (sv_psk v)"
    by (auto simp: may_connect_def split: sum.splits)
  have len: "length (sv_psk v) = KEY_BYTES" "length (sv_lookup v) = LOOKUP_BYTES"
    using v(1) by (auto simp: secretValues_def crypto_sha [OF c] HASH_BYTES_def KEY_BYTES_def LOOKUP_BYTES_def split: if_splits)
  then have "handshakePrefix MODE_FIRST_CONTACT (Some (sv_lookup v)) = Inr ([STIM_PROTOCOL_VERSION, MODE_FIRST_CONTACT] @ sv_lookup v)"
    by (simp add: handshakePrefix_def)
  with Some v len show ?thesis
    by (intro exI [of _ "Some (sv_psk v)"] exI [of _ "[STIM_PROTOCOL_VERSION, MODE_FIRST_CONTACT] @ sv_lookup v"] exI [of _ MODE_FIRST_CONTACT] exI [of _ "Some (sv_lookup v)"])
      (auto simp: client_prefix_def)
qed

lemma new_handshake_made:
  assumes "case psk of None \<Rightarrow> True | Some k \<Rightarrow> length k = KEY_BYTES"
  shows "\<exists>hs. new_handshake c (if psk = None then NOISE_XX else NOISE_XX_PSK2) i prologue s psk None = Inr hs"
  using assms by (cases psk) (simp_all add: new_handshake_def)

text \<open>The server's first step on a first message of the client's.\<close>

lemma accept_first:
  assumes h: "handshakePrefix mode lookup = Inr header"
    and m: "mode = MODE_RETURNING \<and> psk = None \<and> lookup = None \<or> mode = MODE_FIRST_CONTACT \<and> (\<exists>l k. lookup = Some l \<and> psk = Some k \<and> vo_psk vopts (hex_text l) = PskIs k)"
    and len: "length m1 \<le> MAX_HANDSHAKE_MESSAGE_BYTES"
  shows "acceptNoise c vopts eR is_open (BinaryIn (header @ m1)) = server_handshake c vopts eR is_open psk mode lookup header m1"
proof -
  have "mode = MODE_RETURNING \<or> mode = MODE_FIRST_CONTACT" using m by blast
  note parsed = parse_prefix [OF h this len]
  from m show ?thesis by (elim disjE conjE exE) (simp_all add: acceptNoise_def parsed)
qed

lemma sockets_paired:
  assumes c: "crypto_ok c" and st: "isComplete i" "isComplete r" "hs_symmetric r = hs_symmetric i" "hs_initiator i" "\<not> hs_initiator r"
    "\<not> hs_failed i" "\<not> hs_failed r" "\<not> hs_split i" "\<not> hs_split r" and lim: "ms \<le> mr'" "ms' \<le> mr"
  shows "\<exists>so so'. make_socket c i ms mr kr = Inr so \<and> make_socket c r ms' mr' ki = Inr so' \<and>
    paired MAX_NONCE (so_transport so) (so_transport so') \<and> paired MAX_NONCE (so_transport so') (so_transport so)"
proof -
  obtain a b where "sym_split c (hs_symmetric i) = Inr (a, b)" "hasKey a" "hasKey b" "cs_n a = 0" "cs_n b = 0" using split_succeeds [OF c] by blast
  with st lim show ?thesis by (simp add: make_socket_def hs_split_keys_def new_transport_def new_socket_def paired_def)
qed

text \<open>
  C19. A client that may connect to a server, with its key and the server's honest and no message lost,
  ends with a socket, and the server accepts it: each has the other's static key, the server the
  client's mode and name, and the two transports are in step in both directions.
\<close>

theorem session_established:
  assumes c: "crypto_ok c" and keys: "key_ok c (co_keyPair opts)" "key_ok c (vo_keyPair vopts)" "key_ok c eI" "key_ok c eR"
    and may: "may_connect c opts vopts" "\<not> key_refused opts (publicKey (vo_keyPair vopts))" and name: "length (name_payload opts) \<le> 900"
    and lim: "limits_agree opts vopts"
  shows "\<exists>m1 client m2 server m3 so a. initiateNoise c opts eI True True = Inr ([RawSend m1], client) \<and>
    acceptNoise c vopts eR True (BinaryIn m1) = ([RawSend m2], server) \<and>
    client_step c opts (True, RawMessage (BinaryIn m2)) client = ([RawSend m3], ClientDone so) \<and>
    server_step c vopts (True, RawMessage (BinaryIn m3)) server = ([], ServerAccepted a) \<and>
    so_remoteKey so = publicKey (vo_keyPair vopts) \<and> ac_clientKey a = publicKey (co_keyPair opts) \<and> ac_payload a = name_payload opts \<and>
    ac_mode a = (if co_secret opts = None then MODE_RETURNING else MODE_FIRST_CONTACT) \<and>
    paired MAX_NONCE (so_transport so) (so_transport (ac_socket a)) \<and> paired MAX_NONCE (so_transport (ac_socket a)) (so_transport so)"
proof -
  obtain psk header mode lookup where p: "client_prefix c opts = Inr (psk, header)" "handshakePrefix mode lookup = Inr header"
    "mode = MODE_RETURNING \<and> psk = None \<and> lookup = None \<or>
     mode = MODE_FIRST_CONTACT \<and> (\<exists>l k. lookup = Some l \<and> psk = Some k \<and> length k = KEY_BYTES \<and> vo_psk vopts (hex_text l) = PskIs k)"
    using client_prefix_known [OF c may(1)] by blast
  let ?p = "if psk = None then NOISE_XX else NOISE_XX_PSK2"
  have k: "case psk of None \<Rightarrow> True | Some k \<Rightarrow> length k = KEY_BYTES" using p(3) by auto
  obtain i0 where i0: "new_handshake c ?p True (handshakePrologue header) (co_keyPair opts) psk None = Inr i0" using new_handshake_made [OF k] by blast
  obtain r0 where r0: "new_handshake c ?p False (handshakePrologue header) (vo_keyPair vopts) psk None = Inr r0" using new_handshake_made [OF k] by blast
  from handshake_carried [OF c keys i0 r0 _ _ name, of "[]" "[]" "co_keyPair opts"] obtain m1 i1 r1 m2 i2 r2 m3 i3 r3 where
    ms: "writeMessage c eI [] i0 = (Inr m1, i1)" "readMessage c m1 r0 = (Inr [], r1)" "writeMessage c eR [] r1 = (Inr m2, r2)"
      "readMessage c m2 i1 = (Inr [], i2)" "writeMessage c (co_keyPair opts) (name_payload opts) i2 = (Inr m3, i3)" "readMessage c m3 r2 = (Inr (name_payload opts), r3)"
    and rs: "remoteStaticPublicKey i2 = Some (publicKey (vo_keyPair vopts))" "remoteStaticPublicKey r3 = Some (publicKey (co_keyPair opts))"
    and st: "isComplete i3" "isComplete r3" "hs_symmetric r3 = hs_symmetric i3" "hs_initiator i3" "\<not> hs_initiator r3"
      "\<not> hs_failed i3" "\<not> hs_failed r3" "\<not> hs_split i3" "\<not> hs_split r3"
    by (metis bot_nat_0.extremum list.size(3))
  obtain so so' where so: "make_socket c i3 (or_else (co_maxSend opts) MAX_CLIENT_MESSAGE_BYTES) (or_else (co_maxReceive opts) MAX_SERVER_MESSAGE_BYTES) (publicKey (vo_keyPair vopts)) = Inr so"
      "make_socket c r3 (or_else (vo_maxSend vopts) MAX_SERVER_MESSAGE_BYTES) (or_else (vo_maxReceive vopts) MAX_CLIENT_MESSAGE_BYTES) (publicKey (co_keyPair opts)) = Inr so'"
      "paired MAX_NONCE (so_transport so) (so_transport so')" "paired MAX_NONCE (so_transport so') (so_transport so)"
    using sockets_paired [OF c st] lim unfolding limits_agree_def by metis
  have 1: "initiateNoise c opts eI True True = Inr ([RawSend (header @ m1)], ClientWaiting i1)"
    using p(1) i0 ms(1) by (simp add: initiateNoise_def client_handshake_def)
  have "length m1 \<le> MAX_HANDSHAKE_MESSAGE_BYTES" using writeMessage_moves [OF ms(1)] by blast
  then have 2: "acceptNoise c vopts eR True (BinaryIn (header @ m1)) = ([RawSend m2], ServerWaiting r2 mode lookup)"
    using accept_first [OF p(2), of psk vopts m1 c eR True] p(3) r0 ms(2,3) by (auto simp: server_handshake_def)
  have 3: "client_step c opts (True, RawMessage (BinaryIn m2)) (ClientWaiting i1) = ([RawSend m3], ClientDone so)"
    using ms(4,5) rs(1) may(2) so(1) by (simp add: client_message_def)
  let ?a = "\<lparr>ac_socket = so', ac_mode = mode, ac_lookup = map_option hex_text lookup, ac_clientKey = publicKey (co_keyPair opts), ac_payload = name_payload opts\<rparr>"
  have 4: "server_step c vopts (True, RawMessage (BinaryIn m3)) (ServerWaiting r2 mode lookup) = ([], ServerAccepted ?a)"
    using ms(6) rs(2) so(2) by (simp add: server_message_def)
  have "mode = (if co_secret opts = None then MODE_RETURNING else MODE_FIRST_CONTACT)"
    using p(1,3) by (auto simp: client_prefix_def and_then_Inr split: option.splits if_splits)
  with 1 2 3 4 make_socket_key [OF so(1)] so(3,4) show ?thesis
    by (intro exI [of _ "header @ m1"] exI [of _ "ClientWaiting i1"] exI [of _ m2] exI [of _ "ServerWaiting r2 mode lookup"] exI [of _ m3]
        exI [of _ so] exI [of _ ?a]) (simp del: client_step.simps server_step.simps)
qed

theorem session_established_witness:
  "\<exists>opts vopts m1 client m2 server m3 so a. co_secret opts = Some (replicate 32 9) \<and> initiateNoise toy_crypto opts (toy_key 3) True True = Inr ([RawSend m1], client) \<and>
     acceptNoise toy_crypto vopts (toy_key 4) True (BinaryIn m1) = ([RawSend m2], server) \<and>
     client_step toy_crypto opts (True, RawMessage (BinaryIn m2)) client = ([RawSend m3], ClientDone so) \<and>
     server_step toy_crypto vopts (True, RawMessage (BinaryIn m3)) server = ([], ServerAccepted a) \<and> ac_clientKey a = replicate 32 1"
proof -
  let ?o = "\<lparr>co_keyPair = toy_key 1, co_serverKey = None, co_secret = Some (replicate 32 9), co_name = None, co_accept = None, co_maxSend = None, co_maxReceive = None\<rparr>"
  let ?v = "\<lparr>vo_keyPair = toy_key 2, vo_psk = \<lambda>_. PskIs (sha_256 toy_crypto (ascii ''stim noise psk v1'' @ replicate 32 9)), vo_maxSend = None, vo_maxReceive = None\<rparr>"
  have k: "key_ok toy_crypto (co_keyPair ?o)" "key_ok toy_crypto (vo_keyPair ?v)" "key_ok toy_crypto (toy_key 3)" "key_ok toy_crypto (toy_key 4)"
    by (simp_all add: toy_key_ok)
  have m: "may_connect toy_crypto ?o ?v" "\<not> key_refused ?o (publicKey (vo_keyPair ?v))" "limits_agree ?o ?v"
    by (simp_all add: may_connect_def secretValues_def SECRET_BYTES_def key_refused_def limits_agree_def or_else_def)
  have n: "length (name_payload ?o) \<le> 900"
    by (simp add: name_payload_def or_else_def json_quote_def json_escape_def sep_by_def utf8_encode_def utf8_point_def is_surrogate_def)
  have pk: "publicKey (co_keyPair ?o) = replicate 32 1" "co_secret ?o = Some (replicate 32 9)" by (simp_all add: toy_key_def)
  from session_established [OF toy_crypto_ok k m(1,2) n m(3)] pk show ?thesis by metis
qed

section \<open>Messages over the sockets\<close>

definition data_of :: "noise_message \<Rightarrow> send_data" where
  "data_of m = (case m of TextMessage us \<Rightarrow> SendText us | BinaryMessage bs \<Rightarrow> SendBytes bs)"

definition is_binary :: "noise_message \<Rightarrow> bool" where
  "is_binary m = (case m of TextMessage _ \<Rightarrow> False | BinaryMessage _ \<Rightarrow> True)"

lemma socket_carried:
  assumes c: "crypto_ok c" and p: "paired (Suc n) (so_transport sa) (so_transport sb)" and m: "sendable (so_transport sa) m"
  shows "\<exists>f sa' tr. socket_send c True (data_of m) None sa = ([SockSend f], sa') \<and> tr_decrypt c f (so_transport sb) = (Inr m, tr) \<and>
    paired n (so_transport sa') tr \<and> sendable (so_transport sa') = sendable (so_transport sa)"
proof -
  obtain f s' r' where "tr_encrypt c m (so_transport sa) = (Inr f, s')" "tr_decrypt c f (so_transport sb) = (Inr m, r')" "paired n s' r'" "sendable s' = sendable (so_transport sa)"
    using transport_carried [OF c p m] by blast
  then show ?thesis
    by (intro exI [of _ f] exI [of _ "sa\<lparr>so_transport := s'\<rparr>"] exI [of _ r']) (cases m; simp add: socket_send_def data_of_def)
qed

text \<open>
  Messages one after another, whatever the receiver does with each: \<open>held\<close> tells what it holds after
  some of them.
\<close>

lemma sockets_carried:
  assumes c: "crypto_ok c" and "paired (length ms + n) (so_transport sa) (so_transport sb)" "list_all (sendable (so_transport sa)) ms"
    and "so_held sb = map_option (\<lambda>h. h @ map (\<lambda>m. (body_of m, is_binary m)) sofar) held"
    and "case held of None \<Rightarrow> True | Some h \<Rightarrow> length h + length sofar + length ms \<le> MAX_HELD_MESSAGES"
  shows "\<exists>fs sa' sb'. run_each (\<lambda>m. socket_send c True (data_of m) None) ms sa = (map (\<lambda>f. [SockSend f]) fs, sa') \<and>
    run_each (socket_message c) (map Some fs) sb = (map (\<lambda>m. if held = None then [EmitMessage (body_of m) (is_binary m)] else []) ms, sb') \<and>
    so_held sb' = map_option (\<lambda>h. h @ map (\<lambda>m. (body_of m, is_binary m)) (sofar @ ms)) held \<and>
    paired n (so_transport sa') (so_transport sb') \<and> sendable (so_transport sa') = sendable (so_transport sa)"
  using assms(2-5)
proof (induction ms arbitrary: sa sb sofar)
  case Nil
  then show ?case by (intro exI [of _ "[]"]) auto
next
  case (Cons m ms)
  obtain f sa1 tr where 1: "socket_send c True (data_of m) None sa = ([SockSend f], sa1)" "tr_decrypt c f (so_transport sb) = (Inr m, tr)"
      "paired (length ms + n) (so_transport sa1) tr" "sendable (so_transport sa1) = sendable (so_transport sa)"
    using socket_carried [OF c, of "length ms + n" sa sb m] Cons.prems by auto
  let ?sb = "sb\<lparr>so_transport := tr, so_held := map_option (\<lambda>h. h @ map (\<lambda>m. (body_of m, is_binary m)) (sofar @ [m])) held\<rparr>"
  have 2: "socket_message c (Some f) sb = (if held = None then [EmitMessage (body_of m) (is_binary m)] else [], ?sb)"
    using Cons.prems(3,4) 1(2)
    by (cases held; cases sb) (auto simp: socket_message_def Let_def body_of_def is_binary_def split: noise_message.splits)
  have "list_all (sendable (so_transport sa1)) ms" using Cons.prems(2) 1(4) by simp
  from Cons.IH [of sa1 ?sb "sofar @ [m]"] this 1(3) Cons.prems(4) obtain fs sa2 sb2 where
    3: "run_each (\<lambda>m. socket_send c True (data_of m) None) ms sa1 = (map (\<lambda>f. [SockSend f]) fs, sa2)"
      "run_each (socket_message c) (map Some fs) ?sb = (map (\<lambda>m. if held = None then [EmitMessage (body_of m) (is_binary m)] else []) ms, sb2)"
      "so_held sb2 = map_option (\<lambda>h. h @ map (\<lambda>m. (body_of m, is_binary m)) ((sofar @ [m]) @ ms)) held"
      "paired n (so_transport sa2) (so_transport sb2)" "sendable (so_transport sa2) = sendable (so_transport sa1)"
    by (fastforce split: option.splits)
  show ?case using 1 2 3 by (intro exI [of _ "f # fs"] exI [of _ sa2] exI [of _ sb2]) simp
qed

text \<open>
  C27. The messages sent on one socket come out of the other as they were sent: those that arrive before
  its first listener, at most 64, once there is one, then the later ones, all in order.
\<close>

theorem sockets_deliver:
  assumes "crypto_ok c" "paired (length (early @ late)) (so_transport sa) (so_transport sb)" "list_all (sendable (so_transport sa)) (early @ late)"
    and "so_held sb = Some []" "length early \<le> MAX_HELD_MESSAGES"
  shows "\<exists>fs gs sa1 sa2 acts1 sb1 acts2 sb2 acts3 sb3.
    run_each (\<lambda>m. socket_send c True (data_of m) None) early sa = (map (\<lambda>f. [SockSend f]) fs, sa1) \<and>
    run_each (\<lambda>m. socket_send c True (data_of m) None) late sa1 = (map (\<lambda>f. [SockSend f]) gs, sa2) \<and>
    run_each (socket_message c) (map Some fs) sb = (acts1, sb1) \<and> socket_listen sb1 = (acts2, sb2) \<and>
    run_each (socket_message c) (map Some gs) sb2 = (acts3, sb3) \<and> concat acts1 = [] \<and>
    acts2 @ concat acts3 = map (\<lambda>m. EmitMessage (body_of m) (is_binary m)) (early @ late)"
proof -
  obtain fs sa1 sb1 where 1: "run_each (\<lambda>m. socket_send c True (data_of m) None) early sa = (map (\<lambda>f. [SockSend f]) fs, sa1)"
      "run_each (socket_message c) (map Some fs) sb = (map (\<lambda>m. []) early, sb1)" "so_held sb1 = Some (map (\<lambda>m. (body_of m, is_binary m)) early)"
      "paired (length late) (so_transport sa1) (so_transport sb1)" "sendable (so_transport sa1) = sendable (so_transport sa)"
    using sockets_carried [OF assms(1), of early "length late" sa sb "[]" "Some []"] assms by auto
  let ?sb = "sb1\<lparr>so_held := None\<rparr>"
  have listen: "socket_listen sb1 = (map (\<lambda>m. EmitMessage (body_of m) (is_binary m)) early, ?sb)" by (simp add: socket_listen_def 1(3))
  obtain gs sa2 sb3 where 2: "run_each (\<lambda>m. socket_send c True (data_of m) None) late sa1 = (map (\<lambda>f. [SockSend f]) gs, sa2)"
      "run_each (socket_message c) (map Some gs) ?sb = (map (\<lambda>m. [EmitMessage (body_of m) (is_binary m)]) late, sb3)"
    using sockets_carried [OF assms(1), of late 0 sa1 ?sb "[]" None] 1(4,5) assms(3) by auto
  have all: "concat (map (\<lambda>m. [EmitMessage (body_of m) (is_binary m)]) late) = map (\<lambda>m. EmitMessage (body_of m) (is_binary m)) late"
    by (induction late) simp_all
  show ?thesis
    by (rule exI [of _ fs], rule exI [of _ gs], rule exI [of _ sa1], rule exI [of _ sa2], rule exI [of _ "map (\<lambda>m. []) early"], rule exI [of _ sb1],
        rule exI [of _ "map (\<lambda>m. EmitMessage (body_of m) (is_binary m)) early"], rule exI [of _ ?sb],
        rule exI [of _ "map (\<lambda>m. [EmitMessage (body_of m) (is_binary m)]) late"], rule exI [of _ sb3])
      (use 1(1,2) listen 2 all in simp)
qed

theorem sockets_deliver_witness:
  "\<exists>fs sa1 acts1 sb1 acts2 sb2. run_each (\<lambda>m. socket_send toy_crypto True (data_of m) None) [BinaryMessage [1], TextMessage [65]] (new_socket (toy_transport 0 0) []) =
       (map (\<lambda>f. [SockSend f]) fs, sa1) \<and>
     run_each (socket_message toy_crypto) (map Some fs) (new_socket (toy_transport 0 0) []) = (acts1, sb1) \<and>
     socket_listen sb1 = (acts2, sb2) \<and> acts2 = [EmitMessage [1] True, EmitMessage [65] False]"
proof -
  let ?s = "new_socket (toy_transport 0 0) []"
  have p: "paired (length ([BinaryMessage [1], TextMessage [65]] @ [])) (so_transport ?s) (so_transport ?s)"
    by (simp add: paired_def new_socket_def toy_transport_def toy_cipher_def hasKey_def MAX_NONCE_def)
  have l: "list_all (sendable (so_transport ?s)) ([BinaryMessage [1], TextMessage [65]] @ [])"
    by (simp add: sendable_def body_of_def new_socket_def toy_transport_def utf8_encode_def utf8_point_def is_scalar_def is_surrogate_def)
  have h: "so_held ?s = Some []" "length [BinaryMessage [1], TextMessage [65]] \<le> MAX_HELD_MESSAGES" by (simp_all add: new_socket_def MAX_HELD_MESSAGES_def)
  have b: "map (\<lambda>m. EmitMessage (body_of m) (is_binary m)) ([BinaryMessage [1], TextMessage [65]] @ []) = [EmitMessage [1] True, EmitMessage [65] False]"
    by (simp add: body_of_def is_binary_def utf8_encode_def utf8_point_def is_surrogate_def byte_of_def)
  from sockets_deliver [OF toy_crypto_ok p l h] obtain fs gs sa1 sa2 acts1 sb1 acts2 sb2 acts3 sb3 where
    r: "run_each (\<lambda>m. socket_send toy_crypto True (data_of m) None) [BinaryMessage [1], TextMessage [65]] ?s = (map (\<lambda>f. [SockSend f]) fs, sa1)"
      "run_each (\<lambda>m. socket_send toy_crypto True (data_of m) None) [] sa1 = (map (\<lambda>f. [SockSend f]) gs, sa2)"
      "run_each (socket_message toy_crypto) (map Some fs) ?s = (acts1, sb1)" "socket_listen sb1 = (acts2, sb2)"
      "run_each (socket_message toy_crypto) (map Some gs) sb2 = (acts3, sb3)" "acts2 @ concat acts3 = [EmitMessage [1] True, EmitMessage [65] False]"
    unfolding b by blast
  from r(2) have "gs = []" by simp
  with r(5) have "acts3 = []" by simp
  with r(6) have "acts2 = [EmitMessage [1] True, EmitMessage [65] False]" by simp
  with r(1,3,4) show ?thesis by blast
qed

end
