(* ===== verification/Spawn_Claims.thy ===== *)
theory Spawn_Claims
  imports Exclusive_Lock
begin

text \<open>
  The state of an operation and the children it declares on its claims
  (\<open>packages/stim-cli/src/engine/operation-state.ts\<close> and \<open>spawn-claims.ts\<close>). A claim is named by the
  root of its set and its handle. The state has the operations by context, with \<open>None\<close> for the one that
  code without a context shares, and the claim sets by root. What \<open>spawn\<close> answers is an argument, as is
  what \<open>captureProcessIdentity\<close> answers, a reason or a token. The later events of a child are operations
  of their own. Left out: the fields of an operation about its own cancellation.
\<close>

section \<open>Operations\<close>

record spawned =
  sp_key :: nat
  sp_pid :: "int option"

type_synonym rooted_claim = "string \<times> claim_handle"

record operation_state =
  declaring :: "rooted_claim list"
  running :: "spawned list"
  refusal :: "string option"

definition fresh :: operation_state where
  "fresh = \<lparr>declaring = [], running = [], refusal = None\<rparr>"

record spawn_state =
  op_states :: "(nat option \<times> operation_state) list"
  claim_sets :: "string \<Rightarrow> claim_set"

definition operationState :: "nat option \<Rightarrow> 'z spawn_state_scheme \<Rightarrow> operation_state" where
  "operationState ctx st = (case map_of (op_states st) ctx of None \<Rightarrow> fresh | Some op \<Rightarrow> op)"

definition set_operation :: "nat option \<Rightarrow> operation_state \<Rightarrow> 'z spawn_state_scheme \<Rightarrow> 'z spawn_state_scheme" where
  "set_operation ctx op st = st\<lparr>op_states := AList.update ctx op (op_states st)\<rparr>"

section \<open>Declaring children\<close>

definition declareSpawnsOn :: "nat option \<Rightarrow> rooted_claim option \<Rightarrow> 'z spawn_state_scheme \<Rightarrow> 'z spawn_state_scheme" where
  "declareSpawnsOn ctx claim st = (case claim of
       None \<Rightarrow> st
     | Some rc \<Rightarrow> (let op = operationState ctx st in
          set_operation ctx (if rc \<in> set (declaring op) then op else op\<lparr>declaring := declaring op @ [rc]\<rparr>) st))"

definition stopDeclaringSpawnsOn :: "nat option \<Rightarrow> rooted_claim option \<Rightarrow> 'z spawn_state_scheme \<Rightarrow> 'z spawn_state_scheme" where
  "stopDeclaringSpawnsOn ctx claim st = (case claim of
       None \<Rightarrow> st
     | Some rc \<Rightarrow> (let op = operationState ctx st in set_operation ctx (op\<lparr>declaring := removeAll rc (declaring op)\<rparr>) st))"

definition on_set :: "string \<Rightarrow> (claim_set \<Rightarrow> 'r \<times> claim_set) \<Rightarrow> (string \<Rightarrow> claim_set) \<Rightarrow> 'r \<times> (string \<Rightarrow> claim_set)" where
  "on_set root f sets = (let (r, s) = f (sets root) in (r, sets(root := s)))"

fun mark_all :: "rooted_claim list \<Rightarrow> (string \<Rightarrow> claim_set) \<Rightarrow> claim_error option \<times> (string \<Rightarrow> claim_set)" where
  "mark_all [] sets = (None, sets)"
| "mark_all ((root, c) # cs) sets = (case on_set root (markClaimChildPending c) sets of
     (Inl e, sets) \<Rightarrow> (Some e, sets)
   | (Inr _, sets) \<Rightarrow> mark_all cs sets)"

text \<open>The loops that ignore what a claim answers.\<close>

fun each_claim :: "(claim_handle \<Rightarrow> claim_set \<Rightarrow> 'r \<times> claim_set) \<Rightarrow> rooted_claim list \<Rightarrow> (string \<Rightarrow> claim_set) \<Rightarrow> (string \<Rightarrow> claim_set)" where
  "each_claim f [] sets = sets"
| "each_claim f ((root, c) # cs) sets = each_claim f cs (snd (on_set root (f c) sets))"

definition forget :: "rooted_claim list \<Rightarrow> (string \<Rightarrow> claim_set) \<Rightarrow> (string \<Rightarrow> claim_set)" where
  "forget = each_claim clearClaimChild"

datatype spawn_error = SpawnRefused string | SpawnUnmarked claim_error | SpawnThrew string

definition spawnDeclared :: "nat option \<Rightarrow> string + spawned \<Rightarrow> (int \<Rightarrow> string + string) \<Rightarrow> 'z spawn_state_scheme \<Rightarrow> (spawn_error + spawned) \<times> 'z spawn_state_scheme" where
  "spawnDeclared ctx spawn capture st =
     (let op = operationState ctx st; claims = declaring op; sets = claim_sets st in
      case refusal op of
        Some reason \<Rightarrow> (Inl (SpawnRefused reason), st)
      | None \<Rightarrow>
         if claims = [] then (case spawn of Inl e \<Rightarrow> (Inl (SpawnThrew e), st) | Inr kid \<Rightarrow> (Inr kid, st))
         else (case mark_all claims sets of
             (Some e, sets) \<Rightarrow> (Inl (SpawnUnmarked e), st\<lparr>claim_sets := forget claims sets\<rparr>)
           | (None, sets) \<Rightarrow> (case spawn of
                 Inl e \<Rightarrow> (Inl (SpawnThrew e), st\<lparr>claim_sets := forget claims sets\<rparr>)
               | Inr kid \<Rightarrow> (case sp_pid kid of
                     None \<Rightarrow> (Inr kid, st\<lparr>claim_sets := forget claims sets\<rparr>)
                   | Some p \<Rightarrow>
                      (let st = set_operation ctx (op\<lparr>running := running op @ [kid]\<rparr>) st in
                       (Inr kid, st\<lparr>claim_sets := (case capture p of
                            Inl _ \<Rightarrow> sets
                          | Inr token \<Rightarrow> each_claim (\<lambda>c. setClaimChild c (owner_json \<lparr>pid = p, processToken = token\<rparr>)) claims sets)\<rparr>))))))"

text \<open>What ends a declaration: the child's exit, the close of its pipes, or the end of a cleanup.\<close>

datatype spawn_until = UntilExit | UntilClose | UntilCleanup

datatype spawn_event = ChildExits | ChildCloses | CleanupResolves | CleanupRejects

fun settles :: "spawn_until \<Rightarrow> spawn_event \<Rightarrow> bool" where
  "settles UntilExit e = (e = ChildExits)"
| "settles UntilClose e = (e = ChildCloses)"
| "settles UntilCleanup e = (e = CleanupResolves)"

text \<open>\<open>claims\<close> is the copy that \<open>spawnDeclared\<close> made of the declared claims.\<close>

definition spawn_on :: "nat option \<Rightarrow> spawn_until \<Rightarrow> rooted_claim list \<Rightarrow> spawned \<Rightarrow> spawn_event \<Rightarrow> 'z spawn_state_scheme \<Rightarrow> 'z spawn_state_scheme" where
  "spawn_on ctx until claims kid e st =
     (if settles until e then
        (let op = operationState ctx st in
         (set_operation ctx (op\<lparr>running := filter (\<lambda>c. sp_key c \<noteq> sp_key kid) (running op)\<rparr>) st)\<lparr>claim_sets := forget claims (claim_sets st)\<rparr>)
      else st)"

definition refuseDeclaredSpawns :: "nat option \<Rightarrow> string \<Rightarrow> 'z spawn_state_scheme \<Rightarrow> 'z spawn_state_scheme" where
  "refuseDeclaredSpawns ctx reason st = set_operation ctx ((operationState ctx st)\<lparr>refusal := Some reason\<rparr>) st"

definition allowDeclaredSpawns :: "nat option \<Rightarrow> 'z spawn_state_scheme \<Rightarrow> 'z spawn_state_scheme" where
  "allowDeclaredSpawns ctx st = set_operation ctx ((operationState ctx st)\<lparr>refusal := None\<rparr>) st"

text \<open>\<open>ended\<close> is whether a child has an exit or signal code, \<open>kill\<close> what the signal to it answers, \<open>None\<close> where it throws.\<close>

definition signalDeclaredSpawns :: "nat option \<Rightarrow> (spawned \<Rightarrow> bool) \<Rightarrow> (spawned \<Rightarrow> bool option) \<Rightarrow> 'z spawn_state_scheme \<Rightarrow> nat" where
  "signalDeclaredSpawns ctx ended kill st = length (filter (\<lambda>c. \<not> ended c \<and> kill c = Some True) (running (operationState ctx st)))"

end
