(* ===== verification/Process_Lock.thy ===== *)
theory Process_Lock
  imports Spawn_Claims
begin

text \<open>
  Locks around a workspace's processes (\<open>packages/stim-cli/src/engine/workspace-process-lock.ts\<close>): code that
  runs under the exclusive claim of a path, with the children it spawns declared on the claim. The code
  is a function on the state, given the claim. A turn of the waiting loop has whether the signal is
  aborted as it starts, what the rest of the world did before it, the operating system's answers, the
  ids and times of a claim, what \<open>onHeld\<close> throws if it does, and the clock; the loop answers \<open>None\<close> while it still waits.
  Left out: the texts of the errors and the reading of an error's code.
\<close>

definition DEFAULT_WAIT_MS :: int where "DEFAULT_WAIT_MS = 60000"

text \<open>An error of the code: a cleanup that could not finish names the claims that must stay.\<close>

datatype 'e body_error = WorkspaceProcessCleanupError "rooted_claim list" | BodyError 'e

datatype 'e process_error = PlAborted | PlClaim claim_error | PlRefused string | PlHeld 'e | PlTimeout string | PlBody "'e body_error"

definition workspaceProcessLockPath :: "string \<Rightarrow> string \<Rightarrow> bool \<Rightarrow> string" where
  "workspaceProcessLockPath root name ext = (if ext then root @ ''/'' @ name @ ''.lock'' else root @ ''/.stim/'' @ name @ ''.lock'')"

record ('z, 'e) process_round =
  pl_aborted :: bool
  pl_others :: "'z spawn_state_scheme \<Rightarrow> 'z spawn_state_scheme"
  pl_os :: os
  pl_ids :: "nat \<Rightarrow> string"
  pl_stamps :: "nat \<Rightarrow> string"
  pl_heldError :: "'e option"
  pl_now :: int

record process_options =
  po_path :: string
  po_declareFor :: "nat option"
  po_ownerPurpose :: "string option"
  po_details :: "(string \<times> json) list"
  po_onHeld :: bool
  po_rejectPurposes :: "string list"

definition claim_details :: "process_options \<Rightarrow> json" where
  "claim_details opts = JObj (case po_ownerPurpose opts of Some (c # cs) \<Rightarrow> AList.update ''purpose'' (JStr (c # cs)) (po_details opts) | _ \<Rightarrow> po_details opts)"

definition set_of :: "string \<Rightarrow> claim_set \<Rightarrow> 'z spawn_state_scheme \<Rightarrow> 'z spawn_state_scheme" where
  "set_of path s st = st\<lparr>claim_sets := (claim_sets st)(path := s)\<rparr>"

text \<open>The attempt of a turn: the claim, or the holder it met, with a claim that would have to wait given up.\<close>

definition attempt_claim :: "os \<Rightarrow> string + claim_owner \<Rightarrow> json \<Rightarrow> (nat \<Rightarrow> string) \<Rightarrow> (nat \<Rightarrow> string) \<Rightarrow> claim_set \<Rightarrow>
    (claim_error + (claim_handle + claim_holder option)) \<times> claim_set" where
  "attempt_claim w self ds ids stamps s = (case tryAcquireClaim w self Exclusive ds ids stamps s of
       (Inl e, s1) \<Rightarrow> (Inl e, s1)
     | (Inr (Acquired c _), s1) \<Rightarrow> (Inr (Inl c), s1)
     | (Inr (HeldBy h _), s1) \<Rightarrow> (Inr (Inr (Some h)), s1)
     | (Inr (WaitingFor hs pending _), s1) \<Rightarrow> (Inr (Inr (case hs of [] \<Rightarrow> None | h # _ \<Rightarrow> Some h)), snd (releaseClaim pending s1)))"

definition retains :: "string \<Rightarrow> claim_handle \<Rightarrow> 'e body_error + 'a \<Rightarrow> bool" where
  "retains path claim r = (case r of Inl (WorkspaceProcessCleanupError claims) \<Rightarrow> (path, claim) \<in> set claims | _ \<Rightarrow> False)"

definition run_locked :: "string \<Rightarrow> nat option \<Rightarrow> claim_handle \<Rightarrow> (claim_handle \<Rightarrow> 'z spawn_state_scheme \<Rightarrow> ('e body_error + 'a) \<times> 'z spawn_state_scheme) \<Rightarrow>
    'z spawn_state_scheme \<Rightarrow> ('e body_error + 'a) \<times> 'z spawn_state_scheme" where
  "run_locked path declareFor claim fn st =
     (let st = (if declareFor = None then st else declareSpawnsOn declareFor (Some (path, claim)) st);
          (r, st) = fn claim st;
          st = (if declareFor = None then st else stopDeclaringSpawnsOn declareFor (Some (path, claim)) st)
      in (r, if retains path claim r then st else set_of path (snd (releaseClaim claim (claim_sets st path))) st))"

definition rejected_purpose :: "process_options \<Rightarrow> claim_holder option \<Rightarrow> string option" where
  "rejected_purpose opts holder = (case Option.bind holder (\<lambda>h. jstr_field ''purpose'' (details h)) of
       Some p \<Rightarrow> if p \<in> set (po_rejectPurposes opts) then Some p else None
     | None \<Rightarrow> None)"

fun process_rounds :: "string + claim_owner \<Rightarrow> process_options \<Rightarrow> int \<Rightarrow> (claim_handle \<Rightarrow> 'z spawn_state_scheme \<Rightarrow> ('e body_error + 'a) \<times> 'z spawn_state_scheme) \<Rightarrow>
    ('z, 'e) process_round list \<Rightarrow> 'z spawn_state_scheme \<Rightarrow> (('e process_error + 'a) \<times> 'z spawn_state_scheme) option" where
  "process_rounds self opts deadline fn [] st = None"
| "process_rounds self opts deadline fn (r # rs) st =
     (let path = po_path opts; st = pl_others r st in
      if pl_aborted r then Some (Inl PlAborted, st)
      else let (a, s) = attempt_claim (pl_os r) self (claim_details opts) (pl_ids r) (pl_stamps r) (claim_sets st path); st = set_of path s st in
        (case a of
           Inl e \<Rightarrow> Some (Inl (PlClaim e), st)
         | Inr (Inl claim) \<Rightarrow> (let (x, st) = run_locked path (po_declareFor opts) claim fn st in Some (map_sum PlBody id x, st))
         | Inr (Inr holder) \<Rightarrow> (case rejected_purpose opts holder of
               Some p \<Rightarrow> Some (Inl (PlRefused p), st)
             | None \<Rightarrow> (case if holder \<noteq> None \<and> po_onHeld opts then pl_heldError r else None of
                 Some e \<Rightarrow> Some (Inl (PlHeld e), st)
               | None \<Rightarrow> if deadline \<le> pl_now r then Some (Inl (PlTimeout path), st) else process_rounds self opts deadline fn rs st))))"

definition withWorkspaceProcessLock :: "string + claim_owner \<Rightarrow> process_options \<Rightarrow> int \<Rightarrow> int \<Rightarrow>
    (claim_handle \<Rightarrow> 'z spawn_state_scheme \<Rightarrow> ('e body_error + 'a) \<times> 'z spawn_state_scheme) \<Rightarrow>
    ('z, 'e) process_round list \<Rightarrow> 'z spawn_state_scheme \<Rightarrow> (('e process_error + 'a) \<times> 'z spawn_state_scheme) option" where
  "withWorkspaceProcessLock self opts now waitMs fn rounds st = process_rounds self opts (now + waitMs) fn rounds st"

section \<open>The lock of a workspace is exclusive\<close>

definition attempted :: "(claim_error + (claim_handle + claim_holder option)) \<times> claim_set \<Rightarrow> (claim_error + claim_handle option) \<times> claim_set" where
  "attempted a = (map_sum id (\<lambda>x. case x of Inl c \<Rightarrow> Some c | Inr _ \<Rightarrow> None) (fst a), snd a)"

interpretation process_lock: claim_lock "\<lambda>i s. attempted (attempt_claim (ws i) (selfs i) (dets i) (ids i) (stamps i) s)" ws selfs dets ids stamps
  for ws selfs dets ids stamps
  by unfold_locales (auto simp: attempted_def attempt_claim_def try_lock_def split: prod.splits sum.splits claim_attempt.splits)

end
