(* ===== verification/Warm_Claim.thy ===== *)
theory Warm_Claim
  imports Process_Lock
begin

text \<open>
  Warm claims (\<open>packages/stim-cli/src/engine/warm-claim.ts\<close>): a refresh of a repository's warm worktree takes
  the exclusive claim of the repository, a copy takes a shared one, unless the caller names the mode, and an
  exclusive claim that meets shared ones stays published while they finish. The installers a refresh starts
  may outlive it: their process groups are recorded, and the claim is not given back while one of those
  still recorded is alive. A turn of a wait has whether
  the signal is aborted, what others did to the claim set before it, the operating system's answers, the
  ids and times of a claim, and the clock; the loops answer \<open>None\<close> while they still wait. Left out: the
  progress lines and the wording of the errors.
\<close>

section \<open>Waiting for the claim\<close>

datatype warm_phase = Refresh | Copy

definition WARM_CLAIM_CEILING_MS :: int where "WARM_CLAIM_CEILING_MS = 90 * 60 * 1000"
definition INSTALLER_CEILING_MS :: int where "INSTALLER_CEILING_MS = 5 * 60 * 1000"

record warm_holder =
  wh_pid :: int
  wh_phase :: warm_phase

definition asHolder :: "claim_holder \<Rightarrow> warm_holder" where
  "asHolder h = \<lparr>wh_pid = pid (owner h),
     wh_phase = (if jstr_field ''phase'' (details h) = Some ''copy'' then Copy else if h_mode h = Exclusive then Refresh else Copy)\<rparr>"

fun phase_text :: "warm_phase \<Rightarrow> string" where
  "phase_text Refresh = ''refresh''"
| "phase_text Copy = ''copy''"

fun phase_mode :: "warm_phase \<Rightarrow> claim_mode" where
  "phase_mode Refresh = Exclusive"
| "phase_mode Copy = Shared"

record warm_round =
  wr_aborted :: bool
  wr_others :: "claim_set \<Rightarrow> claim_set"
  wr_os :: os
  wr_ids :: "nat \<Rightarrow> string"
  wr_stamps :: "nat \<Rightarrow> string"
  wr_now :: int

datatype warm_error = WarmAborted | WarmTimeout "warm_holder option" | WarmClaim claim_error

record warm_hold =
  wa_claim :: claim_handle
  wa_waitedMs :: int
  wa_holder :: "warm_holder option"

definition release_pending :: "claim_handle option \<Rightarrow> claim_set \<Rightarrow> claim_set" where
  "release_pending pending s = (case pending of None \<Rightarrow> s | Some c \<Rightarrow> snd (releaseClaim c s))"

text \<open>An error of the file system that says the store cannot be used is an unavailable claim.\<close>

definition unavailable :: "claim_error \<Rightarrow> claim_error" where
  "unavailable e = (case e of ClaimIo code \<Rightarrow> if code \<in> {''EACCES'', ''EPERM'', ''EROFS'', ''ENOENT''} then ClaimUnavailable code else e | _ \<Rightarrow> e)"

fun warm_rounds :: "string + claim_owner \<Rightarrow> claim_mode \<Rightarrow> warm_phase \<Rightarrow> int \<Rightarrow> int \<Rightarrow> warm_holder option \<Rightarrow> claim_handle option \<Rightarrow> warm_round list \<Rightarrow> claim_set \<Rightarrow>
    ((warm_error + warm_hold) \<times> claim_set) option" where
  "warm_rounds self mode phase started ceilingMs waitedOn pending [] s = None"
| "warm_rounds self mode phase started ceilingMs waitedOn pending (r # rs) s =
     (let s = wr_others r s in
      if wr_aborted r then Some (Inl WarmAborted, release_pending pending s)
      else (case case pending of
            Some p \<Rightarrow> settleClaim (wr_os r) p s
          | None \<Rightarrow> tryAcquireClaim (wr_os r) self mode (JObj [(''phase'', JStr (phase_text phase))]) (wr_ids r) (wr_stamps r) s of
          (Inl e, s) \<Rightarrow> Some (Inl (WarmClaim (unavailable e)), release_pending pending s)
        | (Inr (Acquired c _), s) \<Rightarrow> Some (Inr \<lparr>wa_claim = c, wa_waitedMs = wr_now r - started, wa_holder = waitedOn\<rparr>, s)
        | (Inr (HeldBy h _), s) \<Rightarrow>
            if ceilingMs \<le> wr_now r - started then Some (Inl (WarmTimeout (Some (asHolder h))), s)
            else warm_rounds self mode phase started ceilingMs (Some (asHolder h)) None rs s
        | (Inr (WaitingFor hs p _), s) \<Rightarrow>
            let waitedOn = (case hs of [] \<Rightarrow> waitedOn | h # _ \<Rightarrow> Some (asHolder h)) in
            if ceilingMs \<le> wr_now r - started then Some (Inl (WarmTimeout waitedOn), release_pending (Some p) s)
            else warm_rounds self mode phase started ceilingMs waitedOn (Some p) rs s))"

section \<open>Installers\<close>

text \<open>The groups that an installer claim has spawned and not yet watched die, with the claim's set.\<close>

type_synonym installer = "int list \<times> claim_set"

definition installer_forget :: "claim_handle \<Rightarrow> installer \<Rightarrow> installer" where
  "installer_forget claim i = ([], snd (clearClaimChild claim (snd i)))"

definition installer_alive :: "os \<Rightarrow> int list \<Rightarrow> int option" where
  "installer_alive w groups = List.find (processGroupAlive w) groups"

definition installer_declare :: "claim_handle \<Rightarrow> installer \<Rightarrow> (claim_error + unit) \<times> installer" where
  "installer_declare claim i = (let (r, s) = markClaimChildPending claim (snd i) in (r, (fst i, s)))"

text \<open>\<open>w\<close> and \<open>capture\<close> are the answers about the child; the groups as they are after the recording.\<close>

definition installer_record :: "os \<Rightarrow> (int \<Rightarrow> string + string) \<Rightarrow> claim_handle \<Rightarrow> int option \<Rightarrow> installer \<Rightarrow> installer" where
  "installer_record w capture claim child_pid i =
     (case child_pid of
        None \<Rightarrow> installer_forget claim i
      | Some p \<Rightarrow>
          (let groups = fst i @ [p];
               unrecorded = (\<lambda>s. if \<not> processGroupAlive w p then installer_forget claim (groups, s) else (groups, s)) in
           case capture p of
             Inl _ \<Rightarrow> unrecorded (snd i)
           | Inr token \<Rightarrow> (case setClaimChild claim (owner_json \<lparr>pid = p, processToken = token\<rparr>) (snd i) of
               (Inr _, s) \<Rightarrow> (groups, s)
             | (Inl _, s) \<Rightarrow> unrecorded s)))"

record settle_round =
  ss_os :: os
  ss_now :: int

record settle_answer =
  sa_settled :: bool
  sa_pid :: "int option"
  sa_waitedMs :: int

fun installer_settle :: "claim_handle \<Rightarrow> int \<Rightarrow> settle_round list \<Rightarrow> installer \<Rightarrow> (settle_answer \<times> installer) option" where
  "installer_settle claim started [] i = None"
| "installer_settle claim started (r # rs) i =
     (case installer_alive (ss_os r) (fst i) of
        None \<Rightarrow> Some (\<lparr>sa_settled = True, sa_pid = None, sa_waitedMs = ss_now r - started\<rparr>, installer_forget claim i)
      | Some p \<Rightarrow>
          if INSTALLER_CEILING_MS \<le> ss_now r - started then Some (\<lparr>sa_settled = False, sa_pid = Some p, sa_waitedMs = ss_now r - started\<rparr>, i)
          else installer_settle claim started rs i)"

definition installer_holding :: "os \<Rightarrow> int list \<Rightarrow> bool" where
  "installer_holding w groups \<longleftrightarrow> installer_alive w groups \<noteq> None"

section \<open>Code under a warm claim\<close>

record 'd warm_state = spawn_state +
  warm_groups :: "int list"
  warm_data :: 'd

definition declare_on :: "(nat option \<Rightarrow> rooted_claim option \<Rightarrow> 'z spawn_state_scheme \<Rightarrow> 'z spawn_state_scheme) \<Rightarrow> nat option \<Rightarrow> rooted_claim \<Rightarrow>
    'z spawn_state_scheme \<Rightarrow> 'z spawn_state_scheme" where
  "declare_on f ctx rc st = (if ctx = None then st else f ctx (Some rc) st)"

definition acquireWarmClaim :: "string + claim_owner \<Rightarrow> string \<Rightarrow> nat option \<Rightarrow> warm_phase \<Rightarrow> claim_mode option \<Rightarrow> int \<Rightarrow> int \<Rightarrow> warm_round list \<Rightarrow> 'd warm_state \<Rightarrow>
    ((warm_error + warm_hold) \<times> 'd warm_state) option" where
  "acquireWarmClaim self root ctx phase mode started ceilingMs rounds st =
     (case warm_rounds self (case mode of None \<Rightarrow> phase_mode phase | Some m \<Rightarrow> m) phase started ceilingMs None None rounds (claim_sets st root) of
        None \<Rightarrow> None
      | Some (Inl e, s) \<Rightarrow> Some (Inl e, set_of root s st)
      | Some (Inr hold, s) \<Rightarrow> Some (Inr hold, (declare_on declareSpawnsOn ctx (root, wa_claim hold) (set_of root s st))\<lparr>warm_groups := []\<rparr>))"

definition release_warm :: "os \<Rightarrow> string \<Rightarrow> nat option \<Rightarrow> claim_handle \<Rightarrow> bool \<Rightarrow> 'd warm_state \<Rightarrow> 'd warm_state" where
  "release_warm w root ctx claim retained st =
     (let st = declare_on stopDeclaringSpawnsOn ctx (root, claim) st in
      if retained \<or> installer_holding w (warm_groups st) then st
      else set_of root (snd (releaseClaim claim (claim_sets st root))) st)"

definition withWarmClaim :: "string + claim_owner \<Rightarrow> string \<Rightarrow> nat option \<Rightarrow> warm_phase \<Rightarrow> claim_mode option \<Rightarrow> int \<Rightarrow> int \<Rightarrow> warm_round list \<Rightarrow>
    (warm_hold \<Rightarrow> 'd warm_state \<Rightarrow> ('e body_error + 'a) \<times> 'd warm_state) \<Rightarrow> os \<Rightarrow> 'd warm_state \<Rightarrow>
    (((warm_error + 'e body_error) + 'a) \<times> 'd warm_state) option" where
  "withWarmClaim self root ctx phase mode started ceilingMs rounds fn w st =
     (case acquireWarmClaim self root ctx phase mode started ceilingMs rounds st of
        None \<Rightarrow> None
      | Some (Inl e, st) \<Rightarrow> Some (Inl (Inl e), st)
      | Some (Inr hold, st) \<Rightarrow>
          (let (r, st) = fn hold st in
           Some (map_sum Inr id r, release_warm w root ctx (wa_claim hold) (retains root (wa_claim hold) r) st)))"

end
