(* ===== verification/Spawn_Claim_Properties.thy ===== *)
theory Spawn_Claim_Properties
  imports Spawn_Claims
begin

text \<open>
  What declaring a child promises: the claims of the operation stay held while the child may run, even
  when the process that took them has died, and once the child has ended they carry no trace of it.
\<close>

section \<open>The loops over the claims\<close>

text \<open>The loops touch only the child records of the claims they are given.\<close>

definition child_of :: "rooted_claim list \<Rightarrow> string \<Rightarrow> claim_mode \<Rightarrow> string \<Rightarrow> bool" where
  "child_of cs root m n \<longleftrightarrow> (\<exists>c. (root, c) \<in> set cs \<and> m = hd_mode c \<and> n = childPath (hd_path c))"

definition touches_child :: "(claim_handle \<Rightarrow> claim_set \<Rightarrow> 'r \<times> claim_set) \<Rightarrow> bool" where
  "touches_child f \<longleftrightarrow> (\<forall>c s. undeletable (snd (f c s)) = undeletable s \<and> set_root (snd (f c s)) = set_root s \<and>
     (\<forall>m n. (m, n) \<noteq> (hd_mode c, childPath (hd_path c)) \<longrightarrow> file_at (snd (f c s)) m n = file_at s m n))"

lemma put_file_frame [simp]: "undeletable (put_file m n f s) = undeletable s" "set_root (put_file m n f s) = set_root s"
  by (simp_all add: put_file_def)

lemma touches_write: "touches_child (\<lambda>c. writeChild c k)"
  by (auto simp: touches_child_def writeChild_def split: dir.splits option.splits)

lemma touches_child_ops: "touches_child markClaimChildPending" "touches_child (\<lambda>c. setClaimChild c j)" "touches_child clearClaimChild"
  using touches_write
  by (auto simp: touches_child_def markClaimChildPending_def [abs_def] setClaimChild_def clearClaimChild_def split: option.splits)

lemma on_set_root: "snd (on_set root f sets) r = (if r = root then snd (f (sets root)) else sets r)"
  by (simp add: on_set_def split: prod.splits)

lemma on_set_frame:
  assumes "touches_child f"
  shows "undeletable (snd (on_set root (f c) sets) r) = undeletable (sets r)" "set_root (snd (on_set root (f c) sets) r) = set_root (sets r)"
    and "\<not> child_of [(root, c)] r m n \<Longrightarrow> file_at (snd (on_set root (f c) sets) r) m n = file_at (sets r) m n"
  using assms by (auto simp: on_set_root touches_child_def child_of_def)

lemma child_of_Cons: "child_of (x # cs) r m n \<longleftrightarrow> child_of [x] r m n \<or> child_of cs r m n"
  by (auto simp: child_of_def)

lemma each_claim_frame:
  assumes "touches_child f"
  shows "undeletable (each_claim f cs sets r) = undeletable (sets r) \<and> set_root (each_claim f cs sets r) = set_root (sets r) \<and>
    (\<not> child_of cs r m n \<longrightarrow> file_at (each_claim f cs sets r) m n = file_at (sets r) m n)"
proof (induction cs arbitrary: sets)
  case (Cons x cs)
  obtain root c where x: "x = (root, c)" by fastforce
  show ?case using Cons.IH [of "snd (on_set root (f c) sets)"] on_set_frame(1,2) [OF assms, of root c sets r]
      on_set_frame(3) [OF assms, of root c r m n sets] child_of_Cons [of "(root, c)" cs r m n]
    by (auto simp: x)
qed simp

lemma mark_all_frame:
  "mark_all cs sets = (e, sets') \<Longrightarrow> undeletable (sets' r) = undeletable (sets r) \<and> set_root (sets' r) = set_root (sets r) \<and>
    (\<not> child_of cs r m n \<longrightarrow> file_at (sets' r) m n = file_at (sets r) m n)"
proof (induction cs arbitrary: sets)
  case (Cons x cs)
  obtain root c where x: "x = (root, c)" by fastforce
  obtain a sets1 where one: "on_set root (markClaimChildPending c) sets = (a, sets1)" by fastforce
  note frame = on_set_frame(1,2) [OF touches_child_ops(1), of root c sets r, unfolded one snd_conv]
    on_set_frame(3) [OF touches_child_ops(1), of root c r m n sets, unfolded one snd_conv]
  show ?case using Cons.IH [of sets1] Cons.prems frame child_of_Cons [of "(root, c)" cs r m n] by (cases a) (auto simp: x one)
qed simp

lemma forget_removes:
  assumes "\<And>r. undeletable (sets r) = []"
  shows "file_at (forget cs sets r) m n = (if child_of cs r m n then None else file_at (sets r) m n)"
  using assms unfolding forget_def
proof (induction cs arbitrary: sets)
  case (Cons x cs)
  obtain root c where x: "x = (root, c)" by fastforce
  let ?s = "snd (on_set root (clearClaimChild c) sets)"
  have und: "undeletable (?s r) = []" for r using on_set_frame(1) [OF touches_child_ops(3)] Cons.prems by simp
  have gone: "child_of [x] r m n \<Longrightarrow> file_at (?s r) m n = None"
    using Cons.prems by (auto simp: on_set_root clearClaimChild_def child_of_def x)
  show ?case using Cons.IH [OF und] gone on_set_frame(3) [OF touches_child_ops(3), of root c r m n sets] child_of_Cons [of x cs r m n]
    by (auto simp: x)
qed (simp add: child_of_def)

section \<open>The record of the child\<close>

definition child_file :: "claim_owner option \<Rightarrow> claim_file" where
  "child_file k = FileText (Some (JObj [(''record'', case k of None \<Rightarrow> JNull | Some ow \<Rightarrow> owner_json ow)]))"

definition carries :: "claim_owner option set \<Rightarrow> claim_set \<Rightarrow> claim_handle \<Rightarrow> bool" where
  "carries ks s c \<longleftrightarrow> file_at s (hd_mode c) (childPath (hd_path c)) \<in> Some ` child_file ` ks"

lemma writeChild_file: "writeChild c k s = (r, t) \<Longrightarrow> t = s \<and> r \<noteq> Inr () \<or> r = Inr () \<and> t = put_file (hd_mode c) (childPath (hd_path c)) (child_file k) s"
  by (auto simp: writeChild_def child_file_def split: dir.splits option.splits)

lemma writeChild_carries:
  assumes "k \<in> ks"
  shows "carries ks s c \<Longrightarrow> carries ks (snd (writeChild d k s)) c" and "writeChild c k s = (Inr u, t) \<Longrightarrow> carries ks t c"
  using assms writeChild_file [of d k s] writeChild_file [of c k s]
  by (cases "writeChild d k s"; fastforce simp: carries_def split: if_splits)+

lemma mark_all_carries:
  assumes "mark_all cs sets = (None, sets')" "None \<in> ks"
  shows "carries ks (sets r) c \<or> (r, c) \<in> set cs \<Longrightarrow> carries ks (sets' r) c"
  using assms(1)
proof (induction cs arbitrary: sets)
  case (Cons x cs)
  obtain root d where x: "x = (root, d)" by fastforce
  obtain a sets1 where one: "on_set root (markClaimChildPending d) sets = (a, sets1)" by fastforce
  with Cons.prems(2) x obtain u where a: "a = Inr u" "mark_all cs sets1 = (None, sets')" by (cases a) auto
  have s1: "sets1 r = (if r = root then snd (writeChild d None (sets root)) else sets r)"
    using on_set_root [of root "markClaimChildPending d" sets r] by (simp add: one markClaimChildPending_def)
  have ok: "writeChild d None (sets root) = (Inr u, snd (writeChild d None (sets root)))"
    using one a by (auto simp: on_set_def markClaimChildPending_def split: prod.splits)
  have "carries ks (sets1 r) c \<or> (r, c) \<in> set cs"
    using Cons.prems(1) writeChild_carries(1) [OF assms(2), of "sets r" c d] writeChild_carries(2) [OF assms(2) ok] by (auto simp: x s1)
  from Cons.IH [OF this a(2)] show ?case .
qed simp

lemma set_child_carries:
  assumes "valid_owner k \<Longrightarrow> Some k \<in> ks" "carries ks (sets r) c"
  shows "carries ks (each_claim (\<lambda>c. setClaimChild c (owner_json k)) cs sets r) c"
  using assms(2)
proof (induction cs arbitrary: sets)
  case (Cons x cs)
  obtain root d where x: "x = (root, d)" by fastforce
  have "carries ks (snd (setClaimChild d (owner_json k) (sets r))) c"
  proof (cases "asOwner (Some (owner_json k))")
    case None
    with Cons.prems show ?thesis by (simp add: setClaimChild_def)
  next
    case (Some k')
    then have "k' = k" "valid_owner k" by (cases k; auto simp: asOwner_def owner_json_def jfield_def valid_owner_def split: if_splits)+
    with Some writeChild_carries(1) [OF assms(1) Cons.prems] show ?thesis by (simp add: setClaimChild_def)
  qed
  with Cons.prems have "carries ks (snd (on_set root (setClaimChild d (owner_json k)) sets) r) c" by (auto simp: on_set_root)
  with Cons.IH [of "snd (on_set root (setClaimChild d (owner_json k)) sets)"] show ?case by (simp add: x)
qed simp

text \<open>A held claim that carries one of these records is held by its child.\<close>

lemma carries_child_held:
  assumes "carries ks t c" "holds s c" "hd_mode c = Exclusive" "file_at t Exclusive (hd_path c) = file_at s Exclusive (hd_path c)" "set_root t = RootDir"
    and "\<And>k. Some k \<in> ks \<Longrightarrow> valid_owner k"
  shows "child_held ks t c"
proof -
  obtain k where k: "k \<in> ks" "file_at t Exclusive (childPath (hd_path c)) = Some (child_file k)" using assms(1,3) by (auto simp: carries_def)
  have rc: "readChild t Exclusive (hd_path c) = Read k"
  proof (cases k)
    case None
    with k show ?thesis by (simp add: readChild_def readRecord_def child_file_def jfield_def asOwner_def)
  next
    case (Some a)
    with k asOwner_json [of a] assms(6) [of a] show ?thesis by (simp add: readChild_def readRecord_def child_file_def jfield_def)
  qed
  from assms(2,3) obtain h where h: "readClaim s Exclusive (hd_path c) = Read h" "claimId h = hd_claimId c" "owner h = hd_owner c"
    by (auto simp: holds_def)
  obtain h' where "readClaim t Exclusive (hd_path c) = Read h'" "claimId h' = claimId h" "owner h' = owner h"
    using h(1) rc assms(4) by (fastforce simp: readClaim_def readRecord_def split: option.splits claim_file.splits reading.splits if_splits)
  with h rc k(1) assms show ?thesis by (auto simp: child_held_def holds_def)
qed

section \<open>Children and claims\<close>

interpretation plain_lock: claim_lock "\<lambda>i. try_lock (ws i) (selfs i) (dets i) (ids i) (stamps i)" ws selfs dets ids stamps
  for ws selfs dets ids stamps
  by unfold_locales simp

lemma set_operation_simps [simp]:
  "claim_sets (set_operation ctx op st) = claim_sets st" "operationState ctx (set_operation ctx op st) = op"
  "ctx' \<noteq> ctx \<Longrightarrow> operationState ctx' (set_operation ctx op st) = operationState ctx' st"
  by (simp_all add: set_operation_def operationState_def update_conv')

lemma operationState_sets [simp]: "operationState ctx (st\<lparr>claim_sets := sets\<rparr>) = operationState ctx st"
  by (simp add: operationState_def)

text \<open>The ways a declared spawn goes when there are claims.\<close>

lemma spawnDeclared_cases:
  assumes "spawnDeclared ctx spawn capture st = (r, st')"
  obtains (unchanged) "st' = st" "declaring (operationState ctx st) = [] \<or> (\<exists>e. r = Inl e)"
  | (forgot) e sets where "mark_all (declaring (operationState ctx st)) (claim_sets st) = (e, sets)"
      "st' = st\<lparr>claim_sets := forget (declaring (operationState ctx st)) sets\<rparr>" "\<And>kid. r = Inr kid \<Longrightarrow> sp_pid kid = None"
  | (declared) sets kid p where "mark_all (declaring (operationState ctx st)) (claim_sets st) = (None, sets)" "r = Inr kid" "sp_pid kid = Some p"
      "spawn = Inr kid" "operationState ctx st' = (operationState ctx st)\<lparr>running := running (operationState ctx st) @ [kid]\<rparr>"
      "claim_sets st' = (case capture p of Inl _ \<Rightarrow> sets
         | Inr token \<Rightarrow> each_claim (\<lambda>c. setClaimChild c (owner_json \<lparr>pid = p, processToken = token\<rparr>)) (declaring (operationState ctx st)) sets)"
proof (cases "refusal (operationState ctx st) = None \<and> declaring (operationState ctx st) \<noteq> []")
  case False
  with assms show thesis by (intro unchanged) (auto simp: spawnDeclared_def Let_def split: option.splits sum.splits if_splits)
next
  case True
  obtain e sets where m: "mark_all (declaring (operationState ctx st)) (claim_sets st) = (e, sets)" by fastforce
  show thesis
  proof (cases "e = None \<and> (\<exists>kid p. spawn = Inr kid \<and> sp_pid kid = Some p)")
    case True
    then obtain kid p where k: "e = None" "spawn = Inr kid" "sp_pid kid = Some p" by blast
    show thesis by (rule declared [of sets kid p]) (use assms k m \<open>refusal _ = None \<and> _\<close> in \<open>auto simp: spawnDeclared_def Let_def\<close>)
  next
    case False
    show thesis by (rule forgot [OF m]) (use assms False m \<open>refusal _ = None \<and> _\<close> in \<open>auto simp: spawnDeclared_def Let_def split: option.splits sum.splits\<close>)
  qed
qed

text \<open>
  C7. A spawned child keeps the operation's claims: once \<open>spawnDeclared\<close> has started a child, an exclusive
  claim that the operation held and declared cannot be taken by any sequence of attempts, even when the
  process that owns it is gone, as long as the child or a member of its process group runs; a child
  whose identity could not be recorded keeps the claim whatever runs.
\<close>

theorem spawn_keeps_claim:
  fixes ws :: "nat \<Rightarrow> os"
  assumes "spawnDeclared ctx spawn capture st = (Inr kid, st')" "sp_pid kid = Some p"
    and "(root, c) \<in> set (declaring (operationState ctx st))" "holds (claim_sets st root) c" "hd_mode c = Exclusive"
    and "\<And>i token. capture p = Inr token \<Longrightarrow> inspectProcessIdentity (ws i) \<lparr>pid = p, processToken = token\<rparr> \<noteq> Gone \<or> processGroupAlive (ws i) p"
    and "run_each (\<lambda>i. try_lock (ws i) (selfs i) (dets i) (ids i) (stamps i)) is (claim_sets st' root) = (rs, t)"
  shows "holds t c \<and> list_all (\<lambda>r. \<forall>c'. r \<noteq> Inr (Some c')) rs"
proof -
  define ks where "ks = insert None {Some k | k. \<exists>token. capture p = Inr token \<and> k = \<lparr>pid = p, processToken = token\<rparr> \<and> valid_owner k}"
  from assms(1) have "child_held ks (claim_sets st' root) c"
  proof (cases rule: spawnDeclared_cases)
    case (declared sets kid' p')
    then have [simp]: "p' = p" using assms(2) by simp
    let ?set = "\<lambda>token c. setClaimChild c (owner_json \<lparr>pid = p, processToken = token\<rparr>)"
    have c1: "carries ks (sets root) c" using mark_all_carries [OF declared(1), of ks] assms(3) by (simp add: ks_def)
    have "carries ks (claim_sets st' root) c"
    proof (cases "capture p")
      case (Inr token)
      with set_child_carries [of "\<lparr>pid = p, processToken = token\<rparr>" ks sets root c] c1 declared(6) show ?thesis by (auto simp: ks_def)
    qed (use c1 declared(6) in simp)
    moreover have "\<not> child_of cs root Exclusive (hd_path c)" for cs
      using assms(4) childPath_not_claim [of "hd_path c"] by (metis child_of_def holds_def)
    with mark_all_frame [OF declared(1), of root Exclusive "hd_path c"] each_claim_frame [OF touches_child_ops(2)]
    have "file_at (claim_sets st' root) Exclusive (hd_path c) = file_at (claim_sets st root) Exclusive (hd_path c) \<and> set_root (claim_sets st' root) = RootDir"
      using declared(6) holds_root [OF assms(4)] by (auto split: sum.splits)
    ultimately show ?thesis using carries_child_held [OF _ assms(4,5)] by (auto simp: ks_def)
  qed (use assms(2,3) in auto)
  moreover have "child_guarded ws ks c" using assms(6) by (auto simp: child_guarded_def ks_def)
  ultimately show ?thesis using plain_lock.by_child.attempts_respect [OF _ _ assms(7)] by (auto simp: child_held_def)
qed

text \<open>
  A declared child leaves no trace: when the claims had no child record and their files can be
  removed, a spawn that fails, and one whose child has ended, leave every file of every claim set as it
  was, and the operation with the children it had.
\<close>

theorem spawn_leaves_no_trace:
  assumes "\<And>r. undeletable (claim_sets st r) = []"
    and "\<And>r c. (r, c) \<in> set (declaring (operationState ctx st)) \<Longrightarrow> file_at (claim_sets st r) (hd_mode c) (childPath (hd_path c)) = None"
    and "spawnDeclared ctx spawn capture st = (res, st')"
    and "\<And>kid. res = Inr kid \<Longrightarrow> sp_key kid \<notin> sp_key ` set (running (operationState ctx st))" "settles until e"
    and "st'' = (case res of Inl _ \<Rightarrow> st' | Inr kid \<Rightarrow> spawn_on ctx until (declaring (operationState ctx st)) kid e st')"
  shows "file_at (claim_sets st'' r) m n = file_at (claim_sets st r) m n \<and> operationState ctx st'' = operationState ctx st"
proof -
  let ?op = "operationState ctx st" and ?cs = "declaring (operationState ctx st)"
  define clean where "clean sets \<longleftrightarrow> (\<forall>r. undeletable (sets r) = []) \<and> (\<forall>r m n. \<not> child_of ?cs r m n \<longrightarrow> file_at (sets r) m n = file_at (claim_sets st r) m n)"
    for sets
  have none: "child_of ?cs r m n \<Longrightarrow> file_at (claim_sets st r) m n = None" for r m n using assms(2) by (auto simp: child_of_def)
  have start: "clean (claim_sets st)" using assms(1) by (simp add: clean_def)
  have mark: "clean sets" if "mark_all ?cs (claim_sets st) = (e, sets)" for e sets
    using mark_all_frame [OF that] assms(1) by (simp add: clean_def)
  have setc: "clean sets \<Longrightarrow> clean (each_claim (\<lambda>c. setClaimChild c j) ?cs sets)" for sets j
    using each_claim_frame [OF touches_child_ops(2), where cs = ?cs] by (simp add: clean_def)
  have restored: "file_at (forget ?cs sets r) m n = file_at (claim_sets st r) m n" if "clean sets" for sets r m n
    using that none forget_removes [of sets ?cs r m n] by (auto simp: clean_def)
  have again: "clean (forget ?cs sets)" if "clean sets" for sets
    using that each_claim_frame [OF touches_child_ops(3), where cs = ?cs] by (simp add: clean_def forget_def)
  have op: "?op\<lparr>running := filter (\<lambda>x. sp_key x \<noteq> sp_key kid) (running ?op)\<rparr> = ?op" if "res = Inr kid" for kid
  proof -
    have "filter (\<lambda>x. sp_key x \<noteq> sp_key kid) (running ?op) = running ?op" using assms(4) [OF that] by (intro filter_True) (metis image_eqI)
    then show ?thesis by simp
  qed
  from assms(3) show ?thesis
  proof (cases rule: spawnDeclared_cases)
    case unchanged
    then show ?thesis using assms(5,6) restored [OF start] op by (auto simp: spawn_on_def Let_def split: sum.splits)
  next
    case (forgot e' sets)
    then show ?thesis using assms(5,6) restored [OF mark] restored [OF again [OF mark]] op by (auto simp: spawn_on_def Let_def split: sum.splits)
  next
    case (declared sets kid p)
    have "clean (claim_sets st')" using declared(6) mark [OF declared(1)] setc by (auto split: sum.splits)
    moreover have "running (operationState ctx st') = running ?op @ [kid]" "(operationState ctx st')\<lparr>running := running ?op\<rparr> = ?op" using declared(5) by simp_all
    moreover have "filter (\<lambda>x. sp_key x \<noteq> sp_key kid) (running ?op) = running ?op" using assms(4) [OF declared(2)] by (intro filter_True) (metis image_eqI)
    ultimately show ?thesis using assms(5,6) declared(2) restored by (simp add: spawn_on_def Let_def)
  qed
qed

section \<open>Examples\<close>

text \<open>Process 7 holds the claim \<open>x\<close> of the set \<open>l\<close>, declares it, spawns process 8 and dies; process 9 tries.\<close>

definition spawn_sample :: spawn_state where
  "spawn_sample = declareSpawnsOn None (Some (''l'', fst held_x)) \<lparr>op_states = [], claim_sets = (\<lambda>r. if r = ''l'' then snd held_x else empty_set)\<rparr>"

definition kid_sample :: spawned where
  "kid_sample = \<lparr>sp_key = 0, sp_pid = Some 8\<rparr>"

lemma held_x_holds: "holds (snd held_x) (fst held_x)" "hd_mode (fst held_x) = Exclusive"
proof -
  have "readClaim (snd held_x) Exclusive ''x.claim'' = Read \<lparr>h_mode = Exclusive, h_name = ''x.claim'', claimId = ''x'', owner = proc 7,
      startedAt = ''t0'', details = JObj [], child = None, childDeclared = False\<rparr>" by code_simp
  moreover have c: "fst held_x = \<lparr>hd_path = ''x.claim'', hd_claimId = ''x'', hd_mode = Exclusive, hd_owner = proc 7, hd_startedAt = ''t0'', hd_details = JObj []\<rparr>" by code_simp
  moreover have "set_root (snd held_x) = RootDir" "suffix CLAIM_SUFFIX ''x.claim''" by code_simp+
  ultimately show "holds (snd held_x) (fst held_x)" "hd_mode (fst held_x) = Exclusive" by (simp_all add: holds_def)
qed

lemma spawn_sample_simps:
  "declaring (operationState None spawn_sample) = [(''l'', fst held_x)]" "claim_sets spawn_sample ''l'' = snd held_x" "running (operationState None spawn_sample) = []"
  by (simp_all add: spawn_sample_def declareSpawnsOn_def Let_def operationState_def fresh_def set_operation_def)

theorem spawn_keeps_claim_witness:
  "\<exists>st' t rs. spawnDeclared None (Inr kid_sample) (\<lambda>_. Inr ''t'') spawn_sample = (Inr kid_sample, st') \<and>
     run_each (\<lambda>_. try_lock (self_only \<lparr>pid = 8, processToken = ''t''\<rparr>) (Inr (proc 9)) (JObj []) (\<lambda>_. ''y'') (\<lambda>_. ''t1'')) [0 :: nat, 1] (claim_sets st' ''l'') = (rs, t) \<and>
     holds t (fst held_x)"
proof -
  let ?w = "self_only \<lparr>pid = 8, processToken = ''t''\<rparr>"
  have "fst (spawnDeclared None (Inr kid_sample) (\<lambda>_. Inr ''t'') spawn_sample) = Inr kid_sample" by code_simp
  then obtain st' where run: "spawnDeclared None (Inr kid_sample) (\<lambda>_. Inr ''t'') spawn_sample = (Inr kid_sample, st')" by (metis prod.collapse)
  obtain rs t where try_it: "run_each (\<lambda>_. try_lock ?w (Inr (proc 9)) (JObj []) (\<lambda>_. ''y'') (\<lambda>_. ''t1'')) [0 :: nat, 1] (claim_sets st' ''l'') = (rs, t)" by fastforce
  have "holds t (fst held_x)"
    using spawn_keeps_claim [OF run, of 8 "''l''" "fst held_x" "\<lambda>_. ?w" "\<lambda>_. Inr (proc 9)" "\<lambda>_. JObj []" "\<lambda>_ _. ''y''" "\<lambda>_ _. ''t1''" "[0, 1]" rs t]
      try_it held_x_holds by (simp add: spawn_sample_simps kid_sample_def self_only_def)
  with run try_it show ?thesis by blast
qed

theorem spawn_leaves_no_trace_witness:
  "\<exists>st'. spawnDeclared None (Inr kid_sample) (\<lambda>_. Inr ''t'') spawn_sample = (Inr kid_sample, st') \<and>
     file_at (claim_sets (spawn_on None UntilExit [(''l'', fst held_x)] kid_sample ChildExits st') ''l'') Exclusive ''x.child'' = None"
proof -
  have "fst (spawnDeclared None (Inr kid_sample) (\<lambda>_. Inr ''t'') spawn_sample) = Inr kid_sample" by code_simp
  then obtain st' where run: "spawnDeclared None (Inr kid_sample) (\<lambda>_. Inr ''t'') spawn_sample = (Inr kid_sample, st')" by (metis prod.collapse)
  have u: "undeletable (snd held_x) = []" "undeletable empty_set = []" "file_at (snd held_x) Exclusive ''x.child'' = None" by code_simp+
  have p: "childPath (hd_path (fst held_x)) = ''x.child''" by code_simp
  have und: "undeletable (claim_sets spawn_sample r) = []" for r
    using u by (simp add: spawn_sample_def declareSpawnsOn_def Let_def set_operation_def)
  from spawn_leaves_no_trace [OF und _ run, of UntilExit ChildExits "spawn_on None UntilExit [(''l'', fst held_x)] kid_sample ChildExits st'" "''l''" Exclusive "''x.child''"]
  show ?thesis using u p held_x_holds(2) run by (auto simp: spawn_sample_simps)
qed

end
