(* ===== verification/Warm_Claim_Properties.thy ===== *)
theory Warm_Claim_Properties
  imports Warm_Claim Process_Lock_Properties
begin

text \<open>
  What the warm claims promise: an exclusive claim is alone in its set and keeps every later attempt out,
  a shared one keeps exclusive attempts out, a wait ends, and the claim's file stays while an installer
  that was recorded on it runs, as long as no later spawn fails.
\<close>

section \<open>Alone with the claim\<close>

fun rival :: "claim_mode \<Rightarrow> claim_mode" where
  "rival Exclusive = Shared"
| "rival Shared = Exclusive"

text \<open>What an inspection leaves was live before it.\<close>

lemma inspect_live: 
  assumes "inspectClaimSet w s = (Inr st, t)" "set_root s = RootDir"
  shows "claims_in w t m Live \<subseteq> claims_in w s m Live"
proof
  fix h assume h: "h \<in> claims_in w t m Live"
  then have n: "suffix CLAIM_SUFFIX (h_name h)" "readClaim t m (h_name h) = Read h" "h_mode h = m" "claimLiveness w t h = Live" using claims_in_dead by blast+
  have same: "same_claim s t m (h_name h)" by (rule inspect_present [OF assms n(1) readClaim_Read(3) [OF n(2)]])
  have "claimLiveness w t h = claimLiveness w s h" using same_claim_liveness [of s t h w] same n(3) by simp
  with n same_claim_reads(2) [OF same] show "h \<in> claims_in w s m Live" by (auto simp: claims_in_def)
qed

lemma inspect_alone:
  assumes "inspectClaimSet w s = (Inr st, t)" "set_root s = RootDir" "m = Exclusive \<Longrightarrow> st_shared st = []" "m = Shared \<Longrightarrow> st_exclusive st = None"
  shows "claims_in w t (rival m) Live = {}"
  using inspect_live [OF assms(1,2), of "rival m"] inspect_result(1,2) [OF assms(1,2)] assms(3,4) by (cases m) auto

lemma acquired_alone:
  "acquire_loop k w m ow ds ids stamps reaped s = (Inr (Acquired c r), t) \<Longrightarrow> claims_in w t (rival m) Live = {}"
proof (induction k arbitrary: reaped s)
  case 0
  then show ?case by (auto simp: Let_def split: prod.splits sum.splits option.splits claim_mode.splits list.splits)
next
  case (Suc k)
  from Suc.prems show ?case
  proof (cases rule: acquire_step)
    case (5 st s1 s2)
    with Suc.IH show ?thesis by blast
  next
    case (6 st s1 s2)
    have root: "set_root s2 = RootDir" using publish_own [OF 6(3)] make_root_inspected [OF 6(1)] by simp
    from 6(4) obtain st' where "inspectClaimSet w s2 = (Inr st', t)" "m = Exclusive \<and> st_shared st' = [] \<or> m = Shared \<and> st_exclusive st' = None"
      by (cases rule: settle_published_cases) auto
    with inspect_alone [of w s2 st' t m, OF _ root] show ?thesis by auto
  qed auto
qed

lemma settle_alone:
  assumes "settleClaim w p s = (Inr (Acquired c r), t)" "set_root s = RootDir"
  shows "c = p \<and> claims_in w t Shared Live = {}"
proof -
  obtain st where "inspectClaimSet w s = (Inr st, t)" "st_shared st = []" "c = p"
    using assms(1) by (auto simp: settleClaim_def split: prod.splits sum.splits if_splits)
  with inspect_alone [of w s st t Exclusive, OF _ assms(2)] show ?thesis by simp
qed

section \<open>The wait\<close>

definition fair_round :: "claim_owner \<Rightarrow> warm_round \<Rightarrow> bool" where
  "fair_round ow r \<longleftrightarrow> inspectProcessIdentity (wr_os r) ow = Same \<and> (\<forall>k. wr_ids r k \<noteq> []) \<and>
     (\<forall>s c. holds s c \<and> hd_owner c = ow \<longrightarrow> holds (wr_others r s) c)"

definition own_pending :: "claim_owner \<Rightarrow> claim_mode \<Rightarrow> claim_handle option \<Rightarrow> claim_set \<Rightarrow> bool" where
  "own_pending ow m pending s \<longleftrightarrow> (\<forall>p. pending = Some p \<longrightarrow> holds s p \<and> hd_mode p = m \<and> hd_owner p = ow \<and> m = Exclusive)"

abbreviation warm_attempt :: "string + claim_owner \<Rightarrow> claim_mode \<Rightarrow> warm_phase \<Rightarrow> claim_handle option \<Rightarrow> warm_round \<Rightarrow> claim_set \<Rightarrow> (claim_error + claim_attempt) \<times> claim_set" where
  "warm_attempt self m phase pending r s \<equiv> (case pending of
       Some p \<Rightarrow> settleClaim (wr_os r) p s
     | None \<Rightarrow> tryAcquireClaim (wr_os r) self m (JObj [(''phase'', JStr (phase_text phase))]) (wr_ids r) (wr_stamps r) s)"

lemma warm_attempt_own:
  assumes "warm_attempt (Inr ow) m phase pending r s = (Inr a, t)" "a = Acquired c rs \<or> (\<exists>hs. a = WaitingFor hs c rs)"
    and "own_pending ow m pending s" "valid_owner ow" "fair_round ow r"
  shows "holds t c \<and> hd_mode c = m \<and> hd_owner c = ow \<and> (a = Acquired c rs \<longrightarrow> claims_in (wr_os r) t (rival m) Live = {}) \<and> (a \<noteq> Acquired c rs \<longrightarrow> m = Exclusive)"
proof (cases pending)
  case None
  then have loop: "acquire_loop PUBLISH_ATTEMPTS (wr_os r) m ow (JObj [(''phase'', JStr (phase_text phase))]) (wr_ids r) (wr_stamps r) [] s = (Inr a, t)"
    using assms(1) by (simp add: tryAcquireClaim_def)
  have "m = Exclusive" if "a = WaitingFor hs c rs" for hs using acquire_loop_waiting loop that by blast
  with acquire_loop_own [OF loop assms(2,4)] acquired_alone loop assms(2,5) show ?thesis unfolding fair_round_def by blast
next
  case (Some p)
  then have p: "holds s p" "hd_mode p = m" "hd_owner p = ow" "m = Exclusive" using assms(3) by (auto simp: own_pending_def)
  have run: "settleClaim (wr_os r) p s = (Inr a, t)" using assms(1) Some by simp
  then obtain st where st: "inspectClaimSet (wr_os r) s = (Inr st, t)" by (auto simp: settleClaim_def split: prod.splits sum.splits)
  have "c = p" using run assms(2) by (auto simp: settleClaim_def split: prod.splits sum.splits if_splits)
  moreover have "holds t p" using inspect_holds [OF st p(1)] p(3) assms(5) by (simp add: fair_round_def)
  ultimately show ?thesis using p settle_alone [of "wr_os r" p s c rs t] run assms(2) holds_root [OF p(1)] by auto
qed

lemma warm_rounds_acquired:
  assumes "warm_rounds (Inr ow) m phase started ceilingMs waitedOn pending rounds s = Some (Inr hold, t)"
    and "own_pending ow m pending s" "valid_owner ow" "list_all (fair_round ow) rounds"
  shows "holds t (wa_claim hold) \<and> hd_mode (wa_claim hold) = m \<and> hd_owner (wa_claim hold) = ow \<and>
    (\<exists>r \<in> set rounds. claims_in (wr_os r) t (rival m) Live = {})"
  using assms(1,2,4)
proof (induction rounds arbitrary: waitedOn pending s)
  case (Cons r rounds)
  let ?s = "wr_others r s"
  from Cons.prems(3) have fair: "fair_round ow r" "list_all (fair_round ow) rounds" by simp_all
  have pend: "own_pending ow m pending ?s" using Cons.prems(2) fair(1) unfolding own_pending_def fair_round_def by blast
  obtain a u where run: "warm_attempt (Inr ow) m phase pending r ?s = (a, u)" by fastforce
  note own = warm_attempt_own [OF _ _ pend assms(3) fair(1)]
  have "\<not> wr_aborted r" using Cons.prems(1) by (cases "wr_aborted r") (simp_all add: Let_def)
  note step = Cons.prems(1) [unfolded warm_rounds.simps Let_def run if_not_P [OF this] prod.case]
  show ?case
  proof (cases a)
    case (Inl e)
    with step show ?thesis by simp
  next
    case (Inr x)
    have retry: ?thesis if "warm_rounds (Inr ow) m phase started ceilingMs waited pend' rounds u = Some (Inr hold, t)" "own_pending ow m pend' u" for waited pend'
      using Cons.IH [OF that fair(2)] by auto
    show ?thesis
    proof (cases x)
      case (Acquired c rs)
      with own [where a = x and t = u and c = c and rs = rs] run Inr step show ?thesis by auto
    next
      case (HeldBy h rs)
      with step Inr show ?thesis by (intro retry [of "Some (asHolder h)" None]) (simp_all add: own_pending_def split: if_splits)
    next
      case (WaitingFor hs p rs)
      with own [where a = x and t = u and c = p and rs = rs] run Inr have "own_pending ow m (Some p) u" by (auto simp: own_pending_def)
      with step Inr WaitingFor show ?thesis by (intro retry [of _ "Some p"]) (simp_all split: if_splits)
    qed
  qed
qed simp

lemma warm_ext [simp]: "operationState ctx (st\<lparr>warm_groups := g\<rparr>) = operationState ctx st" "claim_sets (st\<lparr>warm_groups := g\<rparr>) = claim_sets st"
  by (simp_all add: operationState_def)

lemma acquireWarmClaim_acquired:
  assumes "acquireWarmClaim self root ctx phase mode started ceilingMs rounds st = Some (Inr hold, st')"
  shows "warm_rounds self (case mode of None \<Rightarrow> phase_mode phase | Some m \<Rightarrow> m) phase started ceilingMs None None rounds (claim_sets st root) = Some (Inr hold, claim_sets st' root) \<and>
    (ctx \<noteq> None \<longrightarrow> (root, wa_claim hold) \<in> set (declaring (operationState ctx st'))) \<and> warm_groups st' = []"
  using assms
  by (auto simp: acquireWarmClaim_def declare_on_def declareSpawnsOn_def Let_def split: option.splits prod.splits sum.splits if_splits)

text \<open>
  C15. A warm claim excludes, in whatever mode it is taken (a refresh is exclusive and a copy shared unless
  the caller names the mode, as the \<open>worktree\<close> command does: the copy takes its target's claim exclusively,
  and the first step of a refresh is shared). Suppose that in every turn of the wait the operating system says that this
  process is the one that published, the ids are not empty, and the others leave this process's claims alone.
  Once the claim is acquired, its file is in the set, in that mode and under this process; in some turn's
  look no claim of the other mode was live in the set; and as long as the process is found running, an
  attempt in a mode that conflicts (one of the two exclusive), by whoever, with fresh ids, does not acquire
  and leaves the claim in place.
\<close>

theorem warm_claim_excludes:
  assumes "acquireWarmClaim (Inr ow) root ctx phase mode started ceilingMs rounds st = Some (Inr hold, st')"
    and "valid_owner ow" "list_all (fair_round ow) rounds" "c = wa_claim hold" "s = claim_sets st' root"
    and "m = (case mode of None \<Rightarrow> phase_mode phase | Some m \<Rightarrow> m)"
  shows "holds s c \<and> hd_mode c = m \<and> hd_owner c = ow \<and> (\<exists>r \<in> set rounds. claims_in (wr_os r) s (rival m) Live = {}) \<and>
    (\<forall>w self m' ds ids stamps res t. inspectProcessIdentity w ow = Same \<and> (\<forall>k. ids k @ CLAIM_SUFFIX \<noteq> hd_path c) \<and> (m = Exclusive \<or> m' = Exclusive) \<and>
       tryAcquireClaim w self m' ds ids stamps s = (res, t) \<longrightarrow> holds t c \<and> (\<forall>c' r. res \<noteq> Inr (Acquired c' r)))"
proof -
  note w = acquireWarmClaim_acquired [OF assms(1), folded assms(6), THEN conjunct1]
  have own: "holds s c" "hd_mode c = m" "hd_owner c = ow" "\<exists>r \<in> set rounds. claims_in (wr_os r) s (rival m) Live = {}"
    using warm_rounds_acquired [OF w _ assms(2,3)] assms(4,5) by (simp_all add: own_pending_def)
  have "holds t c \<and> (\<forall>c' r. res \<noteq> Inr (Acquired c' r))"
    if "inspectProcessIdentity w ow = Same" "\<forall>k. ids k @ CLAIM_SUFFIX \<noteq> hd_path c" "m = Exclusive \<or> m' = Exclusive"
      "tryAcquireClaim w self m' ds ids stamps s = (res, t)" for w self m' ds ids stamps res t
  proof (cases self)
    case (Inl e)
    with that(4) own(1) show ?thesis by (auto simp: tryAcquireClaim_def)
  next
    case (Inr ow')
    then have "acquire_loop PUBLISH_ATTEMPTS w m' ow' ds ids stamps [] s = (res, t)" using that(4) by (simp add: tryAcquireClaim_def)
    from acquire_loop_conflict [OF this own(1)] that(1-3) own(2,3) show ?thesis by auto
  qed
  with own show ?thesis by blast
qed

text \<open>A wait for a warm claim ends: once a turn's clock has reached the ceiling, the call has answered.\<close>

theorem warm_wait_returns:
  assumes "list_ex (\<lambda>r. ceilingMs \<le> wr_now r - started) rounds"
  shows "\<exists>y. acquireWarmClaim self root ctx phase mode started ceilingMs rounds st = Some y"
proof -
  have "\<exists>y. warm_rounds self m phase started ceilingMs waitedOn pending rounds s = Some y" for m waitedOn pending s
    using assms by (induction rounds arbitrary: waitedOn pending s)
      (auto simp: Let_def split: prod.splits sum.splits claim_attempt.splits option.splits)
  then obtain y t where "warm_rounds self (case mode of None \<Rightarrow> phase_mode phase | Some m \<Rightarrow> m) phase started ceilingMs None None rounds (claim_sets st root) = Some (y, t)"
    by fastforce
  then show ?thesis by (cases y) (simp_all add: acquireWarmClaim_def)
qed

section \<open>Installers\<close>

lemma installer_alive_None: "installer_alive w groups = None \<longleftrightarrow> (\<forall>p \<in> set groups. \<not> processGroupAlive w p)"
  by (auto simp: installer_alive_def find_None_iff)

text \<open>
  The end of an installer is established, not assumed: \<open>settle\<close> answers that all is settled only when in its
  last look no process group it was told of was alive, and forgets them then; it gives up only after five
  minutes, naming a group that was alive in its last look, and keeps them all; and it does answer
  by then.
\<close>

theorem installer_settle_answer:
  assumes "list_ex (\<lambda>r. INSTALLER_CEILING_MS \<le> ss_now r - started) rounds"
  shows "\<exists>r \<in> set rounds. \<exists>a i'. installer_settle claim started rounds i = Some (a, i') \<and> sa_waitedMs a = ss_now r - started \<and>
    (if sa_settled a then (\<forall>p \<in> set (fst i). \<not> processGroupAlive (ss_os r) p) \<and> fst i' = [] \<and> snd i' = snd (clearClaimChild claim (snd i))
     else INSTALLER_CEILING_MS \<le> sa_waitedMs a \<and> (\<exists>p \<in> set (fst i). sa_pid a = Some p \<and> processGroupAlive (ss_os r) p) \<and> i' = i)"
  using assms
proof (induction rounds)
  case (Cons r rounds)
  show ?case
  proof (cases "installer_alive (ss_os r) (fst i)")
    case None
    then show ?thesis using installer_alive_None [of "ss_os r" "fst i"] by (simp add: installer_forget_def)
  next
    case (Some p)
    then have p: "p \<in> set (fst i)" "processGroupAlive (ss_os r) p" by (auto simp: installer_alive_def find_Some_iff)
    show ?thesis
    proof (cases "INSTALLER_CEILING_MS \<le> ss_now r - started")
      case True
      with Some p show ?thesis by auto
    next
      case False
      with Cons Some show ?thesis by auto
    qed
  qed
qed simp

text \<open>The calls that code under a warm claim makes on its installer claim, in a row.\<close>

datatype installer_call = InsDeclare | InsRecord os "int \<Rightarrow> string + string" "int option" | InsSettle int "settle_round list"

fun call_installer :: "claim_handle \<Rightarrow> installer_call \<Rightarrow> installer \<Rightarrow> installer" where
  "call_installer c InsDeclare i = snd (installer_declare c i)"
| "call_installer c (InsRecord w capture spawned) i = installer_record w capture c spawned i"
| "call_installer c (InsSettle started rounds) i = (case installer_settle c started rounds i of None \<Rightarrow> i | Some (_, i') \<Rightarrow> i')"

definition run_installers :: "string \<Rightarrow> claim_handle \<Rightarrow> installer_call list \<Rightarrow> 'd warm_state \<Rightarrow> 'd warm_state" where
  "run_installers root c calls st = (let (gs, s) = fold (call_installer c) calls (warm_groups st, claim_sets st root) in (set_of root s st)\<lparr>warm_groups := gs\<rparr>)"

text \<open>A call that does not lose group \<open>p\<close>: a child it records is there and running, and every look of a wait finds \<open>p\<close> alive.\<close>

fun spares :: "int \<Rightarrow> installer_call \<Rightarrow> bool" where
  "spares p InsDeclare = True"
| "spares p (InsRecord w capture spawned) = (case spawned of None \<Rightarrow> False | Some q \<Rightarrow> processGroupAlive w q)"
| "spares p (InsSettle started rounds) = list_all (\<lambda>r. processGroupAlive (ss_os r) p) rounds"

lemma installer_settle_spares:
  "p \<in> set (fst i) \<Longrightarrow> list_all (\<lambda>r. processGroupAlive (ss_os r) p) rounds \<Longrightarrow> installer_settle c started rounds i = Some (a, i') \<Longrightarrow> i' = i"
proof (induction rounds)
  case (Cons r rounds)
  then have "installer_alive (ss_os r) (fst i) \<noteq> None" using installer_alive_None by fastforce
  with Cons show ?case by (auto split: if_splits)
qed simp

lemma call_spares: "p \<in> set (fst i) \<Longrightarrow> spares p call \<Longrightarrow> p \<in> set (fst (call_installer c call i))"
proof (cases call)
  case (InsSettle started rounds)
  assume p: "p \<in> set (fst i)" "spares p call"
  then show ?thesis using InsSettle installer_settle_spares [of p i rounds c started]
    by (cases "installer_settle c started rounds i") auto
qed (auto simp: installer_declare_def installer_record_def Let_def split: prod.splits option.splits sum.splits)

lemma calls_spare: "p \<in> set (fst i) \<Longrightarrow> list_all (spares p) calls \<Longrightarrow> p \<in> set (fst (fold (call_installer c) calls i))"
  by (induction calls arbitrary: i) (simp_all add: call_spares)

lemma record_adds: "processGroupAlive w p \<Longrightarrow> p \<in> set (fst (installer_record w capture c (Some p) i))"
  by (auto simp: installer_record_def Let_def split: sum.splits prod.splits)

lemma settle_groups: "installer_settle c started rounds i = Some (a, i') \<Longrightarrow> set (fst i') \<subseteq> set (fst i) \<and> (snd i' = snd i \<or> snd i' = snd (clearClaimChild c (snd i)))"
  by (induction rounds) (auto simp: installer_forget_def split: option.splits if_splits)

definition recorded :: "installer_call list \<Rightarrow> int set" where
  "recorded calls = {p. \<exists>w capture. InsRecord w capture (Some p) \<in> set calls}"

lemma call_groups: "set (fst (call_installer c call i)) \<subseteq> set (fst i) \<union> recorded [call]"
  using settle_groups
  by (cases call) (fastforce simp: recorded_def installer_declare_def installer_record_def installer_forget_def Let_def split: prod.splits option.splits sum.splits if_splits)+

lemma calls_groups: "set (fst (fold (call_installer c) calls i)) \<subseteq> set (fst i) \<union> recorded calls"
proof (induction calls arbitrary: i)
  case (Cons call calls)
  have "recorded (call # calls) = recorded [call] \<union> recorded calls" by (auto simp: recorded_def)
  with Cons.IH [of "call_installer c call i"] call_groups [of c call i] show ?case by auto
qed simp

text \<open>The calls touch the child record of the claim only.\<close>

lemma call_file: "n \<noteq> childPath (hd_path c) \<Longrightarrow> file_at (snd (call_installer c call i)) m n = file_at (snd i) m n"
proof -
  assume n: "n \<noteq> childPath (hd_path c)"
  note t = touches_child_ops [unfolded touches_child_def, rule_format, THEN conjunct2, THEN conjunct2, rule_format, of m n c, simplified n]
  show ?thesis
  proof (cases call)
    case (InsSettle started rounds)
    show ?thesis
    proof (cases "installer_settle c started rounds i")
      case (Some x)
      with settle_groups [of c started rounds i "fst x" "snd x"] t n InsSettle show ?thesis by (auto split: prod.splits)
    qed (simp add: InsSettle)
  next
    case (InsRecord w capture spawned)
    have "file_at u m n = file_at (snd i) m n" if "setClaimChild c j (snd i) = (y, u)" for j y u using t n that by (metis Pair_inject snd_conv)
    with t n InsRecord show ?thesis
      by (auto simp: installer_record_def installer_forget_def Let_def split: prod.splits option.splits sum.splits if_splits)
  qed (use t(1) [of "snd i"] n in \<open>simp add: installer_declare_def case_prod_beta\<close>)
qed

lemma calls_file: "n \<noteq> childPath (hd_path c) \<Longrightarrow> file_at (snd (fold (call_installer c) calls i)) m n = file_at (snd i) m n"
  by (induction calls arbitrary: i) (simp_all add: call_file)

text \<open>
  C32. A warm claim and the installers under it. The code that runs under the claim calls its installer claim
  (declare, record, settle) in any sequence, and then the claim is released. If an installer was recorded
  alive, no spawn after it failed or died unrecorded, and its process group was alive in every look up to the
  release, the claim's file is as it was when the claim was acquired: it is not given back under a
  writer. If on the other hand no group that was ever recorded is alive at the release, the code's
  cleanup does not keep the claim, and its files can be deleted, the claim's file is gone.
\<close>

theorem installer_keeps_claim:
  assumes "withWarmClaim self root ctx phase mode started ceilingMs rounds (\<lambda>hold st. (x, run_installers root (wa_claim hold) calls st)) w st = Some (res, st')"
    and "acquireWarmClaim self root ctx phase mode started ceilingMs rounds st = Some (Inr hold, st1)" "c = wa_claim hold" "suffix CLAIM_SUFFIX (hd_path c)"
  shows "(\<forall>before w0 capture p after. calls = before @ InsRecord w0 capture (Some p) # after \<and> processGroupAlive w0 p \<and> list_all (spares p) after \<and> processGroupAlive w p \<longrightarrow>
      file_at (claim_sets st' root) (hd_mode c) (hd_path c) = file_at (claim_sets st1 root) (hd_mode c) (hd_path c)) \<and>
    ((\<forall>p \<in> recorded calls. \<not> processGroupAlive w p) \<and> \<not> retains root c x \<and>
       holds (claim_sets (run_installers root c calls st1) root) c \<and> undeletable (claim_sets (run_installers root c calls st1) root) = [] \<longrightarrow>
       file_at (claim_sets st' root) (hd_mode c) (hd_path c) = None)"
proof -
  let ?i = "fold (call_installer c) calls ([], claim_sets st1 root)" and ?st2 = "run_installers root c calls st1"
  have none: "warm_groups st1 = []" using acquireWarmClaim_acquired [OF assms(2)] by blast
  have st2: "warm_groups ?st2 = fst ?i" "claim_sets ?st2 root = snd ?i"
    by (simp_all add: run_installers_def none set_of_def split: prod.splits)
  let ?st3 = "declare_on stopDeclaringSpawnsOn ctx (root, c) ?st2"
  have st3: "claim_sets ?st3 = claim_sets ?st2" "warm_groups ?st3 = warm_groups ?st2"
    by (simp_all add: declare_on_def stopDeclaringSpawnsOn_def Let_def set_operation_def)
  have st': "st' = release_warm w root ctx c (retains root c x) ?st2" using assms(1,2,3) by (auto simp: withWarmClaim_def)
  have hold: "installer_holding w (fst ?i) \<longleftrightarrow> (\<exists>p \<in> set (fst ?i). processGroupAlive w p)" by (auto simp: installer_holding_def installer_alive_None)
  have path: "hd_path c \<noteq> childPath (hd_path c)" by (metis assms(4) childPath_not_claim)
  have kept: "file_at (claim_sets st' root) (hd_mode c) (hd_path c) = file_at (claim_sets st1 root) (hd_mode c) (hd_path c)"
    if "calls = before @ InsRecord w0 capture (Some p) # after" "processGroupAlive w0 p" "list_all (spares p) after" "processGroupAlive w p" for before w0 capture p after
  proof -
    have "p \<in> set (fst ?i)" unfolding that(1) by (simp add: calls_spare [OF record_adds [OF that(2)] that(3)])
    with that(4) hold have "claim_sets st' root = snd ?i" using st2 st3 by (auto simp: st' release_warm_def Let_def)
    then show ?thesis using calls_file [OF path] by simp
  qed
  have freed: "file_at (claim_sets st' root) (hd_mode c) (hd_path c) = None"
    if "\<forall>p \<in> recorded calls. \<not> processGroupAlive w p" "\<not> retains root c x" "holds (claim_sets ?st2 root) c" "undeletable (claim_sets ?st2 root) = []"
  proof -
    have "\<not> installer_holding w (fst ?i)" using hold that(1) calls_groups [of c calls "([], claim_sets st1 root)"] by auto
    then have "claim_sets st' root = snd (releaseClaim c (claim_sets ?st2 root))" using that(2) st2 st3 by (auto simp: st' release_warm_def Let_def set_of_def)
    with releaseClaim_effect [OF that(3,4)] show ?thesis by (metis snd_conv)
  qed
  show ?thesis using kept freed by blast
qed

section \<open>Examples\<close>

definition warm_round_sample :: warm_round where
  "warm_round_sample = \<lparr>wr_aborted = False, wr_others = (\<lambda>s. s), wr_os = self_only (proc 7), wr_ids = (\<lambda>_. ''x''), wr_stamps = (\<lambda>_. ''t0''), wr_now = 5\<rparr>"

definition warm_state_sample :: "unit warm_state" where
  "warm_state_sample = \<lparr>op_states = [], claim_sets = (\<lambda>_. empty_set), warm_groups = [], warm_data = ()\<rparr>"

abbreviation warm_sample :: "warm_phase \<Rightarrow> ((warm_error + warm_hold) \<times> unit warm_state) option" where
  "warm_sample phase \<equiv> acquireWarmClaim (Inr (proc 7)) ''r'' (Some 0) phase None 0 WARM_CLAIM_CEILING_MS [warm_round_sample] warm_state_sample"

lemma warm_sample_acquired:
  "\<exists>st'. warm_sample Refresh = Some (Inr \<lparr>wa_claim = claim_handle_for Exclusive (proc 7) (JObj [(''phase'', JStr ''refresh'')]) ''x'' ''t0'', wa_waitedMs = 5, wa_holder = None\<rparr>, st')"
proof -
  let ?a = "tryAcquireClaim (self_only (proc 7)) (Inr (proc 7)) Exclusive (JObj [(''phase'', JStr ''refresh'')]) (\<lambda>_. ''x'') (\<lambda>_. ''t0'') empty_set"
  have "fst ?a = Inr (Acquired (claim_handle_for Exclusive (proc 7) (JObj [(''phase'', JStr ''refresh'')]) ''x'' ''t0'') [])" by code_simp
  then show ?thesis by (cases ?a) (auto simp: acquireWarmClaim_def warm_state_sample_def warm_round_sample_def)
qed

lemma warm_round_sample_fair: "valid_owner (proc 7)" "list_all (fair_round (proc 7)) [warm_round_sample]"
  by (auto simp: valid_owner_def proc_def safe_integer_def fair_round_def warm_round_sample_def self_only_def)

theorem warm_claim_excludes_witness:
  "\<exists>hold st'. warm_sample Refresh = Some (Inr hold, st') \<and> holds (claim_sets st' ''r'') (wa_claim hold) \<and>
     (\<forall>c' r. fst (tryAcquireClaim (self_only (proc 7)) (Inr (proc 8)) Shared (JObj []) (\<lambda>_. ''y'') (\<lambda>_. ''t1'') (claim_sets st' ''r'')) \<noteq> Inr (Acquired c' r))"
proof -
  obtain st' where a: "warm_sample Refresh = Some (Inr \<lparr>wa_claim = claim_handle_for Exclusive (proc 7) (JObj [(''phase'', JStr ''refresh'')]) ''x'' ''t0'', wa_waitedMs = 5, wa_holder = None\<rparr>, st')"
    (is "_ = Some (Inr ?hold, _)") using warm_sample_acquired by blast
  note w = warm_claim_excludes [OF a warm_round_sample_fair refl refl refl]
  obtain res t where try_it: "tryAcquireClaim (self_only (proc 7)) (Inr (proc 8)) Shared (JObj []) (\<lambda>_. ''y'') (\<lambda>_. ''t1'') (claim_sets st' ''r'') = (res, t)" by fastforce
  have "\<forall>c' r. res \<noteq> Inr (Acquired c' r)"
    using w [THEN conjunct2, THEN conjunct2, THEN conjunct2, THEN conjunct2, rule_format, of "self_only (proc 7)" "\<lambda>_. ''y''" Shared "Inr (proc 8)" "JObj []" "\<lambda>_. ''t1''" res t] try_it
    by (simp add: self_only_def)
  with a w try_it show ?thesis by auto
qed

theorem warm_wait_returns_witness:
  "\<exists>y. acquireWarmClaim (Inl ''unknown'') ''r'' None Copy None 0 5 [warm_round_sample] warm_state_sample = Some y"
  using warm_wait_returns [of 5 0 "[warm_round_sample]"] by (simp add: warm_round_sample_def)

theorem installer_settle_answer_witness:
  "\<exists>a i'. installer_settle (fst held_x) 0 [\<lparr>ss_os = (self_only (proc 7))\<lparr>group_answers := (\<lambda>p. p = 9)\<rparr>, ss_now = 300000\<rparr>] ([8, 9], snd held_x) = Some (a, i') \<and>
     \<not> sa_settled a \<and> fst i' = [8, 9]"
  using installer_settle_answer [of 0 "[\<lparr>ss_os = (self_only (proc 7))\<lparr>group_answers := (\<lambda>p. p = 9)\<rparr>, ss_now = 300000\<rparr>]" "fst held_x" "([8, 9], snd held_x)"]
  by (auto simp: INSTALLER_CEILING_MS_def processGroupAlive_def safe_integer_def self_only_def split: if_splits)

theorem installer_keeps_claim_witness:
  "\<exists>hold st1 st'. warm_sample Refresh = Some (Inr hold, st1) \<and> file_at (claim_sets st1 ''r'') Exclusive (hd_path (wa_claim hold)) \<noteq> None \<and>
     withWarmClaim (Inr (proc 7)) ''r'' (Some 0) Refresh None 0 WARM_CLAIM_CEILING_MS [warm_round_sample]
       (\<lambda>hold st. (Inr () :: unit body_error + unit, run_installers ''r'' (wa_claim hold)
          [InsDeclare, InsRecord ((self_only (proc 7))\<lparr>group_answers := (\<lambda>p. p = 9)\<rparr>) (\<lambda>_. Inl ''gone'') (Some 9)] st))
       ((self_only (proc 7))\<lparr>group_answers := (\<lambda>p. p = 9)\<rparr>) warm_state_sample = Some (Inr (), st') \<and>
     file_at (claim_sets st' ''r'') Exclusive (hd_path (wa_claim hold)) = file_at (claim_sets st1 ''r'') Exclusive (hd_path (wa_claim hold))"
proof -
  let ?w = "(self_only (proc 7))\<lparr>group_answers := (\<lambda>p. p = 9)\<rparr>"
  let ?calls = "[InsDeclare, InsRecord ?w (\<lambda>_. Inl ''gone'') (Some 9)]"
  let ?fn = "\<lambda>hold st. (Inr () :: unit body_error + unit, run_installers ''r'' (wa_claim hold) ?calls st)"
  obtain hold st1 where a: "warm_sample Refresh = Some (Inr hold, st1)" using warm_sample_acquired by blast
  then obtain st' where run: "withWarmClaim (Inr (proc 7)) ''r'' (Some 0) Refresh None 0 WARM_CLAIM_CEILING_MS [warm_round_sample] ?fn ?w warm_state_sample = Some (Inr (), st')"
    by (simp add: withWarmClaim_def)
  have held: "holds (claim_sets st1 ''r'') (wa_claim hold)" "hd_mode (wa_claim hold) = Exclusive"
    using warm_rounds_acquired [OF acquireWarmClaim_acquired [OF a, THEN conjunct1] _ warm_round_sample_fair] by (simp_all add: own_pending_def)
  then have path: "suffix CLAIM_SUFFIX (hd_path (wa_claim hold))" "file_at (claim_sets st1 ''r'') Exclusive (hd_path (wa_claim hold)) \<noteq> None"
    by (auto simp: holds_def dest: readClaim_Read(3))
  have "processGroupAlive ?w 9" by (simp add: processGroupAlive_def safe_integer_def)
  with installer_keeps_claim [OF run a refl path(1), THEN conjunct1, rule_format, of "[InsDeclare]" ?w "\<lambda>_. Inl ''gone''" 9 "[]"] held(2)
  show ?thesis using a path(2) run by auto
qed

text \<open>
  A spawn that fails makes the installer claim forget every group it had, also those of earlier installs
  that are still alive: here group 5 runs, a second spawn fails, and the claim no longer waits for group 5.
\<close>

lemma failed_spawn_forgets: "fst (installer_record w capture claim None ([5], s)) = []"
  by (simp add: installer_record_def installer_forget_def)

end
