(* ===== verification/Signed_Tail.thy ===== *)
theory Signed_Tail
  imports Byte_Text Json_Value
begin

text \<open>
  The signed tail of an APK (\<open>packages/stim-cli/src/engine/apk-signed-tail.ts\<close>): where the v2 or v3 signing
  block of the file starts, and the record that says so. A file is its bytes, a read past its end fails
  as \<open>readSync\<close>'s short read does, and a signing block is found by the offsets the ZIP end record and the
  block's footer give. Reads have no upper bound here; Node refuses one of about two gigabytes, where the code
  answers that there is no tail. The digest, the output of \<open>apksigner\<close> and the contents of the APK at each
  time it is read are arguments. Left out: the temporary name and the removal of the file that a failed
  write of the record leaves.
\<close>

section \<open>Reading a file\<close>

definition slice :: "nat \<Rightarrow> nat \<Rightarrow> bytes \<Rightarrow> bytes" where
  "slice p n f = take n (drop p f)"

definition read_at :: "bytes \<Rightarrow> nat \<Rightarrow> nat \<Rightarrow> bytes option" where
  "read_at f position len = (if position + len \<le> length f then Some (slice position len f) else None)"

definition uint_le :: "nat \<Rightarrow> nat \<Rightarrow> bytes \<Rightarrow> nat" where
  "uint_le k i b = le_value (slice i k b)"

section \<open>The signing block\<close>

definition EOCD_SIGNATURE :: nat where "EOCD_SIGNATURE = 0x06054b50"
definition EOCD_MIN_BYTES :: nat where "EOCD_MIN_BYTES = 22"
definition EOCD_SEARCH_BYTES :: nat where "EOCD_SEARCH_BYTES = EOCD_MIN_BYTES + 0xffff"
definition SIGNING_BLOCK_FOOTER_BYTES :: nat where "SIGNING_BLOCK_FOOTER_BYTES = 24"
definition SIGNING_BLOCK_MAGIC :: bytes where "SIGNING_BLOCK_MAGIC = ascii ''APK Sig Block 42''"
definition SIGNATURE_SCHEME_IDS :: "nat list" where "SIGNATURE_SCHEME_IDS = [0x7109871a, 0xf05368c0]"

definition is_eocd :: "bytes \<Rightarrow> nat \<Rightarrow> bool" where
  "is_eocd b i \<longleftrightarrow> uint_le 4 i b = EOCD_SIGNATURE \<and> i + EOCD_MIN_BYTES + uint_le 2 (i + 20) b = length b"

fun find_eocd :: "bytes \<Rightarrow> nat \<Rightarrow> nat option" where
  "find_eocd b 0 = (if is_eocd b 0 then Some 0 else None)"
| "find_eocd b (Suc i) = (if is_eocd b (Suc i) then Some (Suc i) else find_eocd b i)"

text \<open>The loop over the ID-value pairs: whether one of them is a signature of scheme v2 or v3.\<close>

function has_scheme :: "bytes \<Rightarrow> nat \<Rightarrow> bool" where
  "has_scheme pairs position =
     (if length pairs < position + 12 then False
      else let len = uint_le 8 position pairs in
        if len < 4 \<or> length pairs - position - 8 < len then False
        else if uint_le 4 (position + 8) pairs \<in> set SIGNATURE_SCHEME_IDS then True
        else has_scheme pairs (position + 8 + len))"
  by pat_completeness auto
termination by (relation "measure (\<lambda>(pairs, position). length pairs - position)") auto

declare has_scheme.simps [simp del]

text \<open>Answers \<open>None\<close> when a read fails, and \<open>Some None\<close> for the code's \<open>null\<close>.\<close>

definition block_at :: "(nat \<Rightarrow> nat \<Rightarrow> bytes option) \<Rightarrow> nat \<Rightarrow> nat option option" where
  "block_at read directoryOffset =
     (case read (directoryOffset - SIGNING_BLOCK_FOOTER_BYTES) SIGNING_BLOCK_FOOTER_BYTES of
        None \<Rightarrow> None
      | Some footer \<Rightarrow>
         if drop 8 footer \<noteq> SIGNING_BLOCK_MAGIC then Some None
         else let blockSize = uint_le 8 0 footer in
           if blockSize < SIGNING_BLOCK_FOOTER_BYTES \<or> directoryOffset < blockSize + 8 then Some None
           else let start = directoryOffset - blockSize - 8 in
             (case read start (blockSize + 8 - SIGNING_BLOCK_FOOTER_BYTES) of
                None \<Rightarrow> None
              | Some pairs \<Rightarrow>
                  if uint_le 8 0 pairs \<noteq> blockSize then Some None
                  else if has_scheme pairs 8 then Some (Some start) else Some None))"

definition signingBlockOffset :: "nat \<Rightarrow> (nat \<Rightarrow> nat \<Rightarrow> bytes option) \<Rightarrow> nat option option" where
  "signingBlockOffset bytes_n read =
     (if bytes_n < EOCD_MIN_BYTES then Some None
      else let searched = min bytes_n EOCD_SEARCH_BYTES in
        (case read (bytes_n - searched) searched of
           None \<Rightarrow> None
         | Some tail \<Rightarrow> (case find_eocd tail (length tail - EOCD_MIN_BYTES) of
               None \<Rightarrow> Some None
             | Some eocd \<Rightarrow>
                 let directoryOffset = uint_le 4 (eocd + 16) tail in
                 if directoryOffset = 0xffffffff \<or> directoryOffset < SIGNING_BLOCK_FOOTER_BYTES + 8 then Some None
                 else block_at read directoryOffset)))"

section \<open>The record of a tail\<close>

record signed_tail =
  tl_file :: string
  tl_size :: nat
  tl_tailOffset :: nat
  tl_tailSha256 :: string

definition readSignedTail :: "(bytes \<Rightarrow> string) \<Rightarrow> string \<Rightarrow> bytes option \<Rightarrow> signed_tail option" where
  "readSignedTail sha name apk = (case apk of
       None \<Rightarrow> None
     | Some f \<Rightarrow> (case signingBlockOffset (length f) (read_at f) of
           Some (Some off) \<Rightarrow> map_option (\<lambda>rest. \<lparr>tl_file = name, tl_size = length f, tl_tailOffset = off, tl_tailSha256 = sha rest\<rparr>) (read_at f off (length f - off))
         | _ \<Rightarrow> None))"

text \<open>The lines of an output, and whether one of them says that a v2 or v3 signature verifies.\<close>

definition white :: "char \<Rightarrow> bool" where
  "white c \<longleftrightarrow> c \<in> {CHR '' '', CHR 0x09, CHR 0x0B, CHR 0x0C, CHR 0xA0}"

definition line_end :: "char \<Rightarrow> bool" where
  "line_end c \<longleftrightarrow> c = CHR 0x0A \<or> c = CHR 0x0D"

fun text_lines :: "string \<Rightarrow> string list" where
  "text_lines [] = [[]]"
| "text_lines (c # cs) = (if line_end c then [] # text_lines cs
     else (case text_lines cs of l # ls \<Rightarrow> (c # l) # ls | [] \<Rightarrow> [[c]]))"

definition verified_line :: "char \<Rightarrow> char \<Rightarrow> string" where
  "verified_line a b = ''Verified using v'' @ [a] @ '' scheme (APK Signature Scheme v'' @ [b] @ ''): true''"

definition says_verified :: "string \<Rightarrow> bool" where
  "says_verified out = list_ex (\<lambda>l. list_ex (\<lambda>(a, b). let v = verified_line a b in take (length v) l = v \<and> list_all white (drop (length v) l))
     [(CHR ''2'', CHR ''2''), (CHR ''2'', CHR ''3''), (CHR ''3'', CHR ''2''), (CHR ''3'', CHR ''3'')]) (text_lines out)"

text \<open>\<open>run\<close> is the output of the signer, \<open>None\<close> where it fails; \<open>before\<close> and \<open>after\<close> are the APK around it.\<close>

definition computeSignedTail :: "(bytes \<Rightarrow> string) \<Rightarrow> string \<Rightarrow> bytes option \<Rightarrow> string option \<Rightarrow> (string \<Rightarrow> string option) \<Rightarrow> bytes option \<Rightarrow> signed_tail option" where
  "computeSignedTail sha name before signer run after =
     (case readSignedTail sha name before of
        None \<Rightarrow> None
      | Some tail \<Rightarrow> (case signer of
          None \<Rightarrow> None
        | Some [] \<Rightarrow> None
        | Some path \<Rightarrow> (case run path of
            None \<Rightarrow> None
          | Some out \<Rightarrow>
             if \<not> says_verified out then None
             else (case readSignedTail sha name after of
                 None \<Rightarrow> None
               | Some again \<Rightarrow> if tl_size again = tl_size tail \<and> tl_tailSha256 again = tl_tailSha256 tail then Some tail else None))))"

definition sha256_hex :: "string \<Rightarrow> bool" where
  "sha256_hex s \<longleftrightarrow> length s = 64 \<and> list_all (\<lambda>c. c \<in> set ''0123456789abcdef'') s"

definition safe_nat :: "int \<Rightarrow> bool" where
  "safe_nat n \<longleftrightarrow> \<bar>n\<bar> \<le> 9007199254740991"

text \<open>The record beside the APK: \<open>None\<close> when it cannot be read, otherwise what \<open>JSON.parse\<close> makes of it.\<close>

definition recordedSignedTail :: "(bytes \<Rightarrow> string) \<Rightarrow> string \<Rightarrow> bytes option \<Rightarrow> file_text option \<Rightarrow> signed_tail option" where
  "recordedSignedTail sha name apk rec = (case rec of
       Some (Some j) \<Rightarrow>
         (case (jfield ''file'' j, jfield ''size'' j, jfield ''tailOffset'' j, jfield ''tailSha256'' j) of
            (Some f, Some (JNum bytes_n), Some (JNum tailOffset), Some (JStr digest)) \<Rightarrow>
              if f \<noteq> JStr name \<or> \<not> sha256_hex digest \<or> \<not> safe_nat bytes_n \<or> \<not> safe_nat tailOffset \<or> tailOffset < 0 \<or> bytes_n \<le> tailOffset then None
              else (case readSignedTail sha name apk of
                  None \<Rightarrow> None
                | Some current \<Rightarrow>
                    if int (tl_size current) \<noteq> bytes_n \<or> int (tl_tailOffset current) \<noteq> tailOffset \<or> tl_tailSha256 current \<noteq> digest then None
                    else Some \<lparr>tl_file = name, tl_size = nat bytes_n, tl_tailOffset = nat tailOffset, tl_tailSha256 = digest\<rparr>)
          | _ \<Rightarrow> None)
     | _ \<Rightarrow> None)"

definition tail_json :: "signed_tail \<Rightarrow> json" where
  "tail_json t = JObj [(''file'', JStr (tl_file t)), (''size'', JNum (int (tl_size t))), (''tailOffset'', JNum (int (tl_tailOffset t))), (''tailSha256'', JStr (tl_tailSha256 t))]"

text \<open>The write replaces the record when it succeeds and leaves it when it fails.\<close>

definition writeSignedTail :: "bool \<Rightarrow> signed_tail \<Rightarrow> file_text option \<Rightarrow> bool \<times> file_text option" where
  "writeSignedTail ok tail rec = (if ok then (True, Some (Some (tail_json tail))) else (False, rec))"

text \<open>
  \<open>signedTailFor\<close>: the contents of the APK when the recorded tail is checked, and before and after the signer
  runs; \<open>cached\<close> is whether it lies in an entry of the build cache. Answers the tail and the record left.
\<close>

definition signedTailFor :: "(bytes \<Rightarrow> string) \<Rightarrow> string \<Rightarrow> bytes option \<Rightarrow> bytes option \<Rightarrow> bytes option \<Rightarrow> bool \<Rightarrow> string option \<Rightarrow> (string \<Rightarrow> string option) \<Rightarrow> bool \<Rightarrow>
    file_text option \<Rightarrow> signed_tail option \<times> file_text option" where
  "signedTailFor sha name apk before after cached signer run ok rec =
     (case recordedSignedTail sha name apk rec of
        Some t \<Rightarrow> (Some t, rec)
      | None \<Rightarrow>
         if \<not> cached then (None, rec)
         else (case computeSignedTail sha name before signer run after of
             None \<Rightarrow> (None, rec)
           | Some t \<Rightarrow> (Some t, snd (writeSignedTail ok t rec))))"

end
