(* ===== verification/Signed_Tail_Properties.thy ===== *)
theory Signed_Tail_Properties
  imports Signed_Tail
begin

text \<open>
  What the search for the signing block and the record of the tail promise: the block of an APK that is
  laid out as the format says is found, whatever is found is such a block inside the file, and a tail
  is answered only for the bytes the file has.
\<close>

section \<open>Slices\<close>

lemma slice_append [simp]: "slice (length a + i) n (a @ b) = slice i n b"
  by (simp add: slice_def)

lemma slice_prefix: "length a = n \<Longrightarrow> slice 0 n (a @ b) = a"
  by (simp add: slice_def)

lemma slice_slice: "i + k \<le> n \<Longrightarrow> slice i k (slice p n f) = slice (p + i) k f"
  by (simp add: slice_def drop_take min_def add.commute)

lemma length_slice: "p + n \<le> length f \<Longrightarrow> length (slice p n f) = n"
  by (simp add: slice_def)

lemma uint_le_append [simp]: "uint_le k (length a + i) (a @ b) = uint_le k i b"
  by (simp add: uint_le_def)

lemma uint_le_bytes: "n < 256 ^ k \<Longrightarrow> uint_le k 0 (le_bytes k n @ b) = n"
  by (simp add: uint_le_def slice_prefix le_value_bytes)

lemma uint_le_slice: "i + k \<le> n \<Longrightarrow> uint_le k i (slice p n f) = uint_le k (p + i) f"
  by (simp add: uint_le_def slice_slice)

lemma read_at_append: "length b = n \<Longrightarrow> read_at (a @ b @ c) (length a) n = Some b"
  by (simp add: read_at_def slice_def)

lemma find_eocd_last: "is_eocd b j \<Longrightarrow> j \<le> n \<Longrightarrow> (\<And>i. j < i \<Longrightarrow> i \<le> n \<Longrightarrow> \<not> is_eocd b i) \<Longrightarrow> find_eocd b n = Some j"
  by (induction n) (auto simp: le_Suc_eq)

lemma find_eocd_Some: "find_eocd b n = Some j \<Longrightarrow> j \<le> n \<and> is_eocd b j"
  by (induction n) (auto split: if_splits)

section \<open>The layout of a signed APK\<close>

definition pair_bytes :: "nat \<times> bytes \<Rightarrow> bytes" where
  "pair_bytes p = le_bytes 8 (4 + length (snd p)) @ le_bytes 4 (fst p) @ snd p"

definition pairs_bytes :: "(nat \<times> bytes) list \<Rightarrow> bytes" where
  "pairs_bytes ps = concat (map pair_bytes ps)"

definition block_bytes :: "(nat \<times> bytes) list \<Rightarrow> bytes" where
  "block_bytes ps = (let n = le_bytes 8 (length (pairs_bytes ps) + 24) in n @ pairs_bytes ps @ n @ SIGNING_BLOCK_MAGIC)"

definition eocd_bytes :: "bytes \<Rightarrow> nat \<Rightarrow> bytes \<Rightarrow> bytes" where
  "eocd_bytes header off comment = le_bytes 4 EOCD_SIGNATURE @ header @ le_bytes 4 off @ le_bytes 2 (length comment) @ comment"

definition apk_bytes :: "bytes \<Rightarrow> (nat \<times> bytes) list \<Rightarrow> bytes \<Rightarrow> bytes \<Rightarrow> bytes \<Rightarrow> bytes" where
  "apk_bytes entries ps directory header comment =
     entries @ block_bytes ps @ directory @ eocd_bytes header (length entries + length (block_bytes ps)) comment"

lemma magic_length [simp]: "length SIGNING_BLOCK_MAGIC = 16"
  by (simp add: SIGNING_BLOCK_MAGIC_def)

lemma block_length: "length (block_bytes ps) = length (pairs_bytes ps) + 32"
  by (simp add: block_bytes_def Let_def)

lemma has_scheme_pairs:
  assumes "list_all (\<lambda>p. fst p < 256 ^ 4) ps" "length (pairs_bytes ps) < 256 ^ 8"
  shows "has_scheme (pre @ pairs_bytes ps) (length pre) \<longleftrightarrow> list_ex (\<lambda>p. fst p \<in> set SIGNATURE_SCHEME_IDS) ps"
  using assms
proof (induction ps arbitrary: pre)
  case Nil
  then show ?case by (simp add: has_scheme.simps [of _ "length pre"] pairs_bytes_def)
next
  case (Cons p ps)
  let ?all = "pre @ pairs_bytes (p # ps)"
  have split: "pairs_bytes (p # ps) = pair_bytes p @ pairs_bytes ps" by (simp add: pairs_bytes_def)
  have len: "length (pair_bytes p) = 12 + length (snd p)" by (simp add: pair_bytes_def)
  have small: "4 + length (snd p) < 256 ^ 8" using Cons.prems(2) by (simp add: split len)
  have u8: "uint_le 8 (length pre) ?all = 4 + length (snd p)"
    using uint_le_append [of 8 pre 0 "pairs_bytes (p # ps)"] uint_le_bytes [OF small] by (simp add: split pair_bytes_def)
  have "?all = (pre @ le_bytes 8 (4 + length (snd p))) @ le_bytes 4 (fst p) @ snd p @ pairs_bytes ps" by (simp add: split pair_bytes_def)
  then have u4: "uint_le 4 (length pre + 8) ?all = fst p"
    using uint_le_append [of 4 "pre @ le_bytes 8 (4 + length (snd p))" 0] uint_le_bytes [of "fst p" 4] Cons.prems(1) by (simp del: append_assoc)
  have IH: "has_scheme ((pre @ pair_bytes p) @ pairs_bytes ps) (length (pre @ pair_bytes p)) \<longleftrightarrow> list_ex (\<lambda>p. fst p \<in> set SIGNATURE_SCHEME_IDS) ps"
    using Cons.prems by (intro Cons.IH) (simp_all add: split)
  have pos: "length (pre @ pair_bytes p) = length pre + 8 + (4 + length (snd p))" by (simp add: len)
  show ?case
    unfolding has_scheme.simps [of ?all "length pre"] u8 u4 Let_def
    using IH by (simp add: split len pos add.assoc)
qed

text \<open>The end record is found in the part of the file that is searched.\<close>

lemma eocd_length: "length header = 12 \<Longrightarrow> length (eocd_bytes header off comment) = 22 + length comment"
  by (simp add: eocd_bytes_def)

lemma eocd_first:
  assumes "length header = 12" "length comment < 256 ^ 2"
  shows "is_eocd (eocd_bytes header off comment) 0" and "off < 256 ^ 4 \<Longrightarrow> uint_le 4 16 (eocd_bytes header off comment) = off"
proof -
  let ?sig = "le_bytes 4 EOCD_SIGNATURE"
  have "EOCD_SIGNATURE < 256 ^ 4" by (simp add: EOCD_SIGNATURE_def)
  then have "uint_le 4 0 (eocd_bytes header off comment) = EOCD_SIGNATURE" unfolding eocd_bytes_def by (rule uint_le_bytes)
  moreover have "uint_le 2 20 (eocd_bytes header off comment) = length comment"
    using uint_le_append [of 2 "?sig @ header @ le_bytes 4 off" 0 "le_bytes 2 (length comment) @ comment"] uint_le_bytes [OF assms(2), of comment] assms(1)
    by (simp add: eocd_bytes_def)
  ultimately show "is_eocd (eocd_bytes header off comment) 0" by (simp add: is_eocd_def EOCD_MIN_BYTES_def eocd_length assms(1))
  show "uint_le 4 16 (eocd_bytes header off comment) = off" if "off < 256 ^ 4"
    using uint_le_append [of 4 "?sig @ header" 0 "le_bytes 4 off @ le_bytes 2 (length comment) @ comment"] uint_le_bytes [OF that, of "le_bytes 2 (length comment) @ comment"] assms(1)
    by (simp add: eocd_bytes_def)
qed

lemma is_eocd_append: "is_eocd (a @ b) (length a + i) \<longleftrightarrow> is_eocd b i"
  using uint_le_append [of 2 a "i + 20" b] by (simp add: is_eocd_def add.assoc)

lemma searched_tail:
  assumes "length e \<le> EOCD_SEARCH_BYTES" "n = min (length (a @ e)) EOCD_SEARCH_BYTES"
  obtains b where "read_at (a @ e) (length (a @ e) - n) n = Some (b @ e)" "length b + length e = n"
proof -
  let ?k = "length (a @ e) - n"
  have k: "?k \<le> length a" "n \<le> length (a @ e)" using assms by auto
  then have "slice ?k n (a @ e) = drop ?k a @ e" by (simp add: slice_def)
  with k that [of "drop ?k a"] show ?thesis by (simp add: read_at_def)
qed

lemma block_found:
  assumes "list_all (\<lambda>p. fst p < 256 ^ 4) ps" "length (block_bytes ps) < 256 ^ 8" "list_ex (\<lambda>p. fst p \<in> set SIGNATURE_SCHEME_IDS) ps"
  shows "block_at (read_at (entries @ block_bytes ps @ rest)) (length entries + length (block_bytes ps)) = Some (Some (length entries))"
proof -
  let ?n = "length (pairs_bytes ps) + 24" and ?f = "entries @ block_bytes ps @ rest"
  let ?size = "le_bytes 8 ?n"
  have n: "?n < 256 ^ 8" using assms(2) by (simp add: block_length)
  have "?f = (entries @ ?size @ pairs_bytes ps) @ (?size @ SIGNING_BLOCK_MAGIC) @ rest" by (simp add: block_bytes_def Let_def)
  then have footer: "read_at ?f (8 + (length entries + length (pairs_bytes ps))) 24 = Some (?size @ SIGNING_BLOCK_MAGIC)"
    using read_at_append [of "?size @ SIGNING_BLOCK_MAGIC" 24 "entries @ ?size @ pairs_bytes ps" rest] by (simp add: add.commute add.left_commute)
  have "?f = entries @ (?size @ pairs_bytes ps) @ ?size @ SIGNING_BLOCK_MAGIC @ rest" by (simp add: block_bytes_def Let_def)
  then have pairs: "read_at ?f (length entries) (8 + length (pairs_bytes ps)) = Some (?size @ pairs_bytes ps)"
    using read_at_append [of "?size @ pairs_bytes ps" "8 + length (pairs_bytes ps)" entries] by simp
  have scheme: "has_scheme (?size @ pairs_bytes ps) 8"
    using has_scheme_pairs [OF assms(1), of ?size] assms(3) n by simp
  have size: "uint_le 8 0 (?size @ x) = ?n" for x by (rule uint_le_bytes [OF n])
  show ?thesis using footer pairs scheme size by (simp add: block_at_def SIGNING_BLOCK_FOOTER_BYTES_def block_length Let_def)
qed

lemma layout_found:
  assumes "list_all (\<lambda>p. fst p < 256 ^ 4) ps" "list_ex (\<lambda>p. fst p \<in> set SIGNATURE_SCHEME_IDS) ps"
    and "length entries + length (block_bytes ps) < 0xffffffff" "length header = 12" "length comment < 256 ^ 2"
    and "\<And>i. 0 < i \<Longrightarrow> i \<le> length comment \<Longrightarrow> \<not> is_eocd (eocd_bytes header (length entries + length (block_bytes ps)) comment) i"
    and "f = apk_bytes entries ps directory header comment"
  shows "signingBlockOffset (length f) (read_at f) = Some (Some (length entries))"
proof -
  let ?off = "length entries + length (block_bytes ps)" and ?a = "entries @ block_bytes ps @ directory"
  let ?e = "eocd_bytes header ?off comment"
  have f: "f = ?a @ ?e" by (simp add: assms(7) apk_bytes_def)
  have e: "length ?e = 22 + length comment" by (rule eocd_length [OF assms(4)])
  then have le: "length ?e \<le> EOCD_SEARCH_BYTES" using assms(5) by (simp add: EOCD_SEARCH_BYTES_def EOCD_MIN_BYTES_def)
  obtain b where b: "read_at f (length f - min (length f) EOCD_SEARCH_BYTES) (min (length f) EOCD_SEARCH_BYTES) = Some (b @ ?e)"
    using searched_tail [OF le refl, of ?a] f by metis
  have "find_eocd (b @ ?e) (length b + length comment) = Some (length b)"
  proof (rule find_eocd_last)
    show "is_eocd (b @ ?e) (length b)" using is_eocd_append [of b ?e 0] eocd_first(1) [OF assms(4,5)] by simp
    fix i assume "length b < i" "i \<le> length b + length comment"
    then show "\<not> is_eocd (b @ ?e) i" using is_eocd_append [of b ?e "i - length b"] assms(6) [of "i - length b"] by simp
  qed simp
  then have found: "find_eocd (b @ ?e) (length (b @ ?e) - EOCD_MIN_BYTES) = Some (length b)" by (simp add: e EOCD_MIN_BYTES_def)
  have off: "uint_le 4 (length b + 16) (b @ ?e) = ?off" using eocd_first(2) [OF assms(4,5), of ?off] assms(3) by simp
  have "block_at (read_at f) ?off = Some (Some (length entries))"
    using block_found [OF assms(1) _ assms(2), of entries "directory @ ?e"] assms(3) by (simp add: f)
  with b found off assms(3) show ?thesis
    by (simp add: signingBlockOffset_def Let_def f e EOCD_MIN_BYTES_def SIGNING_BLOCK_FOOTER_BYTES_def block_length)
qed

text \<open>
  C29. The tail of a signed APK is read: for a file made of entries, a signing block with a v2 or v3
  signature among its pairs, a central directory and an end record that points at the directory, the
  tail starts where the entries end and its digest is that of everything after them, if the comment
  holds no second end record that would fit.
\<close>

theorem signed_apk_tail:
  assumes "list_all (\<lambda>p. fst p < 256 ^ 4) ps" "list_ex (\<lambda>p. fst p \<in> set SIGNATURE_SCHEME_IDS) ps"
    and "length entries + length (block_bytes ps) < 0xffffffff" "length header = 12" "length comment < 256 ^ 2"
    and "\<And>i. 0 < i \<Longrightarrow> i \<le> length comment \<Longrightarrow> \<not> is_eocd (eocd_bytes header (length entries + length (block_bytes ps)) comment) i"
    and "f = apk_bytes entries ps directory header comment"
  shows "readSignedTail sha name (Some f) = Some \<lparr>tl_file = name, tl_size = length f, tl_tailOffset = length entries,
    tl_tailSha256 = sha (block_bytes ps @ directory @ eocd_bytes header (length entries + length (block_bytes ps)) comment)\<rparr>"
proof -
  have "read_at f (length entries) (length f - length entries) =
      Some (block_bytes ps @ directory @ eocd_bytes header (length entries + length (block_bytes ps)) comment)"
    unfolding assms(7) apk_bytes_def by (simp add: read_at_def slice_def)
  then show ?thesis by (simp add: readSignedTail_def layout_found [OF assms])
qed

section \<open>What is found\<close>

lemma has_scheme_pair:
  "has_scheme pairs q \<Longrightarrow> \<exists>p \<ge> q. uint_le 4 (p + 8) pairs \<in> set SIGNATURE_SCHEME_IDS \<and> 4 \<le> uint_le 8 p pairs \<and> p + 8 + uint_le 8 p pairs \<le> length pairs"
proof (induction pairs q rule: has_scheme.induct)
  case (1 pairs q)
  let ?len = "uint_le 8 q pairs"
  have g: "\<not> length pairs < q + 12" "\<not> (?len < 4 \<or> length pairs - q - 8 < ?len)"
    using "1.prems" by (auto simp: has_scheme.simps [of pairs q] Let_def split: if_splits)
  show ?case
  proof (cases "uint_le 4 (q + 8) pairs \<in> set SIGNATURE_SCHEME_IDS")
    case True
    with g show ?thesis by (intro exI [of _ q]) auto
  next
    case False
    then have "has_scheme pairs (q + 8 + ?len)" using "1.prems" g by (simp add: has_scheme.simps [of pairs q] Let_def)
    from "1.IH" [OF g(1) refl g(2) False this] show ?thesis by (meson le_add1 le_trans add.assoc)
  qed
qed

lemma block_at_Some:
  assumes "block_at read d = Some (Some off)"
  obtains footer pairs n where "read (d - 24) 24 = Some footer" "drop 8 footer = SIGNING_BLOCK_MAGIC" "uint_le 8 0 footer = n" "24 \<le> n" "off + n + 8 = d"
    "read off (n - 16) = Some pairs" "uint_le 8 0 pairs = n" "has_scheme pairs 8"
proof (cases "read (d - 24) 24")
  case None
  with assms show thesis by (simp add: block_at_def SIGNING_BLOCK_FOOTER_BYTES_def)
next
  case (Some footer)
  let ?n = "uint_le 8 0 footer"
  have g: "drop 8 footer = SIGNING_BLOCK_MAGIC" "24 \<le> ?n" "?n + 8 \<le> d"
    using assms Some by (auto simp: block_at_def SIGNING_BLOCK_FOOTER_BYTES_def Let_def split: if_splits)
  with assms Some obtain pairs where "read (d - ?n - 8) (?n + 8 - 24) = Some pairs" "uint_le 8 0 pairs = ?n" "has_scheme pairs 8" "off = d - ?n - 8"
    by (cases "read (d - ?n - 8) (?n + 8 - 24)") (auto simp: block_at_def SIGNING_BLOCK_FOOTER_BYTES_def Let_def split: if_splits)
  with that [OF Some g(1) refl g(2)] g(3) show thesis by simp
qed

lemma signingBlockOffset_Some:
  assumes "signingBlockOffset size' read = Some (Some off)"
  obtains d where "block_at read d = Some (Some off)" "32 \<le> d"
proof -
  let ?n = "min size' EOCD_SEARCH_BYTES"
  obtain tail where t: "read (size' - ?n) ?n = Some tail" "\<not> size' < EOCD_MIN_BYTES"
    using assms by (cases "read (size' - ?n) ?n") (auto simp: signingBlockOffset_def Let_def split: if_splits)
  then obtain e where "find_eocd tail (length tail - EOCD_MIN_BYTES) = Some e"
    using assms by (cases "find_eocd tail (length tail - EOCD_MIN_BYTES)") (auto simp: signingBlockOffset_def Let_def)
  with t assms have "block_at read (uint_le 4 (e + 16) tail) = Some (Some off) \<and> 32 \<le> uint_le 4 (e + 16) tail"
    by (auto simp: signingBlockOffset_def SIGNING_BLOCK_FOOTER_BYTES_def Let_def split: if_splits)
  with that show thesis by blast
qed

lemma block_inside:
  assumes "signingBlockOffset (length f) (read_at f) = Some (Some off)"
  shows "off < length f"
proof -
  obtain d where "block_at (read_at f) d = Some (Some off)" "32 \<le> d" by (rule signingBlockOffset_Some [OF assms])
  then obtain footer n where "read_at f (d - 24) 24 = Some footer" "off + n + 8 = d" by (elim block_at_Some)
  with \<open>32 \<le> d\<close> show ?thesis by (auto simp: read_at_def split: if_splits)
qed

text \<open>
  C30. What is found is a signing block inside the file: at the offset answered stands a size, the block of that size
  ends with the same size and the magic text, all of it lies inside the file, and between the sizes
  stands a pair whose id is that of a v2 or v3 signature and which ends before the footer.
\<close>

theorem signing_block_sound:
  assumes "signingBlockOffset (length f) (read_at f) = Some (Some off)" "n = uint_le 8 off f"
  shows "24 \<le> n \<and> off + 8 + n \<le> length f \<and> uint_le 8 (off + n - 16) f = n \<and> slice (off + n - 8) 16 f = SIGNING_BLOCK_MAGIC \<and>
    (\<exists>p \<ge> off + 8. uint_le 4 (p + 8) f \<in> set SIGNATURE_SCHEME_IDS \<and> p + 8 + uint_le 8 p f \<le> off + n - 16)"
proof -
  obtain d where d: "block_at (read_at f) d = Some (Some off)" "32 \<le> d" by (rule signingBlockOffset_Some [OF assms(1)])
  obtain footer pairs m where footer: "read_at f (d - 24) 24 = Some footer" "drop 8 footer = SIGNING_BLOCK_MAGIC" "uint_le 8 0 footer = m"
      and m: "24 \<le> m" "off + m + 8 = d" and pairs: "read_at f off (m - 16) = Some pairs" "uint_le 8 0 pairs = m" "has_scheme pairs 8"
    by (rule block_at_Some [OF d(1)])
  have fs: "footer = slice (d - 24) 24 f" "d \<le> length f" using footer(1) d(2) by (auto simp: read_at_def split: if_splits)
  have ps: "pairs = slice off (m - 16) f" "off + (m - 16) \<le> length f" using pairs(1) by (auto simp: read_at_def split: if_splits)
  have n: "n = m" using pairs(2) uint_le_slice [of 0 8 "m - 16" off f] m(1) ps(1) assms(2) by simp
  have d24: "d - 24 = off + n - 16" "8 + (d - 24) = off + n - 8" "d = off + 8 + n" using m n by auto
  have second: "uint_le 8 (off + n - 16) f = n" using uint_le_slice [of 0 8 24 "d - 24" f] fs(1) d24(1) n footer(3) by simp
  have magic: "slice (off + n - 8) 16 f = SIGNING_BLOCK_MAGIC"
    using footer(2) fs(1) d24(2) by (simp add: slice_def drop_take)
  obtain p where p: "8 \<le> p" "uint_le 4 (p + 8) pairs \<in> set SIGNATURE_SCHEME_IDS" "4 \<le> uint_le 8 p pairs" "p + 8 + uint_le 8 p pairs \<le> length pairs"
    using has_scheme_pair [OF pairs(3)] by blast
  have len: "length pairs = n - 16" using ps length_slice n by simp
  have at_p: "uint_le 8 p pairs = uint_le 8 (off + p) f" "uint_le 4 (p + 8) pairs = uint_le 4 (off + p + 8) f"
    using uint_le_slice [of p 8 "m - 16" off f] uint_le_slice [of "p + 8" 4 "m - 16" off f] p(3,4) len n ps(1) by (simp_all add: add.assoc)
  have "\<exists>q \<ge> off + 8. uint_le 4 (q + 8) f \<in> set SIGNATURE_SCHEME_IDS \<and> q + 8 + uint_le 8 q f \<le> off + n - 16"
    using p at_p len m(1) n by (intro exI [of _ "off + p"]) auto
  with m(1) n fs(2) d24 second magic show ?thesis by simp
qed

section \<open>The record of the tail\<close>

lemma readSignedTail_Some:
  assumes "readSignedTail sha name apk = Some t"
  obtains f where "apk = Some f" "signingBlockOffset (length f) (read_at f) = Some (Some (tl_tailOffset t))" "tl_file t = name" "tl_size t = length f"
    "tl_tailSha256 t = sha (drop (tl_tailOffset t) f)" "tl_tailOffset t \<le> length f"
  using assms that by (auto simp: readSignedTail_def read_at_def slice_def split: option.splits if_splits)

lemma recordedSignedTail_Some:
  assumes "recordedSignedTail sha name apk rec = Some t"
  shows "readSignedTail sha name apk = Some t"
proof -
  from assms obtain current where c: "readSignedTail sha name apk = Some current" "tl_size current = tl_size t" "tl_tailOffset current = tl_tailOffset t"
      "tl_tailSha256 current = tl_tailSha256 t" "tl_file t = name"
    by (auto simp: recordedSignedTail_def split: option.splits json.splits if_splits)
  have "tl_file current = name" using readSignedTail_Some [OF c(1)] by metis
  with c have "current = t" by (intro signed_tail.equality) simp_all
  with c(1) show ?thesis by simp
qed

text \<open>
  C31. A signed tail is answered only for bytes the APK has: the answer's size is the file's, its offset is that of
  the signing block found in it, and its digest is that of everything from there on, for the file as it is when a
  recorded tail is checked, or as it was before \<open>apksigner\<close> reported a v2 or v3 signature
  as verified, with the same size and digest read again after that.
\<close>

theorem signed_tail_current:
  assumes "signedTailFor sha name apk before after cached signer run ok rec = (Some t, rec')"
  shows "tl_file t = name \<and> (\<exists>f. (apk = Some f \<and> rec' = rec \<or>
        before = Some f \<and> cached \<and> (\<exists>path out. signer = Some path \<and> run path = Some out \<and> says_verified out) \<and>
          (\<exists>g. after = Some g \<and> length g = length f \<and>
            (\<exists>off. signingBlockOffset (length g) (read_at g) = Some (Some off) \<and> sha (drop off g) = tl_tailSha256 t))) \<and>
      tl_size t = length f \<and> signingBlockOffset (length f) (read_at f) = Some (Some (tl_tailOffset t)) \<and> tl_tailSha256 t = sha (drop (tl_tailOffset t) f))"
proof (cases "recordedSignedTail sha name apk rec")
  case (Some t')
  with assms have t: "t' = t" "rec' = rec" by (simp_all add: signedTailFor_def)
  from readSignedTail_Some [OF recordedSignedTail_Some [OF Some]] t show ?thesis by metis
next
  case None
  with assms have c: "cached" "computeSignedTail sha name before signer run after = Some t"
    by (auto simp: signedTailFor_def split: if_splits option.splits)
  then obtain path out again where r: "readSignedTail sha name before = Some t" "signer = Some path" "run path = Some out" "says_verified out"
      "readSignedTail sha name after = Some again" "tl_size again = tl_size t" "tl_tailSha256 again = tl_tailSha256 t"
    by (auto simp: computeSignedTail_def split: option.splits list.splits if_splits)
  obtain f where f: "before = Some f" "signingBlockOffset (length f) (read_at f) = Some (Some (tl_tailOffset t))" "tl_file t = name" "tl_size t = length f"
    "tl_tailSha256 t = sha (drop (tl_tailOffset t) f)" using readSignedTail_Some [OF r(1)] by metis
  obtain g where g: "after = Some g" "signingBlockOffset (length g) (read_at g) = Some (Some (tl_tailOffset again))" "tl_size again = length g"
    "tl_tailSha256 again = sha (drop (tl_tailOffset again) g)" using readSignedTail_Some [OF r(5)] by metis
  show ?thesis
    by (intro conjI exI [of _ f] disjI2 f exI [of _ g] g(1) c(1)) (use f g r in auto)
qed

text \<open>
  A written tail is read back exactly while the APK is the one it was taken from: a record just written is answered if the
  file now has that size, signing block and digest, and is no answer for any other file.
\<close>

theorem signed_tail_recorded:
  assumes "readSignedTail sha name (Some f) = Some t" "length f \<le> 9007199254740991" "\<And>b. sha256_hex (sha b)"
    and "writeSignedTail True t rec = (True, rec')"
  shows "recordedSignedTail sha name apk rec' = (if readSignedTail sha name apk = Some t then Some t else None)"
proof -
  have off: "signingBlockOffset (length f) (read_at f) = Some (Some (tl_tailOffset t))" "tl_file t = name" "tl_size t = length f" "sha256_hex (tl_tailSha256 t)"
    using readSignedTail_Some [OF assms(1)] assms(3) by (metis option.inject)+
  have lt: "tl_tailOffset t < tl_size t" using block_inside [OF off(1)] off(3) by simp
  have rec: "rec' = Some (Some (tail_json t))" using assms(4) by (simp add: writeSignedTail_def)
  show ?thesis
  proof (cases "readSignedTail sha name apk")
    case None
    then show ?thesis using recordedSignedTail_Some [of sha name apk rec'] by (cases "recordedSignedTail sha name apk rec'") auto
  next
    case (Some c)
    have "tl_file c = name" using readSignedTail_Some [OF Some] by metis
    then have "c = t \<longleftrightarrow> tl_size c = tl_size t \<and> tl_tailOffset c = tl_tailOffset t \<and> tl_tailSha256 c = tl_tailSha256 t"
      using off(2) by (auto intro: signed_tail.equality)
    with Some off lt assms(2) show ?thesis by (auto simp: recordedSignedTail_def rec tail_json_def jfield_def safe_nat_def)
  qed
qed

section \<open>Examples\<close>

text \<open>The smallest signed APK: one empty v2 signature, no entries and an empty directory.\<close>

definition apk_sample :: bytes where
  "apk_sample = apk_bytes [] [(0x7109871a, [])] [] (replicate 12 0) []"

lemma apk_sample_size: "length apk_sample = 66"
  by (simp add: apk_sample_def apk_bytes_def block_length eocd_length pairs_bytes_def pair_bytes_def)

lemma apk_sample_offset: "signingBlockOffset (length apk_sample) (read_at apk_sample) = Some (Some 0)"
  using layout_found [of "[(0x7109871a, [])]" "[]" "replicate 12 0" "[]" apk_sample "[]"]
  by (simp add: apk_sample_def SIGNATURE_SCHEME_IDS_def block_length pairs_bytes_def pair_bytes_def)

lemma apk_sample_tail: "readSignedTail sha name (Some apk_sample) = Some \<lparr>tl_file = name, tl_size = 66, tl_tailOffset = 0, tl_tailSha256 = sha apk_sample\<rparr>"
  by (simp add: readSignedTail_def apk_sample_offset) (simp add: read_at_def slice_def apk_sample_size)

theorem signed_apk_tail_witness:
  "readSignedTail (\<lambda>b. replicate 64 CHR ''a'') ''app.apk'' (Some apk_sample) =
     Some \<lparr>tl_file = ''app.apk'', tl_size = 66, tl_tailOffset = 0, tl_tailSha256 = replicate 64 CHR ''a''\<rparr>"
  using signed_apk_tail [of "[(0x7109871a, [])]" "[]" "replicate 12 0" "[]" apk_sample "[]" "\<lambda>b. replicate 64 CHR ''a''" "''app.apk''"] apk_sample_size
  by (simp add: apk_sample_def SIGNATURE_SCHEME_IDS_def block_length pairs_bytes_def pair_bytes_def)

theorem signing_block_sound_witness: "slice 28 16 apk_sample = SIGNING_BLOCK_MAGIC \<and> uint_le 8 0 apk_sample = 36"
proof -
  have "uint_le 8 0 apk_sample = 36"
    using uint_le_bytes [of 36 8] by (simp add: apk_sample_def apk_bytes_def block_bytes_def pairs_bytes_def pair_bytes_def Let_def)
  with signing_block_sound [OF apk_sample_offset refl] show ?thesis by simp
qed

theorem signed_tail_current_witness:
  "\<exists>t rec'. signedTailFor (\<lambda>b. replicate 64 CHR ''a'') ''app.apk'' None (Some apk_sample) (Some apk_sample) True (Some ''apksigner'')
       (\<lambda>_. Some ''Verified using v2 scheme (APK Signature Scheme v2): true'') True None = (Some t, rec') \<and> tl_size t = 66"
proof -
  have v: "says_verified ''Verified using v2 scheme (APK Signature Scheme v2): true''" by code_simp
  obtain t rec' where run: "signedTailFor (\<lambda>b. replicate 64 CHR ''a'') ''app.apk'' None (Some apk_sample) (Some apk_sample) True (Some ''apksigner'')
       (\<lambda>_. Some ''Verified using v2 scheme (APK Signature Scheme v2): true'') True None = (Some t, rec')"
    by (simp add: signedTailFor_def recordedSignedTail_def computeSignedTail_def apk_sample_tail v)
  from signed_tail_current [OF run] have "tl_size t = 66" by (auto simp: apk_sample_size)
  with run show ?thesis by blast
qed

theorem signed_tail_recorded_witness:
  "\<exists>t rec'. writeSignedTail True t None = (True, rec') \<and> recordedSignedTail (\<lambda>b. replicate 64 CHR ''a'') ''app.apk'' (Some apk_sample) rec' = Some t \<and>
     recordedSignedTail (\<lambda>b. replicate 64 CHR ''a'') ''app.apk'' (Some []) rec' = None"
proof -
  let ?sha = "\<lambda>b :: bytes. replicate 64 CHR ''a''"
  let ?t = "\<lparr>tl_file = ''app.apk'', tl_size = 66, tl_tailOffset = 0, tl_tailSha256 = replicate 64 CHR ''a''\<rparr>"
  have h: "sha256_hex (?sha b)" for b by (simp add: sha256_hex_def list_all_iff)
  have r: "readSignedTail ?sha ''app.apk'' (Some apk_sample) = Some ?t" by (simp add: apk_sample_tail)
  have n: "readSignedTail ?sha ''app.apk'' (Some []) = None" by (simp add: readSignedTail_def signingBlockOffset_def EOCD_MIN_BYTES_def)
  have w: "writeSignedTail True ?t None = (True, Some (Some (tail_json ?t)))" by (simp add: writeSignedTail_def)
  have l: "length apk_sample \<le> 9007199254740991" by (simp add: apk_sample_size)
  note rec = signed_tail_recorded [OF r l h w]
  show ?thesis using w rec [of "Some apk_sample"] rec [of "Some []"] r n by auto
qed

end
