(* ===== verification/Machines.thy ===== *)
theory Machines
  imports Device_Pool Json_Value
begin

text \<open>
  The names a run is placed by. The placement words (\<open>core/state/placement.ts\<close>), the entries of
  \<open>remote.machines\<close> (\<open>parseMachine\<close>, \<open>core/state/tailnet.ts\<close>), the credentials kept for them
  (\<open>core/state/build-machines.ts\<close>), the automatic pools (\<open>core/state/automatic-pools.ts\<close>) and the
  machine a build is sent to (\<open>stim-cli/src/build-placement.ts\<close>).

  A configuration is what the functions read of it: the value of its field \<open>remote\<close>, \<open>None\<close> when
  there is none. The errors carry the code, the message and the remedy the code throws.
\<close>

section \<open>Placement words\<close>

datatype placement_word = WLocal | WAuto | WRemote | WRemoteOnly

primrec word_text :: "placement_word \<Rightarrow> string" where
  "word_text WLocal = ''local''"
| "word_text WAuto = ''auto''"
| "word_text WRemote = ''remote''"
| "word_text WRemoteOnly = ''remote-only''"

definition PLACEMENT_WORDS :: "placement_word list" where
  "PLACEMENT_WORDS = [WLocal, WAuto, WRemote, WRemoteOnly]"

definition placementWord :: "string \<Rightarrow> placement_word option" where
  "placementWord v = (let word = toLowerCase (trim v) in List.find (\<lambda>each. word_text each = word) PLACEMENT_WORDS)"

definition prefersRemote :: "placement_word \<Rightarrow> bool" where
  "prefersRemote w = (w = WRemote \<or> w = WRemoteOnly)"

definition mayRunHere :: "placement_word \<Rightarrow> bool" where
  "mayRunHere w = (w \<noteq> WRemoteOnly)"

section \<open>Machine entries\<close>

definition DEFAULT_SERVE_PORT :: nat where "DEFAULT_SERVE_PORT = 7443"
definition DEFAULT_SERVER_PORT :: nat where "DEFAULT_SERVER_PORT = 7787"
definition LOCAL_PREFIX :: string where "LOCAL_PREFIX = ''local:''"

text \<open>
  The pattern of an entry. Each alternative of the port is the list of the character classes it
  matches; an alternative with an optional or repeated class is the lists of its lengths. The
  look-ahead refuses a port of zeros only. A name holds no colon, so the first colon ends it.
\<close>

definition digit_in :: "nat \<Rightarrow> nat \<Rightarrow> char \<Rightarrow> bool" where
  "digit_in a b c = (is_digit c \<and> a \<le> digit_val c \<and> digit_val c \<le> b)"

definition PORT_PATTERNS :: "(char \<Rightarrow> bool) list list" where
  "PORT_PATTERNS = (let d = digit_in 0 9 in
     [[d], [d, d], [d, d, d], [d, d, d, d],
      [digit_in 0 5, d], [digit_in 0 5, d, d], [digit_in 0 5, d, d, d], [digit_in 0 5, d, d, d, d],
      [digit_in 6 6, digit_in 0 4, d, d, d],
      [digit_in 6 6, digit_in 5 5, digit_in 0 4, d, d],
      [digit_in 6 6, digit_in 5 5, digit_in 5 5, digit_in 0 2, d],
      [digit_in 6 6, digit_in 5 5, digit_in 5 5, digit_in 3 3, digit_in 0 5]])"

definition port_pattern :: "string \<Rightarrow> bool" where
  "port_pattern p = (\<not> (p \<noteq> [] \<and> list_all (\<lambda>c. c = CHR ''0'') p) \<and>
     list_ex (\<lambda>cs. list_all2 (\<lambda>class c. class c) cs p) PORT_PATTERNS)"

definition name_pattern :: "string \<Rightarrow> bool" where
  "name_pattern s = (case s of [] \<Rightarrow> False
     | c # cs \<Rightarrow> is_alnum c \<and> list_all (\<lambda>c. is_alnum c \<or> c = CHR ''.'' \<or> c = CHR ''-'') cs)"

definition entry_pattern :: "string \<Rightarrow> bool" where
  "entry_pattern s = (case index_of CHR '':'' s of None \<Rightarrow> name_pattern s
     | Some i \<Rightarrow> name_pattern (take i s) \<and> port_pattern (drop (Suc i) s))"

definition starts_with :: "string \<Rightarrow> string \<Rightarrow> bool" where
  "starts_with p s = (take (length p) s = p)"

definition TAILNET_MACHINE_PATTERN :: "string \<Rightarrow> bool" where
  "TAILNET_MACHINE_PATTERN s =
     ((starts_with LOCAL_PREFIX s \<and> entry_pattern (drop (length LOCAL_PREFIX) s)) \<or> entry_pattern s)"

datatype machine_transport = Tailscale | LocalNetwork

record machine_address =
  m_transport :: machine_transport
  m_name :: string
  m_port :: nat

definition parseMachine :: "string \<Rightarrow> machine_address option" where
  "parseMachine entry = (let trimmed = trim entry in
     if \<not> TAILNET_MACHINE_PATTERN trimmed then None
     else let local = starts_with LOCAL_PREFIX trimmed;
              parts = split_at CHR '':'' (if local then drop (length LOCAL_PREFIX) trimmed else trimmed) in
       Some \<lparr>m_transport = (if local then LocalNetwork else Tailscale),
             m_name = toLowerCase (hd parts),
             m_port = (case tl parts of port # _ \<Rightarrow> nat_of_digits port
               | [] \<Rightarrow> if local then DEFAULT_SERVER_PORT else DEFAULT_SERVE_PORT)\<rparr>)"

section \<open>Tailnets and credentials\<close>

record tailnet_identity =
  tn_name :: string
  tn_suffix :: "string option"
  tn_id :: "string option"

text \<open>A field that is a string and not empty.\<close>

definition nonempty_field :: "string \<Rightarrow> json \<Rightarrow> string option" where
  "nonempty_field k v = (case jstr_field k v of Some s \<Rightarrow> if s = [] then None else Some s | None \<Rightarrow> None)"

definition parseTailnetIdentity :: "json \<Rightarrow> tailnet_identity option" where
  "parseTailnetIdentity v = (case nonempty_field ''name'' v of None \<Rightarrow> None
     | Some name \<Rightarrow> Some \<lparr>tn_name = name, tn_suffix = map_option toLowerCase (nonempty_field ''suffix'' v),
         tn_id = nonempty_field ''id'' v\<rparr>)"

definition currentTailnet :: "json \<Rightarrow> tailnet_identity option" where
  "currentTailnet status = (case jfield ''CurrentTailnet'' status of None \<Rightarrow> None
     | Some current \<Rightarrow> if \<not> is_obj current then None
       else let put = (\<lambda>k n. case jfield n current of Some v \<Rightarrow> [(k, v)] | None \<Rightarrow> []) in
         parseTailnetIdentity (JObj (put ''name'' ''Name'' @ put ''suffix'' ''MagicDNSSuffix'' @ put ''id'' ''StableID'')))"

text \<open>Both have an id, else both a suffix, else the names; no identity has an empty id or suffix.\<close>

definition sameTailnet :: "tailnet_identity \<Rightarrow> tailnet_identity \<Rightarrow> bool" where
  "sameTailnet a b = (case (tn_id a, tn_id b) of (Some i, Some j) \<Rightarrow> i = j
     | _ \<Rightarrow> (case (tn_suffix a, tn_suffix b) of (Some s, Some t) \<Rightarrow> s = t | _ \<Rightarrow> tn_name a = tn_name b))"

record wrong_tailnet =
  wt_recorded :: tailnet_identity
  wt_current :: tailnet_identity
  wt_owner :: "string option"

definition wrongTailnet :: "string option \<Rightarrow> tailnet_identity option \<Rightarrow> json \<Rightarrow> wrong_tailnet option" where
  "wrongTailnet address tailnet status = (case (tailnet, currentTailnet status) of
     (Some recorded, Some current) \<Rightarrow> if sameTailnet recorded current then None
       else let owner = (case address of Some a \<Rightarrow> toLowerCase (join ''.'' (tl (split_at CHR ''.'' a))) | None \<Rightarrow> []) in
         Some \<lparr>wt_recorded = recorded, wt_current = current,
           wt_owner = (case tn_suffix recorded of
             Some s \<Rightarrow> if owner \<noteq> [] \<and> owner \<noteq> s then Some owner else None | None \<Rightarrow> None)\<rparr>
   | _ \<Rightarrow> None)"

datatype credential_state = Pending | Approved

record machine_credential =
  mc_machine :: string
  mc_transport :: machine_transport
  mc_address :: string
  mc_state :: credential_state
  mc_requestedAt :: string
  mc_serverKey :: "string option"
  mc_deviceId :: "string option"
  mc_ticket :: "string option"
  mc_expiresAt :: "string option"
  mc_tailnet :: "tailnet_identity option"

definition MACHINE_CREDENTIALS_VERSION :: int where "MACHINE_CREDENTIALS_VERSION = 2"

definition is_key :: "string \<Rightarrow> bool" where
  "is_key s = (length s = 43 \<and> list_all is_slot_char s)"

definition key_field_ok :: "string \<Rightarrow> json \<Rightarrow> bool" where
  "key_field_ok k v = (case jfield k v of None \<Rightarrow> True | Some (JStr s) \<Rightarrow> is_key s | Some _ \<Rightarrow> False)"

definition transport_field :: "json \<Rightarrow> machine_transport option" where
  "transport_field v = (case jfield ''transport'' v of
     Some (JStr s) \<Rightarrow> if s = ''tailscale'' then Some Tailscale else if s = ''local'' then Some LocalNetwork else None
   | _ \<Rightarrow> None)"

definition state_field :: "json \<Rightarrow> credential_state option" where
  "state_field v = (case jfield ''state'' v of
     Some (JStr s) \<Rightarrow> if s = ''pending'' then Some Pending else if s = ''approved'' then Some Approved else None
   | _ \<Rightarrow> None)"

definition parseMachineCredential :: "json \<Rightarrow> machine_credential option" where
  "parseMachineCredential v =
     (case (nonempty_field ''machine'' v, nonempty_field ''address'' v, nonempty_field ''requestedAt'' v, transport_field v, state_field v) of
        (Some machine, Some address, Some requestedAt, Some transport, Some state) \<Rightarrow>
          if map_option m_transport (parseMachine machine) \<noteq> Some transport then None
          else if \<not> key_field_ok ''serverKey'' v \<or> \<not> key_field_ok ''ticket'' v then None
          else if state = Approved \<and> (jfield ''serverKey'' v = None \<or> nonempty_field ''deviceId'' v = None) then None
          else if state = Pending \<and> jfield ''ticket'' v = None then None
          else Some \<lparr>mc_machine = machine, mc_transport = transport, mc_address = address, mc_state = state,
            mc_requestedAt = requestedAt, mc_serverKey = nonempty_field ''serverKey'' v, mc_deviceId = nonempty_field ''deviceId'' v,
            mc_ticket = nonempty_field ''ticket'' v, mc_expiresAt = nonempty_field ''expiresAt'' v,
            mc_tailnet = (if transport = Tailscale then Option.bind (jfield ''tailnet'' v) parseTailnetIdentity else None)\<rparr>
      | _ \<Rightarrow> None)"

text \<open>\<open>file\<close> is the text of the credentials file, \<open>None\<close> when it is missing or is not JSON.\<close>

definition readBuildMachines :: "file_text \<Rightarrow> machine_credential list" where
  "readBuildMachines file = (case file of None \<Rightarrow> []
     | Some store \<Rightarrow> (case (jfield ''version'' store, jfield ''machines'' store) of
         (Some (JNum n), Some (JArr entries)) \<Rightarrow>
           if n \<noteq> MACHINE_CREDENTIALS_VERSION then [] else List.map_filter parseMachineCredential entries
       | _ \<Rightarrow> []))"

section \<open>Automatic pools\<close>

datatype place_error =
    BadArg string
  | OffloadRefused string string
  | HostingRefused string "string option"
  | PlaceFull string string
  | PlaceAborted
  | PlaceFailed string

datatype pool_role = BuildRole | DeviceRole

primrec role_text :: "pool_role \<Rightarrow> string" where
  "role_text BuildRole = ''build''"
| "role_text DeviceRole = ''device''"

definition remote_field :: "string \<Rightarrow> json option \<Rightarrow> json option" where
  "remote_field k remote = Option.bind remote (jfield k)"

text \<open>\<open>None\<close>: the entry is not a name. A machine is in the list when it is one of its names.\<close>

definition pool_names :: "json list \<Rightarrow> string list option" where
  "pool_names entries = those (map (\<lambda>e. case e of JStr s \<Rightarrow> if trim s = [] then None else Some s | _ \<Rightarrow> None) entries)"

definition automaticMachineEnabled :: "pool_role \<Rightarrow> string \<Rightarrow> json option \<Rightarrow> place_error + bool" where
  "automaticMachineEnabled role machine remote =
     (let key = role_text role @ ''PoolDisabled'';
          bad = Inl (BadArg (''remote.'' @ key @ '' must be a list of machine names or local.'')) in
      case remote_field key remote of None \<Rightarrow> Inr True
      | Some (JArr disabled) \<Rightarrow> (case pool_names disabled of None \<Rightarrow> bad | Some names \<Rightarrow> Inr (machine \<notin> set names))
      | Some _ \<Rightarrow> bad)"

definition requireAutomaticMachine :: "pool_role \<Rightarrow> string \<Rightarrow> json option \<Rightarrow> place_error + unit" where
  "requireAutomaticMachine role machine remote = and_then (automaticMachineEnabled role machine remote) (\<lambda>enabled.
     if enabled then Inr ()
     else let message = machine @ '' is disabled in this requester's automatic '' @ role_text role @ '' pool.'';
              remedy = ''Enable it in remote.'' @ role_text role @ ''PoolDisabled or select a machine explicitly.'' in
       Inl (case role of BuildRole \<Rightarrow> OffloadRefused message remedy | DeviceRole \<Rightarrow> HostingRefused message (Some remedy)))"

text \<open>\<open>list.some(test)\<close> and \<open>list.filter(test)\<close> with a test that may throw.\<close>

fun some_ok :: "('a \<Rightarrow> 'e + bool) \<Rightarrow> 'a list \<Rightarrow> 'e + bool" where
  "some_ok p [] = Inr False"
| "some_ok p (x # xs) = and_then (p x) (\<lambda>b. if b then Inr True else some_ok p xs)"

fun filter_ok :: "('a \<Rightarrow> 'e + bool) \<Rightarrow> 'a list \<Rightarrow> 'e + 'a list" where
  "filter_ok p [] = Inr []"
| "filter_ok p (x # xs) = and_then (p x) (\<lambda>b. and_then (filter_ok p xs) (\<lambda>ys. Inr (if b then x # ys else ys)))"

definition approved_machine :: "machine_credential list \<Rightarrow> string \<Rightarrow> bool" where
  "approved_machine creds machine = list_ex (\<lambda>c. mc_machine c = machine \<and> mc_state c = Approved) creds"

definition validateAutomaticPool ::
    "pool_role \<Rightarrow> json option \<Rightarrow> machine_credential list \<Rightarrow> (string \<Rightarrow> bool) \<Rightarrow> place_error + unit" where
  "validateAutomaticPool role remote approved canHost =
     and_then (automaticMachineEnabled role ''local'' remote) (\<lambda>here.
       if here then Inr ()
       else and_then
         (case remote_field ''machines'' remote of
            Some (JArr configured) \<Rightarrow> some_ok (\<lambda>entry. case entry of
                JStr machine \<Rightarrow> and_then (automaticMachineEnabled role machine remote) (\<lambda>enabled.
                  Inr (enabled \<and> (role = BuildRole \<or> canHost machine) \<and> approved_machine approved machine))
              | _ \<Rightarrow> Inr False) configured
          | _ \<Rightarrow> Inr False)
         (\<lambda>found. if found then Inr ()
            else Inl (BadArg (''Keep at least one enabled automatic '' @ role_text role @
              '' pool member: local or a configured, approved remote machine.''))))"

section \<open>The machine a build is sent to\<close>

definition resolveBuildMachine :: "string option \<Rightarrow> string option \<Rightarrow> json option \<Rightarrow> place_error + string" where
  "resolveBuildMachine flag env setting =
     (let from_env = (case env of Some e \<Rightarrow> if trim e = [] then None else Some (trim e) | None \<Rightarrow> None);
          selected = (case flag of Some f \<Rightarrow> JStr f
            | None \<Rightarrow> (case from_env of Some e \<Rightarrow> JStr e
              | None \<Rightarrow> (case setting of None \<Rightarrow> JStr ''auto'' | Some JNull \<Rightarrow> JStr ''auto'' | Some v \<Rightarrow> v)));
          bad = Inl (BadArg ''--remote-build / remote.build must be local, auto, remote, remote-only, or a tailnet machine name.'') in
      case selected of
        JStr s \<Rightarrow> if trim s = [] \<or> parseMachine s = None then bad
          else Inr (case placementWord s of Some w \<Rightarrow> word_text w | None \<Rightarrow> trim s)
      | _ \<Rightarrow> bad)"

definition automaticBuild :: "string \<Rightarrow> bool" where
  "automaticBuild selected = (case placementWord selected of None \<Rightarrow> False | Some w \<Rightarrow> w \<noteq> WLocal)"

definition namedBuildMachine :: "string \<Rightarrow> bool" where
  "namedBuildMachine selected = (placementWord selected = None)"

definition OFFLOAD_REMEDY :: string where
  "OFFLOAD_REMEDY = ''Run stim doctor --fix to ask for build access if not paired; it prints the stim setup command a person runs on the worker to approve this machine. Check stim settings get remote.machines, or rerun with --remote-build auto, remote or local.''"

definition OffloadRefusal :: "string \<Rightarrow> string \<Rightarrow> place_error" where
  "OffloadRefusal machine reason =
     OffloadRefused (if starts_with (machine @ '': '') reason then reason else machine @ '': '' @ reason) OFFLOAD_REMEDY"

definition requireLocalBuild :: "string \<Rightarrow> string option \<Rightarrow> json option \<Rightarrow> place_error + unit" where
  "requireLocalBuild selected reason remote =
     (let word = placementWord selected;
          lead = (case reason of Some r \<Rightarrow> if r = [] then [] else r @ ''; '' | None \<Rightarrow> []) in
      if word = Some WRemoteOnly then Inl (OffloadRefusal selected (lead @ ''remote-only never builds on this machine''))
      else if word = Some WAuto \<or> word = Some WRemote
      then and_then (automaticMachineEnabled BuildRole ''local'' remote) (\<lambda>enabled. if enabled then Inr ()
        else Inl (OffloadRefusal selected (lead @ ''local is disabled in remote.buildPoolDisabled; enable it or select a machine explicitly'')))
      else Inr ())"

text \<open>
  The comparison reads the parts of the selected machine, so with an entry to compare it throws
  when the selection does not parse. What \<open>resolveBuildMachine\<close> returns parses.
\<close>

definition requireConfiguredMachine :: "string \<Rightarrow> json option \<Rightarrow> place_error + string" where
  "requireConfiguredMachine selected machines =
     (if \<not> namedBuildMachine selected then Inr selected
      else let parsed = parseMachine selected;
               entries = (case machines of Some (JArr vs) \<Rightarrow> List.map_filter jstring vs | _ \<Rightarrow> []) in
        if parsed = None \<and> entries \<noteq> [] then Inl (PlaceFailed ''Cannot read properties of null (reading 'transport')'')
        else (case List.find (\<lambda>entry. parseMachine entry = parsed) entries of
          Some entry \<Rightarrow> Inr entry
        | None \<Rightarrow> Inl (OffloadRefusal selected (''not listed in remote.machines (configured: '' @
            (if join '', '' entries = [] then ''none'' else join '', '' entries) @ '')''))))"

datatype setting_source = FromFlag | FromEnv | FromSetting | FromDefault

definition settingSource :: "string option \<Rightarrow> string option \<Rightarrow> json option \<Rightarrow> setting_source" where
  "settingSource flag env setting = (if flag \<noteq> None then FromFlag
     else if (case env of Some e \<Rightarrow> trim e \<noteq> [] | None \<Rightarrow> False) then FromEnv
     else if setting \<noteq> None then FromSetting else FromDefault)"

text \<open>\<open>flag\<close> is the one \<open>resolveBuildPlacement\<close> kept in the state of the operation.\<close>

definition buildPlacementSettings ::
    "string option \<Rightarrow> string option \<Rightarrow> json option \<Rightarrow> string \<Rightarrow> (string \<times> string \<times> setting_source) list" where
  "buildPlacementSettings flag env remote selected =
     [(''remote.build'', selected, settingSource flag env (remote_field ''build'' remote))]"

definition PLACEMENT_REMEDY :: string where
  "PLACEMENT_REMEDY = ''Pass --remote-build local, auto, remote, remote-only, or an entry from stim settings get remote.machines.''"

fun error_code :: "place_error \<Rightarrow> string" where
  "error_code (BadArg _) = ''STIM_BAD_ARG''"
| "error_code (OffloadRefused _ _) = ''STIM_OFFLOAD_REFUSED''"
| "error_code (HostingRefused _ _) = ''STIM_HOSTING_REFUSED''"
| "error_code (PlaceFull _ _) = ''STIM_AT_CAPACITY''"
| "error_code _ = []"

fun error_message :: "place_error \<Rightarrow> string" where
  "error_message (BadArg m) = m"
| "error_message (OffloadRefused m _) = m"
| "error_message (HostingRefused m _) = m"
| "error_message (PlaceFull m _) = m"
| "error_message (PlaceFailed m) = m"
| "error_message PlaceAborted = []"

record placement_failure =
  pf_code :: string
  pf_message :: string
  pf_remedy :: string

record build_placement =
  bp_selected :: string
  bp_failure :: "placement_failure option"
  bp_flag :: "string option"

definition failure_of :: "place_error \<Rightarrow> placement_failure" where
  "failure_of e = \<lparr>pf_code = error_code e, pf_message = error_message e,
     pf_remedy = (case e of OffloadRefused _ r \<Rightarrow> r | _ \<Rightarrow> PLACEMENT_REMEDY)\<rparr>"

text \<open>
  \<open>selected\<close> keeps the last value the function assigned before the failure: \<open>auto\<close>, the resolved
  name or the matching entry. \<open>bp_flag\<close> is the flag it keeps in the state of the operation.
\<close>

definition resolveBuildPlacement ::
    "string option \<Rightarrow> string option \<Rightarrow> json option \<Rightarrow> file_text \<Rightarrow> build_placement" where
  "resolveBuildPlacement flag env remote credentials =
     (case resolveBuildMachine flag env (remote_field ''build'' remote) of
        Inl e \<Rightarrow> \<lparr>bp_selected = ''auto'', bp_failure = Some (failure_of e), bp_flag = flag\<rparr>
      | Inr resolved \<Rightarrow>
         (case requireConfiguredMachine resolved (remote_field ''machines'' remote) of
            Inl e \<Rightarrow> \<lparr>bp_selected = resolved, bp_failure = Some (failure_of e), bp_flag = flag\<rparr>
          | Inr selected \<Rightarrow>
             if namedBuildMachine selected \<and> \<not> approved_machine (readBuildMachines credentials) selected
             then \<lparr>bp_selected = selected, bp_failure = Some (failure_of (OffloadRefusal selected ''no remote machine is paired'')), bp_flag = flag\<rparr>
             else \<lparr>bp_selected = selected, bp_failure = None, bp_flag = flag\<rparr>))"

end
