(* ===== verification/Machine_Properties.thy ===== *)
theory Machine_Properties
  imports Machines
begin

text \<open>
  Machine entries and build machines. The pattern of an entry admits exactly the ports from 1 to
  65535, an entry written from its parts is read back, and a build that is sent to a named machine
  is sent to a configured one this machine holds an approved key for.
\<close>

section \<open>Ports\<close>

lemma digit_zero: "is_digit c \<Longrightarrow> digit_val c = 0 \<Longrightarrow> c = CHR ''0''"
proof -
  assume "is_digit c" "digit_val c = 0"
  then have "(of_char c :: nat) = of_char CHR ''0''" by (simp add: is_digit_def digit_val_def)
  then show ?thesis by (simp only: of_char_eq_iff)
qed

lemma digit_inD: "digit_in a b c \<Longrightarrow> is_digit c \<and> a \<le> digit_val c \<and> digit_val c \<le> b"
  by (simp add: digit_in_def)

lemmas port_pattern_unfold = port_pattern_def PORT_PATTERNS_def Let_def list_all2_Cons1

lemma port_pattern_bounds:
  assumes "port_pattern p"
  shows "1 \<le> nat_of_digits p \<and> nat_of_digits p \<le> 65535"
proof -
  have "nat_of_digits p \<le> 65535" "list_all is_digit p" "p \<noteq> []"
    using assms by (auto simp: port_pattern_unfold nat_of_digits_def digit_in_def)
  moreover have "nat_of_digits p \<noteq> 0"
    using assms by (auto simp: port_pattern_unfold nat_of_digits_def digit_in_def dest: digit_zero)
  ultimately show ?thesis by simp
qed

lemma zeros_value: "list_all (\<lambda>c. c = CHR ''0'') p \<Longrightarrow> nat_of_digits p = 0"
  unfolding nat_of_digits_def by (induction p) (simp_all add: digit_val_def)

lemma digit_in_char: "d < 10 \<Longrightarrow> digit_in a b (digit_char d) \<longleftrightarrow> a \<le> d \<and> d \<le> b"
  by (simp add: digit_in_def is_digit_digit_char digit_val_digit_char)

lemma port_of_digits:
  assumes "a < 10" "b < 10" "c < 10" "d < 10" "e < 10" "a * 10000 + b * 1000 + c * 100 + d * 10 + e \<le> (65535::nat)"
  shows "list_ex (\<lambda>cs. list_all2 (\<lambda>class c. class c) cs (map digit_char [a, b, c, d, e])) PORT_PATTERNS"
proof -
  have "a \<le> 5 \<or> (a = 6 \<and> (b \<le> 4 \<or> (b = 5 \<and> (c \<le> 4 \<or> (c = 5 \<and> (d \<le> 2 \<or> (d = 3 \<and> e \<le> 5)))))))"
    using assms by linarith
  then show ?thesis using assms by (auto simp: PORT_PATTERNS_def Let_def digit_in_char)
qed

lemma next_digit: "n div (k * 10) * 10 + n div k mod 10 = n div (k :: nat)"
  by (simp add: div_mult2_eq)

lemma any_digit: "digit_in 0 9 c \<longleftrightarrow> is_digit c"
  by (auto simp: digit_in_def digit_val_def is_digit_def)

lemma few_copies: "replicate 2 x = [x, x]" "replicate 3 x = [x, x, x]" "replicate 4 x = [x, x, x, x]"
  by (simp_all add: numeral_eq_Suc)

lemma short_port:
  assumes "list_all is_digit p" "p \<noteq> []" "length p \<le> 4"
  shows "list_ex (\<lambda>cs. list_all2 (\<lambda>class c. class c) cs p) PORT_PATTERNS"
proof -
  have "length p \<noteq> 0" using assms(2) by simp
  with assms(3) have "length p = 1 \<or> length p = 2 \<or> length p = 3 \<or> length p = 4" by linarith
  then have "replicate (length p) (digit_in 0 9) \<in> set PORT_PATTERNS"
    by (elim disjE) (simp_all add: PORT_PATTERNS_def Let_def few_copies)
  moreover have "list_all2 (\<lambda>class c. class c) (replicate (length p) (digit_in 0 9)) p"
    using assms(1) by (simp add: list_all2_conv_all_nth list_all_length any_digit)
  ultimately show ?thesis by (auto simp: list_ex_iff)
qed

lemma length_string_of_nat: "n < 10 ^ Suc k \<Longrightarrow> length (string_of_nat n) \<le> Suc k"
proof (induction k arbitrary: n)
  case 0
  then show ?case by (simp add: string_of_nat.simps)
next
  case (Suc k)
  then have "n div 10 < 10 ^ Suc k" by (simp add: div_less_iff_less_mult)
  with Suc.IH [of "n div 10"] show ?case by (subst string_of_nat.simps) simp
qed

lemma port_pattern_number:
  assumes "1 \<le> n" "n \<le> 65535"
  shows "port_pattern (string_of_nat n)"
proof -
  have "nat_of_digits (string_of_nat n) \<noteq> 0" using assms by simp
  then have z: "\<not> list_all (\<lambda>c. c = CHR ''0'') (string_of_nat n)" by (rule contrapos_nn) (rule zeros_value)
  have "list_ex (\<lambda>cs. list_all2 (\<lambda>class c. class c) cs (string_of_nat n)) PORT_PATTERNS"
  proof (cases "n < 10000")
    case True
    then show ?thesis using length_string_of_nat [of n 3] string_of_nat_digits [of n]
      by (intro short_port) (simp_all add: list_all_iff)
  next
    case False
    let ?ds = "[n div 10000, n div 1000 mod 10, n div 100 mod 10, n div 10 mod 10, n mod 10]"
    have "string_of_nat n = map digit_char ?ds"
      using False assms by (simp add: string_of_nat.simps div_mult2_eq [symmetric]) arith
    moreover have "n div 10000 * 10000 + n div 1000 mod 10 * 1000 + n div 100 mod 10 * 100 + n div 10 mod 10 * 10 + n mod 10 = n"
      using div_mult_mod_eq [of n 10] next_digit [of n 10, simplified] next_digit [of n 100, simplified] next_digit [of n 1000, simplified]
      by linarith
    ultimately show ?thesis
      using port_of_digits [of "n div 10000" "n div 1000 mod 10" "n div 100 mod 10" "n div 10 mod 10" "n mod 10"] assms by simp
  qed
  with z show ?thesis by (simp add: port_pattern_def)
qed

section \<open>Entries\<close>

lemma alnum_plain: "is_alnum c \<Longrightarrow> \<not> is_space c \<and> c \<noteq> CHR '':''"
  by (auto simp: is_alnum_def is_space_def Let_def)

lemma digit_plain: "is_digit c \<Longrightarrow> \<not> is_space c \<and> c \<noteq> CHR '':''"
  by (auto simp: is_digit_def is_space_def Let_def)

lemma name_plain:
  assumes "name_pattern s"
  shows "s \<noteq> []" "\<forall>c \<in> set s. \<not> is_space c \<and> c \<noteq> CHR '':''"
proof -
  obtain c cs where s: "s = c # cs" "is_alnum c" "\<forall>c \<in> set cs. is_alnum c \<or> c = CHR ''.'' \<or> c = CHR ''-''"
    using assms by (auto simp: name_pattern_def list_all_iff split: list.splits)
  show "s \<noteq> []" using s by simp
  have "\<not> is_space CHR ''.''" "\<not> is_space CHR ''-''" by (simp_all add: is_space_def)
  then show "\<forall>c \<in> set s. \<not> is_space c \<and> c \<noteq> CHR '':''" using s alnum_plain by auto
qed

lemma trim_plain: "\<forall>c \<in> set s. \<not> is_space c \<Longrightarrow> trim s = s"
proof -
  have d: "dropWhile is_space t = t" if "\<forall>c \<in> set t. \<not> is_space c" for t using that by (cases t) simp_all
  assume "\<forall>c \<in> set s. \<not> is_space c"
  then show ?thesis using d [of s] d [of "rev s"] by (simp add: trim_def)
qed

lemma index_of_append: "d \<notin> set s \<Longrightarrow> index_of d (s @ d # t) = Some (length s)"
  by (induction s) auto

lemma index_of_absent: "d \<notin> set s \<Longrightarrow> index_of d s = None"
  by (induction s) auto

definition entry_text :: "machine_transport \<Rightarrow> string \<Rightarrow> nat option \<Rightarrow> string" where
  "entry_text t name port = (if t = LocalNetwork then LOCAL_PREFIX else []) @ name @
     (case port of None \<Rightarrow> [] | Some p \<Rightarrow> '':'' @ string_of_nat p)"

lemma entry_pattern_text:
  assumes "name_pattern name" "\<forall>p. port = Some p \<longrightarrow> 1 \<le> p \<and> p \<le> 65535"
  shows "entry_pattern (entry_text Tailscale name port)"
proof -
  have "CHR '':'' \<notin> set name" using name_plain [OF assms(1)] by blast
  with assms show ?thesis
    by (auto simp: entry_pattern_def entry_text_def index_of_append index_of_absent port_pattern_number split: option.splits)
qed

lemma takeWhile_local: "takeWhile (\<lambda>c. c \<noteq> CHR '':'') (LOCAL_PREFIX @ t) = ''local''"
  by (simp add: LOCAL_PREFIX_def)

lemma starts_local:
  assumes "name_pattern name" "starts_with LOCAL_PREFIX (entry_text Tailscale name port)"
  shows "name = ''local''"
proof -
  let ?until = "takeWhile (\<lambda>c. c \<noteq> CHR '':'')" and ?s = "entry_text Tailscale name port"
  have "\<forall>c \<in> set name. c \<noteq> CHR '':''" using name_plain [OF assms(1)] by blast
  then have "?until ?s = name" by (simp add: entry_text_def takeWhile_append2 split: option.split)
  moreover have "?s = LOCAL_PREFIX @ drop (length LOCAL_PREFIX) ?s"
    using assms(2) unfolding starts_with_def by (metis append_take_drop_id)
  then have "?until ?s = ''local''" by (metis takeWhile_local)
  ultimately show ?thesis by simp
qed

lemma entry_text_plain:
  assumes "name_pattern name"
  shows "trim (entry_text t name port) = entry_text t name port"
proof (rule trim_plain)
  have "\<forall>c \<in> set LOCAL_PREFIX. \<not> is_space c" "\<not> is_space CHR '':''" by (simp_all add: LOCAL_PREFIX_def is_space_def)
  moreover have "\<forall>c \<in> set (string_of_nat p). \<not> is_space c" for p using string_of_nat_digits digit_plain by blast
  ultimately show "\<forall>c \<in> set (entry_text t name port). \<not> is_space c"
    using name_plain(2) [OF assms] by (auto simp: entry_text_def split: option.splits)
qed

lemma local_entry: "entry_text LocalNetwork name port = LOCAL_PREFIX @ entry_text Tailscale name port"
  by (simp add: entry_text_def)

lemma split_entry:
  assumes "name_pattern name"
  shows "split_at CHR '':'' (entry_text Tailscale name port) = name # (case port of None \<Rightarrow> [] | Some p \<Rightarrow> [string_of_nat p])"
proof -
  have "CHR '':'' \<notin> set name" using name_plain [OF assms] by blast
  moreover have "CHR '':'' \<notin> set (string_of_nat p)" for p using string_of_nat_digits digit_plain by blast
  ultimately show ?thesis by (simp add: entry_text_def split_at_none split_at_one split: option.split)
qed

text \<open>
  An entry of \<open>remote.machines\<close> written from its parts is read back: the transport, the name in
  lower case, and the port, or the default port of the transport when there is none. A tailnet
  machine named \<open>local\<close> is the one exception, since its name followed by a port starts like a
  machine of the local network.
\<close>

theorem machine_entry_round_trip:
  assumes "name_pattern name" "\<forall>p. port = Some p \<longrightarrow> 1 \<le> p \<and> p \<le> 65535" "t = LocalNetwork \<or> name \<noteq> ''local''"
  shows "parseMachine (entry_text t name port) = Some \<lparr>m_transport = t, m_name = toLowerCase name,
    m_port = (case port of Some p \<Rightarrow> p | None \<Rightarrow> if t = LocalNetwork then DEFAULT_SERVER_PORT else DEFAULT_SERVE_PORT)\<rparr>"
proof -
  note entry = entry_text_plain [OF assms(1)] entry_pattern_text [OF assms(1,2)] split_entry [OF assms(1)]
  show ?thesis
  proof (cases t)
    case Tailscale
    then have "\<not> starts_with LOCAL_PREFIX (entry_text t name port)" using starts_local [OF assms(1)] assms(3) by auto
    with Tailscale entry show ?thesis
      by (simp add: parseMachine_def TAILNET_MACHINE_PATTERN_def Let_def split: option.split)
  next
    case LocalNetwork
    then have "starts_with LOCAL_PREFIX (entry_text t name port)" "drop (length LOCAL_PREFIX) (entry_text t name port) = entry_text Tailscale name port"
      by (simp_all add: local_entry starts_with_def)
    with LocalNetwork entry show ?thesis
      by (simp add: parseMachine_def TAILNET_MACHINE_PATTERN_def Let_def split: option.split)
  qed
qed

theorem machine_entry_round_trip_witness:
  "parseMachine (entry_text Tailscale ''Mac-Mini'' (Some 65535)) =
     Some \<lparr>m_transport = Tailscale, m_name = toLowerCase ''Mac-Mini'', m_port = 65535\<rparr>"
proof -
  have "name_pattern ''Mac-Mini''" by (simp add: name_pattern_def is_alnum_def)
  then show ?thesis using machine_entry_round_trip [of "''Mac-Mini''" "Some 65535" Tailscale] by simp
qed

lemma port_plain: "port_pattern p \<Longrightarrow> list_all is_digit p \<and> p \<noteq> []"
  by (auto simp: port_pattern_unfold digit_in_def)

lemma index_of_Some: "index_of d s = Some n \<Longrightarrow> s = take n s @ d # drop (Suc n) s \<and> d \<notin> set (take n s)"
  by (induction s arbitrary: n) (auto split: if_splits)

lemma entry_parts:
  assumes "entry_pattern s"
  shows "\<exists>name ports. split_at CHR '':'' s = name # ports \<and> name \<noteq> [] \<and> (ports = [] \<or> (\<exists>p. ports = [p] \<and> port_pattern p))"
proof (cases "index_of CHR '':'' s")
  case None
  then have "name_pattern s" using assms by (simp add: entry_pattern_def)
  then show ?thesis using name_plain [of s] split_at_none [of "CHR '':''" s] by auto
next
  case (Some i)
  have nm: "name_pattern (take i s)" and pp: "port_pattern (drop (Suc i) s)"
    using assms Some by (simp_all add: entry_pattern_def)
  have "CHR '':'' \<notin> set (drop (Suc i) s)" using port_plain [OF pp] digit_plain by (auto simp: list_all_iff)
  then have "split_at CHR '':'' s = [take i s, drop (Suc i) s]"
    using index_of_Some [OF Some] split_at_one split_at_none by metis
  with nm pp show ?thesis using name_plain(1) by blast
qed

lemma local_port_alone:
  assumes "entry_pattern s" "starts_with LOCAL_PREFIX s"
  shows "\<exists>name. split_at CHR '':'' (drop (length LOCAL_PREFIX) s) = [name] \<and> name \<noteq> []"
proof -
  obtain t where s: "s = LOCAL_PREFIX @ t" using assms(2) unfolding starts_with_def by (metis append_take_drop_id)
  then have "port_pattern t" using assms(1) by (simp add: entry_pattern_def LOCAL_PREFIX_def)
  then have "CHR '':'' \<notin> set t" "t \<noteq> []" using port_plain digit_plain by (auto simp: list_all_iff)
  with s show ?thesis by (simp add: split_at_none)
qed

text \<open>
  Every entry that is read names a machine: the name is not empty and the port, written or
  default, is between 1 and 65535.
\<close>

theorem machine_port_bounds:
  assumes "parseMachine entry = Some m"
  shows "m_name m \<noteq> [] \<and> 1 \<le> m_port m \<and> m_port m \<le> 65535"
proof -
  let ?s = "trim entry"
  let ?t = "if starts_with LOCAL_PREFIX ?s then drop (length LOCAL_PREFIX) ?s else ?s"
  have "entry_pattern ?t \<or> (starts_with LOCAL_PREFIX ?s \<and> entry_pattern ?s)"
    using assms by (auto simp: parseMachine_def TAILNET_MACHINE_PATTERN_def Let_def split: if_splits)
  then obtain name ports where parts: "split_at CHR '':'' ?t = name # ports" "name \<noteq> []"
      "ports = [] \<or> (\<exists>p. ports = [p] \<and> port_pattern p)"
    using entry_parts [of ?t] local_port_alone [of ?s] by fastforce
  then show ?thesis using assms port_pattern_bounds
    by (auto simp: parseMachine_def Let_def toLowerCase_def DEFAULT_SERVER_PORT_def DEFAULT_SERVE_PORT_def split: if_splits)
qed

theorem machine_port_bounds_witness:
  "\<exists>m. parseMachine '' local:mini:07787 '' = Some m \<and> m_name m \<noteq> [] \<and> 1 \<le> m_port m \<and> m_port m \<le> 65535"
proof -
  have "parseMachine '' local:mini:07787 '' = Some \<lparr>m_transport = LocalNetwork, m_name = ''mini'', m_port = 7787\<rparr>" by code_simp
  then show ?thesis using machine_port_bounds by blast
qed

section \<open>The machine of a build\<close>

lemma jstring_Some: "jstring v = Some s \<longleftrightarrow> v = JStr s"
  by (cases v) simp_all

lemma requireConfiguredMachine_Inr:
  assumes "requireConfiguredMachine selected machines = Inr m" "namedBuildMachine selected"
  shows "\<exists>entries. machines = Some (JArr entries) \<and> JStr m \<in> set entries \<and> parseMachine m = parseMachine selected"
proof -
  let ?es = "case machines of Some (JArr vs) \<Rightarrow> List.map_filter jstring vs | _ \<Rightarrow> []"
  have "List.find (\<lambda>entry. parseMachine entry = parseMachine selected) ?es = Some m"
    using assms by (auto simp: requireConfiguredMachine_def Let_def split: if_splits option.splits)
  then have m: "m \<in> set ?es" "parseMachine m = parseMachine selected" using find_SomeD by fast+
  then obtain vs where "machines = Some (JArr vs)" by (auto split: option.splits json.splits)
  with m show ?thesis by (auto simp: map_filter_set jstring_Some)
qed

lemma key_field_some:
  assumes "key_field_ok k v" "jfield k v \<noteq> None"
  shows "\<exists>s. nonempty_field k v = Some s \<and> is_key s"
proof -
  obtain y where y: "jfield k v = Some y" using assms(2) by blast
  with assms(1) obtain s where "y = JStr s" "is_key s" by (cases y) (simp_all add: key_field_ok_def)
  with y show ?thesis by (auto simp: nonempty_field_def jstr_field_def is_key_def)
qed

lemma approved_credential:
  assumes "parseMachineCredential v = Some c" "mc_state c = Approved"
  shows "\<exists>key. mc_serverKey c = Some key \<and> is_key key" "mc_deviceId c \<noteq> None"
    "map_option m_transport (parseMachine (mc_machine c)) = Some (mc_transport c)"
  using assms key_field_some [of "''serverKey''" v]
  by (auto simp: parseMachineCredential_def split: option.splits if_splits)

lemma readBuildMachines_parsed: "c \<in> set (readBuildMachines file) \<Longrightarrow> \<exists>v. parseMachineCredential v = Some c"
  by (auto simp: readBuildMachines_def map_filter_set split: option.splits json.splits if_splits)

text \<open>
  C24. A build whose placement resolves without a failure stays with a placement word, or goes to a
  machine that is an entry of \<open>remote.machines\<close> and that this machine keeps an approved
  credential for, with the pinned key of that machine, a device id and the transport the entry
  names.
\<close>

theorem build_machine_approved:
  assumes "bp_failure (resolveBuildPlacement flag env remote credentials) = None"
    "m = bp_selected (resolveBuildPlacement flag env remote credentials)" "placementWord m = None"
  shows "\<exists>entries c key. remote_field ''machines'' remote = Some (JArr entries) \<and> JStr m \<in> set entries \<and>
    c \<in> set (readBuildMachines credentials) \<and> mc_machine c = m \<and> mc_state c = Approved \<and>
    mc_serverKey c = Some key \<and> is_key key \<and> mc_deviceId c \<noteq> None \<and>
    map_option m_transport (parseMachine m) = Some (mc_transport c)"
proof -
  obtain resolved where r: "requireConfiguredMachine resolved (remote_field ''machines'' remote) = Inr m"
    and ok: "approved_machine (readBuildMachines credentials) m"
    using assms by (auto simp: resolveBuildPlacement_def namedBuildMachine_def split: sum.splits if_splits)
  have "namedBuildMachine resolved"
    using r assms(3) by (auto simp: requireConfiguredMachine_def namedBuildMachine_def split: if_splits)
  with r obtain entries where e: "remote_field ''machines'' remote = Some (JArr entries)" "JStr m \<in> set entries"
    using requireConfiguredMachine_Inr by blast
  obtain c where c: "c \<in> set (readBuildMachines credentials)" "mc_machine c = m" "mc_state c = Approved"
    using ok by (auto simp: approved_machine_def list_ex_iff)
  then obtain v where "parseMachineCredential v = Some c" using readBuildMachines_parsed by blast
  from approved_credential [OF this c(3)] e c show ?thesis by metis
qed

definition sample_credentials :: file_text where
  "sample_credentials = Some (JObj [(''version'', JNum 2), (''machines'', JArr [JObj
     [(''machine'', JStr ''mini''), (''transport'', JStr ''tailscale''), (''address'', JStr ''mini.tail.ts.net''),
      (''state'', JStr ''approved''), (''requestedAt'', JStr ''2026-01-01T00:00:00.000Z''),
      (''serverKey'', JStr (replicate 43 CHR ''A'')), (''deviceId'', JStr ''d1'')]])])"

lemma sample_resolved:
  "resolveBuildPlacement (Some ''mini:7443'') None (Some (JObj [(''machines'', JArr [JStr ''mini''])])) sample_credentials =
     \<lparr>bp_selected = ''mini'', bp_failure = None, bp_flag = Some ''mini:7443''\<rparr>"
  by code_simp

theorem build_machine_approved_witness:
  "\<exists>c key. c \<in> set (readBuildMachines sample_credentials) \<and> mc_machine c = ''mini'' \<and> mc_serverKey c = Some key \<and> is_key key"
proof -
  have "placementWord ''mini'' = None" by code_simp
  then show ?thesis
    using build_machine_approved [of "Some ''mini:7443''" None "Some (JObj [(''machines'', JArr [JStr ''mini''])])" sample_credentials "''mini''"]
    unfolding sample_resolved by auto
qed

end
