(* ===== verification/Placement.thy ===== *)
theory Placement
  imports Machines Js_Number
begin

text \<open>
  Where a run puts its device: \<open>decideDevicePlacement\<close> (\<open>stim-cli/src/device-host/placement.ts\<close>) and
  \<open>automaticDevicePlacement\<close> (\<open>stim-cli/src/device-host/auto-placement.ts\<close>), with its wait for a
  machine that is full. A load is a double; the printed ceilings lie between a millionth and
  \<open>2 ^ 53\<close>, where JavaScript writes a number without an exponent.

  The dependencies of \<open>automaticDevicePlacement\<close> are its arguments in the code too. Each is the
  answer it gives: once for those it calls once (\<open>placement_world\<close>), per round for the probes and
  the clock of the wait (\<open>placement_round\<close>). In particular \<open>w_machines\<close> is what \<open>machines()\<close> answers (in the
  command, \<open>hostingMachines\<close> of \<open>device-host/machines.ts\<close>, which reads \<open>remote.machines\<close> and asks the
  tailnet; it is not modelled) and \<open>r_probe\<close> what \<open>probeHost\<close> answers. The device choice of an offer and the connected
  target are type parameters: the decision never looks inside them.
\<close>

section \<open>Printing and comparing loads\<close>

definition double_eq :: "double \<Rightarrow> double \<Rightarrow> bool" where
  "double_eq x y = (fst x * 2 ^ snd y = fst y * 2 ^ snd x)"

text \<open>A number in a template: the fewest decimals that read back as the number.\<close>

definition decimals_back :: "double \<Rightarrow> nat \<Rightarrow> bool" where
  "decimals_back x p = double_eq (double_div (round_even (fst x * 10 ^ p) (2 ^ snd x)) (10 ^ p)) x"

definition pad_zeros :: "nat \<Rightarrow> string \<Rightarrow> string" where
  "pad_zeros n s = replicate (n - length s) CHR ''0'' @ s"

definition number_text :: "double \<Rightarrow> string" where
  "number_text x = (case List.find (decimals_back x) [0..<24] of None \<Rightarrow> []
     | Some p \<Rightarrow> let n = round_even (fst x * 10 ^ p) (2 ^ snd x) in
         if p = 0 then string_of_int n
         else string_of_int (n div 10 ^ p) @ ''.'' @ pad_zeros p (string_of_int (n mod 10 ^ p)))"

section \<open>Offers and decisions\<close>

datatype run_platform = RunIos | RunAndroid | RunMacos

primrec run_platform_text :: "run_platform \<Rightarrow> string" where
  "run_platform_text RunIos = ''ios''"
| "run_platform_text RunAndroid = ''android''"
| "run_platform_text RunMacos = ''macos''"

record placement_here =
  localEnabled :: "bool option"
  h_loadPerCore :: double
  h_maxLoadPerCore :: double
  h_memoryPressure :: "string option"
  dev_count :: "int option"
  dev_max :: int
  dev_queued :: int
  dev_limit :: "string option"
  budgetRefusal :: "string option"

record 'c placement_offer =
  o_platform :: run_platform
  o_choice :: "'c option"
  o_declined :: "string option"
  o_available :: "int option"
  o_loadPerCore :: "double option"
  o_maxLoadPerCore :: "double option"
  o_memoryFreeBytes :: int
  o_memoryPressure :: "string option"

datatype 'c placement_probe = ProbeOffer string "'c placement_offer" | ProbeFailure string string

primrec probe_machine :: "'c placement_probe \<Rightarrow> string" where
  "probe_machine (ProbeOffer m _) = m"
| "probe_machine (ProbeFailure m _) = m"

record placement_skip =
  skip_machine :: string
  skip_code :: string
  skip_reason :: string

datatype eas_check = EasUsable | EasUnusable string string

datatype placement_kind =
    OnLocal bool
  | OnHost "(string \<times> string) list"
  | OnEas
  | Refused bool bool

record placement_decision =
  pd_kind :: placement_kind
  pd_code :: string
  pd_reason :: string
  pd_skipped :: "placement_skip list"

record 'c placement_inputs =
  pi_platform :: run_platform
  pi_placement :: placement_word
  pi_here :: placement_here
  pi_offers :: "'c placement_probe list"
  pi_buildMachine :: "string option"
  pi_noWait :: bool
  pi_eas :: "eas_check option"

datatype sticky = StickyMachine string | StickyLocal

definition decide_sticky :: "sticky \<Rightarrow> placement_decision" where
  "decide_sticky s = (case s of
     StickyMachine machine \<Rightarrow> let reason = ''recorded session on '' @ machine in
       \<lparr>pd_kind = OnHost [(machine, reason)], pd_code = ''sticky'', pd_reason = reason, pd_skipped = []\<rparr>
   | StickyLocal \<Rightarrow>
       \<lparr>pd_kind = OnLocal False, pd_code = ''sticky'', pd_reason = ''this workspace's device runs here'', pd_skipped = []\<rparr>)"

section \<open>The state of this machine\<close>

definition has_room :: "placement_here \<Rightarrow> bool" where
  "has_room h = (dev_max h = 0 \<or> (case dev_count h of Some n \<Rightarrow> n < dev_max h | None \<Rightarrow> False))"

definition local_enabled :: "placement_word \<Rightarrow> placement_here \<Rightarrow> bool" where
  "local_enabled w h = (localEnabled h \<noteq> Some False \<and> mayRunHere w)"

definition cannot_take :: "placement_word \<Rightarrow> placement_here \<Rightarrow> bool" where
  "cannot_take w h = (\<not> local_enabled w h \<or> \<not> has_room h \<or> 0 < dev_queued h)"

definition at_capacity :: "placement_here \<Rightarrow> bool" where
  "at_capacity h = (dev_count h \<noteq> None \<and> (\<not> has_room h \<or> 0 < dev_queued h))"

definition usage_text :: "placement_here \<Rightarrow> string" where
  "usage_text h = (let count = (case dev_count h of Some n \<Rightarrow> string_of_int n | None \<Rightarrow> ''null'') in
     if 0 < dev_max h
     then count @ '' of '' @ string_of_int (dev_max h) @ '' devices in use'' @
       (case dev_limit h of Some l \<Rightarrow> if l = [] then [] else '' ('' @ l @ '')'' | None \<Rightarrow> [])
     else count @ '' devices in use, no device cap'')"

definition local_reason :: "placement_word \<Rightarrow> placement_here \<Rightarrow> string" where
  "local_reason w h =
     (if \<not> mayRunHere w then ''remote-only never runs here''
      else if \<not> local_enabled w h then ''local is disabled in remote.devicePoolDisabled''
      else if dev_count h = None then ''cannot tell how many devices run here; local boot admission decides''
      else if cannot_take w h
      then usage_text h @ (if dev_queued h \<noteq> 0 then '', '' @ string_of_int (dev_queued h) @ '' runs queued ahead'' else [])
      else (case budgetRefusal h of Some b \<Rightarrow> b
        | None \<Rightarrow> if h_memoryPressure h \<noteq> Some ''normal''
            then ''host memory pressure '' @ (case h_memoryPressure h of Some p \<Rightarrow> p | None \<Rightarrow> ''unknown'') @ '' here''
            else ''load '' @ to_fixed1 (h_loadPerCore h) @ ''/core here, '' @ usage_text h))"

definition local_decision :: "string \<Rightarrow> string \<Rightarrow> placement_skip list \<Rightarrow> bool \<Rightarrow> placement_decision" where
  "local_decision code reason skipped atCapacity =
     \<lparr>pd_kind = OnLocal atCapacity, pd_code = code, pd_reason = reason, pd_skipped = skipped\<rparr>"

definition refused_decision :: "string \<Rightarrow> placement_skip list \<Rightarrow> bool \<Rightarrow> bool \<Rightarrow> placement_decision" where
  "refused_decision reason skipped atCapacity hostsFull =
     \<lparr>pd_kind = Refused atCapacity hostsFull, pd_code = ''pool-unavailable'', pd_reason = reason, pd_skipped = skipped\<rparr>"

definition nowhere ::
    "'c placement_inputs \<Rightarrow> bool \<Rightarrow> string \<Rightarrow> string \<Rightarrow> placement_skip list \<Rightarrow> string \<Rightarrow> placement_decision" where
  "nowhere i hostsFull code reason skipped waiting =
     (let w = pi_placement i; h = pi_here i in
      if \<not> mayRunHere w then refused_decision reason skipped False hostsFull
      else if \<not> local_enabled w h \<and> \<not> at_capacity h then refused_decision reason skipped False False
      else if \<not> cannot_take w h \<or> dev_count h = None then local_decision code (reason @ waiting) skipped False
      else if pi_eas i = Some EasUsable
      then \<lparr>pd_kind = OnEas, pd_code = ''eas-fallback'', pd_reason = reason @ ''; EAS Simulator (remote.easFallback)'', pd_skipped = skipped\<rparr>
      else let why = (case pi_eas i of
                 Some (EasUnusable c r) \<Rightarrow> skipped @ [\<lparr>skip_machine = ''eas'', skip_code = c, skip_reason = r\<rparr>] | _ \<Rightarrow> skipped) in
        if local_enabled w h then local_decision code (reason @ waiting) why True
        else refused_decision reason why True False)"

section \<open>The offers\<close>

definition ceiling_of :: "'c placement_inputs \<Rightarrow> 'c placement_offer \<Rightarrow> double" where
  "ceiling_of i offer = (case o_maxLoadPerCore offer of Some c \<Rightarrow> c | None \<Rightarrow> h_maxLoadPerCore (pi_here i))"

definition host_saturated :: "'c placement_inputs \<Rightarrow> 'c placement_offer \<Rightarrow> bool" where
  "host_saturated i offer = (case o_loadPerCore offer of Some l \<Rightarrow> \<not> double_less l (ceiling_of i offer) | None \<Rightarrow> False)"

text \<open>Why an offer is not admitted, with its code; \<open>None\<close> when it is.\<close>

definition judge_offer :: "'c placement_inputs \<Rightarrow> 'c placement_offer \<Rightarrow> (string \<times> string) option" where
  "judge_offer i offer =
     (if o_declined offer \<noteq> None then Some (''declined'', ''declined: '' @ the (o_declined offer))
      else if o_platform offer \<noteq> pi_platform i \<or> o_choice offer = None
      then Some (''no-matching-device'', ''no matching '' @ run_platform_text (pi_platform i) @ '' device choice'')
      else if o_memoryPressure offer \<noteq> Some ''normal''
      then Some (''memory'', case o_memoryPressure offer of None \<Rightarrow> ''host memory pressure could not be read''
        | Some p \<Rightarrow> ''host memory pressure is '' @ p)
      else if o_available offer = Some 0 then Some (''no-capacity'', ''no hosted device capacity available'')
      else if host_saturated i offer
      then Some (''load'', ''saturated: load '' @ to_fixed1 (the (o_loadPerCore offer)) @ ''/core there, at or above '' @
        number_text (ceiling_of i offer) @ ''/core'')
      else if pi_placement i = WAuto \<and> \<not> cannot_take (pi_placement i) (pi_here i) \<and> o_loadPerCore offer = None
      then Some (''load'', ''host load unknown while this machine has room'')
      else None)"

definition judge :: "'c placement_inputs \<Rightarrow> 'c placement_probe \<Rightarrow> (string \<times> string) option" where
  "judge i probe = (case probe of ProbeFailure _ failure \<Rightarrow> Some (''unreachable'', failure) | ProbeOffer _ offer \<Rightarrow> judge_offer i offer)"

text \<open>An empty reason is no reason to the code: such a probe is neither admitted nor listed.\<close>

definition skip_of :: "'c placement_inputs \<Rightarrow> 'c placement_probe \<Rightarrow> placement_skip option" where
  "skip_of i probe = (case judge i probe of
     Some (code, reason) \<Rightarrow> if reason = [] then None
       else Some \<lparr>skip_machine = probe_machine probe, skip_code = code, skip_reason = reason\<rparr>
   | None \<Rightarrow> None)"

definition full_skip :: "'c placement_inputs \<Rightarrow> 'c placement_probe \<Rightarrow> bool" where
  "full_skip i probe = (case (skip_of i probe, probe) of
     (Some s, ProbeOffer _ offer) \<Rightarrow> skip_code s \<in> {''no-capacity'', ''load'', ''memory''} \<or>
       (skip_code s = ''declined'' \<and> (o_available offer = Some 0 \<or> o_memoryPressure offer \<noteq> Some ''normal''))
   | _ \<Rightarrow> False)"

definition admitted_of :: "'c placement_inputs \<Rightarrow> nat \<times> 'c placement_probe \<Rightarrow> (string \<times> 'c placement_offer \<times> nat) option" where
  "admitted_of i p = (case p of (index, probe) \<Rightarrow> (case probe of
       ProbeOffer machine offer \<Rightarrow> if judge_offer i offer = None then Some (machine, offer, index) else None
     | ProbeFailure _ _ \<Rightarrow> None))"

definition named_first :: "string option \<Rightarrow> string \<times> 'c placement_offer \<times> nat \<Rightarrow> string \<times> 'c placement_offer \<times> nat \<Rightarrow> int" where
  "named_first bm a b =
     (let d = of_bool (Some (fst b) = bm) - of_bool (Some (fst a) = bm) in
      if d \<noteq> 0 then d else int (snd (snd a)) - int (snd (snd b)))"

definition admitted_hosts :: "'c placement_inputs \<Rightarrow> (string \<times> 'c placement_offer \<times> nat) list" where
  "admitted_hosts i = js_sort (named_first (pi_buildMachine i)) (List.map_filter (admitted_of i) (enumerate 0 (pi_offers i)))"

definition host_reason :: "'c placement_inputs \<Rightarrow> string \<Rightarrow> 'c placement_offer \<Rightarrow> string" where
  "host_reason i machine offer =
     (let w = pi_placement i; h = pi_here i in
      (if prefersRemote w \<and> \<not> cannot_take w h then word_text w @ '' tries remote machines first'' else local_reason w h) @ ''; '' @
      machine @ (if Some machine = pi_buildMachine i then '' is the explicit remote machine,'' else []) @ '' load '' @
      (case o_loadPerCore offer of None \<Rightarrow> ''unknown'' | Some l \<Rightarrow> to_fixed1 l @ ''/core''))"

definition decideDevicePlacement :: "'c placement_inputs \<Rightarrow> placement_decision" where
  "decideDevicePlacement i =
     (let w = pi_placement i; h = pi_here i in
      if pi_offers i = [] then nowhere i False ''no-remote-mac'' (''no remote machines configured; '' @ local_reason w h) [] []
      else if local_enabled w h \<and> dev_count h = None \<and> \<not> prefersRemote w
      then local_decision ''device-count-unknown'' (local_reason w h) [] False
      else if \<not> prefersRemote w \<and> \<not> cannot_take w h \<and> h_memoryPressure h = Some ''normal'' \<and>
              (budgetRefusal h = None \<or> budgetRefusal h = Some []) \<and> double_less (h_loadPerCore h) (h_maxLoadPerCore h)
      then local_decision ''this-mac-free'' (local_reason w h) [] False
      else let skipped = List.map_filter (skip_of i) (pi_offers i);
               hostsFull = list_ex (full_skip i) (pi_offers i);
               machines = map (\<lambda>(machine, offer, _). (machine, host_reason i machine offer)) (admitted_hosts i) in
        (case machines of
           [] \<Rightarrow> nowhere i hostsFull ''no-host-admits'' (local_reason w h @ ''; no host admits'') skipped
             (if local_enabled w h \<and> cannot_take w h \<and> \<not> pi_noWait i then ''; waiting locally if needed'' else [])
         | first # _ \<Rightarrow> \<lparr>pd_kind = OnHost machines, pd_code = ''placed'', pd_reason = snd first, pd_skipped = skipped\<rparr>))"

section \<open>The automatic placement of a run\<close>

definition HOST_WAIT_POLL_MS :: int where "HOST_WAIT_POLL_MS = 5000"
definition REMOTE_ONLY_WAIT_MS :: int where "REMOTE_ONLY_WAIT_MS = 600000"

text \<open>\<open>Math.round(ms / 1000)\<close> of whole milliseconds.\<close>

definition whole_seconds :: "int \<Rightarrow> string" where
  "whole_seconds ms = string_of_int ((ms + 500) div 1000)"

definition skip_line :: "placement_skip \<Rightarrow> string" where
  "skip_line s = skip_machine s @ '': '' @ skip_reason s"

definition refusalText :: "placement_decision \<Rightarrow> int option \<Rightarrow> string" where
  "refusalText d waitedMs = join ''; '' ([pd_reason d] @ map skip_line (pd_skipped d) @
     (case waitedMs of None \<Rightarrow> [] | Some ms \<Rightarrow> [''waited '' @ whole_seconds ms @ ''s for a remote machine with room'']))"

record placement_args =
  pa_slot :: string
  pa_platform :: run_platform
  pa_placement :: placement_word
  pa_buildMachine :: "string option"
  pa_noWait :: bool
  pa_waitMs :: int

record recorded_host =
  rh_machine :: string
  rh_reason :: "string option"

record device_peek =
  pk_count :: "int option"
  pk_max :: int
  pk_queued :: int
  pk_limit :: "string option"
  pk_localLive :: bool

record 't placement_world =
  w_read :: "place_error + recorded_host option"
  w_resume :: "place_error + 't option"
  w_write :: "place_error + unit"
  w_peek :: "place_error + device_peek"
  w_machines :: "place_error + string list option"
  w_remote :: "json option"
  w_env :: "string option"
  w_loadPerCore :: double
  w_maxLoadPerCore :: double
  w_memory :: "place_error + string option"
  w_budget :: "place_error + string option"
  w_aborts_listing :: bool
  w_aborts_measuring :: bool
  w_started :: int
  w_eas :: "(place_error + eas_check) option"

text \<open>
  A round: what each machine answers to the probe (a probe throws only when the run is aborted),
  the clock read after the decision, and whether the run is aborted in the sleep.
\<close>

record ('c, 't) placement_round =
  r_probe :: "string \<Rightarrow> ('c placement_probe \<times> 't option) option"
  r_now :: int
  r_aborts :: bool

datatype placement_event = RecordCleared | WaitLine string | Slept int

datatype placed_at = HostedOn string | LocalHere | ViaEas

record 't placed =
  pl_at :: placed_at
  pl_target :: "'t option"
  pl_selection :: "string option"
  pl_reason :: string
  pl_code :: string
  pl_skipped :: "placement_skip list"
  pl_sticky :: bool

definition hosted_result :: "'t option \<Rightarrow> string \<Rightarrow> string \<Rightarrow> string \<Rightarrow> placement_skip list \<Rightarrow> 't placed" where
  "hosted_result target machine code reason skipped =
     \<lparr>pl_at = HostedOn machine, pl_target = target, pl_selection = (if target = None then None else Some reason),
      pl_reason = reason, pl_code = code, pl_skipped = skipped, pl_sticky = False\<rparr>"

definition local_result :: "string \<Rightarrow> string \<Rightarrow> placement_skip list \<Rightarrow> 't placed" where
  "local_result code reason skipped = \<lparr>pl_at = LocalHere, pl_target = None, pl_selection = None,
     pl_reason = reason, pl_code = code, pl_skipped = skipped, pl_sticky = False\<rparr>"

definition viaEas :: "string \<Rightarrow> string \<Rightarrow> placement_skip list \<Rightarrow> 't placed" where
  "viaEas code reason skipped = \<lparr>pl_at = ViaEas, pl_target = None, pl_selection = None,
     pl_reason = reason, pl_code = code, pl_skipped = skipped, pl_sticky = False\<rparr>"

definition inputs_of ::
    "placement_args \<Rightarrow> string option \<Rightarrow> placement_here \<Rightarrow> 'c placement_probe list \<Rightarrow> eas_check option \<Rightarrow> 'c placement_inputs" where
  "inputs_of a bm h offers eas = \<lparr>pi_platform = pa_platform a, pi_placement = pa_placement a, pi_here = h,
     pi_offers = offers, pi_buildMachine = bm, pi_noWait = pa_noWait a, pi_eas = eas\<rparr>"

definition not_probed :: "string list \<Rightarrow> 'c placement_probe list" where
  "not_probed entries = map (\<lambda>m. ProbeFailure m ''not probed'') entries"

definition stays_local :: "placement_decision \<Rightarrow> bool" where
  "stays_local d = ((case pd_kind d of OnLocal _ \<Rightarrow> True | _ \<Rightarrow> False) \<and> pd_skipped d = [])"

definition hosts_full :: "placement_decision \<Rightarrow> bool" where
  "hosts_full d = (case pd_kind d of Refused _ full \<Rightarrow> full | _ \<Rightarrow> False)"

definition round_probes ::
    "placement_args \<Rightarrow> string option \<Rightarrow> placement_here \<Rightarrow> string list \<Rightarrow> ('c, 't) placement_round \<Rightarrow> ('c placement_probe \<times> 't option) list option" where
  "round_probes a bm h entries r =
     (if stays_local (decideDevicePlacement (inputs_of a bm h (not_probed entries :: 'c placement_probe list) None)) then Some []
      else those (map (r_probe r) entries))"

definition offers_of :: "string list \<Rightarrow> ('c placement_probe \<times> 't option) list \<Rightarrow> 'c placement_probe list" where
  "offers_of entries probes = (if probes = [] then not_probed entries else map fst probes)"

definition FULL_REMEDY :: "run_platform \<Rightarrow> string" where
  "FULL_REMEDY p = ''Wait for a remote machine in remote.machines to have room, '' @
     (if p = RunMacos then ''retry later'' else ''retry with a longer --wait <seconds>'') @ '', or select a placement that may run here.''"

definition wait_line :: "placement_args \<Rightarrow> placement_decision \<Rightarrow> string" where
  "wait_line a d = ''remote-only waits up to '' @ whole_seconds (pa_waitMs a) @ ''s for a remote machine with room ('' @
     join ''; '' (map skip_line (pd_skipped d)) @ '')''"

text \<open>The rounds of the wait. \<open>None\<close>: it is still waiting after the given rounds.\<close>

fun place_rounds ::
    "placement_args \<Rightarrow> string option \<Rightarrow> placement_here \<Rightarrow> string list \<Rightarrow> int \<Rightarrow> bool \<Rightarrow> ('c, 't) placement_round list \<Rightarrow>
     (placement_event list \<times> (place_error + placement_decision \<times> ('c placement_probe \<times> 't option) list)) option" where
  "place_rounds a bm h entries started announced [] = None"
| "place_rounds a bm h entries started announced (r # rs) =
     (case round_probes a bm h entries r of
        None \<Rightarrow> Some ([], Inl PlaceAborted)
      | Some probes \<Rightarrow>
         let d = decideDevicePlacement (inputs_of a bm h (offers_of entries probes) None);
             waited = r_now r - started;
             immediate = pa_noWait a \<or> pa_waitMs a \<le> 0 in
         if \<not> hosts_full d then Some ([], Inr (d, probes))
         else if immediate \<or> pa_waitMs a \<le> waited
         then Some ([], Inl (PlaceFull (refusalText d (if immediate then None else Some waited)) (FULL_REMEDY (pa_platform a))))
         else let events = (if announced then [] else [WaitLine (wait_line a d)]) @ [Slept (min HOST_WAIT_POLL_MS (pa_waitMs a - waited))] in
           if r_aborts r then Some (events, Inl PlaceAborted)
           else map_option (\<lambda>(es, result). (events @ es, result)) (place_rounds a bm h entries started True rs))"

definition REFUSED_REMEDY :: "placement_word \<Rightarrow> string list \<Rightarrow> string" where
  "REFUSED_REMEDY w entries =
     (if w = WRemoteOnly
      then (if entries = []
        then ''Add an approved Mac to remote.machines (stim guide settings), or select a placement that may run here.''
        else ''Wait for a remote machine in remote.machines to have room, check stim doctor for the ones that are unreachable or unapproved, or select a placement that may run here.'')
      else ''Enable an available member in remote.devicePoolDisabled or select a machine explicitly.'')"

definition asks_eas :: "placement_args \<Rightarrow> placement_decision \<Rightarrow> bool" where
  "asks_eas a d = ((case pd_kind d of OnLocal full \<Rightarrow> full | Refused full _ \<Rightarrow> full | _ \<Rightarrow> False) \<and> pa_placement a \<noteq> WRemoteOnly)"

definition final_decision ::
    "placement_args \<Rightarrow> string option \<Rightarrow> placement_here \<Rightarrow> string list \<Rightarrow> (place_error + eas_check) option \<Rightarrow>
     placement_decision \<Rightarrow> ('c placement_probe \<times> 't option) list \<Rightarrow> place_error + placement_decision" where
  "final_decision a bm h entries eas d probes = (case eas of
     Some ask \<Rightarrow> if asks_eas a d
       then and_then ask (\<lambda>check. Inr (decideDevicePlacement (inputs_of a bm h (offers_of entries probes) (Some check))))
       else Inr d
   | None \<Rightarrow> Inr d)"

definition place_result ::
    "placement_args \<Rightarrow> string list \<Rightarrow> ('c placement_probe \<times> 't option) list \<Rightarrow> placement_decision \<Rightarrow> place_error + 't placed" where
  "place_result a entries probes d = (case pd_kind d of
     Refused _ _ \<Rightarrow> Inl (HostingRefused (refusalText d None) (Some (REFUSED_REMEDY (pa_placement a) entries)))
   | OnEas \<Rightarrow> Inr (viaEas (pd_code d) (pd_reason d) (pd_skipped d))
   | OnLocal _ \<Rightarrow> Inr (local_result (pd_code d) (pd_reason d) (pd_skipped d))
   | OnHost machines \<Rightarrow> (case machines of
       [] \<Rightarrow> Inl (PlaceFailed ''Cannot read properties of undefined (reading 'machine')'')
     | (machine, _) # _ \<Rightarrow>
         let target = (case List.find (\<lambda>p. probe_machine (fst p) = machine) probes of Some (_, t) \<Rightarrow> t | None \<Rightarrow> None) in
         Inr (hosted_result target machine (pd_code d) (pd_reason d) (pd_skipped d))))"

text \<open>
  What the wait starts from: the enabled entries of \<open>remote.machines\<close>, the named build machine and
  the state of this machine; or the device this workspace already runs here.
\<close>

definition place_setup ::
    "placement_args \<Rightarrow> 't placement_world \<Rightarrow> place_error + ('t placed + string list \<times> string option \<times> placement_here)" where
  "place_setup a w =
     and_then (w_peek w) (\<lambda>devices.
     if pk_localLive devices \<and> pa_placement a = WRemoteOnly
     then Inl (HostingRefused (''This workspace's '' @ run_platform_text (pa_platform a) @ '' device for slot '' @ pa_slot a @
       '' runs on this machine, and remote-only never runs here.'') (Some ''Run stim stop, then retry.''))
     else if pk_localLive devices
     then Inr (Inl ((local_result ''sticky'' (pd_reason (decide_sticky StickyLocal)) []) \<lparr>pl_sticky := True\<rparr>))
     else and_then (w_machines w) (\<lambda>configured.
       if w_aborts_listing w then Inl PlaceAborted
       else case configured of
         None \<Rightarrow> Inl (HostingRefused ''remote.machines is invalid. Run stim guide settings and correct it.'' None)
       | Some machines \<Rightarrow>
          and_then (filter_ok (\<lambda>m. automaticMachineEnabled DeviceRole m (w_remote w)) machines) (\<lambda>entries.
          and_then (resolveBuildMachine (pa_buildMachine a) (w_env w) (remote_field ''build'' (w_remote w))) (\<lambda>preference.
          and_then (automaticMachineEnabled DeviceRole ''local'' (w_remote w)) (\<lambda>enabled.
          and_then (w_memory w) (\<lambda>pressure.
          and_then (w_budget w) (\<lambda>budget.
            if w_aborts_measuring w then Inl PlaceAborted
            else Inr (Inr (entries, if namedBuildMachine preference then Some preference else None,
              \<lparr>localEnabled = Some enabled, h_loadPerCore = w_loadPerCore w, h_maxLoadPerCore = w_maxLoadPerCore w,
               h_memoryPressure = pressure, dev_count = pk_count devices, dev_max = pk_max devices, dev_queued = pk_queued devices,
               dev_limit = pk_limit devices, budgetRefusal = budget\<rparr>)))))))))"

definition place_fresh ::
    "placement_args \<Rightarrow> 't placement_world \<Rightarrow> ('c, 't) placement_round list \<Rightarrow> (placement_event list \<times> (place_error + 't placed)) option" where
  "place_fresh a w rounds = (case place_setup a w of
     Inl e \<Rightarrow> Some ([], Inl e)
   | Inr (Inl here) \<Rightarrow> Some ([], Inr here)
   | Inr (Inr (entries, bm, h)) \<Rightarrow>
       map_option (\<lambda>(events, result). (events, and_then result (\<lambda>(d, probes).
           and_then (final_decision a bm h entries (w_eas w) d probes) (place_result a entries probes))))
         (place_rounds a bm h entries (w_started w) False rounds))"

definition sticky_result :: "recorded_host \<Rightarrow> 't \<Rightarrow> 't placed" where
  "sticky_result r target = \<lparr>pl_at = HostedOn (rh_machine r), pl_target = Some target, pl_selection = None,
     pl_reason = (case rh_reason r of Some reason \<Rightarrow> reason | None \<Rightarrow> pd_reason (decide_sticky (StickyMachine (rh_machine r)))),
     pl_code = ''sticky'', pl_skipped = [], pl_sticky = True\<rparr>"

definition automaticDevicePlacement ::
    "placement_args \<Rightarrow> 't placement_world \<Rightarrow> ('c, 't) placement_round list \<Rightarrow> (placement_event list \<times> (place_error + 't placed)) option" where
  "automaticDevicePlacement a w rounds =
     (case (if pa_platform a = RunMacos then Inr None else w_read w) of
        Inl e \<Rightarrow> Some ([], Inl e)
      | Inr None \<Rightarrow> place_fresh a w rounds
      | Inr (Some recorded) \<Rightarrow> (case w_resume w of
          Inl e \<Rightarrow> Some ([], Inl e)
        | Inr (Some target) \<Rightarrow> Some ([], Inr (sticky_result recorded target))
        | Inr None \<Rightarrow> (case w_write w of
            Inl e \<Rightarrow> Some ([], Inl e)
          | Inr _ \<Rightarrow> map_option (\<lambda>(events, result). (RecordCleared # events, result)) (place_fresh a w rounds))))"

definition devicePlacementLine :: "placed_at \<Rightarrow> string \<Rightarrow> placement_skip list \<Rightarrow> string" where
  "devicePlacementLine at reason skipped =
     (let tail = (if skipped = [] then [] else ''; '' @ join ''; '' (map skip_line skipped)) in
      case at of HostedOn machine \<Rightarrow> machine @ '', '' @ reason
      | ViaEas \<Rightarrow> ''eas, '' @ reason @ tail
      | LocalHere \<Rightarrow> ''local, '' @ reason @ tail)"

end
