(* ===== verification/Placement_Properties.thy ===== *)
theory Placement_Properties
  imports Placement
begin

text \<open>
  Device placement. When this machine does not come first, the decision lists the machines that admit the
  run, the named build machine first and the others in the order they were probed; a run under \<open>remote-only\<close> never lands on this
  machine nor on EAS; EAS takes a run only when this machine is full and no machine admits it; a
  hosted run is on a configured, enabled machine whose probe in that run admits it; and the wait
  for a full machine ends.
\<close>

section \<open>The order of the machines\<close>

lemma js_insert_between:
  "\<lbrakk>\<And>a. a \<in> set A \<Longrightarrow> cmp a x \<le> 0; \<And>b. b \<in> set B \<Longrightarrow> 0 < cmp b x\<rbrakk> \<Longrightarrow> js_insert cmp x (A @ B) = A @ x # B"
proof (induction A)
  case Nil
  then show ?case by (cases B) (fastforce simp: not_le)+
qed simp

lemma js_sort_groups:
  assumes cmp: "\<And>a b. cmp a b = (let d = of_bool (P b) - of_bool (P a) in if d \<noteq> 0 then d else int (key a) - int (key b))"
  shows "sorted_wrt (\<lambda>a b. key a < key b) xs \<Longrightarrow> js_sort cmp xs = filter P xs @ filter (\<lambda>x. \<not> P x) xs"
proof (induction xs rule: rev_induct)
  case Nil
  then show ?case by (simp add: js_sort_def)
next
  case (snoc x xs)
  have lt: "key a < key x" if "a \<in> set xs" for a using snoc.prems that by (simp add: sorted_wrt_append)
  have "js_sort cmp (xs @ [x]) = js_insert cmp x (filter P xs @ filter (\<lambda>x. \<not> P x) xs)"
    using snoc by (simp add: js_sort_def sorted_wrt_append)
  also have "\<dots> = filter P (xs @ [x]) @ filter (\<lambda>x. \<not> P x) (xs @ [x])"
  proof (cases "P x")
    case True
    then have "js_insert cmp x (filter P xs @ filter (\<lambda>x. \<not> P x) xs) = filter P xs @ x # filter (\<lambda>x. \<not> P x) xs"
      using lt by (intro js_insert_between) (auto simp: cmp Let_def less_imp_le)
    with True show ?thesis by simp
  next
    case False
    have "js_insert cmp x ((filter P xs @ filter (\<lambda>x. \<not> P x) xs) @ []) = (filter P xs @ filter (\<lambda>x. \<not> P x) xs) @ [x]"
      using lt False by (intro js_insert_between) (auto simp: cmp Let_def less_imp_le)
    with False show ?thesis by simp
  qed
  finally show ?case .
qed

lemma admitted_indices:
  "sorted_wrt (\<lambda>a b. snd (snd a) < snd (snd b)) (List.map_filter (admitted_of i) (enumerate n ps)) \<and>
   (\<forall>x \<in> set (List.map_filter (admitted_of i) (enumerate n ps)). n \<le> snd (snd x))"
proof (induction ps arbitrary: n)
  case (Cons p ps)
  from Cons.IH [of "Suc n"] show ?case
    by (auto simp: List.map_filter_simps admitted_of_def split: placement_probe.split dest: Suc_le_lessD less_imp_le)
qed (simp add: List.map_filter_simps)

abbreviation named :: "'c placement_inputs \<Rightarrow> string \<Rightarrow> bool" where
  "named i m \<equiv> Some m = pi_buildMachine i"

abbreviation admitting :: "'c placement_inputs \<Rightarrow> 'c placement_probe list" where
  "admitting i \<equiv> filter (\<lambda>p. judge i p = None) (pi_offers i)"

lemma admitted_groups:
  "admitted_hosts i = (let as = List.map_filter (admitted_of i) (enumerate 0 (pi_offers i)) in
     filter (\<lambda>a. named i (fst a)) as @ filter (\<lambda>a. \<not> named i (fst a)) as)"
  unfolding admitted_hosts_def Let_def
  by (rule js_sort_groups [where key = "\<lambda>a. snd (snd a)"]) (simp_all add: named_first_def admitted_indices)

lemma admitted_machines:
  "map fst (List.map_filter (admitted_of i) (enumerate n ps)) = map probe_machine (filter (\<lambda>p. judge i p = None) ps)"
  by (induction ps arbitrary: n) (auto simp: List.map_filter_simps admitted_of_def judge_def split: placement_probe.split)

lemma admitted_offer:
  assumes "(m, offer, n) \<in> set (admitted_hosts i)"
  shows "ProbeOffer m offer \<in> set (pi_offers i) \<and> judge_offer i offer = None"
proof -
  have "(n, ProbeOffer m offer) \<in> set (enumerate 0 (pi_offers i)) \<and> judge_offer i offer = None"
    using assms by (auto simp: admitted_groups Let_def map_filter_set admitted_of_def split: placement_probe.splits if_splits)
  then show ?thesis by (metis enumerate_eq_zip set_zip_rightD)
qed

lemma admitted_Nil: "admitted_hosts i = [] \<longleftrightarrow> admitting i = []"
proof -
  let ?as = "List.map_filter (admitted_of i) (enumerate 0 (pi_offers i))"
  have "set (admitted_hosts i) = set ?as" by (auto simp: admitted_groups Let_def)
  then have "admitted_hosts i = [] \<longleftrightarrow> map fst ?as = []" by auto
  then show ?thesis unfolding admitted_machines by simp
qed

section \<open>The decisions\<close>

lemma nowhere_kinds:
  "pd_kind (nowhere i full code reason skipped waiting) = OnEas \<Longrightarrow>
     pi_eas i = Some EasUsable \<and> at_capacity (pi_here i) \<and> mayRunHere (pi_placement i)"
  "pi_placement i = WRemoteOnly \<Longrightarrow> pd_kind (nowhere i full code reason skipped waiting) = Refused False full"
  "pd_kind (nowhere i full code reason skipped waiting) \<noteq> OnHost ms"
  by (auto simp: nowhere_def Let_def mayRunHere_def local_decision_def refused_decision_def at_capacity_def cannot_take_def split: if_splits)

abbreviation host_list :: "'c placement_inputs \<Rightarrow> (string \<times> string) list" where
  "host_list i \<equiv> map (\<lambda>(machine, offer, _). (machine, host_reason i machine offer)) (admitted_hosts i)"

text \<open>
  This machine comes first unless the placement prefers remote machines: when it may take runs and either its
  devices cannot be counted, or it has a device to spare, nobody queued, memory, budget and load in order.
\<close>

definition here_first :: "'c placement_inputs \<Rightarrow> bool" where
  "here_first i \<longleftrightarrow> (let w = pi_placement i; h = pi_here i in \<not> prefersRemote w \<and> local_enabled w h \<and>
     (dev_count h = None \<or> has_room h \<and> dev_queued h \<le> 0 \<and> h_memoryPressure h = Some ''normal'' \<and>
       (budgetRefusal h = None \<or> budgetRefusal h = Some []) \<and> double_less (h_loadPerCore h) (h_maxLoadPerCore h)))"

text \<open>The four ways the decision ends.\<close>

lemma decide_cases:
  obtains
    (no_offers) reason where "pi_offers i = []" "decideDevicePlacement i = nowhere i False ''no-remote-mac'' reason [] []"
  | (stays) code where "here_first i" "\<not> prefersRemote (pi_placement i)" "local_enabled (pi_placement i) (pi_here i)"
      "decideDevicePlacement i = local_decision code (local_reason (pi_placement i) (pi_here i)) [] False"
  | (none_admits) reason skipped waiting where "admitted_hosts i = []"
      "decideDevicePlacement i = nowhere i (list_ex (full_skip i) (pi_offers i)) ''no-host-admits'' reason skipped waiting"
  | (hosts) "\<not> here_first i" "admitted_hosts i \<noteq> []" "pd_kind (decideDevicePlacement i) = OnHost (host_list i)"
proof -
  let ?w = "pi_placement i" and ?h = "pi_here i" and ?d = "decideDevicePlacement i"
  let ?unknown = "local_enabled ?w ?h \<and> dev_count ?h = None \<and> \<not> prefersRemote ?w"
  let ?free = "\<not> prefersRemote ?w \<and> \<not> cannot_take ?w ?h \<and> h_memoryPressure ?h = Some ''normal'' \<and>
    (budgetRefusal ?h = None \<or> budgetRefusal ?h = Some []) \<and> double_less (h_loadPerCore ?h) (h_maxLoadPerCore ?h)"
  consider "pi_offers i = []" | "pi_offers i \<noteq> []" ?unknown | "pi_offers i \<noteq> []" "\<not> ?unknown" ?free
    | "pi_offers i \<noteq> []" "\<not> ?unknown" "\<not> ?free" by argo
  then show thesis
  proof cases
    case 1
    then have "?d = nowhere i False ''no-remote-mac'' (''no remote machines configured; '' @ local_reason ?w ?h) [] []"
      unfolding decideDevicePlacement_def Let_def by (simp only: if_True simp_thms)
    with 1 show thesis by (rule no_offers)
  next
    case 2
    then have "?d = local_decision ''device-count-unknown'' (local_reason ?w ?h) [] False"
      unfolding decideDevicePlacement_def Let_def by (simp only: if_True if_False simp_thms)
    moreover have "here_first i" using 2 by (simp add: here_first_def Let_def)
    ultimately show thesis using 2 stays by blast
  next
    case 3
    then have "?d = local_decision ''this-mac-free'' (local_reason ?w ?h) [] False"
      unfolding decideDevicePlacement_def Let_def by (simp only: if_True if_False simp_thms)
    moreover have "here_first i" using 3 by (simp add: here_first_def Let_def cannot_take_def)
    ultimately show thesis using 3 stays by (auto simp: cannot_take_def)
  next
    case 4
    then have d: "?d = (case host_list i of
        [] \<Rightarrow> nowhere i (list_ex (full_skip i) (pi_offers i)) ''no-host-admits'' (local_reason ?w ?h @ ''; no host admits'')
          (List.map_filter (skip_of i) (pi_offers i))
          (if local_enabled ?w ?h \<and> cannot_take ?w ?h \<and> \<not> pi_noWait i then ''; waiting locally if needed'' else [])
      | first # _ \<Rightarrow> \<lparr>pd_kind = OnHost (host_list i), pd_code = ''placed'', pd_reason = snd first,
          pd_skipped = List.map_filter (skip_of i) (pi_offers i)\<rparr>)"
      unfolding decideDevicePlacement_def Let_def by (simp only: if_False simp_thms)
    have remote: "\<not> here_first i" using 4 by (auto simp: here_first_def Let_def cannot_take_def)
    show thesis
    proof (cases "admitted_hosts i")
      case Nil
      with d show thesis using none_admits by simp
    next
      case (Cons a as)
      with d remote show thesis using hosts by (simp split: prod.splits)
    qed
  qed
qed

lemma decide_host:
  assumes "pd_kind (decideDevicePlacement i) = OnHost ms"
  shows "ms = host_list i" "admitted_hosts i \<noteq> []"
  using decide_cases [of i] assms by (cases; simp add: nowhere_kinds local_decision_def)+

lemma decide_eas:
  assumes "pd_kind (decideDevicePlacement i) = OnEas"
  shows "pi_eas i = Some EasUsable" "at_capacity (pi_here i)" "mayRunHere (pi_placement i)" "admitting i = []"
proof -
  have "pi_offers i = [] \<or> admitted_hosts i = []" and
      *: "pi_eas i = Some EasUsable \<and> at_capacity (pi_here i) \<and> mayRunHere (pi_placement i)"
    using decide_cases [of i] assms by (cases; auto simp: local_decision_def dest: nowhere_kinds(1))+
  then have "admitting i = []" using admitted_Nil [of i] by auto
  with * show "pi_eas i = Some EasUsable" "at_capacity (pi_here i)" "mayRunHere (pi_placement i)" "admitting i = []" by simp_all
qed

lemma decide_remote_only:
  assumes "pi_placement i = WRemoteOnly"
  shows "(\<exists>full. pd_kind (decideDevicePlacement i) = Refused False full) \<or> (\<exists>ms. pd_kind (decideDevicePlacement i) = OnHost ms)"
  using decide_cases [of i] by cases (auto simp: nowhere_kinds(2) [OF assms] assms prefersRemote_def)

text \<open>
  C36. When a run is placed on other machines and in which order. The decision is for other machines exactly
  when some probe admits the run and this machine does not come first; it then lists exactly the machines
  whose probe admits the run, the named build machine first, then the others in the order they were probed.
  Otherwise this machine comes first or no machine admits the run.
\<close>

theorem placement_order:
  "case pd_kind (decideDevicePlacement i) of
     OnHost ms \<Rightarrow> \<not> here_first i \<and> admitting i \<noteq> [] \<and>
       map fst ms = filter (named i) (map probe_machine (admitting i)) @ filter (\<lambda>m. \<not> named i m) (map probe_machine (admitting i))
   | _ \<Rightarrow> here_first i \<or> admitting i = []"
proof -
  have order: "map fst (admitted_hosts i) = filter (named i) (map probe_machine (admitting i)) @ filter (\<lambda>m. \<not> named i m) (map probe_machine (admitting i))"
    by (simp add: admitted_groups Let_def filter_map comp_def flip: admitted_machines [of i 0])
  show ?thesis
  proof (cases rule: decide_cases [of i])
    case no_offers
    then show ?thesis using nowhere_kinds(3) [of i] by (auto split: placement_kind.split)
  next
    case stays
    then show ?thesis by (simp add: local_decision_def)
  next
    case none_admits
    then show ?thesis using nowhere_kinds(3) [of i] admitted_Nil [of i] by (auto split: placement_kind.split)
  next
    case hosts
    then show ?thesis using order admitted_Nil [of i] by (simp add: case_prod_beta comp_def)
  qed
qed

section \<open>The rounds\<close>

lemma those_map: "those (map f xs) = Some ys \<Longrightarrow> y \<in> set ys \<Longrightarrow> \<exists>x \<in> set xs. f x = Some y"
  by (induction xs arbitrary: ys) (auto split: option.splits)

lemma place_rounds_Inr:
  "place_rounds a bm h entries started announced rounds = Some (es, Inr (d, probes)) \<Longrightarrow>
   \<exists>r \<in> set rounds. round_probes a bm h entries r = Some probes \<and> d = decideDevicePlacement (inputs_of a bm h (offers_of entries probes) None)"
proof (induction rounds arbitrary: announced es)
  case (Cons r rs)
  from Cons.prems Cons.IH show ?case by (auto simp: Let_def split: option.splits if_splits)
qed simp

lemma final_decision_Inr:
  assumes "final_decision a bm h entries eas d probes = Inr d'" "d = decideDevicePlacement (inputs_of a bm h (offers_of entries probes) None)"
  shows "\<exists>check. d' = decideDevicePlacement (inputs_of a bm h (offers_of entries probes) check) \<and>
    (check = None \<or> (\<exists>c. check = Some c \<and> eas = Some (Inr c) \<and> asks_eas a d))"
  using assms by (auto simp: final_decision_def and_then_Inr split: option.splits if_splits)

lemma place_fresh_Inr:
  assumes "place_fresh a w rounds = Some (es, Inr p)" "\<not> pl_sticky p"
  obtains entries bm h r probes check where
    "place_setup a w = Inr (Inr (entries, bm, h))" "r \<in> set rounds" "round_probes a bm h entries r = Some probes"
    "place_result a entries probes (decideDevicePlacement (inputs_of a bm h (offers_of entries probes) check)) = Inr p"
    "check = None \<or> (\<exists>c. check = Some c \<and> w_eas w = Some (Inr c))"
proof -
  have "\<not> (\<exists>q. place_setup a w = Inr (Inl q) \<and> \<not> pl_sticky q)"
    by (auto simp: place_setup_def and_then_Inr split: if_splits option.splits)
  with assms obtain entries bm h d probes d' es' where s: "place_setup a w = Inr (Inr (entries, bm, h))"
      "place_rounds a bm h entries (w_started w) False rounds = Some (es', Inr (d, probes))"
      "final_decision a bm h entries (w_eas w) d probes = Inr d'" "place_result a entries probes d' = Inr p"
    by (auto simp: place_fresh_def and_then_Inr split: sum.splits)
  from place_rounds_Inr [OF s(2)] final_decision_Inr [OF s(3)] s that show thesis by metis
qed

lemma filter_ok_Inr: "filter_ok p xs = Inr ys \<Longrightarrow> y \<in> set ys \<Longrightarrow> y \<in> set xs \<and> p y = Inr True"
  by (induction xs arbitrary: ys) (auto simp: and_then_Inr split: if_splits)

lemma place_setup_Inr:
  assumes "place_setup a w = Inr (Inr (entries, bm, h))"
  shows "\<exists>machines. w_machines w = Inr (Some machines) \<and>
      (\<forall>m \<in> set entries. m \<in> set machines \<and> automaticMachineEnabled DeviceRole m (w_remote w) = Inr True)"
    "h_maxLoadPerCore h = w_maxLoadPerCore w"
proof -
  show "\<exists>machines. w_machines w = Inr (Some machines) \<and>
      (\<forall>m \<in> set entries. m \<in> set machines \<and> automaticMachineEnabled DeviceRole m (w_remote w) = Inr True)"
    using assms by (fastforce simp: place_setup_def and_then_Inr split: if_splits option.splits dest: filter_ok_Inr)
  show "h_maxLoadPerCore h = w_maxLoadPerCore w"
    using assms by (auto simp: place_setup_def and_then_Inr split: if_splits option.splits)
qed

lemma automatic_fresh:
  assumes "automaticDevicePlacement a w rounds = Some (es, Inr p)"
  shows "(\<exists>recorded target. p = sticky_result recorded target) \<or> (\<exists>es'. place_fresh a w rounds = Some (es', Inr p))"
  using assms by (auto simp: automaticDevicePlacement_def split: sum.splits option.splits if_splits)

text \<open>Probes answer for the machine they are asked about.\<close>

definition echoes :: "('c, 't) placement_round list \<Rightarrow> bool" where
  "echoes rounds = (\<forall>r \<in> set rounds. \<forall>m probe t. r_probe r m = Some (probe, t) \<longrightarrow> probe_machine probe = m)"

text \<open>What makes an offer fit: for this platform, with a device, memory, room and load to spare.\<close>

definition fit_offer :: "run_platform \<Rightarrow> double \<Rightarrow> 'c placement_offer \<Rightarrow> bool" where
  "fit_offer platform ceiling offer = (o_declined offer = None \<and> o_platform offer = platform \<and> o_choice offer \<noteq> None \<and>
     o_memoryPressure offer = Some ''normal'' \<and> o_available offer \<noteq> Some 0 \<and>
     (case o_loadPerCore offer of None \<Rightarrow> True
      | Some load \<Rightarrow> double_less load (case o_maxLoadPerCore offer of Some c \<Rightarrow> c | None \<Rightarrow> ceiling)))"

lemma judged_fit: "judge_offer i offer = None \<Longrightarrow> fit_offer (pi_platform i) (h_maxLoadPerCore (pi_here i)) offer"
  by (auto simp: judge_offer_def fit_offer_def host_saturated_def ceiling_of_def split: if_splits option.splits)

lemma place_result_host:
  assumes "place_result a entries probes (decideDevicePlacement i) = Inr p" "pl_at p = HostedOn m"
  shows "\<exists>offer. ProbeOffer m offer \<in> set (pi_offers i) \<and> judge_offer i offer = None"
    "pl_target p = (case List.find (\<lambda>q. probe_machine (fst q) = m) probes of Some (_, t) \<Rightarrow> t | None \<Rightarrow> None)"
proof -
  obtain m' reason ms where k: "pd_kind (decideDevicePlacement i) = OnHost ((m', reason) # ms)"
    using assms by (auto simp: place_result_def viaEas_def local_result_def split: placement_kind.splits list.splits)
  have m: "m' = m" using assms k by (auto simp: place_result_def hosted_result_def Let_def)
  have "(m, reason) \<in> set (host_list i)" using decide_host [OF k] m by (metis list.set_intros(1))
  then show "\<exists>offer. ProbeOffer m offer \<in> set (pi_offers i) \<and> judge_offer i offer = None" using admitted_offer by force
  show "pl_target p = (case List.find (\<lambda>q. probe_machine (fst q) = m) probes of Some (_, t) \<Rightarrow> t | None \<Rightarrow> None)"
    using assms(1) k m by (simp add: place_result_def hosted_result_def Let_def) (auto split: option.splits)
qed

lemma place_result_fresh: "place_result a entries probes d = Inr p \<Longrightarrow> \<not> pl_sticky p"
  by (auto simp: place_result_def hosted_result_def viaEas_def local_result_def Let_def split: placement_kind.splits list.splits)

lemma remote_only_fresh:
  assumes "pa_placement a = WRemoteOnly" "place_fresh a w rounds = Some (es, Inr p)"
  shows "\<not> pl_sticky p"
proof -
  have "\<not> (\<exists>q. place_setup a w = Inr (Inl q))"
    using assms(1) by (auto simp: place_setup_def and_then_Inr split: if_splits option.splits)
  then show ?thesis using assms(2) by (auto simp: place_fresh_def and_then_Inr split: sum.splits dest: place_result_fresh)
qed

section \<open>Where a run lands\<close>

text \<open>
  C23. Under \<open>remote-only\<close> a run that is placed is on a remote machine: never on this machine and never
  on EAS, whatever the settings, the devices and the probes are.
\<close>

theorem remote_only_never_here:
  assumes "pa_placement a = WRemoteOnly" "automaticDevicePlacement a w rounds = Some (es, Inr p)"
  shows "\<exists>m. pl_at p = HostedOn m"
proof (cases "\<exists>recorded target. p = sticky_result recorded target")
  case True
  then show ?thesis by (auto simp: sticky_result_def)
next
  case False
  with automatic_fresh [OF assms(2)] obtain es' where f: "place_fresh a w rounds = Some (es', Inr p)" by blast
  obtain entries bm h r probes check where r: "r \<in> set rounds" "round_probes a bm h entries r = Some probes" and
    p: "place_result a entries probes (decideDevicePlacement (inputs_of a bm h (offers_of entries probes) check)) = Inr p"
    using place_fresh_Inr [OF f remote_only_fresh [OF assms(1) f]] by metis
  have "pi_placement (inputs_of a bm h (offers_of entries probes) check) = WRemoteOnly" using assms(1) by (simp add: inputs_of_def)
  from decide_remote_only [OF this] p show ?thesis
    by (auto simp: place_result_def hosted_result_def Let_def split: list.splits)
qed

text \<open>
  C22. A run that is newly placed on a machine is on one listed in \<open>remote.machines\<close> and enabled in
  the device pool, whose probe in this run offered a fit device: not declined, the platform of
  the run, memory, room and load to spare; and the run gets the target of that probe.
\<close>

theorem hosted_run_admitted:
  assumes "automaticDevicePlacement a w rounds = Some (es, Inr p)" "pl_at p = HostedOn m" "\<not> pl_sticky p" "echoes rounds"
  shows "\<exists>machines r offer. w_machines w = Inr (Some machines) \<and> m \<in> set machines \<and>
    automaticMachineEnabled DeviceRole m (w_remote w) = Inr True \<and>
    r \<in> set rounds \<and> r_probe r m = Some (ProbeOffer m offer, pl_target p) \<and> fit_offer (pa_platform a) (w_maxLoadPerCore w) offer"
proof -
  have "\<not> (\<exists>recorded target. p = sticky_result recorded target)" using assms(3) by (auto simp: sticky_result_def)
  with automatic_fresh [OF assms(1)] obtain es' where "place_fresh a w rounds = Some (es', Inr p)" by blast
  from place_fresh_Inr [OF this assms(3)] obtain entries bm h r probes check where
    s: "place_setup a w = Inr (Inr (entries, bm, h))" "r \<in> set rounds" "round_probes a bm h entries r = Some probes"
    "place_result a entries probes (decideDevicePlacement (inputs_of a bm h (offers_of entries probes) check)) = Inr p" by metis
  let ?i = "inputs_of a bm h (offers_of entries probes) check"
  from place_result_host [OF s(4) assms(2)] obtain offer where
    o: "ProbeOffer m offer \<in> set (offers_of entries probes)" "judge_offer ?i offer = None" and
    t: "pl_target p = (case List.find (\<lambda>q. probe_machine (fst q) = m) probes of Some (_, t) \<Rightarrow> t | None \<Rightarrow> None)"
    by (auto simp: inputs_of_def)
  have "probes \<noteq> []" "ProbeOffer m offer \<in> fst ` set probes"
    using o(1) by (auto simp: offers_of_def not_probed_def split: if_splits)
  then obtain t' where t': "(ProbeOffer m offer, t') \<in> set probes" by auto
  have asked: "r_probe r (probe_machine (fst q)) = Some q \<and> probe_machine (fst q) \<in> set entries" if "q \<in> set probes" for q
    using those_map [of "r_probe r" entries probes q] that s(2,3) \<open>probes \<noteq> []\<close> assms(4)
    by (cases q) (auto simp: round_probes_def echoes_def split: if_splits)
  obtain q where q: "List.find (\<lambda>q. probe_machine (fst q) = m) probes = Some q"
    using t' by (cases "List.find (\<lambda>q. probe_machine (fst q) = m) probes") (auto simp: find_None_iff)
  have "q = (ProbeOffer m offer, t')" using find_SomeD [OF q] asked [of q] asked [OF t'] by auto
  with q t have "r_probe r m = Some (ProbeOffer m offer, pl_target p)" "m \<in> set entries" using asked [OF t'] by simp_all
  moreover have "fit_offer (pa_platform a) (w_maxLoadPerCore w) offer"
    using judged_fit [OF o(2)] place_setup_Inr(2) [OF s(1)] by (simp add: inputs_of_def)
  ultimately show ?thesis using place_setup_Inr(1) [OF s(1)] s(2) by blast
qed

text \<open>
  The decision for EAS is the last resort: EAS is usable, this machine is known to be full or has
  runs queued, the placement is not \<open>remote-only\<close> and no probed machine admits the run.
\<close>

theorem eas_last_resort:
  assumes "pd_kind (decideDevicePlacement i) = OnEas"
  shows "pi_eas i = Some EasUsable \<and> pi_placement i \<noteq> WRemoteOnly \<and> admitting i = [] \<and>
    (\<exists>n. dev_count (pi_here i) = Some n \<and> ((dev_max (pi_here i) \<noteq> 0 \<and> dev_max (pi_here i) \<le> n) \<or> 0 < dev_queued (pi_here i)))"
  using decide_eas [OF assms] by (auto simp: at_capacity_def has_room_def mayRunHere_def)

section \<open>The wait ends\<close>

text \<open>
  The clock moves on by at least the time slept. \<open>low\<close> is the least the next reading can be.
\<close>

fun paced :: "int \<Rightarrow> int \<Rightarrow> int \<Rightarrow> ('c, 't) placement_round list \<Rightarrow> bool" where
  "paced waitMs started low [] = True"
| "paced waitMs started low (r # rs) = (low \<le> r_now r \<and>
     paced waitMs started (r_now r + min HOST_WAIT_POLL_MS (waitMs - (r_now r - started))) rs)"

fun is_wait_line :: "placement_event \<Rightarrow> bool" where
  "is_wait_line (WaitLine _) = True"
| "is_wait_line _ = False"

lemma place_rounds_end:
  assumes "paced (pa_waitMs a) started low rounds" "rounds \<noteq> []" "pa_waitMs a - (low - started) \<le> 5000 * (int (length rounds) - 1)"
  shows "place_rounds a bm h entries started announced rounds \<noteq> None"
  using assms
proof (induction rounds arbitrary: low announced)
  case (Cons r rs)
  let ?waited = "r_now r - started"
  show ?case
  proof (cases "pa_waitMs a \<le> ?waited")
    case True
    then show ?thesis by (auto simp: Let_def split: option.splits)
  next
    case False
    let ?low = "r_now r + min HOST_WAIT_POLL_MS (pa_waitMs a - ?waited)"
    from False Cons.prems have "rs \<noteq> []" by auto
    moreover have "pa_waitMs a - (?low - started) \<le> 5000 * (int (length rs) - 1)"
      using Cons.prems \<open>rs \<noteq> []\<close> by (cases rs) (auto simp: HOST_WAIT_POLL_MS_def min_def)
    ultimately have "place_rounds a bm h entries started True rs \<noteq> None" using Cons.IH [of ?low True] Cons.prems by simp
    then show ?thesis by (auto simp: Let_def split: option.splits)
  qed
qed simp

lemma place_rounds_says:
  "place_rounds a bm h entries started announced rounds = Some (es, result) \<Longrightarrow>
   length (filter is_wait_line es) \<le> (if announced then 0 else 1)"
proof (induction rounds arbitrary: announced es)
  case (Cons r rs)
  from Cons.prems Cons.IH [of True] show ?case by (fastforce simp: Let_def split: option.splits if_splits)
qed simp

text \<open>
  C35. The wait for a full machine ends: with a clock that moves on by the time slept, one round more
  than the five-second steps in \<open>waitMs\<close> is enough for an answer, which is a placement or an error,
  and the wait is announced at most once.
\<close>

theorem placement_wait_returns:
  assumes "paced (pa_waitMs a) (w_started w) (w_started w) rounds" "rounds \<noteq> []" "pa_waitMs a \<le> 5000 * (int (length rounds) - 1)"
  shows "\<exists>es answer. automaticDevicePlacement a w rounds = Some (es, answer) \<and> length (filter is_wait_line es) \<le> 1"
proof -
  have "\<exists>es answer. place_fresh a w rounds = Some (es, answer) \<and> length (filter is_wait_line es) \<le> 1"
  proof (cases "place_setup a w")
    case (Inr start)
    show ?thesis
    proof (cases start)
      case r: (Inr b)
      obtain entries bm h where b: "b = (entries, bm, h)" by (cases b)
      obtain es result where e: "place_rounds a bm h entries (w_started w) False rounds = Some (es, result)"
        using place_rounds_end [of a "w_started w" "w_started w" rounds bm h entries False] assms by auto
      show ?thesis using place_rounds_says [OF e] Inr r b e by (simp add: place_fresh_def)
    qed (simp add: place_fresh_def Inr)
  qed (simp add: place_fresh_def)
  then obtain es answer where f: "place_fresh a w rounds = Some (es, answer)" "length (filter is_wait_line es) \<le> 1" by blast
  show ?thesis using f by (auto simp: automaticDevicePlacement_def split: sum.split option.split)
qed

section \<open>Samples\<close>

text \<open>Two machines, the first full at first; five seconds later both have room.\<close>

definition sample_offer :: "int \<Rightarrow> unit placement_offer" where
  "sample_offer n = \<lparr>o_platform = RunIos, o_choice = Some (), o_declined = None, o_available = Some n, o_loadPerCore = Some (1, 1),
     o_maxLoadPerCore = None, o_memoryFreeBytes = 1000, o_memoryPressure = Some ''normal''\<rparr>"

definition full_round :: "(unit, string) placement_round" where
  "full_round = \<lparr>r_probe = (\<lambda>m. Some (ProbeOffer m (sample_offer 0), Some m)), r_now = 0, r_aborts = False\<rparr>"

definition open_round :: "(unit, string) placement_round" where
  "open_round = \<lparr>r_probe = (\<lambda>m. Some (ProbeOffer m (sample_offer 1), Some m)), r_now = 5000, r_aborts = False\<rparr>"

definition sample_rounds :: "(unit, string) placement_round list" where
  "sample_rounds = [full_round, open_round]"

definition sample_args :: placement_args where
  "sample_args = \<lparr>pa_slot = ''default'', pa_platform = RunIos, pa_placement = WRemoteOnly, pa_buildMachine = None,
     pa_noWait = False, pa_waitMs = 5000\<rparr>"

definition sample_world :: "string placement_world" where
  "sample_world = \<lparr>w_read = Inr None, w_resume = Inr None, w_write = Inr (),
     w_peek = Inr \<lparr>pk_count = Some 2, pk_max = 2, pk_queued = 0, pk_limit = None, pk_localLive = False\<rparr>,
     w_machines = Inr (Some [''mini'', ''studio'']), w_remote = None, w_env = None, w_loadPerCore = (1, 0), w_maxLoadPerCore = (3, 1),
     w_memory = Inr (Some ''normal''), w_budget = Inr None, w_aborts_listing = False, w_aborts_measuring = False, w_started = 0, w_eas = None\<rparr>"

definition sample_inputs :: "unit placement_probe list \<Rightarrow> unit placement_inputs" where
  "sample_inputs offers = \<lparr>pi_platform = RunIos, pi_placement = WAuto,
     pi_here = \<lparr>localEnabled = Some True, h_loadPerCore = (1, 0), h_maxLoadPerCore = (3, 1), h_memoryPressure = Some ''normal'',
       dev_count = Some 2, dev_max = 2, dev_queued = 0, dev_limit = None, budgetRefusal = None\<rparr>,
     pi_offers = offers, pi_buildMachine = Some ''mini'', pi_noWait = False, pi_eas = Some EasUsable\<rparr>"

lemma sample_placed:
  "\<exists>es p. automaticDevicePlacement sample_args sample_world sample_rounds = Some (es, Inr p) \<and> pl_at p = HostedOn ''mini'' \<and> \<not> pl_sticky p"
proof -
  have "(case automaticDevicePlacement sample_args sample_world sample_rounds of
      Some (es, Inr p) \<Rightarrow> pl_at p = HostedOn ''mini'' \<and> \<not> pl_sticky p | _ \<Rightarrow> False)" by code_simp
  then obtain es r where "automaticDevicePlacement sample_args sample_world sample_rounds = Some (es, r)"
      "case r of Inr p \<Rightarrow> pl_at p = HostedOn ''mini'' \<and> \<not> pl_sticky p | _ \<Rightarrow> False" by (auto split: option.splits)
  then show ?thesis by (cases r) auto
qed

lemma sample_echoes: "echoes sample_rounds"
  by (simp add: echoes_def sample_rounds_def full_round_def open_round_def)

theorem remote_only_never_here_witness:
  "\<exists>es p m. automaticDevicePlacement sample_args sample_world sample_rounds = Some (es, Inr p) \<and> pl_at p = HostedOn m"
proof -
  have "pa_placement sample_args = WRemoteOnly" by (simp add: sample_args_def)
  then show ?thesis using sample_placed remote_only_never_here by metis
qed

theorem hosted_run_admitted_witness:
  "\<exists>r \<in> set sample_rounds. \<exists>offer t. r_probe r ''mini'' = Some (ProbeOffer ''mini'' offer, t) \<and> fit_offer RunIos (3, 1) offer"
proof -
  have "pa_platform sample_args = RunIos" "w_maxLoadPerCore sample_world = (3, 1)" by (simp_all add: sample_args_def sample_world_def)
  then show ?thesis using sample_placed hosted_run_admitted sample_echoes by metis
qed

theorem placement_wait_returns_witness:
  "\<exists>es answer. automaticDevicePlacement sample_args sample_world sample_rounds = Some (es, answer) \<and> length (filter is_wait_line es) \<le> 1"
  by (rule placement_wait_returns)
    (simp_all add: sample_args_def sample_world_def sample_rounds_def full_round_def open_round_def HOST_WAIT_POLL_MS_def)

theorem placement_order_witness:
  "\<exists>ms. pd_kind (decideDevicePlacement (sample_inputs [ProbeOffer ''studio'' (sample_offer 1), ProbeFailure ''air'' ''timed out'',
     ProbeOffer ''mini'' (sample_offer 1)])) = OnHost ms \<and> map fst ms = [''mini'', ''studio'']"
proof -
  let ?i = "sample_inputs [ProbeOffer ''studio'' (sample_offer 1), ProbeFailure ''air'' ''timed out'', ProbeOffer ''mini'' (sample_offer 1)]"
  have "map probe_machine (admitting ?i) = [''studio'', ''mini'']" "pi_buildMachine ?i = Some ''mini''" "\<not> here_first ?i" by code_simp+
  with placement_order [of ?i] show ?thesis by (auto split: placement_kind.splits)
qed

theorem eas_last_resort_witness:
  "pd_kind (decideDevicePlacement (sample_inputs [ProbeOffer ''mini'' (sample_offer 0)])) = OnEas \<and>
   admitting (sample_inputs [ProbeOffer ''mini'' (sample_offer 0)]) = []"
proof -
  have "pd_kind (decideDevicePlacement (sample_inputs [ProbeOffer ''mini'' (sample_offer 0)])) = OnEas" by code_simp
  then show ?thesis using eas_last_resort by blast
qed

end
