(* ===== verification/Log_Tail.thy ===== *)
theory Log_Tail
  imports Byte_Text Json_Value
begin

text \<open>
  Newline-delimited JSON logs: reading one (\<open>packages/core/state/ndjson.ts\<close>) and following one that
  grows and rotates (\<open>packages/core/state/ndjson-tail.ts\<close>). The bytes of a file are decoded as
  \<open>toString('utf-8')\<close> does, with a replacement character for what is not UTF-8. \<open>JSON.parse\<close> is the
  argument \<open>json\<close>, \<open>None\<close> when it throws: what follows holds whatever it makes of a line.

  A file is what an open descriptor shows of it, its id and its bytes; \<open>None\<close> when the path cannot
  be opened. A call of the tail is given what each of its system calls answers, so the files may change
  between them.
\<close>

section \<open>Decoding\<close>

text \<open>
  The decoder's state: how many bytes the character still needs, its bits so far, and the range of
  the next byte.
\<close>

type_synonym utf8_state = "nat \<times> nat \<times> nat \<times> nat"

definition utf8_start :: utf8_state where
  "utf8_start = (0, 0, 0x80, 0xBF)"

definition utf8_lead :: "nat \<Rightarrow> unicode \<times> utf8_state" where
  "utf8_lead b =
     (if b < 0x80 then ([b], utf8_start)
      else if 0xC2 \<le> b \<and> b \<le> 0xDF then ([], (1, b - 0xC0, 0x80, 0xBF))
      else if 0xE0 \<le> b \<and> b \<le> 0xEF
      then ([], (2, b - 0xE0, if b = 0xE0 then 0xA0 else 0x80, if b = 0xED then 0x9F else 0xBF))
      else if 0xF0 \<le> b \<and> b \<le> 0xF4
      then ([], (3, b - 0xF0, if b = 0xF0 then 0x90 else 0x80, if b = 0xF4 then 0x8F else 0xBF))
      else ([0xFFFD], utf8_start))"

fun utf8_step :: "utf8_state \<Rightarrow> nat \<Rightarrow> unicode \<times> utf8_state" where
  "utf8_step (n, cp, lower, upper) b =
     (if n = 0 then utf8_lead b
      else if b < lower \<or> upper < b then (case utf8_lead b of (out, st) \<Rightarrow> (0xFFFD # out, st))
      else let cp' = cp * 64 + (b - 0x80) in
        if n = 1 then ([cp'], utf8_start) else ([], (n - 1, cp', 0x80, 0xBF)))"

fun utf8_run :: "utf8_state \<Rightarrow> nat list \<Rightarrow> unicode" where
  "utf8_run st [] = (if fst st = 0 then [] else [0xFFFD])"
| "utf8_run st (b # bs) = (case utf8_step st b of (out, st') \<Rightarrow> out @ utf8_run st' bs)"

definition utf8_text :: "bytes \<Rightarrow> unicode" where
  "utf8_text bs = utf8_run utf8_start (map unat bs)"

section \<open>Records\<close>

definition LEVELS :: "string list" where
  "LEVELS = [''debug'', ''info'', ''warn'', ''error'', ''fatal'']"

definition levelRank :: "string option \<Rightarrow> nat" where
  "levelRank level = (case List.find (\<lambda>i. Some (LEVELS ! i) = level) [0..<length LEVELS] of Some i \<Rightarrow> i | None \<Rightarrow> 0)"

definition white_space :: "nat \<Rightarrow> bool" where
  "white_space u = ((9 \<le> u \<and> u \<le> 13) \<or> u \<in> {32, 0xA0, 0x1680, 0x2028, 0x2029, 0x202F, 0x205F, 0x3000, 0xFEFF} \<or> (0x2000 \<le> u \<and> u \<le> 0x200A))"

definition trim_text :: "unicode \<Rightarrow> unicode" where
  "trim_text s = rev (dropWhile white_space (rev (dropWhile white_space s)))"

fun split_lines :: "unicode \<Rightarrow> unicode list" where
  "split_lines [] = [[]]"
| "split_lines (u # us) = (if u = 10 then [] # split_lines us
     else (case split_lines us of [] \<Rightarrow> [[u]] | l # ls \<Rightarrow> (u # l) # ls))"

definition parseNdjsonLine :: "(unicode \<Rightarrow> json option) \<Rightarrow> unicode \<Rightarrow> json option" where
  "parseNdjsonLine json line = (let trimmed = trim_text line in
     if trimmed = [] then None
     else (case json trimmed of Some (JObj fields) \<Rightarrow> Some (JObj fields) | _ \<Rightarrow> None))"

definition parseNdjsonText :: "(unicode \<Rightarrow> json option) \<Rightarrow> unicode \<Rightarrow> json list" where
  "parseNdjsonText json text =
     (if text = [] then [] else List.map_filter (parseNdjsonLine json) (butlast (split_lines text)))"

record log_file =
  f_id :: string
  f_bytes :: bytes

definition readNdjsonGenerations :: "(unicode \<Rightarrow> json option) \<Rightarrow> log_file option \<Rightarrow> log_file option \<Rightarrow> json list" where
  "readNdjsonGenerations json rotated current = concat (map (\<lambda>f. case f of
       None \<Rightarrow> [] | Some file \<Rightarrow> parseNdjsonText json (utf8_text (f_bytes file))) [rotated, current])"

section \<open>The tail\<close>

definition HEAD_BYTES :: nat where "HEAD_BYTES = 64"

record generation =
  g_id :: "string option"
  g_offset :: nat
  g_head :: bytes
  g_records :: "json list"

definition generation_reset :: generation where
  "generation_reset = \<lparr>g_id = None, g_offset = 0, g_head = [], g_records = []\<rparr>"

text \<open>\<open>buffer.lastIndexOf(0x0a)\<close>\<close>

definition last_newline :: "bytes \<Rightarrow> nat option" where
  "last_newline buffer = List.find (\<lambda>i. buffer ! i = 10) (rev [0..<length buffer])"

definition stale :: "generation \<Rightarrow> log_file \<Rightarrow> bool" where
  "stale gen f = (g_id gen \<noteq> Some (f_id f) \<or> length (f_bytes f) < g_offset gen \<or>
     (g_head gen \<noteq> [] \<and> take (length (g_head gen)) (f_bytes f) \<noteq> g_head gen))"

definition read_appended :: "(unicode \<Rightarrow> json option) \<Rightarrow> bool \<Rightarrow> generation \<Rightarrow> bytes \<Rightarrow> bool \<times> generation" where
  "read_appended json changed gen bytes =
     (let buffer = drop (g_offset gen) bytes in
      if buffer = [] then (changed, gen)
      else (case last_newline buffer of
          None \<Rightarrow> (changed, gen)
        | Some end_ \<Rightarrow>
            let chunk = take (end_ + 1) buffer;
                added = parseNdjsonText json (utf8_text chunk) in
            (changed \<or> added \<noteq> [],
             gen\<lparr>g_records := g_records gen @ added,
                 g_head := (if length (g_head gen) < HEAD_BYTES then take HEAD_BYTES (g_head gen @ chunk) else g_head gen),
                 g_offset := g_offset gen + (end_ + 1)\<rparr>)))"

definition advance :: "(unicode \<Rightarrow> json option) \<Rightarrow> generation \<Rightarrow> log_file option \<Rightarrow> bool \<times> generation" where
  "advance json gen file = (case file of
     None \<Rightarrow> (g_id gen \<noteq> None, generation_reset)
   | Some f \<Rightarrow>
       if stale gen f
       then read_appended json (g_id gen \<noteq> None \<or> g_records gen \<noteq> []) (generation_reset\<lparr>g_id := Some (f_id f)\<rparr>) (f_bytes f)
       else read_appended json False gen (f_bytes f))"

record ndjson_tail =
  t_rotated :: generation
  t_current :: generation
  t_all :: "json list"

definition createNdjsonTail :: ndjson_tail where
  "createNdjsonTail = \<lparr>t_rotated = generation_reset, t_current = generation_reset, t_all = []\<rparr>"

text \<open>What the system calls of one call answer: the ids at the two paths, then the two files.\<close>

record tail_call =
  c_stat_file :: "string option"
  c_stat_rotated :: "string option"
  c_rotated :: "log_file option"
  c_current :: "log_file option"

definition tail_step :: "(unicode \<Rightarrow> json option) \<Rightarrow> ndjson_tail \<Rightarrow> tail_call \<Rightarrow> json list \<times> ndjson_tail" where
  "tail_step json t c =
     (let renamed = (g_id (t_current t) \<noteq> None \<and> c_stat_file c \<noteq> g_id (t_current t) \<and> c_stat_rotated c = g_id (t_current t));
          rotated = (if renamed then t_current t else t_rotated t);
          current = (if renamed then generation_reset else t_current t);
          (changed_rotated, rotated') = advance json rotated (c_rotated c);
          (changed_current, current') = advance json current (c_current c);
          all = (if renamed \<or> changed_rotated \<or> changed_current then g_records rotated' @ g_records current' else t_all t) in
      (all, \<lparr>t_rotated = rotated', t_current = current', t_all = all\<rparr>))"

fun tail_calls :: "(unicode \<Rightarrow> json option) \<Rightarrow> ndjson_tail \<Rightarrow> tail_call list \<Rightarrow> json list list" where
  "tail_calls json t [] = []"
| "tail_calls json t (c # cs) = (case tail_step json t c of (all, t') \<Rightarrow> all # tail_calls json t' cs)"

end
