(* ===== verification/Log_Tail_Properties.thy ===== *)
theory Log_Tail_Properties
  imports Log_Tail
begin

text \<open>
  Following a log is reading it. A generation that has been advanced on a file is the canonical one
  of that file, so a tail answers what a full reading of the two files would, at every call and over
  any rotations and replacements it can see.
\<close>

section \<open>A newline ends what was decoded before it\<close>

definition utf8_ok :: "utf8_state \<Rightarrow> bool" where
  "utf8_ok st = (case st of (n, cp, lower, upper) \<Rightarrow> 128 \<le> lower \<and> n \<le> 3 \<and>
     (n = 1 \<longrightarrow> 2 \<le> cp) \<and> (n = 2 \<longrightarrow> 2 \<le> cp * 64 + (lower - 128)) \<and> (n = 3 \<longrightarrow> 1 \<le> cp * 64 + (lower - 128)))"

lemma utf8_ok_start [simp]: "utf8_ok utf8_start"
  by (simp add: utf8_ok_def utf8_start_def)

lemma utf8_start_done [simp]: "fst utf8_start = 0"
  by (simp add: utf8_start_def)

lemma utf8_lead_ok: "utf8_lead b = (out, st) \<Longrightarrow> utf8_ok st \<and> (10 \<in> set out \<longrightarrow> b = 10)"
  by (auto simp: utf8_lead_def utf8_ok_def utf8_start_def split: if_splits)

lemma utf8_step_ok:
  assumes "utf8_ok st" "utf8_step st b = (out, st')"
  shows "utf8_ok st' \<and> (10 \<in> set out \<longrightarrow> b = 10)"
proof -
  obtain n cp lower upper where st: "st = (n, cp, lower, upper)" by (cases st)
  show ?thesis
  proof (cases "n = 0 \<or> b < lower \<or> upper < b")
    case True
    then show ?thesis using assms(2) st utf8_lead_ok [of b] by (auto split: if_splits prod.splits)
  next
    case False
    let ?cp = "cp * 64 + (b - 128)"
    have b: "cp * 64 + (lower - 128) \<le> ?cp" using False by (simp add: diff_le_mono)
    have res: "(out, st') = (if n = 1 then ([?cp], utf8_start) else ([], (n - 1, ?cp, 128, 191)))"
      using assms(2) False st by (simp add: Let_def)
    show ?thesis
    proof (cases "n = 1")
      case True
      then have "128 \<le> ?cp" using assms(1) st by (simp add: utf8_ok_def)
      with True res show ?thesis by auto
    next
      case n: False
      then have "n = 2 \<or> n = 3" using False assms(1) st by (auto simp: utf8_ok_def)
      then show ?thesis using b res assms(1) st by (auto simp: utf8_ok_def)
    qed
  qed
qed

lemma utf8_step_newline:
  assumes "utf8_ok st"
  shows "utf8_step st 10 = ((if fst st = 0 then [] else [0xFFFD]) @ [10], utf8_start)"
  using assms by (cases st) (auto simp: utf8_ok_def utf8_lead_def)

lemma utf8_run_newline: "utf8_ok st \<Longrightarrow> utf8_run st (a @ 10 # b) = utf8_run st a @ 10 # utf8_run utf8_start b"
proof (induction a arbitrary: st)
  case Nil
  then show ?case by (simp add: utf8_step_newline)
next
  case (Cons x a)
  obtain out st' where s: "utf8_step st x = (out, st')" by (cases "utf8_step st x")
  then show ?case using Cons utf8_step_ok by simp
qed

lemma utf8_run_plain: "utf8_ok st \<Longrightarrow> 10 \<notin> set bs \<Longrightarrow> 10 \<notin> set (utf8_run st bs)"
proof (induction bs arbitrary: st)
  case (Cons x bs)
  obtain out st' where s: "utf8_step st x = (out, st')" by (cases "utf8_step st x")
  then show ?case using Cons utf8_step_ok [OF Cons.prems(1) s] by auto
qed simp

text \<open>The bytes up to the last newline: empty, or ending in one.\<close>

definition whole_lines :: "bytes \<Rightarrow> bool" where
  "whole_lines bs \<longleftrightarrow> bs = [] \<or> last bs = 10"

lemma utf8_text_lines:
  assumes "whole_lines a"
  shows "utf8_text (a @ b) = utf8_text a @ utf8_text b"
proof (cases "a = []")
  case True
  then show ?thesis by (simp add: utf8_text_def)
next
  case False
  then obtain c where a: "a = c @ [10]" using assms unfolding whole_lines_def by (metis append_butlast_last_id)
  show ?thesis
    using utf8_run_newline [of utf8_start "map unat c" "map unat b"] utf8_run_newline [of utf8_start "map unat c" "[]"]
    by (simp add: utf8_text_def a)
qed

lemma utf8_text_plain: "10 \<notin> set a \<Longrightarrow> 10 \<notin> set (utf8_text a)"
proof -
  assume "10 \<notin> set a"
  moreover have "unat (b :: byte) = 10 \<longleftrightarrow> b = 10" for b by (simp add: word_unat_eq_iff)
  ultimately have "10 \<notin> set (map unat a)" by auto
  then show ?thesis by (simp add: utf8_text_def utf8_run_plain)
qed

lemma whole_lines_cases: "whole_lines a \<Longrightarrow> a = [] \<or> (\<exists>c. a = c @ [10])"
  unfolding whole_lines_def by (metis append_butlast_last_id)

section \<open>Parsing line by line\<close>

lemma split_lines_nonempty [simp]: "split_lines us \<noteq> []"
  by (induction us) (auto split: list.splits)

lemma split_lines_newline: "split_lines (a @ 10 # b) = split_lines a @ split_lines b"
  by (induction a) (auto split: list.splits)

lemma split_lines_plain: "10 \<notin> set a \<Longrightarrow> split_lines a = [a]"
  by (induction a) auto

lemma parse_text_eq: "parseNdjsonText json text = List.map_filter (parseNdjsonLine json) (butlast (split_lines text))"
  by (simp add: parseNdjsonText_def List.map_filter_def)

abbreviation parse_bytes :: "(unicode \<Rightarrow> json option) \<Rightarrow> bytes \<Rightarrow> json list" where
  "parse_bytes json bs \<equiv> parseNdjsonText json (utf8_text bs)"

lemma parse_bytes_append:
  assumes "whole_lines a"
  shows "parse_bytes json (a @ b) = parse_bytes json a @ parse_bytes json b"
proof (cases "a = []")
  case True
  then show ?thesis by (simp add: utf8_text_def parse_text_eq List.map_filter_def)
next
  case False
  then obtain c where a: "a = c @ [10]" using whole_lines_cases [OF assms] by blast
  have t: "utf8_text (c @ [10]) = utf8_text c @ [10]"
    using utf8_run_newline [of utf8_start "map unat c" "[]"] by (simp add: utf8_text_def)
  show ?thesis
    unfolding utf8_text_lines [OF assms] parse_text_eq
    by (simp add: a t split_lines_newline butlast_append List.map_filter_def)
qed

lemma parse_bytes_plain: "10 \<notin> set b \<Longrightarrow> parse_bytes json b = []"
  by (simp add: parse_text_eq split_lines_plain utf8_text_plain List.map_filter_def)

section \<open>The whole lines of a file\<close>

lemma last_newline_None: "last_newline bs = None \<Longrightarrow> 10 \<notin> set bs"
  by (auto simp: last_newline_def find_None_iff in_set_conv_nth)

lemma last_newline_Some:
  assumes "last_newline bs = Some e"
  shows "whole_lines (take (e + 1) bs)" "10 \<notin> set (drop (e + 1) bs)" "e < length bs"
proof -
  let ?n = "length bs"
  obtain i where i: "i < ?n" "bs ! (?n - 1 - i) = 10" "e = ?n - 1 - i" "\<forall>j < i. bs ! (?n - 1 - j) \<noteq> 10"
    using assms by (auto simp: last_newline_def find_Some_iff rev_nth)
  then show e: "e < ?n" by linarith
  then show "whole_lines (take (e + 1) bs)" using i by (simp add: whole_lines_def take_Suc_conv_app_nth)
  show "10 \<notin> set (drop (e + 1) bs)"
  proof
    assume "10 \<in> set (drop (e + 1) bs)"
    then obtain k where k: "k < ?n - (e + 1)" "bs ! (e + 1 + k) = 10" by (auto simp: in_set_conv_nth)
    then have "?n - 1 - (e + 1 + k) < i" "?n - 1 - (?n - 1 - (e + 1 + k)) = e + 1 + k" using i(1,3) by linarith+
    with i(4) k(2) show False by metis
  qed
qed

definition complete :: "bytes \<Rightarrow> bytes" where
  "complete bs = (case last_newline bs of None \<Rightarrow> [] | Some e \<Rightarrow> take (e + 1) bs)"

lemma complete_split: "\<exists>rest. bs = complete bs @ rest \<and> whole_lines (complete bs) \<and> 10 \<notin> set rest"
proof (cases "last_newline bs")
  case None
  then show ?thesis using last_newline_None by (simp add: complete_def whole_lines_def)
next
  case (Some e)
  then show ?thesis using last_newline_Some [OF Some] by (intro exI [of _ "drop (e + 1) bs"]) (simp add: complete_def)
qed

lemma complete_unique:
  assumes "whole_lines a" "10 \<notin> set b"
  shows "complete (a @ b) = a"
proof -
  obtain rest where r: "a @ b = complete (a @ b) @ rest" "whole_lines (complete (a @ b))" "10 \<notin> set rest"
    using complete_split by blast
  have same: "u = v" if uv: "u @ x = v @ y" "whole_lines u" "whole_lines v" "10 \<notin> set x" "10 \<notin> set y" "length u \<le> length v" for u v x y :: bytes
  proof -
    obtain w where w: "v = u @ w" "x = w @ y" using uv(1,6) by (auto simp: append_eq_append_conv2)
    have "w = []"
    proof (rule ccontr)
      assume "w \<noteq> []"
      then have "last w = 10" using w(1) uv(3) by (simp add: whole_lines_def)
      then have "10 \<in> set w" using \<open>w \<noteq> []\<close> last_in_set by metis
      with w(2) uv(4) show False by simp
    qed
    with w show ?thesis by simp
  qed
  show ?thesis using same [OF r(1) assms(1) r(2) assms(2) r(3)] same [OF r(1) [symmetric] r(2) assms(1) r(3) assms(2)] by (metis nat_le_linear)
qed

lemma complete_append:
  assumes "whole_lines a"
  shows "complete (a @ b) = a @ complete b"
proof -
  obtain rest where "b = complete b @ rest" "whole_lines (complete b)" "10 \<notin> set rest" using complete_split by blast
  moreover from this(2) assms have "whole_lines (a @ complete b)" by (auto simp: whole_lines_def last_append)
  ultimately show ?thesis using complete_unique [of "a @ complete b" rest] by simp
qed

lemma complete_whole: "whole_lines (complete bs)"
  using complete_split by blast

lemma parse_complete: "parse_bytes json (complete bs) = parse_bytes json bs"
proof -
  obtain rest where "bs = complete bs @ rest" "10 \<notin> set rest" using complete_split by blast
  then show ?thesis using parse_bytes_append [OF complete_whole, of json bs rest] parse_bytes_plain by simp
qed

section \<open>Advancing\<close>

text \<open>The generation that has read all whole lines of a file.\<close>

definition caught_up :: "(unicode \<Rightarrow> json option) \<Rightarrow> log_file option \<Rightarrow> generation" where
  "caught_up json file = (case file of None \<Rightarrow> generation_reset
     | Some f \<Rightarrow> let done = complete (f_bytes f) in
         \<lparr>g_id = Some (f_id f), g_offset = length done, g_head = take HEAD_BYTES done, g_records = parse_bytes json done\<rparr>)"

text \<open>
  What the tail can see of a change. A file with the id of one read before either continues the whole
  lines read there, or is shorter than them, or differs from them in the first 64 bytes.
\<close>

definition seen_through :: "log_file option \<Rightarrow> log_file option \<Rightarrow> bool" where
  "seen_through old new = (case (old, new) of
     (Some f, Some g) \<Rightarrow> f_id f = f_id g \<longrightarrow>
       (let done = complete (f_bytes f) in take (length done) (f_bytes g) = done \<or> length (f_bytes g) < length done \<or>
          take (min HEAD_BYTES (length done)) (f_bytes g) \<noteq> take HEAD_BYTES done)
   | _ \<Rightarrow> True)"

lemma read_appended_caught_up:
  assumes "whole_lines done" "f_bytes f = done @ buffer"
    "gen = \<lparr>g_id = Some (f_id f), g_offset = length done, g_head = take HEAD_BYTES done, g_records = parse_bytes json done\<rparr>"
  shows "read_appended json changed gen (f_bytes f) = (changed \<or> parse_bytes json (complete buffer) \<noteq> [], caught_up json (Some f))"
proof -
  have c: "complete (f_bytes f) = done @ complete buffer" using complete_append assms by simp
  have none: "parse_bytes json [] = []" using parse_bytes_plain by simp
  show ?thesis
  proof (cases "last_newline buffer")
    case None
    then have "complete buffer = []" by (simp add: complete_def)
    with None c none assms show ?thesis by (simp add: read_appended_def caught_up_def Let_def)
  next
    case (Some e)
    then have n: "complete buffer = take (e + 1) buffer" "buffer \<noteq> []" "length (complete buffer) = e + 1"
      using last_newline_Some(3) [OF Some] by (auto simp: complete_def)
    have p: "parse_bytes json (complete (f_bytes f)) = parse_bytes json done @ parse_bytes json (complete buffer)"
      unfolding c by (rule parse_bytes_append [OF assms(1)])
    show ?thesis using Some n c p assms by (auto simp: read_appended_def caught_up_def Let_def)
  qed
qed

lemma not_stale_continues:
  assumes "\<not> stale (caught_up json old) f" "seen_through old (Some f)"
  shows "\<exists>g buffer. old = Some g \<and> f_id g = f_id f \<and> f_bytes f = complete (f_bytes g) @ buffer"
proof -
  obtain g where g: "old = Some g" "f_id g = f_id f"
    using assms(1) by (auto simp: stale_def caught_up_def generation_reset_def Let_def split: option.splits)
  let ?done = "complete (f_bytes g)"
  have "length ?done \<le> length (f_bytes f)" "take (min HEAD_BYTES (length ?done)) (f_bytes f) = take HEAD_BYTES ?done"
    using assms(1) g by (auto simp: stale_def caught_up_def Let_def min.commute)
  with assms(2) g have "take (length ?done) (f_bytes f) = ?done" by (auto simp: seen_through_def Let_def)
  then have "f_bytes f = ?done @ drop (length ?done) (f_bytes f)" by (metis append_take_drop_id)
  with g show ?thesis by blast
qed

lemma advance_stale:
  assumes "stale gen f"
  shows "advance json gen (Some f) = (g_id gen \<noteq> None \<or> g_records gen \<noteq> [] \<or> parse_bytes json (complete (f_bytes f)) \<noteq> [], caught_up json (Some f))"
proof -
  let ?gen = "\<lparr>g_id = Some (f_id f), g_offset = length ([] :: bytes), g_head = take HEAD_BYTES [], g_records = parse_bytes json []\<rparr>"
  have "?gen = generation_reset\<lparr>g_id := Some (f_id f)\<rparr>" using parse_bytes_plain [of "[]" json] by (simp add: generation_reset_def)
  then show ?thesis
    using assms read_appended_caught_up [of "[]" f "f_bytes f" ?gen json] by (simp add: advance_def whole_lines_def)
qed

lemma advance_continues:
  assumes "\<not> stale (caught_up json old) f" "seen_through old (Some f)"
  shows "snd (advance json (caught_up json old) (Some f)) = caught_up json (Some f) \<and>
    (\<not> fst (advance json (caught_up json old) (Some f)) \<longrightarrow> g_records (caught_up json (Some f)) = g_records (caught_up json old))"
proof -
  obtain g buffer where g: "old = Some g" "f_id g = f_id f" "f_bytes f = complete (f_bytes g) @ buffer"
    using not_stale_continues [OF assms] by blast
  let ?done = "complete (f_bytes g)"
  let ?gen = "\<lparr>g_id = Some (f_id f), g_offset = length ?done, g_head = take HEAD_BYTES ?done, g_records = parse_bytes json ?done\<rparr>"
  have gen: "caught_up json old = ?gen" using g by (simp add: caught_up_def Let_def)
  have "advance json ?gen (Some f) = (parse_bytes json (complete buffer) \<noteq> [], caught_up json (Some f))"
    using assms(1) gen read_appended_caught_up [OF complete_whole g(3) refl, of json False] by (simp add: advance_def)
  moreover have "g_records (caught_up json (Some f)) = parse_bytes json ?done @ parse_bytes json (complete buffer)"
    using g(3) complete_append [OF complete_whole] parse_bytes_append [OF complete_whole] by (simp add: caught_up_def Let_def)
  ultimately show ?thesis using gen by simp
qed

lemma advance_caught_up:
  assumes "seen_through old new"
  shows "snd (advance json (caught_up json old) new) = caught_up json new"
    "\<not> fst (advance json (caught_up json old) new) \<Longrightarrow> g_records (caught_up json new) = g_records (caught_up json old)"
proof -
  have none: "advance json gen None = (g_id gen \<noteq> None, generation_reset)" for gen by (simp add: advance_def)
  have "snd (advance json (caught_up json old) new) = caught_up json new \<and>
    (\<not> fst (advance json (caught_up json old) new) \<longrightarrow> g_records (caught_up json new) = g_records (caught_up json old))"
  proof (cases new)
    case None
    then show ?thesis by (auto simp: none caught_up_def generation_reset_def Let_def split: option.splits)
  next
    case (Some f)
    show ?thesis
    proof (cases "stale (caught_up json old) f")
      case True
      then show ?thesis using Some by (auto simp: advance_stale caught_up_def Let_def)
    next
      case False
      then show ?thesis using advance_continues assms Some by blast
    qed
  qed
  then show "snd (advance json (caught_up json old) new) = caught_up json new"
    "\<not> fst (advance json (caught_up json old) new) \<Longrightarrow> g_records (caught_up json new) = g_records (caught_up json old)" by simp_all
qed

section \<open>Calls\<close>

definition reads :: "(unicode \<Rightarrow> json option) \<Rightarrow> log_file option \<Rightarrow> log_file option \<Rightarrow> ndjson_tail \<Rightarrow> bool" where
  "reads json rotated current t \<longleftrightarrow> t = \<lparr>t_rotated = caught_up json rotated, t_current = caught_up json current,
     t_all = readNdjsonGenerations json rotated current\<rparr>"

lemma caught_up_records: "readNdjsonGenerations json rotated current = g_records (caught_up json rotated) @ g_records (caught_up json current)"
  by (simp add: readNdjsonGenerations_def caught_up_def Let_def parse_complete generation_reset_def split: option.split)

lemma tail_step_reads:
  assumes "reads json r c t" "seen_through r (c_rotated x)" "seen_through c (c_rotated x)" "seen_through c (c_current x)"
  shows "\<exists>t'. tail_step json t x = (readNdjsonGenerations json (c_rotated x) (c_current x), t') \<and> reads json (c_rotated x) (c_current x) t'"
proof -
  have fresh: "seen_through None f" "generation_reset = caught_up json None" for f by (simp_all add: seen_through_def caught_up_def)
  let ?renamed = "g_id (t_current t) \<noteq> None \<and> c_stat_file x \<noteq> g_id (t_current t) \<and> c_stat_rotated x = g_id (t_current t)"
  let ?r = "if ?renamed then c else r" and ?c = "if ?renamed then None else c"
  have s: "seen_through ?r (c_rotated x)" "seen_through ?c (c_current x)" using assms fresh by simp_all
  have t: "(if ?renamed then t_current t else t_rotated t) = caught_up json ?r" "(if ?renamed then generation_reset else t_current t) = caught_up json ?c"
    using assms(1) fresh by (simp_all add: reads_def)
  obtain b1 g1 b2 g2 where a: "advance json (caught_up json ?r) (c_rotated x) = (b1, g1)" "advance json (caught_up json ?c) (c_current x) = (b2, g2)"
    by (cases "advance json (caught_up json ?r) (c_rotated x)"; cases "advance json (caught_up json ?c) (c_current x)")
  note up1 = advance_caught_up [OF s(1), of json, unfolded a fst_conv snd_conv] and up2 = advance_caught_up [OF s(2), of json, unfolded a fst_conv snd_conv]
  have all: "t_all t = readNdjsonGenerations json (c_rotated x) (c_current x)" if "\<not> ?renamed" "\<not> b1" "\<not> b2"
    using that up1(2) up2(2) assms(1) by (auto simp: reads_def caught_up_records)
  have "tail_step json t x = (if ?renamed \<or> b1 \<or> b2 then g_records g1 @ g_records g2 else t_all t,
      \<lparr>t_rotated = g1, t_current = g2, t_all = (if ?renamed \<or> b1 \<or> b2 then g_records g1 @ g_records g2 else t_all t)\<rparr>)"
    unfolding tail_step_def Let_def t a by simp
  then show ?thesis using up1(1) up2(1) all by (auto simp: reads_def caught_up_records)
qed

text \<open>The calls follow each other with no change the tail cannot see.\<close>

fun visible_changes :: "log_file option \<Rightarrow> log_file option \<Rightarrow> tail_call list \<Rightarrow> bool" where
  "visible_changes r c [] = True"
| "visible_changes r c (x # xs) = (seen_through r (c_rotated x) \<and> seen_through c (c_rotated x) \<and> seen_through c (c_current x) \<and>
     visible_changes (c_rotated x) (c_current x) xs)"

lemma tail_calls_read:
  "reads json r c t \<Longrightarrow> visible_changes r c calls \<Longrightarrow>
   tail_calls json t calls = map (\<lambda>x. readNdjsonGenerations json (c_rotated x) (c_current x)) calls"
proof (induction calls arbitrary: r c t)
  case (Cons x xs)
  then show ?case using tail_step_reads [of json r c t x] by auto
qed simp

text \<open>
  C13. The tail is a full reading. Every call of \<open>createNdjsonTail\<close> answers exactly the records that
  \<open>readNdjsonGenerations\<close> would, reading the two files at the same moments, whatever the files are: grown,
  cut off in the middle of a line or a character, rotated, replaced, shrunk or gone, and whatever
  the two \<open>stat\<close> calls answer in between. The only condition is the one the code states: no file is
  rewritten in place, under the same id and the same first bytes, to at least the length read before.
\<close>

theorem ndjson_tail_exact:
  assumes "visible_changes None None calls"
  shows "tail_calls json createNdjsonTail calls = map (\<lambda>x. readNdjsonGenerations json (c_rotated x) (c_current x)) calls"
proof (rule tail_calls_read [OF _ assms])
  show "reads json None None createNdjsonTail"
    by (simp add: reads_def createNdjsonTail_def caught_up_def readNdjsonGenerations_def)
qed

text \<open>A log read in the middle of its second line, then rotated with that line finished.\<close>

definition sample_log :: "string \<Rightarrow> bytes \<Rightarrow> log_file option" where
  "sample_log i bs = Some \<lparr>f_id = i, f_bytes = bs\<rparr>"

definition sample_calls :: "tail_call list" where
  "sample_calls =
     [\<lparr>c_stat_file = None, c_stat_rotated = None, c_rotated = None, c_current = sample_log ''1:7'' [123, 125, 10, 123]\<rparr>,
      \<lparr>c_stat_file = Some ''1:8'', c_stat_rotated = Some ''1:7'', c_rotated = sample_log ''1:7'' [123, 125, 10, 123, 125, 10],
       c_current = sample_log ''1:8'' [123, 125, 10]\<rparr>]"

lemma sample_line: "parse_bytes (\<lambda>_. Some (JObj [])) [123, 125, 10] = [JObj []]"
  by (simp add: utf8_text_def utf8_start_def utf8_lead_def parseNdjsonText_def parseNdjsonLine_def trim_text_def white_space_def List.map_filter_def)

lemma sample_parsed:
  "parse_bytes (\<lambda>_. Some (JObj [])) [123, 125, 10, 123] = [JObj []]"
  "parse_bytes (\<lambda>_. Some (JObj [])) [123, 125, 10, 123, 125, 10] = [JObj [], JObj []]"
  using parse_bytes_append [of "[123, 125, 10]" "\<lambda>_. Some (JObj [])" "[123]"] parse_bytes_plain [of "[123]" "\<lambda>_. Some (JObj [])"]
    parse_bytes_append [of "[123, 125, 10]" "\<lambda>_. Some (JObj [])" "[123, 125, 10]"] sample_line
  by (simp_all add: whole_lines_def)

theorem ndjson_tail_exact_witness:
  "tail_calls (\<lambda>_. Some (JObj [])) createNdjsonTail sample_calls = [[JObj []], [JObj [], JObj [], JObj []]]"
proof -
  have "visible_changes None None sample_calls" by code_simp
  then have "tail_calls (\<lambda>_. Some (JObj [])) createNdjsonTail sample_calls =
      map (\<lambda>x. readNdjsonGenerations (\<lambda>_. Some (JObj [])) (c_rotated x) (c_current x)) sample_calls" by (rule ndjson_tail_exact)
  also have "\<dots> = [[JObj []], [JObj [], JObj [], JObj []]]"
    by (simp add: sample_calls_def sample_log_def readNdjsonGenerations_def sample_line sample_parsed)
  finally show ?thesis .
qed

end
