(* ===== verification/Spec2Isabelle.thy ===== *)
theory Spec2Isabelle
  imports Keyed_Delta Device_Pool_Properties Slot_Records Oversight_Properties Crash_Hold Idle_Policy Maintenance
    Claim_Protocol Build_Slot_Properties Dir_Lock_Properties Build_Lock_Properties
    Session_Delivery Warm_Claim_Properties Signed_Tail_Properties
    Machine_Properties Placement_Properties Log_Tail_Properties
begin

text \<open>
  Verification of the core logic of stim (\<open>src/\<close>), a tool that lets many workspaces of mobile apps
  and the agents in them share one machine: its build slots, its simulators and physical devices,
  its disk and memory. The development covers the part of the program that decides who may use
  what, and what a person is told. The rest of the program starts processes, talks to devices and
  moves files; it calls the code below.

  \<^bold>\<open>Parts and how they interact.\<close>

  \<^item> \<^emph>\<open>Ownership claims\<close> (\<open>packages/core/ownership-claim.ts\<close>): a claim is a file in the
    \<open>exclusive\<close> or the \<open>shared\<close> directory of a claim set, with the identity of its owner
    and, beside it, of a child process. Theory \<open>Ownership_Claim\<close> has the directory as a record and
    every operation on it (survey, inspect, reap, acquire, settle, release, child records);
    \<open>Claim_Laws\<close> has the laws of the store, the survey and the reaper; \<open>Claim_Properties\<close> that a
    held claim stays and keeps others out, that dead ones are recovered, and the release round trip.
    \<open>Claim_Protocol\<close> takes the file operations apart into interleaved steps of any number of
    processes, with crashes, and shows mutual exclusion by an invariant.
  \<^item> \<^emph>\<open>Build slots\<close> (\<open>packages/core/state/build-capacity.ts\<close>,
    \<open>packages/stim-cli/src/engine/wait-queue.ts\<close>, \<open>.../engine/build-slots.ts\<close>): a build slot is an
    exclusive claim; a build that finds none takes a ticket, a shared claim, and waits its turn, and before that
    it is held while another build of Stim is staged (\<open>.../daemon/engine-switch.ts\<close>).
    \<open>Build_Slots\<close> has the operations, the hold and the waiting loop; \<open>Exclusive_Lock\<close> states the interface of
    a lock as the locales \<open>guarded_lock\<close> and \<open>exclusive_lock\<close>, and that attempts at exclusive claims, the
    locale \<open>claim_lock\<close>, keep it, for a claim whose owner runs and for one that a child still holds; \<open>Build_Slot_Properties\<close> interprets it on the slots and derives
    that a slot is given to one build, in order, and that waiting ends.
  \<^item> \<^emph>\<open>Build locks\<close> (\<open>.../engine/build-lock.ts\<close>): builds of the same inputs share one lock, and
    whoever does not get it waits for the artifact. \<open>Build_Lock\<close> has the lock, the wait for one build
    and the loop over builds; \<open>Build_Lock_Properties\<close> shows that one run builds at a time, what the
    waiters are told, and that waiting ends.
  \<^item> \<^emph>\<open>Directory locks\<close> (\<open>packages/core/dir-lock.ts\<close>): the locks under which the stores below are
    changed, each an exclusive claim with a count of how often the process is inside. \<open>Dir_Lock\<close> has
    the three ways to take one, over code that is a function on the state, and interprets
    \<open>claim_lock\<close> on them; \<open>Dir_Lock_Properties\<close> shows that the code runs alone, may enter again,
    and that waiting ends.
  \<^item> \<^emph>\<open>Spawned processes and their locks\<close> (\<open>.../engine/operation-state.ts\<close>, \<open>.../engine/spawn-claims.ts\<close>,
    \<open>.../engine/workspace-process-lock.ts\<close>, \<open>.../engine/warm-claim.ts\<close>): an operation records the children it starts
    on the claims it holds, so that a claim outlives the process that took it. \<open>Spawn_Claims\<close> has the
    operations, their declared claims and the events of a child; \<open>Spawn_Claim_Properties\<close> that a child
    keeps the claims of its parent and leaves no trace when it has ended. \<open>Process_Lock\<close> has code that runs
    under a workspace's lock with its children declared, \<open>Warm_Claim\<close> the shared and exclusive claims of
    a warm worktree and the installers a refresh starts; \<open>Process_Lock_Properties\<close> and
    \<open>Warm_Claim_Properties\<close> show that the code under an exclusive claim runs alone, that a process lock stays
    while a child of the code may run and a warm claim while a recorded installer runs and no later spawn
    fails, and that waiting ends.
  \<^item> \<^emph>\<open>Signed tails\<close> (\<open>.../engine/apk-signed-tail.ts\<close>): where the signing block of an APK starts and the
    record of everything after it. \<open>Signed_Tail\<close> has the byte-level search and the record,
    \<open>Signed_Tail_Properties\<close> the layout of a signed APK, that its block is found, that what is
    found is one, and that a tail is answered only for the bytes of the file.
  \<^item> \<^emph>\<open>Admission policy\<close> (\<open>.../policy/admission.ts\<close>), theory \<open>Admission\<close>: the pure
    decisions on slot turns and lease grants that the two stores use.
  \<^item> \<^emph>\<open>Device leases\<close> (\<open>.../engine/device-lease.ts\<close>): one lease file per device and a record of
    its leases in each workspace. \<open>Device_Lease\<close> has both stores as one record and every
    operation; \<open>Lease_Laws\<close> the laws and the invariant; \<open>Lease_Authority\<close> the locale
    \<open>lease_authority\<close> (a step that is not the holder's leaves a live lease alone), its
    interpretation on the operations, and histories of operations of any number of workspaces.
  \<^item> \<^emph>\<open>Run leases and the device pool\<close> (\<open>.../engine/device-lease-run.ts\<close>,
    \<open>.../engine/device-pool.ts\<close>): \<open>Run_Lease\<close> and \<open>Device_Pool\<close> have the waiting loops,
    \<open>Run_Lease_Properties\<close> and \<open>Device_Pool_Properties\<close> what their answers mean and that they
    come. The theorem below composes the two.
  \<^item> \<^emph>\<open>Device slots\<close> (\<open>.../devices/device-slots.ts\<close>, \<open>.../engine/path-segment.ts\<close>):
    \<open>Device_Slots\<close> has slot names, keys and file name segments, \<open>Slot_Records\<close> the devices of a
    workspace record.
  \<^item> \<^emph>\<open>Placement\<close> (\<open>packages/core/state/placement.ts\<close>, \<open>.../tailnet.ts\<close>, \<open>.../build-machines.ts\<close>,
    \<open>.../automatic-pools.ts\<close>, \<open>packages/stim-cli/src/build-placement.ts\<close>, \<open>.../device-host/placement.ts\<close>,
    \<open>.../device-host/auto-placement.ts\<close>): on which machine a build or a device runs. \<open>Machines\<close> has the
    placement words, the entries of \<open>remote.machines\<close> with the pattern they match, the stored credentials, the
    automatic pools and the choice of a build machine; \<open>Machine_Properties\<close> that an entry is read back, the
    bounds of its port, and that a build goes only to a configured machine with an approved key.
    \<open>Placement\<close> has the decision over the offers of the machines and the run that probes them and waits for
    a full one; \<open>Placement_Properties\<close> when a run goes to other machines and in which order, that a hosted run is on a machine that
    admits it, that \<open>remote-only\<close> never runs here, that EAS comes last, and that waiting ends.
  \<^item> \<^emph>\<open>Oversight\<close> (\<open>packages/core/oversight.ts\<close>): what a machine's status owes its owner as
    notifications. \<open>Oversight_Data\<close> has the records, \<open>Oversight\<close> the rules, \<open>Oversight_Laws\<close>
    what each rule keeps, \<open>Oversight_Properties\<close> that nothing is raised again at a repeated look, with the
    case where it is, and nothing that is switched off.
  \<^item> \<^emph>\<open>Maintenance\<close> (\<open>.../daemon/pressure.ts\<close>, \<open>.../policy/pressure.ts\<close>,
    \<open>.../policy/idle.ts\<close>, \<open>.../stimd/passes/due.ts\<close>, \<open>.../stimd/passes/plan.ts\<close>,
    \<open>.../stimd/crash-hold.ts\<close>): theories \<open>Pressure_Policy\<close>, \<open>Idle_Policy\<close>, \<open>Maintenance\<close> and
    \<open>Crash_Hold\<close>, each with its properties.
  \<^item> \<^emph>\<open>Keyed deltas\<close> (\<open>packages/core/state/keyed-delta.ts\<close>), theory \<open>Keyed_Delta\<close>: what a
    subscription sends, with the refinement that the client holds the producer's entities.
  \<^item> \<^emph>\<open>Logs\<close> (\<open>packages/core/state/ndjson.ts\<close>, \<open>packages/core/state/ndjson-tail.ts\<close>): the records of a
    log and of its rotated generation. \<open>Log_Tail\<close> has the decoding of the bytes, the full reading and the
    tail that reads only what was appended; \<open>Log_Tail_Properties\<close> that the two agree at every call.
  \<^item> \<^emph>\<open>Secure connections\<close> (\<open>packages/core/noise.ts\<close>, \<open>packages/core/x25519-key.ts\<close>,
    \<open>packages/core/noise-session.ts\<close>): how a phone or another machine is authenticated and what
    then carries its messages. \<open>Noise\<close> has the cipher, symmetric and handshake states and the
    transport, over the runtime's primitives as a parameter (record \<open>crypto\<close>, with what is required of
    it in \<open>crypto_ok\<close>, that what is sealed opens, and \<open>authentic\<close>, that only what was sealed opens); \<open>Noise_Laws\<close> that a reader follows a writer token by token;
    \<open>Noise_Properties\<close> the locale \<open>ordered_channel\<close>, its interpretation on the transport, agreement,
    order, nonces and refusal of frames out of place. \<open>Noise_Session\<close> has the two sides of the
    handshake as machines over socket events, the socket after it, the key file and the frames of a
    job's pipe; \<open>Session_Laws\<close>, \<open>Session_Properties\<close>, \<open>Session_Agreement\<close> and
    \<open>Session_Delivery\<close> show what either side keeps whatever the network does, and what both reach
    when it carries their messages.
  \<^item> \<open>Stim_Prelude\<close>, \<open>Json_Value\<close>, \<open>Iso_Date\<close>, \<open>Js_Number\<close> and \<open>Byte_Text\<close> hold what the
    parts share of JavaScript: ordered maps, sorting, text, JSON text and its reading, dates, doubles,
    byte strings and their encodings.

  \<^bold>\<open>Conventions.\<close> Times, sizes and counts are integers, with \<open>None\<close> for \<open>NaN\<close> where the
  code can meet it; where a fraction can arise the numbers are doubles as in \<open>Js_Number\<close>. Errors
  are values of a sum. What the code asks of the world is an argument: clock readings, one per
  call of the clock; fresh random ids and tokens; the operating system's answer about a process;
  and what other processes did to the files. An operation the code runs under a directory lock is one
  step of the stores; that it runs alone is the theorem \<open>dir_lock_protects\<close>.

  \<^bold>\<open>Loops.\<close> The polling loops (\<open>acquireBuildSlot\<close>, \<open>waitForBuild\<close>, \<open>waitForSharedBuild\<close>,
  \<open>withDirLock\<close>, \<open>withWorkspaceProcessLock\<close>, \<open>acquireWarmClaim\<close>, an installer's \<open>settle\<close>, \<open>waitForDevice\<close>,
  \<open>acquireRunLease\<close>, \<open>selectFromPool\<close>, \<open>automaticDevicePlacement\<close>) take the list of their rounds, or fuel and a stream of rounds, and answer
  \<open>None\<close> while they still wait. The hold of a build slot takes the list of its looks, and ends at one that
  finds no staging less than ten minutes old. The termination theorems say that a round whose clock is at or past
  the deadline is enough, whatever the others do, and for \<open>automaticDevicePlacement\<close> that one round more
  than the five-second steps of its wait is. \<open>acquireRunLease\<close> has no such bound: as long as
  other workspaces keep taking the device between its look and its attempt it tries again, so only
  that an undisturbed run is served at once is shown. The bound of 64 attempts to publish a claim is the code's own.

  \<^bold>\<open>Not modelled.\<close> Wording of messages and progress lines; Windows retries; the
  state files under the stores; the operating system's process table; the asynchronous variants of
  the lease releases; the cancellation of an operation; \<open>parseDeviceWait\<close>, which reads general number syntax. Beyond these parts: the
  command line, the daemon's sockets, caches and artifact stores, Metro, device hosts, the messages
  of the phone protocol, the cryptographic primitives of the runtime, the mobile and desktop apps, the website and the scripts, which are
  input and output, third-party tools and generated code. The workspace state files, the status views
  and the settings registry are reading, merging and describing large JSON records; the parts of them the
  modelled code reads are its arguments. The probe of a device host (\<open>probeHost\<close>) is a connection and
  the reading of its offer; its answer is an argument of the placement, as is
  the list of machines it starts from (\<open>hostingMachines\<close>).
\<close>

section \<open>From the pool to the lease\<close>

text \<open>
  C37. The pool and the lease fit together. Suppose the pool is asked without \<open>--no-wait\<close> for a workspace that
  holds no lease in its slot, over stores that satisfy the lease invariant, and picks a device. It picked it at
  one definite round, the first at which the wait had an answer, from the devices listed there. If at the
  store of that round the workspace has no record for the slot, the device's lease file, if there is one, is
  for this device, and nobody interferes (the store stays as the pool saw it, and the lease is read and
  taken at times no earlier than the pool's, within the range of dates), then \<open>acquireRunLease\<close> gets the
  device in its first round, until the step after the time of taking.
\<close>

theorem pool_then_lease:
  assumes "selectFromPool root p slt waitSeconds deadline False now0 now1 st0 rounds = Some (Inr (PoolSelected c, ls))"
    and "heldPoolId root p now0 slt st0 = Inr None"
    and "list_all (\<lambda>r. lease_inv (pr_store r)) rounds"
    and "deviceSlotKey (platform_text p) slt = Inr key"
    and "req_root q = root" and "req_platform q = p" and "req_slot q = slt" and "req_id q = cand_id c"
  shows "\<exists>pre r rest. rounds = pre @ r # rest \<and>
    selectFromPool root p slt waitSeconds deadline False now0 now1 st0 pre = None \<and>
    selectFromPool root p slt waitSeconds deadline False now0 now1 st0 (pre @ [r]) = Some (Inr (PoolSelected c, ls)) \<and>
    c \<in> set (pr_candidates r) \<and>
    (\<forall>ar ars n0 n1. rec_at (pr_store r) root key = None \<and>
        (\<forall>l. lease_at (pr_store r) (req_path q) = Some l \<longrightarrow> lease_id l = cand_id c) \<and>
        quiet_round (pr_now r) (leaseStepMs (req_installBoundMs q)) ar \<longrightarrow>
      (\<exists>st'. acquireRunLease q n0 n1 (ar # ars) (pr_store r) =
         Some (Inr (Leased Run (to_iso (round_take_now ar + leaseStepMs (req_installBoundMs q)))), [], st')))"
proof -
  obtain held until pre r rest where "heldPoolId root p now0 slt st0 = Inr held" "pool_says p held until False r (PoolSelected c)"
    and first: "rounds = pre @ r # rest" "selectFromPool root p slt waitSeconds deadline False now0 now1 st0 pre = None"
      "selectFromPool root p slt waitSeconds deadline False now0 now1 st0 (pre @ [r]) = Some (Inr (PoolSelected c, ls))"
    using selectFromPool_first [OF assms(1,3)] by blast
  with assms(2) have r: "pool_says p None until False r (PoolSelected c)" by simp
  note path = req_path_def [of q, unfolded assms(6,8)]
  have "file_free (pr_store r) (req_path q) (pr_now r)"
    if "\<forall>l. lease_at (pr_store r) (req_path q) = Some l \<longrightarrow> lease_id l = cand_id c"
    using r that unfolding pool_says_def path file_free_def
    by (cases "lease_file_of (pr_store r) (deviceLeasePath p (cand_id c))") (auto simp: lease_file_of_cases)
  moreover have "c \<in> set (pr_candidates r)" using r by (simp add: pool_says_def)
  ultimately show ?thesis
    using first acquire_free [of q key "pr_store r"] assms(4-7)
    by (intro exI [of _ pre] exI [of _ r] exI [of _ rest] conjI allI impI) auto
qed

theorem pool_then_lease_witness:
  "\<exists>st'. acquireRunLease lease_request 0 0 [quiet_sample] empty_store = Some (Inr (Leased Run (to_iso 90005)), [], st')"
proof -
  let ?c = "\<lparr>cand_id = ''D1'', cand_name = None, fallback = False\<rparr> :: pool_candidate"
  have sel: "selectFromPool ''/a'' Ios ''default'' 60 None False 0 0 empty_store [sample_pool] = Some (Inr (PoolSelected ?c, []))" by code_simp
  have held: "heldPoolId ''/a'' Ios 0 ''default'' empty_store = Inr None" by code_simp
  have inv: "list_all (\<lambda>r. lease_inv (pr_store r)) [sample_pool]" by (simp add: sample_pool_def empty_store_inv)
  have key: "deviceSlotKey (platform_text Ios) ''default'' = Inr ''ios''" by (simp add: deviceSlotKey_Inr)
  have st: "pr_store sample_pool = empty_store" "pr_now sample_pool = 5" by (simp_all add: sample_pool_def)
  have one: "pre @ r # rest = [x] \<Longrightarrow> r = x" for pre rest and r x :: pool_round by (cases pre) auto
  from pool_then_lease [OF sel held inv key, of lease_request] obtain pre r rest where at: "[sample_pool] = pre @ r # rest"
    and lease: "\<forall>ar ars n0 n1. rec_at (pr_store r) ''/a'' ''ios'' = None \<and>
        (\<forall>l. lease_at (pr_store r) (req_path lease_request) = Some l \<longrightarrow> lease_id l = cand_id ?c) \<and>
        quiet_round (pr_now r) (leaseStepMs (req_installBoundMs lease_request)) ar \<longrightarrow>
      (\<exists>st'. acquireRunLease lease_request n0 n1 (ar # ars) (pr_store r) =
         Some (Inr (Leased Run (to_iso (round_take_now ar + leaseStepMs (req_installBoundMs lease_request)))), [], st'))"
    by (auto simp: lease_request_def)
  have "r = sample_pool" using one [of pre r rest sample_pool] at by simp
  with lease quiet_sample_ok rec_at_empty lease_at_empty
  have "\<exists>st'. acquireRunLease lease_request 0 0 [quiet_sample] empty_store =
      Some (Inr (Leased Run (to_iso (round_take_now quiet_sample + leaseStepMs (req_installBoundMs lease_request)))), [], st')"
    by (simp add: st)
  then show ?thesis by (simp add: quiet_sample_def lease_request_def leaseStepMs_def LEASE_STEP_FLOOR_MS_def)
qed

end
